(* ===== verification/Prelude.thy ===== *)
theory Prelude
  imports Complex_Main
begin

section \<open>Prelude: results, guards, keyed tables, one-shot updates\<close>

text \<open>
  What every component shares: results of operations that may raise
  (\<open>'e + 'a\<close>, with \<open>Inl\<close> for the exception), SQL tables as lists of rows with a key
  column, and the two interfaces the components rely on:
  \<^item> \<open>row_store\<close>: a table with a primary key (what \<open>SELECT ... WHERE id\<close> returns after
    an \<open>INSERT\<close> or an \<open>UPDATE\<close>);
  \<^item> \<open>one_shot\<close>: a guarded update that can succeed only once per key
    (\<open>UPDATE ... WHERE used = FALSE\<close>, \<open>UPDATE ... WHERE status = 'pending'\<close>).
\<close>

named_theorems store_simps \<open>lookup and update equations of the tables\<close>
named_theorems wf_intros \<open>preservation of the schema invariant\<close>

subsection \<open>Operations that may raise\<close>

definition bindE :: "'e + 'a \<Rightarrow> ('a \<Rightarrow> 'e + 'b) \<Rightarrow> 'e + 'b" where
  "bindE m f = (case m of Inl e \<Rightarrow> Inl e | Inr x \<Rightarrow> f x)"

definition requireE :: "bool \<Rightarrow> 'e \<Rightarrow> 'e + unit" where
  "requireE c e = (if c then Inr () else Inl e)"

definition someE :: "'e \<Rightarrow> 'a option \<Rightarrow> 'e + 'a" where
  "someE e x = (case x of None \<Rightarrow> Inl e | Some v \<Rightarrow> Inr v)"

lemma bindE_Inl [simp]: "bindE (Inl e) f = Inl e"
  by (simp add: bindE_def)

lemma bindE_Inr [simp]: "bindE (Inr x) f = f x"
  by (simp add: bindE_def)

lemma bindE_eq_Inr [simp]: "bindE m f = Inr y \<longleftrightarrow> (\<exists>x. m = Inr x \<and> f x = Inr y)"
  by (cases m) auto

lemma bindE_eq_Inl: "bindE m f = Inl e \<longleftrightarrow> m = Inl e \<or> (\<exists>x. m = Inr x \<and> f x = Inl e)"
  by (cases m) auto

lemma requireE_eq_Inr [simp]: "requireE c e = Inr u \<longleftrightarrow> c"
  by (simp add: requireE_def)

lemma requireE_eq_Inl [simp]: "requireE c e = Inl e' \<longleftrightarrow> \<not> c \<and> e' = e"
  by (auto simp: requireE_def)

lemma requireE_True [simp]: "requireE True e = Inr ()"
  by (simp add: requireE_def)

lemma requireE_False [simp]: "requireE False e = Inl e"
  by (simp add: requireE_def)

lemma someE_eq_Inr [simp]: "someE e x = Inr v \<longleftrightarrow> x = Some v"
  by (cases x) (auto simp: someE_def)

lemma someE_eq_Inl [simp]: "someE e x = Inl e' \<longleftrightarrow> x = None \<and> e' = e"
  by (cases x) (auto simp: someE_def)

lemma someE_None [simp]: "someE e None = Inl e"
  by (simp add: someE_def)

lemma someE_Some [simp]: "someE e (Some v) = Inr v"
  by (simp add: someE_def)

text \<open>The result of a guarded update: the exception when no row was affected.\<close>

definition guarded :: "'e \<Rightarrow> 's \<times> bool \<Rightarrow> 'e + 's" where
  "guarded e p = (if snd p then Inr (fst p) else Inl e)"

lemma guarded_eq_Inr [simp]: "guarded e p = Inr d \<longleftrightarrow> p = (d, True)"
  by (cases p) (auto simp: guarded_def)

lemma guarded_eq_Inl [simp]: "guarded e p = Inl e' \<longleftrightarrow> \<not> snd p \<and> e' = e"
  by (auto simp: guarded_def)

subsection \<open>Tables: rows with a key column\<close>

definition row_get :: "('r \<Rightarrow> 'k) \<Rightarrow> 'k \<Rightarrow> 'r list \<Rightarrow> 'r option" where
  "row_get key k rows = find (\<lambda>r. key r = k) rows"

definition row_has :: "('r \<Rightarrow> 'k) \<Rightarrow> 'k \<Rightarrow> 'r list \<Rightarrow> bool" where
  "row_has key k rows = list_ex (\<lambda>r. key r = k) rows"

text \<open>\<open>UPDATE t SET ... WHERE key = k AND guard\<close>: the new table and the row count.\<close>

definition row_update :: "('r \<Rightarrow> 'k) \<Rightarrow> 'k \<Rightarrow> ('r \<Rightarrow> bool) \<Rightarrow> ('r \<Rightarrow> 'r) \<Rightarrow> 'r list \<Rightarrow> 'r list \<times> nat" where
  "row_update key k guard f rows =
     (map (\<lambda>r. if key r = k \<and> guard r then f r else r) rows,
      length (filter (\<lambda>r. key r = k \<and> guard r) rows))"

text \<open>\<open>INSERT\<close> into a table whose primary key is \<open>key\<close>: \<open>None\<close> is the constraint violation.\<close>

definition row_insert :: "('r \<Rightarrow> 'k) \<Rightarrow> 'r \<Rightarrow> 'r list \<Rightarrow> 'r list option" where
  "row_insert key r rows = (if row_has key (key r) rows then None else Some (rows @ [r]))"

lemma row_get_Nil [simp]: "row_get key k [] = None"
  by (simp add: row_get_def)

lemma row_get_Cons [simp]:
  "row_get key k (r # rows) = (if key r = k then Some r else row_get key k rows)"
  by (simp add: row_get_def)

lemma row_get_append:
  "row_get key k (xs @ ys) =
     (case row_get key k xs of Some r \<Rightarrow> Some r | None \<Rightarrow> row_get key k ys)"
  by (induction xs) auto

lemma row_has_iff: "row_has key k rows \<longleftrightarrow> k \<in> key ` set rows"
  by (auto simp: row_has_def list_ex_iff)

lemma row_get_None: "row_get key k rows = None \<longleftrightarrow> k \<notin> key ` set rows"
  by (induction rows) auto

lemma row_get_SomeD: "row_get key k rows = Some r \<Longrightarrow> r \<in> set rows \<and> key r = k"
  by (induction rows) (auto split: if_splits)

lemma row_get_in:
  "distinct (map key rows) \<Longrightarrow> r \<in> set rows \<Longrightarrow> row_get key (key r) rows = Some r"
  by (induction rows) (auto simp: rev_image_eqI)

lemma row_get_update_same:
  assumes "\<And>r. key (f r) = key r"
  shows "row_get key k (fst (row_update key k guard f rows)) =
         map_option (\<lambda>r. if guard r then f r else r) (row_get key k rows)"
  using assms by (induction rows) (auto simp: row_update_def)

lemma row_get_update_other:
  assumes "\<And>r. key (f r) = key r" and "j \<noteq> k"
  shows "row_get key j (fst (row_update key k guard f rows)) = row_get key j rows"
  using assms by (induction rows) (auto simp: row_update_def)

lemma row_update_keys:
  assumes "\<And>r. key (f r) = key r"
  shows "map key (fst (row_update key k guard f rows)) = map key rows"
  using assms by (induction rows) (auto simp: row_update_def)

lemma row_update_col:
  assumes "\<And>r. col (f r) = col r"
  shows "map col (fst (row_update key k guard f rows)) = map col rows"
  using assms by (induction rows) (auto simp: row_update_def)

lemma filter_key_none:
  "k \<notin> key ` set rows \<Longrightarrow> filter (\<lambda>r. key r = k \<and> guard r) rows = []"
  by (induction rows) auto

lemma row_update_count:
  assumes "distinct (map key rows)"
  shows "snd (row_update key k guard f rows) = 1 \<longleftrightarrow>
         (\<exists>r. row_get key k rows = Some r \<and> guard r)"
  using assms by (induction rows) (auto simp: row_update_def filter_key_none row_get_None [THEN iffD2])

lemma row_update_count_le:
  assumes "distinct (map key rows)"
  shows "snd (row_update key k guard f rows) \<le> 1"
  using assms by (induction rows) (auto simp: row_update_def filter_key_none)

lemma row_update_set:
  "r \<in> set (fst (row_update key k guard f rows)) \<Longrightarrow>
   \<exists>r0 \<in> set rows. r = (if key r0 = k \<and> guard r0 then f r0 else r0)"
  by (auto simp: row_update_def)

lemma row_insert_Some:
  "row_insert key r rows = Some rows' \<longleftrightarrow> key r \<notin> key ` set rows \<and> rows' = rows @ [r]"
  by (auto simp: row_insert_def row_has_iff)

lemma row_insert_None: "row_insert key r rows = None \<longleftrightarrow> key r \<in> key ` set rows"
  by (auto simp: row_insert_def row_has_iff)

subsection \<open>The interface of a table with a primary key\<close>

locale row_store =
  fixes key :: "'r \<Rightarrow> 'k"
    and get :: "'k \<Rightarrow> 't \<Rightarrow> 'r option"
    and upd :: "'k \<Rightarrow> ('r \<Rightarrow> bool) \<Rightarrow> ('r \<Rightarrow> 'r) \<Rightarrow> 't \<Rightarrow> 't \<times> nat"
    and ins :: "'r \<Rightarrow> 't \<Rightarrow> 't option"
    and ok :: "'t \<Rightarrow> bool"
  assumes get_key: "get k t = Some r \<Longrightarrow> key r = k"
    and get_upd_same: "(\<And>r. key (f r) = key r) \<Longrightarrow>
          get k (fst (upd k g f t)) = map_option (\<lambda>r. if g r then f r else r) (get k t)"
    and get_upd_other: "(\<And>r. key (f r) = key r) \<Longrightarrow> j \<noteq> k \<Longrightarrow>
          get j (fst (upd k g f t)) = get j t"
    and upd_count: "ok t \<Longrightarrow> snd (upd k g f t) = 1 \<longleftrightarrow> (\<exists>r. get k t = Some r \<and> g r)"
    and upd_ok: "ok t \<Longrightarrow> (\<And>r. key (f r) = key r) \<Longrightarrow> ok (fst (upd k g f t))"
    and ins_fresh: "ins r t = Some t' \<Longrightarrow> get (key r) t = None"
    and get_ins_same: "ins r t = Some t' \<Longrightarrow> get (key r) t' = Some r"
    and get_ins_other: "ins r t = Some t' \<Longrightarrow> j \<noteq> key r \<Longrightarrow> get j t' = get j t"
    and ins_ok: "ok t \<Longrightarrow> ins r t = Some t' \<Longrightarrow> ok t'"
begin

lemma get_upd:
  assumes "\<And>r. key (f r) = key r"
  shows "get j (fst (upd k g f t)) =
         (if j = k then map_option (\<lambda>r. if g r then f r else r) (get k t) else get j t)"
  using get_upd_same [of f k g t] get_upd_other [of f j k g t] assms by auto

lemma get_ins:
  assumes "ins r t = Some t'"
  shows "get j t' = (if j = key r then Some r else get j t)"
  using get_ins_same [OF assms] get_ins_other [OF assms, of j] by auto

text \<open>An insert loses no row: what was stored is still returned.\<close>

lemma ins_keeps:
  assumes "ins r t = Some t'" and "get j t = Some x"
  shows "get j t' = Some x"
  using get_ins [OF assms(1)] ins_fresh [OF assms(1)] assms(2) by auto

text \<open>A successful guarded update found its row, and the row now holds the new value.\<close>

lemma upd_success:
  assumes "ok t" and "\<And>r. key (f r) = key r" and "snd (upd k g f t) = 1"
  obtains r where "get k t = Some r" and "g r" and "get k (fst (upd k g f t)) = Some (f r)"
  using assms get_upd_same [of f k g t] upd_count [of t k g f] by fastforce

text \<open>A guarded update whose guard fails changes no row that can be read.\<close>

lemma upd_failure:
  assumes "ok t" and "\<And>r. key (f r) = key r" and "snd (upd k g f t) \<noteq> 1"
  shows "get j (fst (upd k g f t)) = get j t"
  using assms get_upd [of f j k g t] upd_count [of t k g f] by (cases "get k t") auto

text \<open>A guard that the update itself falsifies cannot succeed twice.\<close>

lemma upd_twice:
  assumes ok: "ok t" and key: "\<And>r. key (f r) = key r" and off: "\<And>r. g r \<Longrightarrow> \<not> g (f r)"
  shows "snd (upd k g f (fst (upd k g f t))) \<noteq> 1"
proof
  assume "snd (upd k g f (fst (upd k g f t))) = 1"
  then obtain r where r: "get k (fst (upd k g f t)) = Some r" "g r"
    using upd_count [OF upd_ok [OF ok key]] by blast
  then obtain r0 where "get k t = Some r0" and "r = (if g r0 then f r0 else r0)"
    using get_upd_same [OF key] by (auto simp: map_option_case split: option.splits)
  with r(2) off [of r0] show False by (cases "g r0") auto
qed

end

lemma row_store_rows:
  "row_store key (row_get key) (row_update key) (row_insert key) (\<lambda>t. distinct (map key t))"
proof (unfold_locales, goal_cases)
  case (1 k t r) then show ?case using row_get_SomeD by fastforce
next
  case (2 f k g t) then show ?case by (rule row_get_update_same)
next
  case (3 f j k g t) then show ?case by (rule row_get_update_other)
next
  case (4 t k g f) then show ?case by (rule row_update_count)
next
  case (5 t f k g)
  have "map key (fst (row_update key k g f t)) = map key t"
    by (rule row_update_keys) (rule 5(2))
  with 5(1) show ?case by simp
next
  case (6 r t t') then show ?case by (auto simp: row_insert_Some row_get_None)
next
  case (7 r t t')
  then have "row_get key (key r) t = None" and "t' = t @ [r]"
    by (auto simp: row_insert_Some row_get_None)
  then show ?case by (simp add: row_get_append)
next
  case (8 r t t' j)
  then have "t' = t @ [r]" by (simp add: row_insert_Some)
  with 8 show ?case by (simp add: row_get_append split: option.split)
next
  case (9 t r t') then show ?case by (auto simp: row_insert_Some)
qed

subsection \<open>One-shot updates\<close>

text \<open>
  \<open>ok\<close> is the schema invariant. \<open>fire k a s\<close> attempts the guarded update for key \<open>k\<close>; \<open>None\<close> means that no row was
  affected. \<open>spent k s\<close> says that the key has been used up. Over any sequence of attempts,
  by any callers, a key is fired at most once.
\<close>

locale one_shot =
  fixes ok :: "'s \<Rightarrow> bool"
    and fire :: "'k \<Rightarrow> 'a \<Rightarrow> 's \<Rightarrow> 's option"
    and spent :: "'k \<Rightarrow> 's \<Rightarrow> bool"
  assumes fire_ok: "ok s \<Longrightarrow> fire k a s = Some s' \<Longrightarrow> ok s'"
    and fire_unspent: "ok s \<Longrightarrow> fire k a s = Some s' \<Longrightarrow> \<not> spent k s"
    and fire_spends: "ok s \<Longrightarrow> fire k a s = Some s' \<Longrightarrow> spent k s'"
    and fire_keeps: "ok s \<Longrightarrow> fire k a s = Some s' \<Longrightarrow> spent j s \<Longrightarrow> spent j s'"
begin

fun attempts :: "('k \<times> 'a) list \<Rightarrow> 's \<Rightarrow> 's \<times> 'k list" where
  "attempts [] s = (s, [])"
| "attempts ((k, a) # ks) s =
     (case fire k a s of
        None \<Rightarrow> attempts ks s
      | Some s' \<Rightarrow> (case attempts ks s' of (s'', won) \<Rightarrow> (s'', k # won)))"

lemma attempts_spent:
  "ok s \<Longrightarrow> spent j s \<Longrightarrow> spent j (fst (attempts ks s)) \<and> j \<notin> set (snd (attempts ks s))"
proof (induction ks s rule: attempts.induct)
  case (1 s)
  then show ?case by simp
next
  case (2 k a ks s)
  show ?case
  proof (cases "fire k a s")
    case None
    with 2 show ?thesis by simp
  next
    case (Some s')
    then have "j \<noteq> k" and "spent j s'" and "ok s'"
      using fire_unspent fire_keeps fire_ok "2.prems" by blast+
    with Some "2.IH"(2) show ?thesis by (auto split: prod.splits)
  qed
qed

lemma attempts_distinct: "ok s \<Longrightarrow> distinct (snd (attempts ks s))"
proof (induction ks s rule: attempts.induct)
  case (1 s)
  then show ?case by simp
next
  case (2 k a ks s)
  show ?case
  proof (cases "fire k a s")
    case None
    with 2 show ?thesis by simp
  next
    case (Some s')
    have ok': "ok s'" by (rule fire_ok [OF "2.prems" Some])
    have "k \<notin> set (snd (attempts ks s'))"
      using attempts_spent [OF ok' fire_spends [OF "2.prems" Some]] by simp
    with Some "2.IH"(2) [OF Some ok'] show ?thesis by (simp add: split_beta)
  qed
qed

text \<open>However many callers race for a key, it is won at most once.\<close>

lemma at_most_once:
  assumes "ok s"
  shows "length (filter (\<lambda>j. j = k) (snd (attempts ks s))) \<le> 1"
proof -
  have "distinct js \<Longrightarrow> length (filter (\<lambda>j. j = k) js) \<le> 1" for js
    by (induction js) (auto simp: filter_empty_conv)
  then show ?thesis using attempts_distinct [OF assms] by blast
qed

lemma spent_never_won: "ok s \<Longrightarrow> spent k s \<Longrightarrow> k \<notin> set (snd (attempts ks s))"
  using attempts_spent by blast

end

end
