(* ===== verification/Errors.thy ===== *)
theory Errors
  imports Prelude
begin

section \<open>The exception hierarchy (errors.py)\<close>

text \<open>
  One constructor per exception class. The model keeps the class of an exception and drops its
  message: callers of the package distinguish failures by class. The last group holds the
  exceptions of Python and of the database driver that the code lets escape or catches:
  \<open>IntegrityError\<close> is a violated constraint of the SQL schema (migrations/).
\<close>

datatype ep_error =
    EPError
  | ConfigError
  | AuthenticationError | AuthorizationError | CredentialError
  | PolicyError | PolicyConflictError | PolicyNotActiveError | PolicyNotFoundError
  | MissingPolicyContextError | PolicyIntegrityError | OverrideError
  | SeparationOfDutiesError
  | TransitionError | IllegalTransitionError | ApprovalAlreadyDecidedError
  | StaleHeadError | ResourceExhaustedError
  | TokenError | TokenExpiredError | TokenUsedError | TokenInvalidError
  | StaleAuthorizationError | PayloadMismatchError
  | ClassificationError | ResourceCanonicalizationError
  | RiskError | RiskThresholdExceededError | MitigationError
  | AuditError | AuditChainError | AuditWriteError
  | TransferError | TransferSignatureError | TransferImportError
  | DatabaseError | MigrationError | ConcurrencyError | TransactionOwnershipError
  | XIDError
  | EnforcementUnavailableError
  | IntegrityError | OperationalError
  | ValueError | KeyError | TypeError | AttributeError | OverflowError | RuntimeError
  | TimeoutError | OtherException

text \<open>The base class of each exception of the package; \<open>None\<close> for \<open>EPError\<close> itself and for
  the exceptions that do not come from the package.\<close>

fun base_class :: "ep_error \<Rightarrow> ep_error option" where
  "base_class ConfigError = Some EPError"
| "base_class AuthenticationError = Some EPError"
| "base_class AuthorizationError = Some EPError"
| "base_class CredentialError = Some EPError"
| "base_class PolicyError = Some EPError"
| "base_class PolicyConflictError = Some PolicyError"
| "base_class PolicyNotActiveError = Some PolicyError"
| "base_class PolicyNotFoundError = Some PolicyError"
| "base_class MissingPolicyContextError = Some PolicyError"
| "base_class PolicyIntegrityError = Some PolicyError"
| "base_class OverrideError = Some PolicyError"
| "base_class SeparationOfDutiesError = Some EPError"
| "base_class TransitionError = Some EPError"
| "base_class IllegalTransitionError = Some TransitionError"
| "base_class ApprovalAlreadyDecidedError = Some TransitionError"
| "base_class StaleHeadError = Some TransitionError"
| "base_class ResourceExhaustedError = Some TransitionError"
| "base_class TokenError = Some EPError"
| "base_class TokenExpiredError = Some TokenError"
| "base_class TokenUsedError = Some TokenError"
| "base_class TokenInvalidError = Some TokenError"
| "base_class StaleAuthorizationError = Some TokenError"
| "base_class PayloadMismatchError = Some TokenError"
| "base_class ClassificationError = Some EPError"
| "base_class ResourceCanonicalizationError = Some EPError"
| "base_class RiskError = Some EPError"
| "base_class RiskThresholdExceededError = Some RiskError"
| "base_class MitigationError = Some RiskError"
| "base_class AuditError = Some EPError"
| "base_class AuditChainError = Some AuditError"
| "base_class AuditWriteError = Some AuditError"
| "base_class TransferError = Some EPError"
| "base_class TransferSignatureError = Some TransferError"
| "base_class TransferImportError = Some TransferError"
| "base_class DatabaseError = Some EPError"
| "base_class MigrationError = Some DatabaseError"
| "base_class ConcurrencyError = Some DatabaseError"
| "base_class TransactionOwnershipError = Some DatabaseError"
| "base_class XIDError = Some EPError"
| "base_class EnforcementUnavailableError = Some EPError"
| "base_class _ = None"

text \<open>\<open>except cls\<close> catches an exception of the class or of a class derived from it; the
  hierarchy is three levels deep.\<close>

definition caught_by :: "ep_error \<Rightarrow> ep_error \<Rightarrow> bool" where
  "caught_by cls e \<longleftrightarrow>
     e = cls \<or> base_class e = Some cls
     \<or> (case base_class e of None \<Rightarrow> False | Some b \<Rightarrow> base_class b = Some cls)"

lemma base_class_depth:
  "base_class e = Some b \<Longrightarrow> base_class b = Some c \<Longrightarrow> base_class c = None"
  by (cases e) auto

lemma caught_by_trans: "caught_by c b \<Longrightarrow> caught_by b e \<Longrightarrow> caught_by c e"
  by (auto simp: caught_by_def dest: base_class_depth split: option.splits)

end
