(* ===== verification/Json.thy ===== *)
theory Json
  imports Errors "HOL-Library.List_Lexorder" "HOL-Library.Char_ord"
begin

section \<open>JSON values and the canonical serialization (canonical.py)\<close>

text \<open>
  Strings are lists of bytes (UTF-8). \<open>json\<close> is a value that \<open>json.dumps\<close> accepts: a float is
  held as the text of its \<open>repr\<close>, which is what \<open>json.dumps\<close> writes; an object is its list of
  items in insertion order. \<open>pyval\<close> is what callers hand to \<open>canonical_json\<close> before
  \<open>_normalize\<close>. Theory \<open>Json_Parse\<close> models \<open>json.loads\<close> and proves that it inverts the
  serialization.
\<close>

datatype json =
    JNull
  | JBool bool
  | JInt int
  | JFloat string
  | JStr string
  | JArr "json list"
  | JObj "(string \<times> json) list"

datatype pyfloat = Finite string | NotANumber | Infinite bool

datatype pykey = KStr string | KInt int | KBool bool | KNone

text \<open>A datetime enters through its fields in UTC (its own fields when it is naive).\<close>

record datetime =
  year :: nat
  month :: nat
  day :: nat
  hour :: nat
  minute :: nat
  second :: nat
  microsecond :: nat

datatype pyval =
    PyNone
  | PyBool bool
  | PyInt int
  | PyFloat pyfloat
  | PyDateTime datetime
  | PyDict "(pykey \<times> pyval) list"
  | PyList "pyval list"
  | PyStr string
  | PyOther string

subsection \<open>Decimal and hexadecimal digits\<close>

definition digit_char :: "nat \<Rightarrow> char" where
  "digit_char d = (if d < 10 then char_of (48 + d) else char_of (87 + d))"

fun show_nat :: "nat \<Rightarrow> string" where
  "show_nat n = (if n < 10 then [digit_char n] else show_nat (n div 10) @ [digit_char (n mod 10)])"

declare show_nat.simps [simp del]

definition show_int :: "int \<Rightarrow> string" where
  "show_int i = (if i < 0 then CHR ''-'' # show_nat (nat (- i)) else show_nat (nat i))"

definition pad :: "nat \<Rightarrow> nat \<Rightarrow> string" where
  "pad w n = replicate (w - length (show_nat n)) CHR ''0'' @ show_nat n"

definition normalize_datetime :: "datetime \<Rightarrow> string" where
  "normalize_datetime dt =
     show_nat (year dt) @ ''-'' @ pad 2 (month dt) @ ''-'' @ pad 2 (day dt) @ ''T''
     @ pad 2 (hour dt) @ '':'' @ pad 2 (minute dt) @ '':'' @ pad 2 (second dt)
     @ ''.'' @ pad 6 (microsecond dt) @ ''Z''"


subsection \<open>\<open>_normalize\<close>\<close>

text \<open>Assigning a key of a dict keeps the position of the key's first insertion.\<close>

fun dict_put :: "'k \<Rightarrow> 'v \<Rightarrow> ('k \<times> 'v) list \<Rightarrow> ('k \<times> 'v) list" where
  "dict_put k v [] = [(k, v)]"
| "dict_put k v ((k', v') # kvs) = (if k' = k then (k, v) # kvs else (k', v') # dict_put k v kvs)"

definition dict_of :: "('k \<times> 'v) list \<Rightarrow> ('k \<times> 'v) list" where
  "dict_of kvs = fold (\<lambda>(k, v) d. dict_put k v d) kvs []"

fun str_key :: "pykey \<Rightarrow> string" where
  "str_key (KStr s) = s"
| "str_key (KInt i) = show_int i"
| "str_key (KBool b) = (if b then ''True'' else ''False'')"
| "str_key KNone = ''None''"

fun normalize_float :: "pyfloat \<Rightarrow> ep_error + string" where
  "normalize_float (Finite r) = Inr r"
| "normalize_float NotANumber = Inl ValueError"
| "normalize_float (Infinite _) = Inl ValueError"

fun normalize :: "pyval \<Rightarrow> ep_error + json"
  and normalize_list :: "pyval list \<Rightarrow> ep_error + json list"
  and normalize_items :: "(pykey \<times> pyval) list \<Rightarrow> ep_error + (string \<times> json) list" where
  "normalize PyNone = Inr JNull"
| "normalize (PyBool b) = Inr (JBool b)"
| "normalize (PyInt i) = Inr (JInt i)"
| "normalize (PyFloat f) = bindE (normalize_float f) (\<lambda>r. Inr (JFloat r))"
| "normalize (PyDateTime dt) = Inr (JStr (normalize_datetime dt))"
| "normalize (PyDict kvs) = bindE (normalize_items kvs) (\<lambda>items. Inr (JObj (dict_of items)))"
| "normalize (PyList vs) = bindE (normalize_list vs) (\<lambda>js. Inr (JArr js))"
| "normalize (PyStr s) = Inr (JStr s)"
| "normalize (PyOther s) = Inr (JStr s)"
| "normalize_list [] = Inr []"
| "normalize_list (v # vs) =
     bindE (normalize v) (\<lambda>j. bindE (normalize_list vs) (\<lambda>js. Inr (j # js)))"
| "normalize_items [] = Inr []"
| "normalize_items ((k, v) # kvs) =
     bindE (normalize v) (\<lambda>j. bindE (normalize_items kvs) (\<lambda>items. Inr ((str_key k, j) # items)))"

subsection \<open>\<open>json.dumps(sort_keys=True, separators=(",", ":"), ensure_ascii=False)\<close>\<close>

definition quote_char :: char where "quote_char = CHR 0x22"
definition backslash :: char where "backslash = CHR 0x5C"

definition escape_char :: "char \<Rightarrow> string" where
  "escape_char c =
     (if c = quote_char then [backslash, quote_char]
      else if c = backslash then [backslash, backslash]
      else if c = CHR 0x08 then [backslash, CHR ''b'']
      else if c = CHR 0x0C then [backslash, CHR ''f'']
      else if c = CHR 0x0A then [backslash, CHR ''n'']
      else if c = CHR 0x0D then [backslash, CHR ''r'']
      else if c = CHR 0x09 then [backslash, CHR ''t'']
      else if of_char c < (32::nat)
        then [backslash, CHR ''u'', CHR ''0'', CHR ''0'',
              digit_char (of_char c div 16), digit_char (of_char c mod 16)]
      else [c])"

definition dumps_str :: "string \<Rightarrow> string" where
  "dumps_str s = quote_char # concat (map escape_char s) @ [quote_char]"

definition sort_items :: "(string \<times> 'a) list \<Rightarrow> (string \<times> 'a) list" where
  "sort_items kvs = sort_key fst kvs"

fun join :: "string \<Rightarrow> string list \<Rightarrow> string" where
  "join sep [] = []"
| "join sep [x] = x"
| "join sep (x # y # xs) = x @ sep @ join sep (y # xs)"

text \<open>The keys of every object in sorted order; \<open>dumps\<close> writes the sorted value.\<close>

fun sort_keys :: "json \<Rightarrow> json" where
  "sort_keys (JArr vs) = JArr (map sort_keys vs)"
| "sort_keys (JObj kvs) = JObj (sort_items (map (\<lambda>(k, v). (k, sort_keys v)) kvs))"
| "sort_keys v = v"

fun dumps_raw :: "json \<Rightarrow> string" where
  "dumps_raw JNull = ''null''"
| "dumps_raw (JBool b) = (if b then ''true'' else ''false'')"
| "dumps_raw (JInt i) = show_int i"
| "dumps_raw (JFloat r) = r"
| "dumps_raw (JStr s) = dumps_str s"
| "dumps_raw (JArr vs) = ''['' @ join '','' (map dumps_raw vs) @ '']''"
| "dumps_raw (JObj kvs) =
     ''{'' @ join '','' (map (\<lambda>(k, v). dumps_str k @ '':'' @ dumps_raw v) kvs) @ ''}''"

definition dumps :: "json \<Rightarrow> string" where
  "dumps v = dumps_raw (sort_keys v)"

definition canonical_json :: "pyval \<Rightarrow> ep_error + string" where
  "canonical_json obj = bindE (normalize obj) (\<lambda>v. Inr (dumps v))"

text \<open>UTF-8 encoding is the identity on byte lists. SHA-256 is an argument.\<close>

definition canonical_json_bytes :: "pyval \<Rightarrow> ep_error + string" where
  "canonical_json_bytes obj = canonical_json obj"

definition canonical_hash :: "(string \<Rightarrow> string) \<Rightarrow> pyval \<Rightarrow> ep_error + string" where
  "canonical_hash sha256 obj = bindE (canonical_json_bytes obj) (\<lambda>b. Inr (sha256 b))"

text \<open>The same on values that are JSON already (rows of the database, tool arguments).\<close>

definition json_hash :: "(string \<Rightarrow> string) \<Rightarrow> json \<Rightarrow> string" where
  "json_hash sha256 v = sha256 (dumps v)"

text \<open>\<open>compute_policy_set_hash\<close>: the sorted \<open>(id, version)\<close> pairs, written as arrays.\<close>

definition compute_policy_set_hash :: "(string \<Rightarrow> string) \<Rightarrow> (string \<times> int) list \<Rightarrow> string" where
  "compute_policy_set_hash sha256 versions =
     (if versions = [] then ''''
      else json_hash sha256 (JArr (map (\<lambda>(p, v). JArr [JStr p, JInt v]) (sort_items versions))))"

text \<open>\<open>json.loads\<close> accepts \<open>NaN\<close> and \<open>Infinity\<close>; \<open>_normalize\<close> raises \<open>ValueError\<close> for them.\<close>

fun finite_json :: "json \<Rightarrow> bool" where
  "finite_json (JFloat t) \<longleftrightarrow> t \<noteq> ''nan'' \<and> t \<noteq> ''inf'' \<and> t \<noteq> ''-inf''"
| "finite_json (JArr vs) \<longleftrightarrow> list_all finite_json vs"
| "finite_json (JObj kvs) \<longleftrightarrow> list_all (\<lambda>(k, v). finite_json v) kvs"
| "finite_json _ \<longleftrightarrow> True"

definition json_canonical_hash :: "(string \<Rightarrow> string) \<Rightarrow> json \<Rightarrow> ep_error + string" where
  "json_canonical_hash sha256 v = bindE (requireE (finite_json v) ValueError) (\<lambda>_. Inr (json_hash sha256 v))"

end
