(* ===== verification/Json_Parse.thy ===== *)
theory Json_Parse
  imports Json "HOL-Library.Multiset"
begin

section \<open>\<open>json.loads\<close> and the round trip through the canonical text\<close>

text \<open>
  The decoder of Python's \<open>json\<close> module: white space, the literals, strings with escapes
  (strict: no raw control character), numbers (\<open>frep\<close> is \<open>repr(float(text))\<close>, the C library's
  float conversion, an argument), arrays and objects (a repeated key keeps its last value).
  Each nested call of the parser uses one unit of fuel, and between two units at least every
  second call consumes a character, so one more unit than twice the number of characters is
  enough. \<open>json_loads_dumps\<close> proves that the parser inverts the canonical serialization.
\<close>

definition is_ws :: "char \<Rightarrow> bool" where
  "is_ws c \<longleftrightarrow> c = CHR 0x20 \<or> c = CHR 0x09 \<or> c = CHR 0x0A \<or> c = CHR 0x0D"

definition skip_ws :: "string \<Rightarrow> string" where
  "skip_ws s = dropWhile is_ws s"

definition is_digit :: "char \<Rightarrow> bool" where
  "is_digit c \<longleftrightarrow> 48 \<le> (of_char c :: nat) \<and> (of_char c :: nat) \<le> 57"

definition digit_val :: "char \<Rightarrow> nat" where
  "digit_val c = of_char c - 48"

definition hex_val :: "char \<Rightarrow> nat option" where
  "hex_val c =
     (let n = (of_char c :: nat) in
      if 48 \<le> n \<and> n \<le> 57 then Some (n - 48)
      else if 97 \<le> n \<and> n \<le> 102 then Some (n - 87)
      else if 65 \<le> n \<and> n \<le> 70 then Some (n - 55)
      else None)"

definition nat_of_digits :: "string \<Rightarrow> nat" where
  "nat_of_digits s = foldl (\<lambda>a c. 10 * a + digit_val c) 0 s"

subsection \<open>Strings\<close>

text \<open>The bytes of a code point. A lone surrogate, which Python keeps in the string, is given its
  three-byte form.\<close>

definition utf8 :: "nat \<Rightarrow> string" where
  "utf8 n =
     (if n < 128 then [char_of n]
      else if n < 2048 then [char_of (192 + n div 64), char_of (128 + n mod 64)]
      else if n < 65536 then
        [char_of (224 + n div 4096), char_of (128 + n div 64 mod 64), char_of (128 + n mod 64)]
      else
        [char_of (240 + n div 262144), char_of (128 + n div 4096 mod 64),
         char_of (128 + n div 64 mod 64), char_of (128 + n mod 64)])"

fun hex4 :: "string \<Rightarrow> (nat \<times> string) option" where
  "hex4 (a # b # c # d # r) =
     (case (hex_val a, hex_val b, hex_val c, hex_val d) of
        (Some w, Some x, Some y, Some z) \<Rightarrow> Some (4096 * w + 256 * x + 16 * y + z, r)
      | _ \<Rightarrow> None)"
| "hex4 _ = None"

text \<open>After \<open>\u\<close>: a high surrogate followed by \<open>\u\<close> and a low one is one code point.\<close>

definition unicode_escape :: "string \<Rightarrow> (string \<times> string) option" where
  "unicode_escape s =
     (case hex4 s of
        None \<Rightarrow> None
      | Some (n, r) \<Rightarrow>
          (case r of
             b # u # r' \<Rightarrow>
               (if 55296 \<le> n \<and> n < 56320 \<and> b = backslash \<and> u = CHR ''u'' then
                  (case hex4 r' of
                     Some (m, r'') \<Rightarrow>
                       (if 56320 \<le> m \<and> m < 57344
                        then Some (utf8 (65536 + 1024 * (n - 55296) + (m - 56320)), r'')
                        else Some (utf8 n, r))
                   | None \<Rightarrow> Some (utf8 n, r))
                else Some (utf8 n, r))
           | _ \<Rightarrow> Some (utf8 n, r)))"

definition simple_escape :: "char \<Rightarrow> char option" where
  "simple_escape c =
     (if c = quote_char then Some quote_char
      else if c = backslash then Some backslash
      else if c = CHR ''/'' then Some (CHR ''/'')
      else if c = CHR ''b'' then Some (CHR 0x08)
      else if c = CHR ''f'' then Some (CHR 0x0C)
      else if c = CHR ''n'' then Some (CHR 0x0A)
      else if c = CHR ''r'' then Some (CHR 0x0D)
      else if c = CHR ''t'' then Some (CHR 0x09)
      else None)"

text \<open>The text after the opening quote: the decoded string and what follows the closing quote.\<close>

fun parse_str :: "nat \<Rightarrow> string \<Rightarrow> (string \<times> string) option" where
  "parse_str 0 s = None"
| "parse_str (Suc n) [] = None"
| "parse_str (Suc n) (c # s) =
     (if c = quote_char then Some ([], s)
      else if c = backslash then
        (case s of
           [] \<Rightarrow> None
         | e # r \<Rightarrow>
             (if e = CHR ''u'' then
                (case unicode_escape r of
                   None \<Rightarrow> None
                 | Some (bs, r') \<Rightarrow> map_option (\<lambda>(t, q). (bs @ t, q)) (parse_str n r'))
              else
                (case simple_escape e of
                   None \<Rightarrow> None
                 | Some x \<Rightarrow> map_option (\<lambda>(t, q). (x # t, q)) (parse_str n r))))
      else if (of_char c :: nat) < 32 then None
      else map_option (\<lambda>(t, q). (c # t, q)) (parse_str n s))"

subsection \<open>Numbers\<close>

definition span_digits :: "string \<Rightarrow> string \<times> string" where
  "span_digits s = (takeWhile is_digit s, dropWhile is_digit s)"

text \<open>\<open>(-?(?:0|[1-9][0-9]*))(\.[0-9]+)?([eE][-+]?[0-9]+)?\<close>\<close>

definition scan_int :: "string \<Rightarrow> (string \<times> string) option" where
  "scan_int s =
     (case s of
        [] \<Rightarrow> None
      | c # r \<Rightarrow>
          (if c = CHR ''0'' then Some ([c], r)
           else if is_digit c then (case span_digits s of (ds, q) \<Rightarrow> Some (ds, q))
           else None))"

definition scan_frac :: "string \<Rightarrow> string \<times> string" where
  "scan_frac s =
     (case s of
        c # r \<Rightarrow>
          (if c = CHR ''.'' \<and> fst (span_digits r) \<noteq> []
           then (c # fst (span_digits r), snd (span_digits r)) else ([], s))
      | [] \<Rightarrow> ([], s))"

definition scan_exp :: "string \<Rightarrow> string \<times> string" where
  "scan_exp s =
     (case s of
        c # r \<Rightarrow>
          (if c = CHR ''e'' \<or> c = CHR ''E'' then
             (let (sg, r') = (case r of
                                x # q \<Rightarrow> (if x = CHR ''-'' \<or> x = CHR ''+'' then ([x], q) else ([], r))
                              | [] \<Rightarrow> ([], r))
              in if fst (span_digits r') \<noteq> []
                 then (c # sg @ fst (span_digits r'), snd (span_digits r')) else ([], s))
           else ([], s))
      | [] \<Rightarrow> ([], s))"

definition parse_num :: "(string \<Rightarrow> string) \<Rightarrow> string \<Rightarrow> (json \<times> string) option" where
  "parse_num frep s =
     (let (neg, s1) = (case s of
                         c # r \<Rightarrow> (if c = CHR ''-'' then (True, r) else (False, s))
                       | [] \<Rightarrow> (False, s))
      in case scan_int s1 of
           None \<Rightarrow> None
         | Some (ip, s2) \<Rightarrow>
             (case scan_frac s2 of
                (fp, s3) \<Rightarrow>
                  (case scan_exp s3 of
                     (ep, s4) \<Rightarrow>
                       (if fp = [] \<and> ep = []
                        then Some (JInt (if neg then - int (nat_of_digits ip)
                                         else int (nat_of_digits ip)), s4)
                        else Some (JFloat (frep ((if neg then ''-'' else []) @ ip @ fp @ ep)), s4)))))"

subsection \<open>Values\<close>

fun strip_prefix :: "string \<Rightarrow> string \<Rightarrow> string option" where
  "strip_prefix [] s = Some s"
| "strip_prefix (p # ps) [] = None"
| "strip_prefix (p # ps) (c # s) = (if p = c then strip_prefix ps s else None)"

definition parse_literal :: "(string \<Rightarrow> string) \<Rightarrow> string \<Rightarrow> (json \<times> string) option" where
  "parse_literal frep s =
     (case strip_prefix ''null'' s of Some r \<Rightarrow> Some (JNull, r) | None \<Rightarrow>
     (case strip_prefix ''true'' s of Some r \<Rightarrow> Some (JBool True, r) | None \<Rightarrow>
     (case strip_prefix ''false'' s of Some r \<Rightarrow> Some (JBool False, r) | None \<Rightarrow>
     (case parse_num frep s of Some p \<Rightarrow> Some p | None \<Rightarrow>
     (case strip_prefix ''NaN'' s of Some r \<Rightarrow> Some (JFloat ''nan'', r) | None \<Rightarrow>
     (case strip_prefix ''Infinity'' s of Some r \<Rightarrow> Some (JFloat ''inf'', r) | None \<Rightarrow>
     (case strip_prefix ''-Infinity'' s of Some r \<Rightarrow> Some (JFloat ''-inf'', r) | None \<Rightarrow> None)))))))"

fun parse_value :: "(string \<Rightarrow> string) \<Rightarrow> nat \<Rightarrow> string \<Rightarrow> (json \<times> string) option"
  and parse_elems :: "(string \<Rightarrow> string) \<Rightarrow> nat \<Rightarrow> string \<Rightarrow> (json list \<times> string) option"
  and parse_items :: "(string \<Rightarrow> string) \<Rightarrow> nat \<Rightarrow> string \<Rightarrow> ((string \<times> json) list \<times> string) option"
  where
  "parse_value frep 0 s = None"
| "parse_value frep (Suc n) s =
     (case s of
        [] \<Rightarrow> None
      | c # r \<Rightarrow>
          (if c = quote_char then map_option (\<lambda>(t, q). (JStr t, q)) (parse_str (length s) r)
           else if c = CHR ''['' then
             (case skip_ws r of
                [] \<Rightarrow> None
              | d # q \<Rightarrow>
                  (if d = CHR '']'' then Some (JArr [], q)
                   else map_option (\<lambda>(vs, q'). (JArr vs, q')) (parse_elems frep n (d # q))))
           else if c = CHR ''{'' then
             (case skip_ws r of
                [] \<Rightarrow> None
              | d # q \<Rightarrow>
                  (if d = CHR ''}'' then Some (JObj [], q)
                   else map_option (\<lambda>(kvs, q'). (JObj (dict_of kvs), q')) (parse_items frep n (d # q))))
           else parse_literal frep s))"
| "parse_elems frep 0 s = None"
| "parse_elems frep (Suc n) s =
     (case parse_value frep n s of
        None \<Rightarrow> None
      | Some (v, r) \<Rightarrow>
          (case skip_ws r of
             [] \<Rightarrow> None
           | d # q \<Rightarrow>
               (if d = CHR '']'' then Some ([v], q)
                else if d = CHR '','' then
                  map_option (\<lambda>(vs, q'). (v # vs, q')) (parse_elems frep n (skip_ws q))
                else None)))"
| "parse_items frep 0 s = None"
| "parse_items frep (Suc n) s =
     (case s of
        [] \<Rightarrow> None
      | c # r \<Rightarrow>
          (if c \<noteq> quote_char then None
           else (case parse_str (length s) r of
                   None \<Rightarrow> None
                 | Some (k, r1) \<Rightarrow>
                     (case skip_ws r1 of
                        [] \<Rightarrow> None
                      | d # q \<Rightarrow>
                          (if d \<noteq> CHR '':'' then None
                           else (case parse_value frep n (skip_ws q) of
                                   None \<Rightarrow> None
                                 | Some (v, r2) \<Rightarrow>
                                     (case skip_ws r2 of
                                        [] \<Rightarrow> None
                                      | e # q2 \<Rightarrow>
                                          (if e = CHR ''}'' then Some ([(k, v)], q2)
                                           else if e = CHR '','' then
                                             map_option (\<lambda>(kvs, q'). ((k, v) # kvs, q'))
                                               (parse_items frep n (skip_ws q2))
                                           else None)))))))) "

definition json_loads :: "(string \<Rightarrow> string) \<Rightarrow> string \<Rightarrow> json option" where
  "json_loads frep s =
     (case parse_value frep (Suc (2 * length s)) (skip_ws s) of
        Some (v, r) \<Rightarrow> (if skip_ws r = [] then Some v else None)
      | None \<Rightarrow> None)"

subsection \<open>Strings\<close>

lemma digit_val_char: "d < 10 \<Longrightarrow> digit_val (digit_char d) = d"
  by (simp add: digit_val_def digit_char_def)

lemma is_digit_char: "d < 10 \<Longrightarrow> is_digit (digit_char d)"
  by (simp add: is_digit_def digit_char_def)

lemma hex_val_digit: "d < 16 \<Longrightarrow> hex_val (digit_char d) = Some d"
  by (simp add: hex_val_def digit_char_def)

lemma control_escape:
  assumes "(of_char c :: nat) < 32"
  shows "unicode_escape (CHR ''0'' # CHR ''0'' # digit_char (of_char c div 16)
           # digit_char (of_char c mod 16) # r) = Some ([c], r)"
proof -
  have h0: "hex_val (CHR ''0'') = Some 0" by code_simp
  let ?n = "of_char c :: nat"
  have "16 * (?n div 16) + ?n mod 16 = ?n" by simp
  then have h: "hex4 (CHR ''0'' # CHR ''0'' # digit_char (?n div 16) # digit_char (?n mod 16) # r)
                = Some (?n, r)"
    using assms by (simp add: hex_val_digit h0)
  have "utf8 ?n = [c]" using assms by (simp add: utf8_def)
  with assms h show ?thesis
    by (simp add: unicode_escape_def split: list.split)
qed

lemma escape_not_quote: "escape_char c = x # xs \<Longrightarrow> x \<noteq> quote_char"
  by (auto simp: escape_char_def quote_char_def backslash_def split: if_splits)

lemma escape_nonempty: "escape_char c \<noteq> []"
  by (simp add: escape_char_def)

lemma parse_str_escape:
  "parse_str (Suc n) (escape_char c @ s) = map_option (\<lambda>(t, q). (c # t, q)) (parse_str n s)"
proof -
  consider "c \<in> {quote_char, backslash, CHR 0x08, CHR 0x0C, CHR 0x0A, CHR 0x0D, CHR 0x09}"
    | "c \<notin> {quote_char, backslash, CHR 0x08, CHR 0x0C, CHR 0x0A, CHR 0x0D, CHR 0x09}"
      "(of_char c :: nat) < 32"
    | "c \<notin> {quote_char, backslash, CHR 0x08, CHR 0x0C, CHR 0x0A, CHR 0x0D, CHR 0x09}"
      "\<not> (of_char c :: nat) < 32" by blast
  then show ?thesis
  proof cases
    case 1
    then show ?thesis
      by (auto simp: escape_char_def simple_escape_def quote_char_def backslash_def)
  next
    case 2
    then show ?thesis
      using control_escape [of c s]
      by (simp add: escape_char_def) (simp add: quote_char_def backslash_def)
  next
    case 3
    then show ?thesis by (simp add: escape_char_def)
  qed
qed

lemma parse_str_escaped:
  "length s < n \<Longrightarrow> parse_str n (concat (map escape_char s) @ quote_char # r) = Some (s, r)"
proof (induction s arbitrary: n)
  case Nil
  then show ?case by (cases n) auto
next
  case (Cons c s)
  then obtain m where "n = Suc m" by (cases n) auto
  with Cons show ?case by (simp add: parse_str_escape)
qed

lemma escaped_length: "length s \<le> length (concat (map escape_char s))"
proof (induction s)
  case (Cons c s)
  have "1 \<le> length (escape_char c)" using escape_nonempty [of c] by (cases "escape_char c") auto
  with Cons show ?case by simp
qed simp

lemma parse_str_dumps:
  "length (dumps_str s @ r) \<le> n \<Longrightarrow> parse_str n (tl (dumps_str s) @ r) = Some (s, r)"
  using parse_str_escaped [of s n r] escaped_length [of s] by (simp add: dumps_str_def)

subsection \<open>Numbers\<close>

definition delimited :: "string \<Rightarrow> bool" where
  "delimited r \<longleftrightarrow> r = [] \<or> hd r = CHR '','' \<or> hd r = CHR '']'' \<or> hd r = CHR ''}''"

lemma delimited_cases:
  "delimited r \<longleftrightarrow> (case r of [] \<Rightarrow> True | c # _ \<Rightarrow> c = CHR '','' \<or> c = CHR '']'' \<or> c = CHR ''}'')"
  by (cases r) (auto simp: delimited_def)

lemma delimited_simps [simp]:
  "delimited []" "delimited (CHR '','' # r)" "delimited (CHR '']'' # r)" "delimited (CHR ''}'' # r)"
  by (simp_all add: delimited_def)

lemma not_digits: "\<not> is_digit (CHR '','')" "\<not> is_digit (CHR '']'')" "\<not> is_digit (CHR ''}'')"
    "\<not> is_digit (CHR ''.'')" "\<not> is_digit (CHR ''e'')" "\<not> is_digit (CHR ''E'')" "\<not> is_digit (CHR ''-'')"
  by (simp_all add: is_digit_def)

lemma delimited_digits:
  assumes "delimited r"
  shows "takeWhile is_digit r = []" and "dropWhile is_digit r = r"
  using assms not_digits by (cases r; auto simp: delimited_def)+

lemma takeWhile_delimited:
  assumes "delimited r"
  shows "takeWhile is_digit (s @ r) = takeWhile is_digit s"
    and "dropWhile is_digit (s @ r) = dropWhile is_digit s @ r"
  using delimited_digits [OF assms] by (induction s) auto

lemma span_digits_append:
  "delimited r \<Longrightarrow> span_digits (s @ r) = (fst (span_digits s), snd (span_digits s) @ r)"
  by (simp add: span_digits_def takeWhile_delimited)

lemma scan_int_append:
  "delimited r \<Longrightarrow> scan_int s = Some (ip, q) \<Longrightarrow> scan_int (s @ r) = Some (ip, q @ r)"
  using span_digits_append [of r s]
  by (auto simp: scan_int_def span_digits_def split: list.splits if_splits)

lemma scan_frac_append:
  assumes "delimited r"
  shows "scan_frac (s @ r) = (fst (scan_frac s), snd (scan_frac s) @ r)"
proof (cases s)
  case Nil
  with assms show ?thesis by (auto simp: scan_frac_def delimited_def split: list.splits)
next
  case (Cons c t)
  with span_digits_append [OF assms, of t] show ?thesis by (simp add: scan_frac_def)
qed

lemma scan_exp_append:
  assumes "delimited r"
  shows "scan_exp (s @ r) = (fst (scan_exp s), snd (scan_exp s) @ r)"
proof (cases s)
  case Nil
  with assms show ?thesis by (auto simp: scan_exp_def delimited_def split: list.splits)
next
  case (Cons c t)
  show ?thesis
  proof (cases t)
    case Nil
    have "fst (span_digits (tl r)) = [] \<or> hd r \<noteq> CHR ''-'' \<and> hd r \<noteq> CHR ''+'' \<or> r = []"
      using assms by (auto simp: delimited_def)
    moreover have "fst (span_digits r) = []" using delimited_digits [OF assms] by (simp add: span_digits_def)
    moreover have "fst (span_digits []) = []" by (simp add: span_digits_def)
    ultimately show ?thesis using Cons Nil assms
      by (cases r) (auto simp: scan_exp_def delimited_def Let_def)
  next
    case (Cons x u)
    with \<open>s = c # t\<close> span_digits_append [OF assms, of t] span_digits_append [OF assms, of u]
    show ?thesis by (simp add: scan_exp_def Let_def)
  qed
qed

lemma parse_num_append:
  assumes "delimited r" and "parse_num frep s = Some (v, [])"
  shows "parse_num frep (s @ r) = Some (v, r)"
proof -
  have ne: "s \<noteq> []" using assms(2) by (auto simp: parse_num_def scan_int_def)
  obtain neg s1 where n: "(case s of c # r \<Rightarrow> (if c = CHR ''-'' then (True, r) else (False, s))
      | [] \<Rightarrow> (False, s)) = (neg, s1)" by fastforce
  have n': "(case s @ r of c # q \<Rightarrow> (if c = CHR ''-'' then (True, q) else (False, s @ r))
      | [] \<Rightarrow> (False, s @ r)) = (neg, s1 @ r)"
    using n ne by (cases s) (auto split: if_splits)
  obtain ip s2 where i: "scan_int s1 = Some (ip, s2)"
    using assms(2) n by (auto simp: parse_num_def split: option.splits)
  show ?thesis
    using assms(2) n n' i
    by (auto simp add: parse_num_def scan_int_append [OF assms(1) i] scan_frac_append [OF assms(1)]
        scan_exp_append [OF assms(1)] split_beta split: if_splits)
qed

lemma show_nat_digits: "list_all is_digit (show_nat n)"
proof (induction n rule: show_nat.induct)
  case (1 n)
  show ?case
    by (subst show_nat.simps) (use 1 in \<open>simp add: is_digit_char\<close>)
qed

lemma show_nat_head: "\<exists>d r. show_nat n = digit_char d # r \<and> d < 10 \<and> (0 < n \<longrightarrow> 0 < d) \<and> (n = 0 \<longrightarrow> d = 0 \<and> r = [])"
proof (induction n rule: show_nat.induct)
  case (1 n)
  show ?case
  proof (cases "n < 10")
    case True
    then show ?thesis by (subst show_nat.simps) auto
  next
    case False
    with 1 obtain d r where "show_nat (n div 10) = digit_char d # r" "d < 10" "0 < d" by force
    with False show ?thesis by (subst show_nat.simps) auto
  qed
qed

lemma nat_of_digits_snoc: "nat_of_digits (s @ [c]) = 10 * nat_of_digits s + digit_val c"
  by (simp add: nat_of_digits_def)

lemma nat_of_digits_show [simp]: "nat_of_digits (show_nat n) = n"
proof (induction n rule: show_nat.induct)
  case (1 n)
  show ?case
  proof (cases "n < 10")
    case True
    then show ?thesis by (subst show_nat.simps) (simp add: nat_of_digits_def digit_val_char)
  next
    case False
    with 1 show ?thesis
      by (subst show_nat.simps) (simp add: nat_of_digits_snoc digit_val_char)
  qed
qed

lemma digit_char_zero: "d < 10 \<Longrightarrow> digit_char d = CHR ''0'' \<longleftrightarrow> d = 0"
proof
  assume "d < 10" and "digit_char d = CHR ''0''"
  then have "digit_val (digit_char d) = digit_val (CHR ''0'')" by simp
  with \<open>d < 10\<close> show "d = 0" by (simp add: digit_val_char) (simp add: digit_val_def)
next
  have "digit_char 0 = CHR ''0''" by code_simp
  then show "d = 0 \<Longrightarrow> digit_char d = CHR ''0''" by simp
qed

lemma scan_int_show: "scan_int (show_nat n) = Some (show_nat n, [])"
proof -
  obtain d r where h: "show_nat n = digit_char d # r" "d < 10" "0 < n \<longrightarrow> 0 < d" "n = 0 \<longrightarrow> d = 0 \<and> r = []"
    using show_nat_head by blast
  have all: "takeWhile is_digit (show_nat n) = show_nat n" "dropWhile is_digit (show_nat n) = []"
    using show_nat_digits [of n] by (simp_all add: list_all_iff)
  have z: "digit_char d = CHR ''0'' \<longleftrightarrow> d = 0" using h(2) by (rule digit_char_zero)
  show ?thesis
  proof (cases "n = 0")
    case True
    with h True z show ?thesis by (simp add: scan_int_def)
  next
    case False
    with h z have "digit_char d \<noteq> CHR ''0''" by simp
    with h all is_digit_char [OF h(2)] show ?thesis by (simp add: scan_int_def span_digits_def)
  qed
qed

lemma scan_empty [simp]: "scan_frac [] = ([], [])" "scan_exp [] = ([], [])"
  by (simp_all add: scan_frac_def scan_exp_def)

lemma digit_not_minus: "is_digit c \<Longrightarrow> c \<noteq> CHR ''-''"
  using not_digits by auto

lemma parse_num_show: "parse_num frep (show_int i) = Some (JInt i, [])"
proof (cases "i < 0")
  case True
  then show ?thesis by (simp add: parse_num_def show_int_def scan_int_show)
next
  case False
  obtain d r where h: "show_nat (nat i) = digit_char d # r" "d < 10"
    using show_nat_head by blast
  then have "digit_char d \<noteq> CHR ''-''" using digit_not_minus is_digit_char by blast
  with h have "(case show_nat (nat i) of c # q \<Rightarrow> (if c = CHR ''-'' then (True, q) else (False, show_nat (nat i)))
      | [] \<Rightarrow> (False, show_nat (nat i))) = (False, show_nat (nat i))" by simp
  with False show ?thesis by (simp add: parse_num_def show_int_def scan_int_show)
qed

subsection \<open>Values\<close>

text \<open>Well-formed values: floats are the \<open>repr\<close> of a finite float, which the number scanner reads
  back as the same text, and the keys of an object are distinct.\<close>

fun wf_json :: "(string \<Rightarrow> string) \<Rightarrow> json \<Rightarrow> bool" where
  "wf_json frep (JFloat t) \<longleftrightarrow> parse_num frep t = Some (JFloat t, [])"
| "wf_json frep (JArr vs) \<longleftrightarrow> list_all (wf_json frep) vs"
| "wf_json frep (JObj kvs) \<longleftrightarrow> distinct (map fst kvs) \<and> list_all (\<lambda>(k, v). wf_json frep v) kvs"
| "wf_json frep _ \<longleftrightarrow> True"

text \<open>How much fuel a value needs.\<close>

fun need :: "json \<Rightarrow> nat" and need_list :: "json list \<Rightarrow> nat"
  and need_items :: "(string \<times> json) list \<Rightarrow> nat" where
  "need (JArr vs) = Suc (need_list vs)"
| "need (JObj kvs) = Suc (need_items kvs)"
| "need _ = 1"
| "need_list [] = 0"
| "need_list (v # vs) = Suc (max (need v) (need_list vs))"
| "need_items [] = 0"
| "need_items ((k, v) # kvs) = Suc (max (need v) (need_items kvs))"

lemma dict_put_new: "k \<notin> fst ` set d \<Longrightarrow> dict_put k v d = d @ [(k, v)]"
  by (induction d) auto

lemma dict_of_append_distinct:
  "distinct (map fst (d @ kvs)) \<Longrightarrow> fold (\<lambda>(k, v) d. dict_put k v d) kvs d = d @ kvs"
proof (induction kvs arbitrary: d)
  case (Cons a kvs)
  obtain k v where a: "a = (k, v)" by fastforce
  with Cons.prems have "dict_put k v d = d @ [(k, v)]" by (intro dict_put_new) auto
  with a Cons.IH [of "d @ [a]"] Cons.prems show ?case by simp
qed simp

lemma dict_of_distinct: "distinct (map fst kvs) \<Longrightarrow> dict_of kvs = kvs"
  using dict_of_append_distinct [of "[]" kvs] by (simp add: dict_of_def)

lemma skip_ws_not_ws [simp]: "\<not> is_ws c \<Longrightarrow> skip_ws (c # s) = c # s"
  by (simp add: skip_ws_def)

lemma skip_ws_Nil [simp]: "skip_ws [] = []"
  by (simp add: skip_ws_def)

lemma not_ws [simp]:
  "\<not> is_ws (CHR '','')" "\<not> is_ws (CHR '']'')" "\<not> is_ws (CHR ''}'')" "\<not> is_ws (CHR '':'')"
  "\<not> is_ws (CHR ''['')" "\<not> is_ws (CHR ''{'')" "\<not> is_ws quote_char" "\<not> is_ws (CHR ''n'')"
  "\<not> is_ws (CHR ''t'')" "\<not> is_ws (CHR ''f'')" "\<not> is_ws (CHR ''-'')"
  by (simp_all add: is_ws_def quote_char_def)

lemma digit_not_ws: "is_digit c \<Longrightarrow> \<not> is_ws c"
  by (auto simp: is_digit_def is_ws_def)

text \<open>The first character of a number, and that it decides the branch of the parser.\<close>

lemma parse_num_head:
  assumes "parse_num frep s = Some (v, q)"
  obtains c r where "s = c # r" and "c = CHR ''-'' \<or> is_digit c"
proof (cases s)
  case Nil
  with assms show ?thesis by (simp add: parse_num_def scan_int_def)
next
  case (Cons c r)
  have "c = CHR ''-'' \<or> is_digit c"
  proof (rule ccontr)
    assume n: "\<not> (c = CHR ''-'' \<or> is_digit c)"
    then have "c \<noteq> CHR ''0''" by (auto simp: is_digit_def)
    with n Cons assms show False by (simp add: parse_num_def scan_int_def)
  qed
  with Cons show ?thesis by (rule that)
qed

lemma number_head_simps:
  assumes "c = CHR ''-'' \<or> is_digit c"
  shows "c \<noteq> quote_char" "c \<noteq> CHR ''['' " "c \<noteq> CHR ''{''" "c \<noteq> CHR ''n''" "c \<noteq> CHR ''t''"
    "c \<noteq> CHR ''f''" "\<not> is_ws c"
  using assms digit_not_ws by (auto simp: is_digit_def quote_char_def)

lemma parse_value_number:
  assumes "parse_num frep t = Some (v, [])" and "delimited r" and "0 < n"
  shows "parse_value frep n (t @ r) = Some (v, r)"
proof -
  obtain c q where t: "t = c # q" and c: "c = CHR ''-'' \<or> is_digit c"
    by (rule parse_num_head [OF assms(1)])
  obtain m where "n = Suc m" using assms(3) by (cases n) auto
  moreover have "parse_literal frep (t @ r) = Some (v, r)"
    using number_head_simps [OF c] parse_num_append [OF assms(2,1)]
    by (auto simp: parse_literal_def t)
  ultimately show ?thesis using number_head_simps [OF c] t by simp
qed

text \<open>What a canonical text starts with: never white space, and never a closing bracket.\<close>

lemma dumps_raw_head:
  "wf_json frep v \<Longrightarrow>
   \<exists>c r. dumps_raw v = c # r \<and> \<not> is_ws c \<and> c \<noteq> CHR '']'' \<and> c \<noteq> CHR ''}''"
proof (cases v)
  case (JInt i)
  obtain c r where "show_int i = c # r" "c = CHR ''-'' \<or> is_digit c"
    by (rule parse_num_head [OF parse_num_show])
  with JInt number_head_simps(7) [of c] show ?thesis using not_digits by auto
next
  case (JFloat t)
  moreover assume "wf_json frep v"
  ultimately have "parse_num frep t = Some (JFloat t, [])" by simp
  then obtain c r where "t = c # r" "c = CHR ''-'' \<or> is_digit c"
    by (rule parse_num_head)
  with JFloat number_head_simps(7) [of c] show ?thesis using not_digits by auto
qed (auto simp: dumps_str_def quote_char_def is_ws_def)

lemma join_Cons: "join sep (x # xs) = x @ concat (map (\<lambda>y. sep @ y) xs)"
  by (induction xs arbitrary: x) auto

lemma need_length:
  "wf_json frep v \<Longrightarrow> need v \<le> length (dumps_raw v)"
  "list_all (wf_json frep) vs \<Longrightarrow> vs \<noteq> [] \<Longrightarrow>
     need_list vs \<le> Suc (length (join '','' (map dumps_raw vs)))"
  "list_all (\<lambda>(k, v). wf_json frep v) kvs \<Longrightarrow> kvs \<noteq> [] \<Longrightarrow>
     need_items kvs \<le> Suc (length (join '','' (map (\<lambda>(k, v). dumps_str k @ '':'' @ dumps_raw v) kvs)))"
proof (induction v and vs and kvs rule: need_need_list_need_items.induct)
  case (1 vs)
  then show ?case by (cases vs) auto
next
  case (2 kvs)
  then show ?case by (cases kvs) auto
next
  case (5 v vs)
  then show ?case by (cases vs) auto
next
  case (7 k v kvs)
  then show ?case by (cases kvs) auto
qed (use dumps_raw_head in \<open>fastforce+\<close>)

definition dumps_item :: "string \<times> json \<Rightarrow> string" where
  "dumps_item kv = dumps_str (fst kv) @ '':'' @ dumps_raw (snd kv)"

lemma dumps_raw_obj: "dumps_raw (JObj kvs) = ''{'' @ join '','' (map dumps_item kvs) @ ''}''"
proof -
  have "(\<lambda>(k, v). dumps_str k @ '':'' @ dumps_raw v) = dumps_item"
    by (auto simp: dumps_item_def)
  then show ?thesis by simp
qed

lemma dumps_item_head: "\<exists>q. dumps_item kv = quote_char # q"
  by (simp add: dumps_item_def dumps_str_def)

lemma dumps_str_Cons: "dumps_str s = quote_char # tl (dumps_str s)"
  by (simp add: dumps_str_def)

lemma parse_key:
  "parse_str (Suc (length (tl (dumps_str k)) + length r)) (tl (dumps_str k) @ r) = Some (k, r)"
  by (rule parse_str_dumps) (subst dumps_str_Cons, simp)

lemma parse_value_array:
  assumes "dumps_raw v = c # q" and "\<not> is_ws c" and "c \<noteq> CHR '']''"
    and "parse_elems frep n (join '','' (map dumps_raw (v # vs)) @ CHR '']'' # r) = Some (w, r)"
  shows "parse_value frep (Suc n) (dumps_raw (JArr (v # vs)) @ r) = Some (JArr w, r)"
proof -
  obtain q' where j: "join '','' (map dumps_raw (v # vs)) = c # q'"
    using assms(1) by (simp add: join_Cons)
  then show ?thesis using assms(2-4) by (simp add: j quote_char_def del: list.map)
qed

lemma parse_value_object:
  assumes "parse_items frep n (join '','' (map dumps_item (kv # kvs)) @ CHR ''}'' # r) = Some (w, r)"
  shows "parse_value frep (Suc n) (dumps_raw (JObj (kv # kvs)) @ r) = Some (JObj (dict_of w), r)"
proof -
  obtain q' where j: "join '','' (map dumps_item (kv # kvs)) = quote_char # q'"
    using dumps_item_head [of kv] by (auto simp: join_Cons)
  have n: "quote_char \<noteq> CHR ''}''" "CHR ''{'' \<noteq> quote_char" by (simp_all add: quote_char_def)
  show ?thesis using assms n by (simp add: dumps_raw_obj j del: list.map dumps_raw.simps)
qed

lemma parse_items_step:
  assumes v: "parse_value frep n (dumps_raw v @ d # r) = Some (v, d # r)"
    and h: "dumps_raw v = c # q" "\<not> is_ws c" and d: "\<not> is_ws d"
  shows "parse_items frep (Suc n) (dumps_item (k, v) @ d # r) =
         (if d = CHR ''}'' then Some ([(k, v)], r)
          else if d = CHR '','' then map_option (\<lambda>(kvs, q'). ((k, v) # kvs, q')) (parse_items frep n (skip_ws r))
          else None)"
proof -
  let ?s = "dumps_item (k, v) @ d # r"
  have s: "?s = quote_char # (tl (dumps_str k) @ CHR '':'' # dumps_raw v @ d # r)"
    using dumps_str_Cons [of k] by (simp add: dumps_item_def)
  then have l: "length ?s = Suc (length (tl (dumps_str k)) + length (CHR '':'' # dumps_raw v @ d # r))"
    by simp
  have "parse_str (length ?s) (tl (dumps_str k) @ CHR '':'' # dumps_raw v @ d # r)
        = Some (k, CHR '':'' # dumps_raw v @ d # r)"
    unfolding l by (rule parse_key)
  moreover have "skip_ws (dumps_raw v @ d # r) = dumps_raw v @ d # r" using h by simp
  ultimately show ?thesis using v d unfolding s by simp
qed

lemma parse_dumps:
  "wf_json frep v \<Longrightarrow> delimited r \<Longrightarrow> need v \<le> n \<Longrightarrow>
     parse_value frep n (dumps_raw v @ r) = Some (v, r)"
  "list_all (wf_json frep) vs \<Longrightarrow> vs \<noteq> [] \<Longrightarrow> need_list vs \<le> n \<Longrightarrow>
     parse_elems frep n (join '','' (map dumps_raw vs) @ CHR '']'' # r) = Some (vs, r)"
  "list_all (\<lambda>(k, v). wf_json frep v) kvs \<Longrightarrow> kvs \<noteq> [] \<Longrightarrow> need_items kvs \<le> n \<Longrightarrow>
     parse_items frep n (join '','' (map dumps_item kvs) @ CHR ''}'' # r) = Some (kvs, r)"
proof (induction v and vs and kvs arbitrary: n r and n r and n r rule: need_need_list_need_items.induct)
  case (1 vs)
  then obtain m where n: "n = Suc m" by (cases n) auto
  show ?case
  proof (cases vs)
    case Nil
    then show ?thesis by (simp add: n quote_char_def)
  next
    case (Cons v ws)
    with 1 n have "parse_elems frep m (join '','' (map dumps_raw vs) @ CHR '']'' # r) = Some (vs, r)"
      by simp
    moreover obtain c q where "dumps_raw v = c # q" "\<not> is_ws c" "c \<noteq> CHR '']''"
      using dumps_raw_head [of frep v] "1.prems" Cons by auto
    ultimately show ?thesis using parse_value_array [of v c q frep m ws r vs] n Cons by simp
  qed
next
  case (2 kvs)
  then obtain m where n: "n = Suc m" by (cases n) auto
  show ?case
  proof (cases kvs)
    case Nil
    then show ?thesis by (simp add: n quote_char_def)
  next
    case (Cons kv ws)
    with 2 n have "parse_items frep m (join '','' (map dumps_item kvs) @ CHR ''}'' # r) = Some (kvs, r)"
      by simp
    with parse_value_object [of frep m kv ws r kvs] n Cons "2.prems" show ?thesis
      by (simp add: dict_of_distinct)
  qed
next
  case "3_1"
  then show ?case by (cases n) (simp_all add: quote_char_def parse_literal_def)
next
  case "3_2"
  then show ?case by (cases n) (auto simp: quote_char_def parse_literal_def)
next
  case "3_3"
  then show ?case by (simp add: parse_value_number parse_num_show)
next
  case "3_4"
  then show ?case by (simp add: parse_value_number)
next
  case "3_5"
  then obtain m where n: "n = Suc m" by (cases n) auto
  have d: "dumps_raw (JStr t) @ r = quote_char # (tl (dumps_str t) @ r)" for t
    using dumps_str_Cons [of t] by simp
  have p: "parse_value frep (Suc m) (dumps_raw (JStr t) @ r) = Some (JStr t, r)" for t
    using parse_key [of t r] by (simp add: d del: dumps_raw.simps)
  show ?case unfolding n by (rule p)
next
  case 4
  then show ?case by simp
next
  case (5 v vs)
  then obtain m where n: "n = Suc m" by (cases n) auto
  have v: "parse_value frep m (dumps_raw v @ d # q) = Some (v, d # q)" if "delimited (d # q)" for d q
    using 5 n that by simp
  show ?case
  proof (cases vs)
    case Nil
    then show ?thesis using v by (simp add: n)
  next
    case (Cons w ws)
    obtain c q where "dumps_raw w = c # q" "\<not> is_ws c"
      using dumps_raw_head [of frep w] "5.prems" Cons by auto
    then have "skip_ws (join '','' (map dumps_raw vs) @ CHR '']'' # r)
               = join '','' (map dumps_raw vs) @ CHR '']'' # r"
      using Cons by (simp add: join_Cons)
    moreover have "parse_elems frep m (join '','' (map dumps_raw vs) @ CHR '']'' # r) = Some (vs, r)"
      using 5 n Cons by simp
    ultimately show ?thesis using v Cons by (simp add: n)
  qed
next
  case 6
  then show ?case by simp
next
  case (7 k v kvs)
  then obtain m where n: "n = Suc m" by (cases n) auto
  have v: "parse_value frep m (dumps_raw v @ d # q) = Some (v, d # q)" if "delimited (d # q)" for d q
    using 7 n that by simp
  obtain c q where h: "dumps_raw v = c # q" "\<not> is_ws c"
    using dumps_raw_head [of frep v] "7.prems" by auto
  show ?case
  proof (cases kvs)
    case Nil
    then show ?thesis using parse_items_step [OF v h, of "CHR ''}''" r k] by (simp add: n)
  next
    case (Cons w ws)
    let ?rest = "join '','' (map dumps_item kvs) @ CHR ''}'' # r"
    have "skip_ws ?rest = ?rest"
      using Cons dumps_item_head [of w] by (auto simp: join_Cons)
    moreover have "parse_items frep m ?rest = Some (kvs, r)"
      using 7 n Cons by simp
    moreover have "join '','' (map dumps_item ((k, v) # kvs)) @ CHR ''}'' # r
        = dumps_item (k, v) @ CHR '','' # ?rest"
      using Cons by simp
    ultimately show ?thesis
      using parse_items_step [OF v h, of "CHR '',''" ?rest k] by (simp add: n del: list.map join.simps)
  qed
qed

subsection \<open>Sorting of keys\<close>

lemma sort_items_set [simp]: "set (sort_items kvs) = set kvs"
  by (simp add: sort_items_def)

lemma sort_items_distinct [simp]: "distinct (map fst (sort_items kvs)) \<longleftrightarrow> distinct (map fst kvs)"
  by (metis mset_eq_imp_distinct_iff mset_map mset_sort sort_items_def)

lemma sort_items_sorted: "sorted (map fst (sort_items kvs))"
  by (simp add: sort_items_def)

lemma sort_items_idem [simp]: "sort_items (sort_items kvs) = sort_items kvs"
  unfolding sort_items_def by (rule sort_key_id_if_sorted) simp

lemma sort_items_perm:
  "mset kvs = mset lvs \<Longrightarrow> distinct (map fst kvs) \<Longrightarrow> sort_items kvs = sort_items lvs"
  unfolding sort_items_def
  by (rule sort_key_inj_key_eq) (auto simp: distinct_map)

lemma sort_items_map:
  assumes "\<And>kv. fst (f kv) = fst kv"
  shows "sort_items (map f kvs) = map f (sort_items kvs)"
proof -
  have ins: "insort_key fst (f x) (map f xs) = map f (insort_key fst x xs)" for x xs
    using assms by (induction xs) auto
  show ?thesis unfolding sort_items_def by (induction kvs) (auto simp: ins)
qed

lemma sort_keys_wf: "wf_json frep v \<Longrightarrow> wf_json frep (sort_keys v)"
proof (induction v rule: sort_keys.induct)
  case (2 kvs)
  then have "wf_json frep (sort_keys (snd kv))" if "kv \<in> set kvs" for kv
    using that by (cases kv) (force simp: list_all_iff)
  moreover have "map fst (map (\<lambda>(k, v). (k, sort_keys v)) kvs) = map fst kvs"
    by (induction kvs) auto
  moreover have "distinct (map fst kvs)" using "2.prems" by simp
  ultimately show ?case by (auto simp: list_all_iff simp del: map_map)
qed (auto simp: list_all_iff)

lemma sort_keys_idem [simp]: "sort_keys (sort_keys v) = sort_keys v"
proof (induction v rule: sort_keys.induct)
  case (2 kvs)
  have "sort_keys (sort_keys (snd kv)) = sort_keys (snd kv)" if "kv \<in> set kvs" for kv
    using 2 [OF that, of "fst kv" "snd kv"] by simp
  then have "map (\<lambda>(k, v). (k, sort_keys v)) (map (\<lambda>(k, v). (k, sort_keys v)) kvs)
        = map (\<lambda>(k, v). (k, sort_keys v)) kvs"
    by (auto simp: split_beta)
  then show ?case
    by (simp add: sort_items_map [symmetric] split_beta del: map_map)
qed auto

lemma dumps_sort_keys [simp]: "dumps (sort_keys v) = dumps v"
  by (simp add: dumps_def)

subsection \<open>The round trip\<close>

text \<open>Loading the canonical text of a value gives the value with sorted keys.\<close>

lemma json_loads_canonical:
  assumes "wf_json frep v"
  shows "json_loads frep (dumps v) = Some (sort_keys v)"
proof -
  let ?w = "sort_keys v"
  have w: "wf_json frep ?w" using assms by (rule sort_keys_wf)
  obtain c r where h: "dumps_raw ?w = c # r" "\<not> is_ws c"
    using dumps_raw_head [OF w] by blast
  have "need ?w \<le> length (dumps_raw ?w)" using w by (rule need_length)
  then have "parse_value frep (Suc (2 * length (dumps_raw ?w))) (dumps_raw ?w @ []) = Some (?w, [])"
    by (intro parse_dumps(1) w) auto
  then show ?thesis using h by (simp add: json_loads_def dumps_def)
qed

lemma dumps_inj:
  assumes "wf_json frep v" and "wf_json frep w" and "dumps v = dumps w"
  shows "sort_keys v = sort_keys w"
  using json_loads_canonical [OF assms(1)] json_loads_canonical [OF assms(2)] assms(3) by simp

text \<open>C34: the canonical serialization loses nothing. Loading the text that \<open>canonical_json\<close> writes
  for a value gives back the value, its object keys in sorted order.\<close>

theorem canonical_round_trip:
  assumes "normalize obj = Inr v" and "wf_json frep v"
  shows "\<exists>t. canonical_json obj = Inr t \<and> json_loads frep t = Some (sort_keys v)"
  using assms json_loads_canonical [of frep v] by (simp add: canonical_json_def)

theorem canonical_round_trip_witness:
  "\<exists>t. canonical_json (PyDict [(KStr ''b'', PyFloat (Finite ''1.5'')),
                                    (KInt 1, PyList [PyNone, PyStr [quote_char, CHR 0x0A]])]) = Inr t
     \<and> json_loads (\<lambda>s. s) t
       = Some (JObj [(''1'', JArr [JNull, JStr [quote_char, CHR 0x0A]]), (''b'', JFloat ''1.5'')])"
proof -
  let ?v = "JObj [(''b'', JFloat ''1.5''), (''1'', JArr [JNull, JStr [quote_char, CHR 0x0A]])]"
  have n: "normalize (PyDict [(KStr ''b'', PyFloat (Finite ''1.5'')),
      (KInt 1, PyList [PyNone, PyStr [quote_char, CHR 0x0A]])]) = Inr ?v" by code_simp
  have w: "wf_json (\<lambda>s. s) ?v" by code_simp
  have s: "sort_keys ?v = JObj [(''1'', JArr [JNull, JStr [quote_char, CHR 0x0A]]), (''b'', JFloat ''1.5'')]"
    by code_simp
  show ?thesis using canonical_round_trip [OF n w] unfolding s .
qed

text \<open>Two values have the same canonical text, and so the same input of the payload hash, if
  and only if they are equal up to the order of object keys.\<close>

theorem canonical_json_injective:
  assumes "normalize a = Inr v" and "normalize b = Inr w" and "wf_json frep v" and "wf_json frep w"
  shows "canonical_json a = canonical_json b \<longleftrightarrow> sort_keys v = sort_keys w"
  using assms dumps_inj [of frep v w] by (auto simp: canonical_json_def dumps_def)

theorem canonical_json_injective_witness:
  "canonical_json (PyDict [(KStr ''x'', PyInt 1), (KStr ''a'', PyBool True)])
   = canonical_json (PyDict [(KStr ''a'', PyBool True), (KStr ''x'', PyInt 1)])"
proof -
  have n1: "normalize (PyDict [(KStr ''x'', PyInt 1), (KStr ''a'', PyBool True)])
            = Inr (JObj [(''x'', JInt 1), (''a'', JBool True)])" by code_simp
  have n2: "normalize (PyDict [(KStr ''a'', PyBool True), (KStr ''x'', PyInt 1)])
            = Inr (JObj [(''a'', JBool True), (''x'', JInt 1)])" by code_simp
  show ?thesis
    by (rule canonical_json_injective [OF n1 n2, of "\<lambda>s. s", THEN iffD2]) code_simp+
qed

end
