(* ===== verification/Clock.thy ===== *)
theory Clock
  imports Json_Parse
begin

section \<open>Instants and time stamps\<close>

text \<open>
  The package writes every instant as \<open>datetime.now(UTC).strftime("%Y-%m-%dT%H:%M:%S.%f") + "Z"\<close> and
  compares the resulting strings (in SQL, and in Python for policy validity). Here an instant is
  the number of microseconds since the start of year 1, as Python's proleptic Gregorian
  \<open>datetime\<close> counts it, and \<open>iso_utc\<close> is that format. The lemmas show what the package relies
  on: all stamps have the same length, and stamps are ordered as strings exactly as the instants
  are, so that a comparison of strings decides expiry. Years are between 1000 and 9999 in use;
  \<open>strftime\<close> pads them to four digits there.
\<close>

definition leap :: "nat \<Rightarrow> bool" where
  "leap y \<longleftrightarrow> y mod 4 = 0 \<and> (y mod 100 \<noteq> 0 \<or> y mod 400 = 0)"

definition days_before_year :: "nat \<Rightarrow> nat" where
  "days_before_year y = (y - 1) * 365 + (y - 1) div 4 - (y - 1) div 100 + (y - 1) div 400"

definition month_lengths :: "nat \<Rightarrow> nat list" where
  "month_lengths y = [31, if leap y then 29 else 28, 31, 30, 31, 30, 31, 31, 30, 31, 30, 31]"

definition days_before_month :: "nat \<Rightarrow> nat \<Rightarrow> nat" where
  "days_before_month y m = sum_list (take (m - 1) (month_lengths y))"

text \<open>The year and the month of a day number: the last one that does not start after it.\<close>

definition year_of :: "nat \<Rightarrow> nat" where
  "year_of dn = length (takeWhile (\<lambda>y. days_before_year y \<le> dn) [1..<10000])"

definition month_of :: "nat \<Rightarrow> nat \<Rightarrow> nat" where
  "month_of y doy = length (takeWhile (\<lambda>m. days_before_month y m \<le> doy) [1..<13])"

definition day_micros :: nat where
  "day_micros = 86400000000"

text \<open>The fields of \<open>datetime\<close>: year, month, day and the microsecond of the day.\<close>

definition civil :: "nat \<Rightarrow> nat \<times> nat \<times> nat \<times> nat" where
  "civil t =
     (let dn = t div day_micros; y = year_of dn; doy = dn - days_before_year y; m = month_of y doy
      in (y, m, doy - days_before_month y m + 1, t mod day_micros))"

definition datetime_of :: "nat \<Rightarrow> datetime" where
  "datetime_of t = (case civil t of (y, m, d, us) \<Rightarrow>
     \<lparr> year = y, month = m, day = d, hour = us div 3600000000, minute = us div 60000000 mod 60,
       second = us div 1000000 mod 60, microsecond = us mod 1000000 \<rparr>)"

definition iso_utc :: "nat \<Rightarrow> string" where
  "iso_utc t = normalize_datetime (datetime_of t)"

text \<open>The instant of valid fields, and \<open>datetime.strptime(s, "%Y-%m-%dT%H:%M:%S.%fZ")\<close>: every field has
  at least one and at most its number of digits (the year exactly four), the day may be a blank
  and a digit, letters match in either case, and the fields must make a valid \<open>datetime\<close>.\<close>

definition of_civil :: "nat \<Rightarrow> nat \<Rightarrow> nat \<Rightarrow> nat \<Rightarrow> nat" where
  "of_civil y m d us = (days_before_year y + days_before_month y m + (d - 1)) * day_micros + us"

definition sep_matches :: "char \<Rightarrow> char \<Rightarrow> bool" where
  "sep_matches sep c \<longleftrightarrow> c = sep \<or> (sep = CHR ''T'' \<and> c = CHR ''t'') \<or> (sep = CHR ''Z'' \<and> c = CHR ''z'')"

definition digits_field :: "nat \<Rightarrow> nat \<Rightarrow> char \<Rightarrow> string \<Rightarrow> (string \<times> string) option" where
  "digits_field lo hi sep s =
     (let ds = takeWhile is_digit s in
      case dropWhile is_digit s of
        [] \<Rightarrow> None
      | c # r \<Rightarrow> (if lo \<le> length ds \<and> length ds \<le> hi \<and> sep_matches sep c then Some (ds, r) else None))"

definition day_field :: "string \<Rightarrow> (string \<times> string) option" where
  "day_field s = (case s of
     [] \<Rightarrow> None
   | c # r \<Rightarrow> (if c = CHR '' '' then digits_field 1 1 CHR ''T'' r else digits_field 1 2 CHR ''T'' s))"

definition valid_fields :: "nat \<Rightarrow> nat \<Rightarrow> nat \<Rightarrow> nat \<Rightarrow> nat \<Rightarrow> nat \<Rightarrow> bool" where
  "valid_fields y m d hh mi se \<longleftrightarrow>
     1 \<le> y \<and> 1 \<le> m \<and> m \<le> 12 \<and> 1 \<le> d \<and> d \<le> month_lengths y ! (m - 1) \<and> hh < 24 \<and> mi < 60 \<and> se < 60"

definition micros :: "string \<Rightarrow> nat" where
  "micros ds = nat_of_digits ds * 10 ^ (6 - length ds)"

definition strptime_utc :: "string \<Rightarrow> nat option" where
  "strptime_utc s =
     Option.bind (digits_field 4 4 CHR ''-'' s) (\<lambda>(y, s).
     Option.bind (digits_field 1 2 CHR ''-'' s) (\<lambda>(m, s).
     Option.bind (day_field s) (\<lambda>(d, s).
     Option.bind (digits_field 1 2 CHR '':'' s) (\<lambda>(hh, s).
     Option.bind (digits_field 1 2 CHR '':'' s) (\<lambda>(mi, s).
     Option.bind (digits_field 1 2 CHR ''.'' s) (\<lambda>(se, s).
     Option.bind (digits_field 1 6 CHR ''Z'' s) (\<lambda>(us, s).
       let n = nat_of_digits in
       if s = [] \<and> valid_fields (n y) (n m) (n d) (n hh) (n mi) (n se)
       then Some (of_civil (n y) (n m) (n d)
              (((n hh * 60 + n mi) * 60 + n se) * 1000000 + micros us))
       else None)))))))"

text \<open>From the year 1000 to the year 9999, the last one that \<open>datetime\<close> has, the year has four digits.\<close>

definition representable :: "nat \<Rightarrow> bool" where
  "representable t \<longleftrightarrow>
     days_before_year 1000 \<le> t div day_micros \<and> t div day_micros < days_before_year 10000"

subsection \<open>Strings of equal length\<close>

lemma append_less_iff:
  fixes xs ys us vs :: string
  assumes "length xs = length ys"
  shows "xs @ us < ys @ vs \<longleftrightarrow> xs < ys \<or> xs = ys \<and> us < vs"
  using assms by (induction xs ys rule: list_induct2) auto

text \<open>A number in decimal, padded with zeros to the given width.\<close>

fun padded :: "nat \<Rightarrow> nat \<Rightarrow> string" where
  "padded 0 n = []"
| "padded (Suc w) n = padded w (n div 10) @ [digit_char (n mod 10)]"

lemma length_padded [simp]: "length (padded w n) = w"
  by (induction w arbitrary: n) auto

lemma of_char_digit: "d < 10 \<Longrightarrow> (of_char (digit_char d) :: nat) = 48 + d"
  by (simp add: digit_char_def)

lemma digit_char_less: "a < 10 \<Longrightarrow> b < 10 \<Longrightarrow> digit_char a < digit_char b \<longleftrightarrow> a < b"
  by (simp add: less_char_def of_char_digit)

lemma digit_char_eq: "a < 10 \<Longrightarrow> b < 10 \<Longrightarrow> digit_char a = digit_char b \<longleftrightarrow> a = b"
  by (metis of_char_digit add_left_cancel)

lemma padded_eq: "a < 10 ^ w \<Longrightarrow> b < 10 ^ w \<Longrightarrow> padded w a = padded w b \<longleftrightarrow> a = b"
proof (induction w arbitrary: a b)
  case (Suc w)
  then have "a div 10 < 10 ^ w" "b div 10 < 10 ^ w" by (simp_all add: div_less_iff_less_mult mult.commute)
  with Suc.IH have "padded (Suc w) a = padded (Suc w) b \<longleftrightarrow> a div 10 = b div 10 \<and> a mod 10 = b mod 10"
    by (simp add: digit_char_eq)
  also have "\<dots> \<longleftrightarrow> a = b" by (metis div_mult_mod_eq)
  finally show ?case .
qed simp

lemma last_digit_less:
  "a div 10 < b div 10 \<or> a div 10 = b div 10 \<and> a mod 10 < b mod 10 \<longleftrightarrow> a < (b :: nat)"
proof -
  have "r < 10 \<Longrightarrow> r' < 10 \<Longrightarrow> (q < q' \<or> q = q' \<and> r < r') = (q * 10 + r < q' * 10 + r')"
    for q r q' r' :: nat by auto
  from this [of "a mod 10" "b mod 10" "a div 10" "b div 10"] show ?thesis by simp
qed

lemma padded_less: "a < 10 ^ w \<Longrightarrow> b < 10 ^ w \<Longrightarrow> padded w a < padded w b \<longleftrightarrow> a < b"
proof (induction w arbitrary: a b)
  case (Suc w)
  then have d: "a div 10 < 10 ^ w" "b div 10 < 10 ^ w" by (simp_all add: div_less_iff_less_mult mult.commute)
  with Suc.IH padded_eq [OF d]
  have "padded (Suc w) a < padded (Suc w) b
        \<longleftrightarrow> a div 10 < b div 10 \<or> a div 10 = b div 10 \<and> a mod 10 < b mod 10"
    by (simp add: append_less_iff digit_char_less)
  also have "\<dots> \<longleftrightarrow> a < b" by (simp only: last_digit_less)
  finally show ?case .
qed simp

text \<open>One field of a stamp: fixed width, then the rest.\<close>

lemma field_less:
  "a < 10 ^ w \<Longrightarrow> b < 10 ^ w \<Longrightarrow>
   padded w a @ us < padded w b @ vs \<longleftrightarrow> a < b \<or> a = b \<and> us < vs"
  by (simp add: append_less_iff padded_less padded_eq)

lemma separator_less: "(c # us :: string) < c # vs \<longleftrightarrow> us < vs"
  by simp

subsection \<open>The calendar\<close>

lemma takeWhile_upt_mono:
  assumes "\<And>i. P i \<Longrightarrow> Q i"
  shows "length (takeWhile P [a..<b]) \<le> length (takeWhile Q [a..<b])"
proof -
  have "length (takeWhile P xs) \<le> length (takeWhile Q xs)" for xs
    using assms by (induction xs) auto
  then show ?thesis .
qed

lemma takeWhile_upt_last:
  assumes "length (takeWhile P [1..<n]) = k" and "0 < k"
  shows "P k"
proof -
  have k: "k \<le> length [1..<n]" using assms(1) length_takeWhile_le by blast
  have "takeWhile P [1..<n] ! (k - 1) = [1..<n] ! (k - 1)"
    using assms by (intro takeWhile_nth) simp
  also have "\<dots> = k" using assms(2) k by simp
  finally have "k = takeWhile P [1..<n] ! (k - 1)" by simp
  then have "k \<in> set (takeWhile P [1..<n])" using assms by (metis diff_less nth_mem zero_less_one)
  then show ?thesis using set_takeWhileD by fastforce
qed

lemma takeWhile_upt_next:
  assumes "length (takeWhile P [1..<n]) = k" and "Suc k < n"
  shows "\<not> P (Suc k)"
proof -
  have "length (takeWhile P [1..<n]) < length [1..<n]" using assms by simp
  from nth_length_takeWhile [OF this] assms show ?thesis by simp
qed

lemma year_of_bounds:
  "1 \<le> year_of dn" "year_of dn < 10000" "days_before_year (year_of dn) \<le> dn"
proof -
  have "[1..<10000] = 1 # [Suc 1..<10000]" by (rule upt_conv_Cons) simp
  then show "1 \<le> year_of dn" by (simp add: year_of_def days_before_year_def)
  have "year_of dn \<le> length [1..<10000]" unfolding year_of_def by (rule length_takeWhile_le)
  then show "year_of dn < 10000" by simp
  show "days_before_year (year_of dn) \<le> dn"
    using takeWhile_upt_last [OF year_of_def [symmetric]] \<open>1 \<le> year_of dn\<close> by simp
qed

lemma year_of_mono: "a \<le> b \<Longrightarrow> year_of a \<le> year_of b"
  unfolding year_of_def by (rule takeWhile_upt_mono) simp

lemma month_of_bounds:
  "1 \<le> month_of y doy" "month_of y doy \<le> 12" "days_before_month y (month_of y doy) \<le> doy"
proof -
  have "[1..<13] = 1 # [Suc 1..<13]" by (rule upt_conv_Cons) simp
  then show "1 \<le> month_of y doy" by (simp add: month_of_def days_before_month_def)
  have "month_of y doy \<le> length [1..<13]" unfolding month_of_def by (rule length_takeWhile_le)
  then show "month_of y doy \<le> 12" by simp
  show "days_before_month y (month_of y doy) \<le> doy"
    using takeWhile_upt_last [OF month_of_def [symmetric]] \<open>1 \<le> month_of y doy\<close> by simp
qed

lemma month_of_mono: "a \<le> b \<Longrightarrow> month_of y a \<le> month_of y b"
  unfolding month_of_def by (rule takeWhile_upt_mono) simp

lemma year_of_next: "year_of dn < 9999 \<Longrightarrow> dn < days_before_year (Suc (year_of dn))"
  using takeWhile_upt_next [of "\<lambda>y. days_before_year y \<le> dn" 10000 "year_of dn"]
  by (simp add: year_of_def)

lemma month_of_next: "month_of y doy < 12 \<Longrightarrow> doy < days_before_month y (Suc (month_of y doy))"
  using takeWhile_upt_next [of "\<lambda>m. days_before_month y m \<le> doy" 13 "month_of y doy"]
  by (simp add: month_of_def)

lemma days_before_year_next:
  assumes "1 \<le> y"
  shows "days_before_year (Suc y) = days_before_year y + (if leap y then 366 else 365)"
proof -
  obtain z where y: "y = Suc z" using assms by (cases y) auto
  have m: "y mod 100 = 0 \<Longrightarrow> y mod 4 = 0" "y mod 400 = 0 \<Longrightarrow> y mod 100 = 0" by presburger+
  have d: "y div k = z div k + (if y mod k = 0 then 1 else 0)" for k :: nat
    unfolding y by (simp add: div_Suc)
  define a b c where "a = z div 4" and "b = z div 100" and "c = z div 400"
  have z: "b \<le> z" "y * 365 = z * 365 + 365" unfolding y b_def by simp_all
  have e: "days_before_year (Suc y) = y * 365 + y div 4 - y div 100 + y div 400"
    "days_before_year y = z * 365 + a - b + c"
    by (simp_all add: days_before_year_def y a_def b_def c_def)
  show ?thesis
    unfolding e z(2) d [of 4] d [of 100] d [of 400] leap_def a_def [symmetric] b_def [symmetric]
      c_def [symmetric]
    using m z(1) by (cases "y mod 4 = 0"; cases "y mod 100 = 0"; cases "y mod 400 = 0") simp_all
qed

lemma days_before_year_Suc:
  "1 \<le> y \<Longrightarrow> days_before_year y \<le> days_before_year (Suc y)
          \<and> days_before_year (Suc y) \<le> days_before_year y + 366"
  by (simp add: days_before_year_next)

lemma days_before_year_mono: "1 \<le> a \<Longrightarrow> a \<le> b \<Longrightarrow> days_before_year a \<le> days_before_year b"
proof (induction b)
  case (Suc b)
  then show ?case using days_before_year_Suc [of b] by (cases "a = Suc b") auto
qed simp

lemma year_of_ge:
  assumes "1 \<le> y" and "y < 10000" and "days_before_year y \<le> dn"
  shows "y \<le> year_of dn"
proof (rule ccontr)
  assume "\<not> y \<le> year_of dn"
  then have "days_before_year (Suc (year_of dn)) \<le> days_before_year y" and "year_of dn < 9999"
    using assms(2) by (auto intro: days_before_year_mono)
  with year_of_next assms(3) show False by fastforce
qed

definition in_range :: "nat \<Rightarrow> bool" where
  "in_range dn \<longleftrightarrow> days_before_year 1000 \<le> dn \<and> dn < days_before_year 10000"

definition day_of_year :: "nat \<Rightarrow> nat" where
  "day_of_year dn = dn - days_before_year (year_of dn)"

definition month_no :: "nat \<Rightarrow> nat" where
  "month_no dn = month_of (year_of dn) (day_of_year dn)"

definition day_of_month :: "nat \<Rightarrow> nat" where
  "day_of_month dn = day_of_year dn - days_before_month (year_of dn) (month_no dn) + 1"

lemma doy_bound:
  assumes "in_range dn"
  shows "day_of_year dn < (if leap (year_of dn) then 366 else 365)"
proof -
  have "dn < days_before_year (Suc (year_of dn))"
  proof (cases "year_of dn < 9999")
    case True
    then show ?thesis by (rule year_of_next)
  next
    case False
    then have "Suc (year_of dn) = 10000" using year_of_bounds(2) [of dn] by simp
    with assms show ?thesis by (simp add: in_range_def)
  qed
  then show ?thesis
    using days_before_year_next [OF year_of_bounds(1), of dn] year_of_bounds(3) [of dn]
    unfolding day_of_year_def by linarith
qed

lemma days_before_month_next:
  assumes "1 \<le> m" and "m \<le> 12"
  shows "days_before_month y (Suc m) = days_before_month y m + month_lengths y ! (m - 1)"
proof -
  have "length (month_lengths y) = 12" by (simp add: month_lengths_def)
  with assms have "take (Suc (m - 1)) (month_lengths y) = take (m - 1) (month_lengths y) @ [month_lengths y ! (m - 1)]"
    by (intro take_Suc_conv_app_nth) simp
  with assms(1) show ?thesis by (simp add: days_before_month_def)
qed

lemma month_length_31: "i < 12 \<Longrightarrow> month_lengths y ! i \<le> 31"
proof -
  assume "i < 12"
  then have "month_lengths y ! i \<in> set (month_lengths y)" by (intro nth_mem) (simp add: month_lengths_def)
  then show ?thesis by (auto simp: month_lengths_def)
qed

lemma day_bound:
  assumes "in_range dn"
  shows "1 \<le> month_no dn" "month_no dn \<le> 12" "1 \<le> day_of_month dn"
    and "day_of_month dn \<le> month_lengths (year_of dn) ! (month_no dn - 1)" "day_of_month dn \<le> 31"
proof -
  let ?m = "month_no dn" and ?y = "year_of dn"
  show m: "1 \<le> ?m" "?m \<le> 12" unfolding month_no_def by (rule month_of_bounds)+
  have "day_of_year dn < days_before_month ?y (Suc ?m)"
  proof (cases "?m < 12")
    case True
    then show ?thesis unfolding month_no_def by (rule month_of_next)
  next
    case False
    with m have "Suc ?m = 13" by simp
    moreover have "days_before_month ?y 13 = (if leap ?y then 366 else 365)"
      by (simp add: days_before_month_def month_lengths_def)
    ultimately show ?thesis using doy_bound [OF assms] by simp
  qed
  then have "day_of_year dn < days_before_month ?y ?m + month_lengths ?y ! (?m - 1)"
    unfolding days_before_month_next [OF m] .
  moreover have "days_before_month ?y ?m \<le> day_of_year dn"
    unfolding month_no_def by (rule month_of_bounds)
  moreover have "k \<le> i \<Longrightarrow> i < k + l \<Longrightarrow> i - k + 1 \<le> l" for i k l :: nat by arith
  ultimately show d: "day_of_month dn \<le> month_lengths ?y ! (?m - 1)"
    unfolding day_of_month_def by blast
  have "?m - 1 < 12" using m by simp
  with d month_length_31 [of "?m - 1" ?y] show "day_of_month dn \<le> 31" by linarith
  show "1 \<le> day_of_month dn" by (simp add: day_of_month_def)
qed

text \<open>The order of two days is the lexicographic order of their year, month and day.\<close>

lemma civil_less_mono:
  assumes "in_range a" and "in_range b" and "a < b"
  shows "year_of a < year_of b \<or> year_of a = year_of b \<and>
    (month_no a < month_no b \<or> month_no a = month_no b \<and> day_of_month a < day_of_month b)"
proof (cases "year_of a = year_of b")
  case False
  then show ?thesis using year_of_mono [of a b] assms(3) by simp
next
  case True
  then have doy: "day_of_year a < day_of_year b"
    using assms(3) year_of_bounds(3) [of a] unfolding day_of_year_def by simp
  then have m: "month_no a \<le> month_no b"
    unfolding month_no_def True using month_of_mono by simp
  have "day_of_month a < day_of_month b" if "month_no a = month_no b"
    using doy True that month_of_bounds(3) [of "year_of b" "day_of_year a"]
    unfolding day_of_month_def month_no_def by (simp add: diff_less_mono)
  with True m show ?thesis by auto
qed

lemma civil_less_iff:
  assumes "in_range a" and "in_range b"
  shows "a < b \<longleftrightarrow> year_of a < year_of b \<or> year_of a = year_of b \<and>
    (month_no a < month_no b \<or> month_no a = month_no b \<and> day_of_month a < day_of_month b)"
  using civil_less_mono [OF assms] civil_less_mono [OF assms(2,1)] by (cases a b rule: linorder_cases) auto

lemma civil_inj:
  assumes "in_range a" and "in_range b"
  shows "a = b \<longleftrightarrow> year_of a = year_of b \<and> month_no a = month_no b \<and> day_of_month a = day_of_month b"
  using civil_less_mono [OF assms] civil_less_mono [OF assms(2,1)] by (cases a b rule: linorder_cases) auto

lemma civil_eq:
  "civil t = (year_of (t div day_micros), month_no (t div day_micros), day_of_month (t div day_micros),
              t mod day_micros)"
  by (simp add: civil_def Let_def month_no_def day_of_month_def day_of_year_def)

subsection \<open>The order of stamps\<close>

lemma quotient_less:
  assumes "0 < k"
  shows "a < b \<longleftrightarrow> a div k < b div k \<or> a div k = b div k \<and> a mod k < (b mod k :: nat)"
proof -
  have *: "(q < q' \<or> q = q' \<and> r < r') = (q * k + r < q' * k + r')" if "r < k" "r' < k" for q r q' r'
  proof (cases q q' rule: linorder_cases)
    case less
    then have "Suc q * k \<le> q' * k" by (intro mult_le_mono1) simp
    with less that show ?thesis by simp
  next
    case greater
    then have "Suc q' * k \<le> q * k" by (intro mult_le_mono1) simp
    with greater that show ?thesis by simp
  qed simp
  from * [of "a mod k" "b mod k" "a div k" "b div k"] assms show ?thesis by simp
qed

text \<open>The time of day, as hour, minute, second and microsecond.\<close>

lemma clock_less:
  "a < b \<longleftrightarrow> a div 3600000000 < b div 3600000000 \<or> a div 3600000000 = b div 3600000000 \<and>
     (a div 60000000 mod 60 < b div 60000000 mod 60 \<or> a div 60000000 mod 60 = b div 60000000 mod 60 \<and>
      (a div 1000000 mod 60 < b div 1000000 mod 60 \<or> a div 1000000 mod 60 = b div 1000000 mod 60 \<and>
       a mod 1000000 < (b mod 1000000 :: nat)))"
proof -
  have d: "x div 1000000 div 60 = x div 60000000" "x div 60000000 div 60 = x div 3600000000"
    for x :: nat by (simp_all flip: div_mult2_eq)
  have "a < b \<longleftrightarrow> a div 1000000 < b div 1000000 \<or> a div 1000000 = b div 1000000
      \<and> a mod 1000000 < b mod 1000000"
    by (rule quotient_less) simp
  moreover have "a div 1000000 < b div 1000000 \<longleftrightarrow> a div 60000000 < b div 60000000 \<or>
      a div 60000000 = b div 60000000 \<and> a div 1000000 mod 60 < b div 1000000 mod 60"
    using quotient_less [of 60 "a div 1000000" "b div 1000000"] unfolding d by simp
  moreover have "a div 60000000 < b div 60000000 \<longleftrightarrow> a div 3600000000 < b div 3600000000 \<or>
      a div 3600000000 = b div 3600000000 \<and> a div 60000000 mod 60 < b div 60000000 mod 60"
    using quotient_less [of 60 "a div 60000000" "b div 60000000"] unfolding d by simp
  moreover have "x = y \<longleftrightarrow> x div 60 = y div 60 \<and> x mod 60 = y mod 60" for x y :: nat
    by (metis div_mult_mod_eq)
  note this [of "a div 1000000" "b div 1000000"] this [of "a div 60000000" "b div 60000000"]
  ultimately show ?thesis unfolding d by blast
qed

lemma padded_zero: "padded w 0 = replicate w CHR ''0''"
proof (induction w)
  case (Suc w)
  have "digit_char 0 = CHR ''0''" by code_simp
  with Suc show ?case by (simp add: replicate_append_same)
qed simp

lemma pad_padded: "n < 10 ^ Suc w \<Longrightarrow> pad (Suc w) n = padded (Suc w) n"
proof (induction w arbitrary: n)
  case 0
  then show ?case by (simp add: pad_def show_nat.simps [of n])
next
  case (Suc w)
  show ?case
  proof (cases "n < 10")
    case True
    then show ?thesis
      by (simp add: pad_def show_nat.simps [of n] padded_zero replicate_append_same digit_char_def)
  next
    case False
    have "n div 10 < 10 ^ Suc w" using Suc.prems by (simp add: div_less_iff_less_mult mult.commute)
    from Suc.IH [OF this] have "pad (Suc w) (n div 10) = padded (Suc w) (n div 10)" .
    moreover have "pad (Suc (Suc w)) n = pad (Suc w) (n div 10) @ [digit_char (n mod 10)]"
      using False by (simp add: pad_def show_nat.simps [of n])
    ultimately show ?thesis by simp
  qed
qed

lemma show_nat_length: "10 ^ k \<le> n \<Longrightarrow> k < length (show_nat n)"
proof (induction k arbitrary: n)
  case 0
  then show ?case by (simp add: show_nat.simps [of n])
next
  case (Suc k)
  have "(1 :: nat) \<le> 10 ^ k" by simp
  with Suc.prems have "\<not> n < 10" unfolding power_Suc by linarith
  moreover from Suc.prems have "10 ^ k \<le> n div 10"
    by (simp add: less_eq_div_iff_mult_less_eq mult.commute)
  ultimately show ?case using Suc.IH by (simp add: show_nat.simps [of n])
qed

lemma show_year:
  assumes "1000 \<le> y" and "y < 10000"
  shows "show_nat y = padded 4 y"
proof -
  have "3 < length (show_nat y)" by (rule show_nat_length) (use assms in simp)
  then have "show_nat y = pad (Suc 3) y" by (simp add: pad_def)
  also have "\<dots> = padded (Suc 3) y" by (rule pad_padded) (use assms in simp)
  finally show ?thesis by simp
qed

lemma pad2: "n < 100 \<Longrightarrow> pad 2 n = padded 2 n"
  using pad_padded [of n 1] by (simp del: padded.simps flip: numeral_2_eq_2)

lemma pad6: "n < 1000000 \<Longrightarrow> pad 6 n = padded 6 n"
  using pad_padded [of n 5] by simp

definition stamp :: "nat \<times> nat \<times> nat \<times> nat \<Rightarrow> string" where
  "stamp f = (case f of (y, m, d, us) \<Rightarrow> padded 4 y @ ''-'' @ padded 2 m @ ''-'' @ padded 2 d @ ''T''
     @ padded 2 (us div 3600000000) @ '':'' @ padded 2 (us div 60000000 mod 60) @ '':''
     @ padded 2 (us div 1000000 mod 60) @ ''.'' @ padded 6 (us mod 1000000) @ ''Z'')"

definition fields_ok :: "nat \<times> nat \<times> nat \<times> nat \<Rightarrow> bool" where
  "fields_ok f \<longleftrightarrow> (case f of (y, m, d, us) \<Rightarrow>
     1000 \<le> y \<and> y < 10000 \<and> m < 100 \<and> d < 100 \<and> us < day_micros)"

lemma hour_bound: "us < day_micros \<Longrightarrow> us div 3600000000 < 100"
  by (simp add: day_micros_def div_less_iff_less_mult)

lemma civil_ok: "representable t \<Longrightarrow> fields_ok (civil t)"
proof -
  assume "representable t"
  then have r: "in_range (t div day_micros)" by (simp add: representable_def in_range_def)
  have "1000 \<le> year_of (t div day_micros)"
    using r by (intro year_of_ge) (simp_all add: in_range_def)
  moreover have "month_no (t div day_micros) < 100"
    using month_of_bounds(2) [of "year_of (t div day_micros)" "day_of_year (t div day_micros)"]
    unfolding month_no_def by simp
  moreover have "t mod day_micros < day_micros" by (simp add: day_micros_def)
  ultimately show ?thesis
    using year_of_bounds(2) day_bound(5) [OF r] by (simp add: fields_ok_def civil_eq)
qed

lemma iso_utc_stamp: "representable t \<Longrightarrow> iso_utc t = stamp (civil t)"
  using civil_ok [of t] hour_bound
  by (auto simp: iso_utc_def normalize_datetime_def datetime_of_def stamp_def fields_ok_def show_year
      pad2 pad6 split: prod.splits)

lemma stamp_less:
  assumes "fields_ok (y, m, d, us)" and "fields_ok (y', m', d', us')"
  shows "stamp (y, m, d, us) < stamp (y', m', d', us') \<longleftrightarrow>
    y < y' \<or> y = y' \<and> (m < m' \<or> m = m' \<and> (d < d' \<or> d = d' \<and> us < us'))"
proof -
  have b: "us div 3600000000 < 100" "us' div 3600000000 < 100"
    using assms hour_bound by (simp_all add: fields_ok_def)
  show ?thesis
    using assms b
    by (simp add: stamp_def fields_ok_def field_less clock_less [of us us'] eq_commute)
qed

subsection \<open>Properties\<close>

lemma iso_utc_order:
  assumes "representable a" and "representable b"
  shows "iso_utc a < iso_utc b \<longleftrightarrow> a < b"
proof -
  let ?a = "a div day_micros" and ?b = "b div day_micros"
  have r: "in_range ?a" "in_range ?b"
    using assms by (simp_all add: representable_def in_range_def)
  have "iso_utc a < iso_utc b \<longleftrightarrow> ?a < ?b \<or> ?a = ?b \<and> a mod day_micros < b mod day_micros"
    using civil_ok [OF assms(1)] civil_ok [OF assms(2)]
    unfolding iso_utc_stamp [OF assms(1)] iso_utc_stamp [OF assms(2)] civil_eq
    by (subst stamp_less) (auto simp only: civil_less_iff [OF r] civil_inj [OF r])
  also have "\<dots> \<longleftrightarrow> a < b" by (rule quotient_less [symmetric]) (simp add: day_micros_def)
  finally show ?thesis .
qed

text \<open>Time stamps compare as strings exactly as the instants they denote, so every comparison
  of stored stamps (expiry of a token, validity of a policy, order of events) decides time.\<close>

theorem iso_utc_less:
  assumes "representable a" and "representable b"
  shows "iso_utc a < iso_utc b \<longleftrightarrow> a < b"
  using assms by (rule iso_utc_order)

definition sample_instant :: nat where
  "sample_instant = days_before_year 2026 * day_micros"

theorem iso_utc_less_witness: "iso_utc sample_instant < iso_utc (sample_instant + 300000000)"
proof -
  have "representable sample_instant" "representable (sample_instant + 300000000)"
    by (simp_all add: representable_def sample_instant_def days_before_year_def day_micros_def)
  from iso_utc_less [OF this] show ?thesis by simp
qed

subsection \<open>Reading a stamp back\<close>

lemma is_digit_char_digit: "d < 10 \<Longrightarrow> is_digit (digit_char d)"
  by (simp add: is_digit_def of_char_digit)

lemma padded_digits: "list_all is_digit (padded w n)"
  by (induction w arbitrary: n) (simp_all add: is_digit_char_digit)

lemma padded_value: "n < 10 ^ w \<Longrightarrow> nat_of_digits (padded w n) = n"
proof (induction w arbitrary: n)
  case (Suc w)
  then have "n div 10 < 10 ^ w" by (simp add: div_less_iff_less_mult mult.commute)
  with Suc.IH show ?case by (simp add: nat_of_digits_def digit_val_def of_char_digit)
qed (simp add: nat_of_digits_def)

lemma digits_field_padded:
  assumes "lo \<le> w" and "w \<le> hi" and "\<not> is_digit sep"
  shows "digits_field lo hi sep (padded w n @ sep # r) = Some (padded w n, r)"
proof -
  have t: "takeWhile is_digit (padded w n @ sep # r) = padded w n"
    and "dropWhile is_digit (padded w n @ sep # r) = sep # r"
    using padded_digits [of w n] assms(3) by (simp_all add: list_all_iff takeWhile_append2 dropWhile_append2)
  then show ?thesis using assms by (simp add: digits_field_def sep_matches_def)
qed

lemma padded_head: "padded (Suc w) n @ r \<noteq> CHR '' '' # q"
proof
  assume h: "padded (Suc w) n @ r = CHR '' '' # q"
  then have "hd (padded (Suc w) n) = CHR '' ''"
    by (metis append_is_Nil_conv hd_append2 length_padded list.sel(1) list.size(3) nat.distinct(1))
  moreover have "is_digit (hd (padded (Suc w) n))"
    using padded_digits [of "Suc w" n] by (metis hd_in_set length_padded list.size(3) list_all_iff nat.distinct(1))
  ultimately show False by (simp add: is_digit_def)
qed

lemma day_field_padded: "day_field (padded 2 d @ CHR ''T'' # r) = Some (padded 2 d, r)"
proof -
  obtain c q where cq: "padded 2 d @ CHR ''T'' # r = c # q" by (cases "padded 2 d @ CHR ''T'' # r") auto
  moreover have "c \<noteq> CHR '' ''" using padded_head [of 1 d "CHR ''T'' # r" q] cq by (auto simp: numeral_2_eq_2)
  ultimately have "day_field (padded 2 d @ CHR ''T'' # r) = digits_field 1 2 CHR ''T'' (padded 2 d @ CHR ''T'' # r)"
    by (simp add: day_field_def)
  then show ?thesis using digits_field_padded [of 1 2 2 "CHR ''T''" d r] by (simp add: is_digit_def)
qed

lemma of_civil_civil:
  assumes "in_range (t div day_micros)"
  shows "case civil t of (y, m, d, us) \<Rightarrow> of_civil y m d us = t"
proof -
  let ?n = "t div day_micros"
  have "days_before_month (year_of ?n) (month_no ?n) \<le> day_of_year ?n"
    unfolding month_no_def by (rule month_of_bounds)
  moreover have "days_before_year (year_of ?n) \<le> ?n" by (rule year_of_bounds)
  ultimately have "days_before_year (year_of ?n) + days_before_month (year_of ?n) (month_no ?n)
      + (day_of_month ?n - 1) = ?n"
    unfolding day_of_month_def by (simp add: day_of_year_def)
  then show ?thesis by (simp add: civil_eq of_civil_def)
qed

lemma clock_value:
  "((us div 3600000000 * 60 + us div 60000000 mod 60) * 60 + us div 1000000 mod 60) * 1000000
   + us mod 1000000 = (us :: nat)"
proof -
  have "us div 60000000 = us div 1000000 div 60" "us div 3600000000 = us div 60000000 div 60"
    by (simp_all flip: div_mult2_eq)
  then show ?thesis by (metis div_mult_mod_eq)
qed

lemma strptime_stamp:
  assumes f: "fields_ok (y, m, d, us)"
    and v: "1 \<le> m" "m \<le> 12" "1 \<le> d" "d \<le> month_lengths y ! (m - 1)"
  shows "strptime_utc (stamp (y, m, d, us)) = Some (of_civil y m d us)"
proof -
  have sep: "\<not> is_digit CHR ''-''" "\<not> is_digit CHR '':''" "\<not> is_digit CHR ''.''" "\<not> is_digit CHR ''Z''"
    by (simp_all add: is_digit_def)
  have b: "y < 10 ^ 4" "m < 10 ^ 2" "d < 10 ^ 2" "us div 3600000000 < 10 ^ 2"
    using f hour_bound by (simp_all add: fields_ok_def)
  have b': "us div 60000000 mod 60 < 10 ^ 2" "us div 1000000 mod 60 < 10 ^ 2" "us mod 1000000 < 10 ^ 6"
    by (rule order_less_le_trans, rule mod_less_divisor, simp_all)+
  have h: "us div 3600000000 < 24" "1000 \<le> y"
    using f by (simp_all add: fields_ok_def day_micros_def div_less_iff_less_mult)
  have us: "micros (padded 6 (us mod 1000000)) = us mod 1000000"
    using padded_value [OF b'(3)] by (simp add: micros_def)
  have val: "valid_fields y m d (us div 3600000000) (us div 60000000 mod 60) (us div 1000000 mod 60)"
    using v h by (simp add: valid_fields_def)
  have cv: "3600000000 * (us div 3600000000) + 60000000 * (us div 60000000 mod 60)
      + us div 1000000 mod 60 * 1000000 + us mod 1000000 = us"
    using clock_value [of us] by simp
  show ?thesis
    unfolding stamp_def strptime_utc_def
    by (simp add: digits_field_padded day_field_padded sep padded_value [OF b(1)] padded_value [OF b(2)]
        padded_value [OF b(3)] padded_value [OF b(4)] padded_value [OF b'(1)] padded_value [OF b'(2)]
        us val cv Let_def del: padded.simps)
qed

lemma strptime_representable:
  assumes "representable t"
  shows "strptime_utc (iso_utc t) = Some t"
proof -
  have r: "in_range (t div day_micros)" using assms by (simp add: representable_def in_range_def)
  show ?thesis
    using civil_ok [OF assms] of_civil_civil [OF r] day_bound(1-4) [OF r]
    unfolding iso_utc_stamp [OF assms] civil_eq by (simp add: strptime_stamp)
qed

text \<open>A stamp is read back as the instant it was written for.\<close>

theorem strptime_iso_utc:
  assumes "representable t"
  shows "strptime_utc (iso_utc t) = Some t"
  using assms by (rule strptime_representable)

theorem strptime_iso_utc_witness: "strptime_utc (iso_utc sample_instant) = Some sample_instant"
  by (rule strptime_iso_utc)
     (simp add: representable_def sample_instant_def days_before_year_def day_micros_def)

end
