(* ===== verification/Classification.thy ===== *)
theory Classification
  imports Json
begin

section \<open>Action classification (classification.py)\<close>

text \<open>
  The SQL and the shell classifier. Regular expressions of the source are word searches and
  prefix tests here (\<open>has_word\<close> is \<open>\b w \b\<close>); \<open>shlex_split\<close> is \<open>shlex.split\<close> in POSIX mode.
  Texts are read as ASCII. The third-party parser sqlglot is an argument: \<open>None\<close> when the
  import fails, otherwise its \<open>parse\<close>, which raises or returns the statements with the class
  name and the tables that \<open>find_all\<close> yields.
\<close>

datatype confidence = High | Medium | Low

record classification =
  action_type :: string
  canonical_resources :: "string list"
  risk_domain :: string
  classification_method :: string
  classification_confidence :: confidence
  opaque :: bool
  requires_approval :: bool

text \<open>The qualifier of a table: plain text, or an expression with a name and maybe a database.\<close>

datatype db_ref = DbText string | DbExpr string "string option"

record sql_statement =
  stmt_class :: string
  stmt_tables :: "(db_ref \<times> string) list"

type_synonym sqlglot_lib = "(string \<Rightarrow> ep_error + sql_statement list) option"

subsection \<open>Text\<close>

definition py_space :: "char \<Rightarrow> bool" where
  "py_space c \<longleftrightarrow> (let n = (of_char c :: nat) in (9 \<le> n \<and> n \<le> 13) \<or> (28 \<le> n \<and> n \<le> 32))"

definition lstrip :: "string \<Rightarrow> string" where
  "lstrip s = dropWhile py_space s"

definition rstrip_by :: "(char \<Rightarrow> bool) \<Rightarrow> string \<Rightarrow> string" where
  "rstrip_by p s = rev (dropWhile p (rev s))"

definition strip :: "string \<Rightarrow> string" where
  "strip s = rstrip_by py_space (lstrip s)"

definition lower_char :: "char \<Rightarrow> char" where
  "lower_char c = (let n = (of_char c :: nat) in if 65 \<le> n \<and> n \<le> 90 then char_of (n + 32) else c)"

definition lower :: "string \<Rightarrow> string" where
  "lower s = map lower_char s"

definition word_char :: "char \<Rightarrow> bool" where
  "word_char c \<longleftrightarrow> (let n = (of_char c :: nat) in
     (48 \<le> n \<and> n \<le> 57) \<or> (65 \<le> n \<and> n \<le> 90) \<or> (97 \<le> n \<and> n \<le> 122) \<or> n = 95)"

fun starts_with :: "string \<Rightarrow> string \<Rightarrow> bool" where
  "starts_with [] s = True"
| "starts_with (p # ps) [] = False"
| "starts_with (p # ps) (c # s) = (p = c \<and> starts_with ps s)"

text \<open>The boundary after a word: the end, or a character that is not part of a word.\<close>

definition word_end :: "string \<Rightarrow> bool" where
  "word_end s \<longleftrightarrow> (case s of [] \<Rightarrow> True | c # _ \<Rightarrow> \<not> word_char c)"

fun contains :: "string \<Rightarrow> string \<Rightarrow> bool" where
  "contains p [] = (p = [])"
| "contains p (c # s) = (starts_with p (c # s) \<or> contains p s)"

text \<open>\<open>prev\<close>: whether the character before is a word character.\<close>

fun has_word_from :: "bool \<Rightarrow> string \<Rightarrow> string \<Rightarrow> bool" where
  "has_word_from prev w [] = False"
| "has_word_from prev w (c # s) =
     ((\<not> prev \<and> starts_with w (c # s) \<and> word_end (drop (length w) (c # s)))
      \<or> has_word_from (word_char c) w s)"

definition has_word :: "string \<Rightarrow> string \<Rightarrow> bool" where
  "has_word w s = has_word_from False w s"

text \<open>The text after the first occurrence of a separator (\<open>s.find\<close>).\<close>

fun after :: "string \<Rightarrow> string \<Rightarrow> string option" where
  "after p [] = (if p = [] then Some [] else None)"
| "after p (c # s) = (if starts_with p (c # s) then Some (drop (length p) (c # s)) else after p s)"

subsection \<open>Arguments\<close>

text \<open>\<open>arguments.get(a) or arguments.get(b) ...\<close>: the first value that is true in Python. A value
  that is not a string makes the first string operation raise \<open>TypeError\<close>.\<close>

fun truthy :: "json \<Rightarrow> bool" where
  "truthy JNull = False"
| "truthy (JBool b) = b"
| "truthy (JInt i) = (i \<noteq> 0)"
| "truthy (JFloat t) = (t \<noteq> ''0.0'' \<and> t \<noteq> ''-0.0'')"
| "truthy (JStr s) = (s \<noteq> [])"
| "truthy (JArr vs) = (vs \<noteq> [])"
| "truthy (JObj kvs) = (kvs \<noteq> [])"

fun first_truthy :: "(string \<times> json) list \<Rightarrow> string list \<Rightarrow> json option" where
  "first_truthy args [] = None"
| "first_truthy args (k # ks) =
     (case map_of args k of
        Some v \<Rightarrow> (if truthy v then Some v else first_truthy args ks)
      | None \<Rightarrow> first_truthy args ks)"

definition text_argument :: "(string \<times> json) list \<Rightarrow> string list \<Rightarrow> ep_error + string" where
  "text_argument args ks =
     (case first_truthy args ks of
        None \<Rightarrow> Inl ClassificationError
      | Some (JStr s) \<Rightarrow> Inr s
      | Some _ \<Rightarrow> Inl TypeError)"

subsection \<open>The SQL classifier\<close>

definition sql_operations :: "string list" where
  "sql_operations = [''select'', ''insert'', ''update'', ''delete'', ''drop'', ''alter'', ''create'',
     ''truncate'', ''merge'', ''grant'', ''revoke'', ''set'', ''begin'', ''commit'', ''rollback'']"

text \<open>A quoted literal after its opening quote (\<open>(?:[^']|'')*'\<close>, greedy): the rest of the text.\<close>

fun skip_literal :: "char \<Rightarrow> string \<Rightarrow> string option" where
  "skip_literal q [] = None"
| "skip_literal q [c] = (if c = q then Some [] else None)"
| "skip_literal q (c # d # s) =
     (if c \<noteq> q then skip_literal q (d # s)
      else if d = q then (case skip_literal q s of Some r \<Rightarrow> Some r | None \<Rightarrow> Some (d # s))
      else Some (d # s))"

lemma skip_literal_length: "skip_literal q s = Some r \<Longrightarrow> length r < length s"
  by (induction q s arbitrary: r rule: skip_literal.induct) (auto split: if_splits option.splits)

function blank_literals :: "char \<Rightarrow> string \<Rightarrow> string" where
  "blank_literals q [] = []"
| "blank_literals q (c # s) =
     (if c = q then (case skip_literal q s of
                       Some r \<Rightarrow> [q, q] @ blank_literals q r
                     | None \<Rightarrow> c # blank_literals q s)
      else c # blank_literals q s)"
  by pat_completeness auto
termination
  by (relation "measure (\<lambda>(q, s). length s)") (auto dest: skip_literal_length)

definition detect_multi_statement :: "string \<Rightarrow> bool" where
  "detect_multi_statement sql =
     (let stripped = blank_literals quote_char (blank_literals (CHR 0x27) sql)
      in CHR '';'' \<in> set (strip (rstrip_by (\<lambda>c. c = CHR '';'') (rstrip_by py_space stripped))))"

definition opaque_sql :: "string \<Rightarrow> string \<Rightarrow> confidence \<Rightarrow> classification" where
  "opaque_sql ty how conf =
     \<lparr> action_type = ty, canonical_resources = [], risk_domain = ''production_database'',
       classification_method = how, classification_confidence = conf, opaque = True,
       requires_approval = True \<rparr>"

definition sql_result :: "string \<Rightarrow> string list \<Rightarrow> string \<Rightarrow> confidence \<Rightarrow> classification" where
  "sql_result op res how conf =
     \<lparr> action_type = ''postgres.execute.'' @ op, canonical_resources = res,
       risk_domain = ''production_database'', classification_method = how,
       classification_confidence = conf, opaque = False, requires_approval = (op \<noteq> ''select'') \<rparr>"

definition table_parts :: "db_ref \<times> string \<Rightarrow> string list" where
  "table_parts t =
     (case t of (db, name) \<Rightarrow>
        (case db of
           DbText s \<Rightarrow> filter (\<lambda>p. p \<noteq> []) [lower s, lower name]
         | DbExpr schema dbn \<Rightarrow>
             filter (\<lambda>p. p \<noteq> []) [(case dbn of None \<Rightarrow> [] | Some d \<Rightarrow> lower d), lower schema, lower name]))"

definition extract_tables :: "sql_statement \<Rightarrow> string list" where
  "extract_tables stmt =
     rev (remdups (rev (map (\<lambda>ps. ''postgres://localhost/'' @ join ''/'' ps)
       (filter (\<lambda>ps. ps \<noteq> []) (map table_parts (stmt_tables stmt))))))"

definition classify_with_sqlglot :: "sql_statement list \<Rightarrow> classification" where
  "classify_with_sqlglot parsed =
     (case parsed of
        [] \<Rightarrow> opaque_sql ''postgres.execute.opaque'' ''sqlglot_empty'' High
      | [stmt] \<Rightarrow>
          (case find (\<lambda>op. contains op (lower (stmt_class stmt))) sql_operations of
             None \<Rightarrow> opaque_sql ''postgres.execute.opaque'' ''sqlglot_unknown_type'' High
           | Some op \<Rightarrow> sql_result op (extract_tables stmt) ''sqlglot'' High)
      | _ \<Rightarrow> opaque_sql ''postgres.execute.multi'' ''sqlglot_multi_statement'' High)"

text \<open>Leading white space and comments, repeatedly.\<close>

lemma lstrip_length: "length (lstrip s) \<le> length s"
  by (simp add: lstrip_def length_dropWhile_le)

lemma after_length: "after p s = Some r \<Longrightarrow> p \<noteq> [] \<Longrightarrow> length r < length s"
  by (induction p s arbitrary: r rule: after.induct) (auto split: if_splits)

function strip_comments :: "string \<Rightarrow> string" where
  "strip_comments s =
     (if starts_with ''--'' (lstrip s) then
        (case after [CHR 0x0A] (lstrip s) of None \<Rightarrow> lstrip s | Some r \<Rightarrow> strip_comments r)
      else if starts_with ''/*'' (lstrip s) then
        (case after ''*/'' (lstrip s) of None \<Rightarrow> lstrip s | Some r \<Rightarrow> strip_comments r)
      else lstrip s)"
  by pat_completeness auto
termination
  by (relation "measure length")
     (use lstrip_length after_length in \<open>fastforce intro: less_le_trans\<close>)+

declare strip_comments.simps [simp del]

definition classify_with_regex :: "string \<Rightarrow> classification" where
  "classify_with_regex sql =
     (let cleaned = lower (lstrip (strip_comments sql)) in
      case find (\<lambda>op. starts_with op cleaned \<and> word_end (drop (length op) cleaned)) sql_operations of
        Some op \<Rightarrow> sql_result op [] ''regex_fallback'' Medium
      | None \<Rightarrow> opaque_sql ''postgres.execute.opaque'' ''regex_fallback_unknown'' Medium)"

definition classify_sql :: "sqlglot_lib \<Rightarrow> (string \<times> json) list \<Rightarrow> ep_error + classification" where
  "classify_sql sqlglot args =
     bindE (text_argument args [''sql'', ''query'']) (\<lambda>sql.
       if detect_multi_statement sql
       then Inr (opaque_sql ''postgres.execute.multi'' ''multi_statement_detection'' High)
       else (case sqlglot of
               None \<Rightarrow> Inr (classify_with_regex sql)
             | Some parse \<Rightarrow>
                 (case parse sql of
                    Inr parsed \<Rightarrow> Inr (classify_with_sqlglot parsed)
                  | Inl e \<Rightarrow> (if e = ClassificationError then Inl e
                             else Inr (opaque_sql ''postgres.execute.opaque'' ''sqlglot_parse_failure'' High)))))"

subsection \<open>The shell classifier\<close>

definition bounded_commands :: "string list" where
  "bounded_commands = [''ls'', ''cat'', ''echo'', ''pwd'', ''whoami'', ''date'', ''uptime'']"

text \<open>Dangerous words, matched in any case or exactly as written.\<close>

definition dangerous_words_any_case :: "string list" where
  "dangerous_words_any_case =
     [''eval'', ''exec'', ''python'', ''perl'', ''ruby'', ''node'', ''wget'', ''curl'', ''chmod'',
      ''chown'', ''mkfs'', ''dd'', ''sudo'', ''su'', ''pip'', ''apt'', ''yum'', ''brew'', ''base64'',
      ''decode'', ''openssl'', ''sshd'', ''systemctl'', ''service'', ''kill'', ''pkill'', ''killall'',
      ''reboot'', ''shutdown'', ''halt'']"

definition dangerous_words_exact :: "string list" where
  "dangerous_words_exact = [''sh'', ''bash'', ''rm'', ''mv'', ''cp'', ''nc'', ''netcat'']"

definition dangerous :: "string \<Rightarrow> bool" where
  "dangerous command \<longleftrightarrow>
     contains ''$('' command \<or> CHR 0x60 \<in> set command
     \<or> list_ex (\<lambda>w. has_word w (lower command)) dangerous_words_any_case
     \<or> list_ex (\<lambda>w. has_word w command) dangerous_words_exact"

text \<open>\<open>base64\s+decode\<close> and \<open>\| x\b\<close>.\<close>

fun base64_decode :: "string \<Rightarrow> bool" where
  "base64_decode [] = False"
| "base64_decode (c # s) =
     ((starts_with ''base64'' (c # s)
       \<and> (let r = drop 6 (c # s) in r \<noteq> [] \<and> py_space (hd r) \<and> starts_with ''decode'' (lstrip r)))
      \<or> base64_decode s)"

fun piped_into :: "string \<Rightarrow> string \<Rightarrow> bool" where
  "piped_into w [] = False"
| "piped_into w (c # s) =
     ((starts_with (''| '' @ w) (c # s) \<and> word_end (drop (2 + length w) (c # s))) \<or> piped_into w s)"

definition encoded :: "string \<Rightarrow> bool" where
  "encoded command \<longleftrightarrow>
     base64_decode (lower command)
     \<or> list_ex (\<lambda>w. piped_into w (lower command)) [''base64'', ''base32'', ''xxd'', ''od'']"

definition compound :: "string \<Rightarrow> bool" where
  "compound command \<longleftrightarrow> list_ex (\<lambda>c. c = CHR ''|'' \<or> c = CHR ''&'' \<or> c = CHR '';'') command"

text \<open>\<open>shlex.split\<close>: the state is between words, in a word, in quotes, or after a backslash (in a
  word, or inside double quotes). \<open>quoted\<close>: the word has had quotes, so it may be empty.\<close>

datatype sh_state = Blank | In_Word | In_Quote char | Escaped "char option"

definition sh_space :: "char \<Rightarrow> bool" where
  "sh_space c \<longleftrightarrow> c = CHR '' '' \<or> c = CHR 0x09 \<or> c = CHR 0x0D \<or> c = CHR 0x0A"

definition sh_quote :: "char \<Rightarrow> bool" where
  "sh_quote c \<longleftrightarrow> c = CHR 0x27 \<or> c = quote_char"

fun shlex :: "sh_state \<Rightarrow> string \<Rightarrow> bool \<Rightarrow> string \<Rightarrow> string list option" where
  "shlex Blank tok quoted [] = Some []"
| "shlex Blank tok quoted (c # s) =
     (if sh_space c then shlex Blank [] False s
      else if c = backslash then shlex (Escaped None) [] False s
      else if sh_quote c then shlex (In_Quote c) [] True s
      else shlex In_Word [c] False s)"
| "shlex In_Word tok quoted [] = Some (if tok \<noteq> [] \<or> quoted then [tok] else [])"
| "shlex In_Word tok quoted (c # s) =
     (if sh_space c then
        (if tok \<noteq> [] \<or> quoted then map_option (\<lambda>ws. tok # ws) (shlex Blank [] False s)
         else shlex Blank [] False s)
      else if sh_quote c then shlex (In_Quote c) tok True s
      else if c = backslash then shlex (Escaped None) tok quoted s
      else shlex In_Word (tok @ [c]) quoted s)"
| "shlex (In_Quote q) tok quoted [] = None"
| "shlex (In_Quote q) tok quoted (c # s) =
     (if c = q then shlex In_Word tok quoted s
      else if c = backslash \<and> q = quote_char then shlex (Escaped (Some q)) tok quoted s
      else shlex (In_Quote q) (tok @ [c]) quoted s)"
| "shlex (Escaped from) tok quoted [] = None"
| "shlex (Escaped from) tok quoted (c # s) =
     (case from of
        None \<Rightarrow> shlex In_Word (tok @ [c]) quoted s
      | Some q \<Rightarrow> shlex (In_Quote q)
                    (tok @ (if c \<noteq> backslash \<and> c \<noteq> q then [backslash, c] else [c])) quoted s)"

definition shlex_split :: "string \<Rightarrow> string list option" where
  "shlex_split command = shlex Blank [] False command"

text \<open>\<open>s.rsplit("/", 1)[-1]\<close>.\<close>

definition base_name :: "string \<Rightarrow> string" where
  "base_name s = rev (takeWhile (\<lambda>c. c \<noteq> CHR ''/'') (rev s))"

definition opaque_shell :: "string \<Rightarrow> classification" where
  "opaque_shell how =
     \<lparr> action_type = ''shell.exec.opaque'', canonical_resources = [], risk_domain = ''security'',
       classification_method = how, classification_confidence = Low, opaque = True,
       requires_approval = True \<rparr>"

definition classify_shell :: "(string \<times> json) list \<Rightarrow> ep_error + classification" where
  "classify_shell args =
     bindE (text_argument args [''command'', ''cmd'', ''script'']) (\<lambda>command.
       Inr (if dangerous command then opaque_shell ''shell_dangerous_pattern''
            else if encoded command then opaque_shell ''shell_encoded_payload''
            else if compound command then opaque_shell ''shell_compound_command''
            else (case shlex_split command of
                    None \<Rightarrow> opaque_shell ''shell_parse_failure''
                  | Some [] \<Rightarrow> opaque_shell ''shell_empty''
                  | Some (p # _) \<Rightarrow>
                      (let base_cmd = base_name (lower p) in
                       if base_cmd \<in> set bounded_commands then
                         \<lparr> action_type = ''shell.exec.'' @ base_cmd, canonical_resources = [],
                           risk_domain = ''security'', classification_method = ''shell_bounded'',
                           classification_confidence = High, opaque = False,
                           requires_approval = False \<rparr>
                       else opaque_shell ''shell_unknown_command''))))"

subsection \<open>The registry, and the classification that a proposal uses\<close>

definition classify_tool ::
  "sqlglot_lib \<Rightarrow> string \<Rightarrow> (string \<times> json) list \<Rightarrow> (ep_error + classification) option" where
  "classify_tool sqlglot tool args =
     (if tool = ''postgres.execute'' then Some (classify_sql sqlglot args)
      else if tool = ''shell.execute'' then Some (classify_shell args)
      else None)"

definition no_classifier :: classification where
  "no_classifier =
     \<lparr> action_type = ''opaque'', canonical_resources = [], risk_domain = [],
       classification_method = ''no_classifier'', classification_confidence = Low, opaque = True,
       requires_approval = True \<rparr>"

definition classify ::
  "sqlglot_lib \<Rightarrow> string \<Rightarrow> (string \<times> json) list \<Rightarrow> ep_error + classification" where
  "classify sqlglot tool args =
     (case classify_tool sqlglot tool args of None \<Rightarrow> Inr no_classifier | Some r \<Rightarrow> r)"

subsection \<open>Lemmas\<close>

lemma classify_with_sqlglot_approval:
  "\<not> requires_approval (classify_with_sqlglot parsed) \<Longrightarrow>
   action_type (classify_with_sqlglot parsed) = ''postgres.execute.select''
   \<and> \<not> opaque (classify_with_sqlglot parsed)"
  by (auto simp: classify_with_sqlglot_def opaque_sql_def sql_result_def
      split: list.splits option.splits if_splits)

lemma classify_with_regex_approval:
  "\<not> requires_approval (classify_with_regex sql) \<Longrightarrow>
   action_type (classify_with_regex sql) = ''postgres.execute.select'' \<and> \<not> opaque (classify_with_regex sql)"
  by (auto simp: classify_with_regex_def opaque_sql_def sql_result_def Let_def split: option.splits)

lemma text_argument_Inr: "text_argument args ks = Inr s \<longleftrightarrow> first_truthy args ks = Some (JStr s)"
  by (auto simp: text_argument_def split: option.splits json.splits)

lemma starts_with_append: "starts_with p (p @ s)"
  by (induction p) auto

lemma after_newline: "CHR 0x0A \<notin> set c \<Longrightarrow> after [CHR 0x0A] (c @ CHR 0x0A # s) = Some s"
  by (induction c) auto

lemma strip_comments_line:
  assumes "CHR 0x0A \<notin> set c"
  shows "strip_comments (''--'' @ c @ CHR 0x0A # s) = strip_comments s"
proof -
  have l: "lstrip (''--'' @ c @ CHR 0x0A # s) = ''--'' @ c @ CHR 0x0A # s"
    by (simp add: lstrip_def py_space_def)
  have a: "after [CHR 0x0A] (''--'' @ c @ CHR 0x0A # s) = Some s"
    using after_newline [of "''--'' @ c" s] assms by simp
  show ?thesis by (subst strip_comments.simps) (simp add: l [simplified] a [simplified])
qed

lemma lstrip_idem [simp]: "lstrip (lstrip s) = lstrip s"
  by (induction s) (auto simp: lstrip_def)

subsection \<open>Properties\<close>

text \<open>A shell command that needs no approval is a single bounded command. It contains no command
  substitution, no separator, none of the dangerous words, and the base name of its first word is
  one of the bounded commands, which names the action type.\<close>

theorem shell_without_approval_is_bounded:
  assumes "classify_shell args = Inr c" and "\<not> requires_approval c"
  shows "\<exists>command p ps. first_truthy args [''command'', ''cmd'', ''script''] = Some (JStr command)
     \<and> \<not> contains ''$('' command \<and> set command \<inter> {CHR 0x60, CHR ''|'', CHR ''&'', CHR '';''} = {}
     \<and> (\<forall>w \<in> set dangerous_words_any_case. \<not> has_word w (lower command))
     \<and> (\<forall>w \<in> set dangerous_words_exact. \<not> has_word w command)
     \<and> shlex_split command = Some (p # ps) \<and> base_name (lower p) \<in> set bounded_commands
     \<and> action_type c = ''shell.exec.'' @ base_name (lower p) \<and> \<not> opaque c"
proof -
  from assms obtain command where t: "first_truthy args [''command'', ''cmd'', ''script''] = Some (JStr command)"
    by (auto simp: classify_shell_def text_argument_Inr)
  with assms have n: "\<not> dangerous command" "\<not> compound command"
    by (auto simp: classify_shell_def text_argument_def opaque_shell_def split: if_splits)
  from assms t obtain p ps where p: "shlex_split command = Some (p # ps)"
    by (auto simp: classify_shell_def text_argument_def opaque_shell_def
        split: if_splits option.splits list.splits)
  from assms t n p have "base_name (lower p) \<in> set bounded_commands"
    "action_type c = ''shell.exec.'' @ base_name (lower p)" "\<not> opaque c"
    by (auto simp: classify_shell_def text_argument_def opaque_shell_def Let_def split: if_splits)
  with t n p show ?thesis
    unfolding dangerous_def compound_def list_ex_iff by (intro exI conjI) auto
qed

theorem shell_without_approval_is_bounded_witness:
  "\<exists>p ps. shlex_split ''/bin/LS -la'' = Some (p # ps) \<and> base_name (lower p) \<in> set bounded_commands"
proof -
  have c: "classify_shell [(''cmd'', JStr ''/bin/LS -la'')] =
      Inr \<lparr> action_type = ''shell.exec.ls'', canonical_resources = [], risk_domain = ''security'',
            classification_method = ''shell_bounded'', classification_confidence = High,
            opaque = False, requires_approval = False \<rparr>" by code_simp
  have f: "first_truthy [(''cmd'', JStr ''/bin/LS -la'')] [''command'', ''cmd'', ''script'']
           = Some (JStr ''/bin/LS -la'')" by simp
  from shell_without_approval_is_bounded [OF c] show ?thesis by (simp add: f) blast
qed

text \<open>For SQL only a single select escapes the approval requirement, with sqlglot and with the
  regular expressions; for every tool an opaque classification requires approval.\<close>

theorem sql_without_approval_is_select:
  assumes "classify sqlglot tool args = Inr c" and "\<not> requires_approval c"
  shows "\<not> opaque c \<and> (tool = ''postgres.execute'' \<longrightarrow>
     action_type c = ''postgres.execute.select'' \<and>
     (\<exists>sql. first_truthy args [''sql'', ''query''] = Some (JStr sql) \<and> \<not> detect_multi_statement sql))"
proof (cases "tool = ''postgres.execute''")
  case True
  with assms obtain sql where t: "first_truthy args [''sql'', ''query''] = Some (JStr sql)"
    by (auto simp: classify_def classify_tool_def classify_sql_def text_argument_Inr)
  with assms True have m: "\<not> detect_multi_statement sql"
    by (auto simp: classify_def classify_tool_def classify_sql_def text_argument_def opaque_sql_def)
  have c: "(sqlglot = None \<and> c = classify_with_regex sql) \<or> (\<exists>parsed. c = classify_with_sqlglot parsed)"
    using assms True t m
    by (auto simp: classify_def classify_tool_def classify_sql_def text_argument_def opaque_sql_def
        split: option.splits sum.splits if_splits)
  from c assms(2) classify_with_regex_approval classify_with_sqlglot_approval
  have "action_type c = ''postgres.execute.select'' \<and> \<not> opaque c" by blast
  with t m show ?thesis by blast
next
  case False
  with assms show ?thesis
    by (auto simp: classify_def classify_tool_def no_classifier_def classify_shell_def opaque_shell_def Let_def
        split: if_splits option.splits list.splits)
qed

theorem sql_without_approval_is_select_witness:
  "\<exists>sql. first_truthy [(''query'', JStr ''select 1;'')] [''sql'', ''query''] = Some (JStr sql)
     \<and> \<not> detect_multi_statement sql"
proof -
  have "classify None ''postgres.execute'' [(''query'', JStr ''select 1;'')]
        = Inr (sql_result ''select'' [] ''regex_fallback'' Medium)" by code_simp
  from sql_without_approval_is_select [OF this] show ?thesis by (simp add: sql_result_def)
qed

text \<open>A leading line comment does not hide the statement from the regular expressions.\<close>

theorem comment_does_not_hide_statement:
  assumes "CHR 0x0A \<notin> set comment"
  shows "classify_with_regex (''--'' @ comment @ CHR 0x0A # sql) = classify_with_regex sql"
  by (simp only: classify_with_regex_def strip_comments_line [OF assms])

theorem comment_does_not_hide_statement_witness:
  "classify_with_regex (''--'' @ '' select'' @ CHR 0x0A # ''drop table t'')
   = classify_with_regex ''drop table t''"
  by (rule comment_does_not_hide_statement) simp

subsection \<open>What modelling showed\<close>

text \<open>A newline separates shell commands, but it is neither a separator of the classifier nor part of
  a dangerous pattern, and a redirection is not looked at: such commands count as bounded.\<close>

theorem newline_and_redirect_are_bounded:
  "map_sum id action_type (classify_shell [(''command'', JStr (''ls'' @ CHR 0x0A # ''truncate x''))])
   = Inr ''shell.exec.ls''
   \<and> map_sum id requires_approval (classify_shell [(''command'', JStr ''echo x > /etc/passwd'')]) = Inr False"
  by code_simp

end
