(* ===== verification/Glob.thy ===== *)
theory Glob
  imports Prelude "HOL-Library.Char_ord"
begin

section \<open>Shell patterns (\<open>fnmatch.fnmatchcase\<close>) and \<open>match_glob\<close> (resources.py)\<close>

text \<open>
  Actions and canonical resources are matched against the patterns of a policy with the
  standard library's \<open>fnmatch\<close>: \<open>*\<close>, \<open>?\<close>, \<open>[seq]\<close>, \<open>[!seq]\<close> with ranges, and an opening bracket
  that is never closed stands for itself. \<open>glob_tokens\<close> is \<open>fnmatch.translate\<close>,
  \<open>match_tokens\<close> the regular expression it builds. Pattern and subject are read byte by byte,
  which is exact for ASCII text.
\<close>

datatype token = TLit char | TAny | TStar | TSet bool "(char \<times> char) list"

text \<open>The inside of a bracket: single characters and ranges \<open>a-z\<close>; a range whose ends are in the
  wrong order matches nothing.\<close>

fun class_items :: "string \<Rightarrow> (char \<times> char) list" where
  "class_items [] = []"
| "class_items [a] = [(a, a)]"
| "class_items [a, b] = [(a, a), (b, b)]"
| "class_items (a # b # c # r) =
     (if b = CHR ''-'' then (a, c) # class_items r else (a, a) # class_items (b # c # r))"

definition in_class :: "(char \<times> char) list \<Rightarrow> char \<Rightarrow> bool" where
  "in_class items x \<longleftrightarrow> list_ex (\<lambda>(a, b). a \<le> x \<and> x \<le> b) items"

text \<open>The text up to the closing bracket (a bracket in first position, after an optional \<open>!\<close>, is
  an ordinary member) and the rest of the pattern.\<close>

fun upto_bracket :: "string \<Rightarrow> (string \<times> string) option" where
  "upto_bracket [] = None"
| "upto_bracket (c # r) =
     (if c = CHR '']'' then Some ([], r)
      else map_option (\<lambda>(a, b). (c # a, b)) (upto_bracket r))"

definition bracket :: "string \<Rightarrow> (bool \<times> string \<times> string) option" where
  "bracket p =
     (let (neg, p1) = (case p of c # r \<Rightarrow> if c = CHR ''!'' then (True, r) else (False, p)
                        | [] \<Rightarrow> (False, p))
      in case p1 of
           [] \<Rightarrow> None
         | c # r \<Rightarrow> map_option (\<lambda>(a, b). (neg, c # a, b)) (upto_bracket r))"

lemma upto_bracket_length: "upto_bracket p = Some (a, b) \<Longrightarrow> length b < length p"
  by (induction p arbitrary: a b) (fastforce split: if_splits)+

lemma bracket_length: "bracket p = Some (neg, a, b) \<Longrightarrow> length b < length p"
  by (auto simp: bracket_def Let_def dest!: upto_bracket_length split: list.splits if_splits)

function glob_tokens :: "string \<Rightarrow> token list" where
  "glob_tokens [] = []"
| "glob_tokens (c # r) =
     (if c = CHR ''*'' then TStar # glob_tokens r
      else if c = CHR ''?'' then TAny # glob_tokens r
      else if c = CHR ''['' then
        (case bracket r of
           None \<Rightarrow> TLit c # glob_tokens r
         | Some (neg, stuff, r') \<Rightarrow> TSet neg (class_items stuff) # glob_tokens r')
      else TLit c # glob_tokens r)"
  by pat_completeness auto
termination
  by (relation "measure length") (auto dest: bracket_length)

fun match_tokens :: "token list \<Rightarrow> string \<Rightarrow> bool" where
  "match_tokens [] s = (s = [])"
| "match_tokens (TStar # ts) [] = match_tokens ts []"
| "match_tokens (TStar # ts) (c # s) = (match_tokens ts (c # s) \<or> match_tokens (TStar # ts) s)"
| "match_tokens (TLit a # ts) (c # s) = (a = c \<and> match_tokens ts s)"
| "match_tokens (TAny # ts) (c # s) = match_tokens ts s"
| "match_tokens (TSet neg items # ts) (c # s) = (in_class items c \<noteq> neg \<and> match_tokens ts s)"
| "match_tokens _ [] = False"

definition fnmatchcase :: "string \<Rightarrow> string \<Rightarrow> bool" where
  "fnmatchcase name pat = match_tokens (glob_tokens pat) name"

definition match_glob :: "string \<Rightarrow> string \<Rightarrow> bool" where
  "match_glob pattern canonical =
     (if pattern = [] \<or> canonical = [] then False else fnmatchcase canonical pattern)"

subsection \<open>What patterns match\<close>

definition plain :: "string \<Rightarrow> bool" where
  "plain p \<longleftrightarrow> CHR ''*'' \<notin> set p \<and> CHR ''?'' \<notin> set p \<and> CHR ''['' \<notin> set p"

lemma glob_tokens_plain: "plain p \<Longrightarrow> glob_tokens (p @ q) = map TLit p @ glob_tokens q"
  by (induction p) (auto simp: plain_def)

lemma match_star: "match_tokens [TStar] s"
  by (induction s) auto

lemma match_lits: "match_tokens (map TLit p @ ts) s \<longleftrightarrow> (\<exists>r. s = p @ r \<and> match_tokens ts r)"
proof (induction p arbitrary: s)
  case (Cons a p)
  then show ?case by (cases s) auto
qed simp

lemma match_lits_only: "match_tokens (map TLit p) s \<longleftrightarrow> s = p"
  using match_lits [of p "[]" s] by simp

lemma fnmatchcase_plain [simp]: "plain p \<Longrightarrow> fnmatchcase s p \<longleftrightarrow> s = p"
  using glob_tokens_plain [of p "[]"] by (simp add: fnmatchcase_def match_lits_only)

lemma fnmatchcase_star [simp]: "fnmatchcase s ''*''"
  by (simp add: fnmatchcase_def match_star)

lemma fnmatchcase_prefix:
  "plain p \<Longrightarrow> fnmatchcase s (p @ ''*'') \<longleftrightarrow> (\<exists>r. s = p @ r)"
  using glob_tokens_plain [of p "''*''"]
  by (simp add: fnmatchcase_def match_lits match_star)

lemma match_glob_star: "match_glob ''*'' s \<longleftrightarrow> s \<noteq> []"
  by (simp add: match_glob_def)

end
