(* ===== verification/Policies.thy ===== *)
theory Policies
  imports Json Glob
begin

section \<open>Policies (policies.py)\<close>

text \<open>
  The enumerations, the effect precedence, the \<open>Policy\<close> model with its validators, and
  \<open>is_in_force\<close>. Time stamps are ISO 8601 strings; the code compares them as strings.
\<close>

datatype effect = Deny | Require_Approval | Warn | Allow

datatype scope = Global | Project | Branch | Agent

datatype policy_status = Draft | Pending_Approval | Active | Rejected | Superseded | Retired

fun effect_precedence :: "effect \<Rightarrow> nat" where
  "effect_precedence Deny = 4"
| "effect_precedence Require_Approval = 3"
| "effect_precedence Warn = 2"
| "effect_precedence Allow = 1"

text \<open>The precedence orders the effects.\<close>

instantiation effect :: linorder
begin

definition less_eq_effect :: "effect \<Rightarrow> effect \<Rightarrow> bool" where
  "less_eq_effect a b \<longleftrightarrow> effect_precedence a \<le> effect_precedence b"

definition less_effect :: "effect \<Rightarrow> effect \<Rightarrow> bool" where
  "less_effect a b \<longleftrightarrow> effect_precedence a < effect_precedence b"

instance
proof
  fix a b :: effect
  show "a \<le> b \<Longrightarrow> b \<le> a \<Longrightarrow> a = b"
    unfolding less_eq_effect_def by (cases a; cases b) simp_all
qed (auto simp: less_eq_effect_def less_effect_def)

end

text \<open>The texts that the columns \<open>effect\<close> and \<open>scope\<close> admit.\<close>

definition effect_of_text :: "string \<Rightarrow> effect option" where
  "effect_of_text s = map_of [(''deny'', Deny), (''require_approval'', Require_Approval), (''warn'', Warn), (''allow'', Allow)] s"

definition scope_of_text :: "string \<Rightarrow> scope option" where
  "scope_of_text s = map_of [(''global'', Global), (''project'', Project), (''branch'', Branch), (''agent'', Agent)] s"

record policy =
  p_id :: string
  p_effect :: effect
  p_actions :: "string list"
  p_resources :: "string list"
  p_conditions :: "(string \<times> json) list"
  p_priority :: int
  p_scope :: scope
  p_agent_scope :: "string option"
  p_project_id :: "string option"
  p_branch_id :: "string option"
  p_description :: string
  p_status :: policy_status
  p_created_by :: string
  p_approved_by :: "string option"
  p_approved_at :: "string option"
  p_activation_version :: "int option"
  p_exception_to :: "string list"
  p_valid_from :: "string option"
  p_valid_until :: "string option"
  p_justification :: "string option"

subsection \<open>Validation\<close>

text \<open>The pattern \<open>^[0-9a-v]{20}$\<close> of the identifier fields (pydantic's regular expressions anchor
  \<open>$\<close> at the end of the text).\<close>

definition xid_char :: "char \<Rightarrow> bool" where
  "xid_char c \<longleftrightarrow> (CHR ''0'' \<le> c \<and> c \<le> CHR ''9'') \<or> (CHR ''a'' \<le> c \<and> c \<le> CHR ''v'')"

definition xid_text :: "string \<Rightarrow> bool" where
  "xid_text s \<longleftrightarrow> length s = 20 \<and> list_all xid_char s"

fun opt_ok :: "('a \<Rightarrow> bool) \<Rightarrow> 'a option \<Rightarrow> bool" where
  "opt_ok P None = True"
| "opt_ok P (Some x) = P x"

definition policy_fields_ok :: "policy \<Rightarrow> bool" where
  "policy_fields_ok p \<longleftrightarrow>
     xid_text (p_id p) \<and> 0 \<le> p_priority p
     \<and> opt_ok xid_text (p_agent_scope p) \<and> opt_ok xid_text (p_project_id p)
     \<and> opt_ok xid_text (p_branch_id p) \<and> xid_text (p_created_by p)
     \<and> opt_ok xid_text (p_approved_by p) \<and> opt_ok (\<lambda>v. 0 \<le> v) (p_activation_version p)"

definition validate_scope_consistency :: "policy \<Rightarrow> ep_error + policy" where
  "validate_scope_consistency p =
     (case p_scope p of
        Global \<Rightarrow>
          (if p_project_id p \<noteq> None \<or> p_branch_id p \<noteq> None \<or> p_agent_scope p \<noteq> None
           then Inl ValueError else Inr p)
      | Project \<Rightarrow>
          (if p_project_id p = None then Inl ValueError
           else if p_branch_id p \<noteq> None \<or> p_agent_scope p \<noteq> None then Inl ValueError else Inr p)
      | Branch \<Rightarrow>
          (if p_branch_id p = None then Inl ValueError
           else if p_project_id p \<noteq> None \<or> p_agent_scope p \<noteq> None then Inl ValueError else Inr p)
      | Agent \<Rightarrow>
          (if p_agent_scope p = None then Inl ValueError
           else if p_project_id p \<noteq> None \<or> p_branch_id p \<noteq> None then Inl ValueError else Inr p))"

text \<open>Constructing a \<open>Policy\<close>: pydantic's validation error is a \<open>ValueError\<close>.\<close>

definition make_policy :: "policy \<Rightarrow> ep_error + policy" where
  "make_policy p = bindE (requireE (policy_fields_ok p) ValueError) (\<lambda>_. validate_scope_consistency p)"

subsection \<open>\<open>is_in_force\<close>\<close>

text \<open>\<open>s.rstrip("Z")\<close> drops every trailing \<open>Z\<close>.\<close>

definition rstrip_char :: "char \<Rightarrow> string \<Rightarrow> string" where
  "rstrip_char c s = rev (dropWhile (\<lambda>x. x = c) (rev s))"

definition is_in_force :: "string \<Rightarrow> policy \<Rightarrow> bool" where
  "is_in_force now p =
     (if p_status p \<noteq> Active then False
      else let now_cmp = rstrip_char (CHR ''Z'') now in
        (case p_valid_from p of
           Some vf \<Rightarrow> if rstrip_char (CHR ''Z'') vf > now_cmp then False
             else (case p_valid_until p of
                     Some vu \<Rightarrow> \<not> (rstrip_char (CHR ''Z'') vu \<le> now_cmp)
                   | None \<Rightarrow> True)
         | None \<Rightarrow> (case p_valid_until p of
                     Some vu \<Rightarrow> \<not> (rstrip_char (CHR ''Z'') vu \<le> now_cmp)
                   | None \<Rightarrow> True)))"

subsection \<open>Lemmas\<close>

text \<open>The identifier of the scope, and that the others are absent: what the validator gives.\<close>

definition scope_consistent :: "policy \<Rightarrow> bool" where
  "scope_consistent p \<longleftrightarrow>
     (p_project_id p \<noteq> None \<longleftrightarrow> p_scope p = Project)
     \<and> (p_branch_id p \<noteq> None \<longleftrightarrow> p_scope p = Branch)
     \<and> (p_agent_scope p \<noteq> None \<longleftrightarrow> p_scope p = Agent)"

lemma validate_scope_consistency_iff:
  "validate_scope_consistency p = Inr q \<longleftrightarrow> q = p \<and> scope_consistent p"
  by (cases "p_scope p") (auto simp: validate_scope_consistency_def scope_consistent_def)

lemma make_policy_iff:
  "make_policy p = Inr q \<longleftrightarrow> q = p \<and> policy_fields_ok p \<and> scope_consistent p"
  by (auto simp: make_policy_def validate_scope_consistency_iff)

lemma is_in_force_active: "is_in_force now p \<Longrightarrow> p_status p = Active"
  by (auto simp: is_in_force_def split: if_splits)

lemma is_in_force_iff:
  "is_in_force now p \<longleftrightarrow>
     p_status p = Active
     \<and> (\<forall>vf. p_valid_from p = Some vf \<longrightarrow> rstrip_char (CHR ''Z'') vf \<le> rstrip_char (CHR ''Z'') now)
     \<and> (\<forall>vu. p_valid_until p = Some vu \<longrightarrow> rstrip_char (CHR ''Z'') now < rstrip_char (CHR ''Z'') vu)"
  by (auto simp: is_in_force_def Let_def not_le not_less split: option.splits)

text \<open>Once past its end a policy stays out of force.\<close>

lemma is_in_force_expires:
  assumes "\<not> is_in_force now p" and "is_in_force earlier p"
    and "rstrip_char (CHR ''Z'') earlier \<le> rstrip_char (CHR ''Z'') now"
    and "rstrip_char (CHR ''Z'') now \<le> rstrip_char (CHR ''Z'') later"
  shows "\<not> is_in_force later p"
  using assms by (force simp: is_in_force_iff)

end
