(* ===== verification/Policy_Engine.thy ===== *)
theory Policy_Engine
  imports Policies "HOL-Library.Multiset"
begin

section \<open>The policy engine (policy_engine.py)\<close>

text \<open>
  \<open>evaluate\<close> finds the policies that match an action and its resources (\<open>match_policies\<close>),
  removes the matched policies that an exception overrides (\<open>compute_overrides\<close>) and resolves
  the rest: a deny wins whatever the priorities (EP-POLICY-008), otherwise the effect at the
  highest priority governs and contradictory effects there require approval. Warning texts are
  represented by one constructor per message, with the values it interpolates.

  Arguments of the model: \<open>now\<close> (the clock), \<open>fval\<close> (the exact value of the \<open>repr\<close> of a float)
  and \<open>cel\<close> (the third-party celpy library: \<open>Inr (Some b)\<close> is a boolean result, \<open>Inr None\<close>
  another value, \<open>Inl e\<close> an exception).
\<close>

record policy_match =
  m_policy :: policy
  m_actions :: "string list"
  m_resources :: "string list"

datatype warning =
    EvaluationError ep_error
  | NoMatchingPolicy
  | NoSuchDeny string string
  | NotNarrower string
  | NoValidUntil string
  | NoJustification string
  | NotApproved string
  | OverrideGranted string string
  | DenyConflict int
  | EffectConflict int "effect list"

record resolution =
  r_effect :: effect
  r_matched :: "policy_match list"
  r_conflict :: bool
  r_warnings :: "warning list"

type_synonym context_dict = "(string \<times> json) list"
type_synonym cel_lib = "string \<Rightarrow> context_dict \<Rightarrow> ep_error + bool option"
type_synonym float_lib = "string \<Rightarrow> rat"

subsection \<open>Python equality of JSON values\<close>

text \<open>\<open>True == 1 == 1.0\<close>; dicts compare by key; \<open>nan\<close> is equal to nothing.\<close>

fun num_of :: "float_lib \<Rightarrow> json \<Rightarrow> rat option" where
  "num_of fval (JBool b) = Some (if b then 1 else 0)"
| "num_of fval (JInt i) = Some (of_int i)"
| "num_of fval (JFloat r) =
     (if r = ''nan'' \<or> r = ''inf'' \<or> r = ''-inf'' then None else Some (fval r))"
| "num_of fval _ = None"

fun py_eq :: "float_lib \<Rightarrow> json \<Rightarrow> json \<Rightarrow> bool"
  and py_eq_list :: "float_lib \<Rightarrow> json list \<Rightarrow> json list \<Rightarrow> bool"
  and py_eq_items :: "float_lib \<Rightarrow> (string \<times> json) list \<Rightarrow> (string \<times> json) list \<Rightarrow> bool" where
  "py_eq fval JNull w = (w = JNull)"
| "py_eq fval (JStr s) w = (w = JStr s)"
| "py_eq fval (JArr vs) w = (case w of JArr ws \<Rightarrow> py_eq_list fval vs ws | _ \<Rightarrow> False)"
| "py_eq fval (JObj kvs) w =
     (case w of JObj lvs \<Rightarrow> length kvs = length lvs \<and> py_eq_items fval kvs lvs | _ \<Rightarrow> False)"
| "py_eq fval (JBool b) w = (num_of fval w = Some (if b then 1 else 0))"
| "py_eq fval (JInt i) w = (num_of fval w = Some (of_int i))"
| "py_eq fval (JFloat r) w =
     (if r = ''nan'' then False
      else if r = ''inf'' \<or> r = ''-inf'' then w = JFloat r
      else num_of fval w = Some (fval r))"
| "py_eq_list fval [] ws = (ws = [])"
| "py_eq_list fval (v # vs) ws =
     (case ws of [] \<Rightarrow> False | w # ws' \<Rightarrow> py_eq fval v w \<and> py_eq_list fval vs ws')"
| "py_eq_items fval [] lvs = True"
| "py_eq_items fval ((k, v) # kvs) lvs =
     ((case map_of lvs k of None \<Rightarrow> False | Some w \<Rightarrow> py_eq fval v w) \<and> py_eq_items fval kvs lvs)"

subsection \<open>Conditions\<close>

definition evaluate_cel_condition :: "cel_lib \<Rightarrow> string \<Rightarrow> context_dict \<Rightarrow> ep_error + bool" where
  "evaluate_cel_condition cel expression context =
     bindE (cel expression context)
       (\<lambda>result. Inr (case result of Some b \<Rightarrow> b | None \<Rightarrow> False))"

definition equality_match ::
  "float_lib \<Rightarrow> (string \<times> json) list \<Rightarrow> context_dict \<Rightarrow> bool" where
  "equality_match fval conditions context =
     list_all (\<lambda>(k, expected).
       case map_of context k of None \<Rightarrow> False | Some v \<Rightarrow> py_eq fval v expected) conditions"

definition conditions_match ::
  "float_lib \<Rightarrow> cel_lib \<Rightarrow> (string \<times> json) list \<Rightarrow> context_dict \<Rightarrow> ep_error + bool" where
  "conditions_match fval cel conditions context =
     (if conditions = [] then Inr True
      else (case map_of conditions ''cel'' of
              Some (JStr e) \<Rightarrow> evaluate_cel_condition cel e context
            | _ \<Rightarrow> Inr (equality_match fval conditions context)))"

subsection \<open>Matching\<close>

text \<open>Scope enforcement. \<open>context.get(k)\<close> is \<open>None\<close> for a missing key and for a null value; the
  identifier of the policy is compared with the context's value.\<close>

definition ctx_get :: "context_dict \<Rightarrow> string \<Rightarrow> json option" where
  "ctx_get context k =
     (case map_of context k of None \<Rightarrow> None | Some JNull \<Rightarrow> None | Some v \<Rightarrow> Some v)"

definition scope_applies :: "policy \<Rightarrow> context_dict \<Rightarrow> ep_error + bool" where
  "scope_applies p context =
     (case p_scope p of
        Project \<Rightarrow> (case ctx_get context ''project_id'' of
                      None \<Rightarrow> Inl MissingPolicyContextError
                    | Some v \<Rightarrow> Inr (map_option JStr (p_project_id p) = Some v))
      | Branch \<Rightarrow> (case ctx_get context ''branch_id'' of
                      None \<Rightarrow> Inl MissingPolicyContextError
                    | Some v \<Rightarrow> Inr (map_option JStr (p_branch_id p) = Some v))
      | Agent \<Rightarrow> (case ctx_get context ''agent_id'' of
                      None \<Rightarrow> Inl MissingPolicyContextError
                    | Some v \<Rightarrow> Inr (map_option JStr (p_agent_scope p) = Some v))
      | Global \<Rightarrow> Inr True)"

definition matched_actions_of :: "policy \<Rightarrow> string \<Rightarrow> string list" where
  "matched_actions_of p action_type = filter (\<lambda>pat. fnmatchcase action_type pat) (p_actions p)"

definition matched_resources_of :: "policy \<Rightarrow> string list \<Rightarrow> string list" where
  "matched_resources_of p canonical =
     (if canonical = [] then (if ''*'' \<in> set (p_resources p) then [''*''] else [])
      else filter (\<lambda>pat. list_ex (match_glob pat) canonical) (p_resources p))"

text \<open>One turn of the loop of \<open>_match_policies\<close>: \<open>Inr None\<close> is \<open>continue\<close>.\<close>

definition match_policy ::
  "float_lib \<Rightarrow> cel_lib \<Rightarrow> string \<Rightarrow> string \<Rightarrow> string list \<Rightarrow> context_dict \<Rightarrow> policy
   \<Rightarrow> ep_error + policy_match option" where
  "match_policy fval cel now action_type canonical context p =
     (if p_status p \<noteq> Active then Inr None
      else if \<not> is_in_force now p then Inr None
      else bindE (scope_applies p context) (\<lambda>applies.
        if \<not> applies then Inr None
        else if matched_actions_of p action_type = [] then Inr None
        else if matched_resources_of p canonical = [] then Inr None
        else bindE (conditions_match fval cel (p_conditions p) context) (\<lambda>c.
          if \<not> c then Inr None
          else Inr (Some \<lparr> m_policy = p, m_actions = matched_actions_of p action_type,
                           m_resources = matched_resources_of p canonical \<rparr>))))"

fun match_policies ::
  "float_lib \<Rightarrow> cel_lib \<Rightarrow> string \<Rightarrow> string \<Rightarrow> string list \<Rightarrow> context_dict \<Rightarrow> policy list
   \<Rightarrow> ep_error + policy_match list" where
  "match_policies fval cel now action_type canonical context [] = Inr []"
| "match_policies fval cel now action_type canonical context (p # ps) =
     bindE (match_policy fval cel now action_type canonical context p) (\<lambda>m.
       bindE (match_policies fval cel now action_type canonical context ps) (\<lambda>ms.
         Inr (case m of None \<Rightarrow> ms | Some x \<Rightarrow> x # ms)))"

subsection \<open>Overrides\<close>

text \<open>\<open>{p.id: p for p in ps}\<close>: a later policy replaces an earlier one with the same id.\<close>

definition by_id :: "policy list \<Rightarrow> string \<Rightarrow> policy option" where
  "by_id ps i = row_get p_id i (rev ps)"

definition nonempty :: "string option \<Rightarrow> bool" where
  "nonempty s \<longleftrightarrow> s \<noteq> None \<and> s \<noteq> Some []"

text \<open>One id of \<open>exception_to\<close>: whether it is overridden, and the warning.\<close>

definition override_step ::
  "policy list \<Rightarrow> policy list \<Rightarrow> policy \<Rightarrow> string \<Rightarrow> bool \<times> warning" where
  "override_step all_policies denies allow deny_id =
     (case (case by_id denies deny_id of Some d \<Rightarrow> Some d | None \<Rightarrow> by_id all_policies deny_id) of
        None \<Rightarrow> (False, NoSuchDeny (p_id allow) deny_id)
      | Some d \<Rightarrow>
          (if \<not> (p_scope allow = Agent \<and> p_scope d = Global) then (False, NotNarrower (p_id allow))
           else if \<not> nonempty (p_valid_until allow) then (False, NoValidUntil (p_id allow))
           else if \<not> nonempty (p_justification allow) then (False, NoJustification (p_id allow))
           else if \<not> nonempty (p_approved_by allow) then (False, NotApproved (p_id allow))
           else (True, OverrideGranted (p_id allow) deny_id)))"

fun override_ids ::
  "policy list \<Rightarrow> policy list \<Rightarrow> policy \<Rightarrow> string list \<Rightarrow> string list \<times> warning list" where
  "override_ids all_policies denies allow [] = ([], [])"
| "override_ids all_policies denies allow (i # is) =
     (case (override_step all_policies denies allow i, override_ids all_policies denies allow is) of
        ((ok, w), (ids, ws)) \<Rightarrow> (if ok then i # ids else ids, w # ws))"

fun override_allows ::
  "policy list \<Rightarrow> policy list \<Rightarrow> policy list \<Rightarrow> string list \<times> warning list" where
  "override_allows all_policies denies [] = ([], [])"
| "override_allows all_policies denies (a # as) =
     (case (override_ids all_policies denies a (p_exception_to a), override_allows all_policies denies as) of
        ((ids, ws), (ids', ws')) \<Rightarrow> (ids @ ids', ws @ ws'))"

definition compute_overrides ::
  "policy list \<Rightarrow> policy_match list \<Rightarrow> string list \<times> warning list" where
  "compute_overrides all_policies matched =
     (let denies = filter (\<lambda>p. p_effect p = Deny) (map m_policy matched);
          allows = filter (\<lambda>p. p_effect p = Allow) (map m_policy matched)
      in if denies = [] \<or> allows = [] then ([], [])
         else override_allows all_policies denies allows)"

subsection \<open>Resolution\<close>

definition max_priority :: "policy list \<Rightarrow> int" where
  "max_priority ps = Max (p_priority ` set ps)"

text \<open>The governing effect of the policies left, the conflict flag and the warning.\<close>

definition resolve :: "policy list \<Rightarrow> effect \<times> bool \<times> warning list" where
  "resolve ps =
     (if Deny \<in> p_effect ` set ps then
        (let denies = filter (\<lambda>p. p_effect p = Deny) ps;
             others = filter (\<lambda>p. p_effect p \<noteq> Deny \<and> p_priority p \<in> p_priority ` set denies) ps
         in if others \<noteq> [] then (Deny, True, [DenyConflict (p_priority (hd denies))])
            else (Deny, False, []))
      else
        (let top = filter (\<lambda>p. p_priority p = max_priority ps) ps;
             effs = remdups (map p_effect top)
         in if length effs > 1
            then (Require_Approval, True, [EffectConflict (max_priority ps) effs])
            else (p_effect (hd top), False, [])))"

definition evaluate ::
  "float_lib \<Rightarrow> cel_lib \<Rightarrow> string \<Rightarrow> policy list \<Rightarrow> string \<Rightarrow> string list \<Rightarrow> context_dict \<Rightarrow> resolution"
  where
  "evaluate fval cel now policies action_type canonical context =
     (case match_policies fval cel now action_type canonical context policies of
        Inl e \<Rightarrow> \<lparr> r_effect = Require_Approval, r_matched = [], r_conflict = False,
                    r_warnings = [EvaluationError e] \<rparr>
      | Inr matched \<Rightarrow>
          (if matched = [] then
             \<lparr> r_effect = Require_Approval, r_matched = [], r_conflict = False,
               r_warnings = [NoMatchingPolicy] \<rparr>
           else (case compute_overrides policies matched of
                   (overridden, ws) \<Rightarrow>
                     (let eff = filter (\<lambda>m. p_id (m_policy m) \<notin> set overridden) matched
                      in if eff = [] then
                           \<lparr> r_effect = Allow, r_matched = matched, r_conflict = False,
                             r_warnings = ws \<rparr>
                         else (case resolve (map m_policy eff) of
                                 (best, conflict, ws') \<Rightarrow>
                                   \<lparr> r_effect = best, r_matched = matched, r_conflict = conflict,
                                     r_warnings = ws @ ws' \<rparr>)))))"

subsection \<open>Lemmas: matching\<close>

lemma match_policy_SomeD:
  assumes "match_policy fval cel now act can ctx p = Inr (Some m)"
  shows "m_policy m = p" and "is_in_force now p" and "scope_applies p ctx = Inr True"
    and "m_actions m = matched_actions_of p act" and "m_actions m \<noteq> []"
    and "m_resources m = matched_resources_of p can" and "m_resources m \<noteq> []"
    and "conditions_match fval cel (p_conditions p) ctx = Inr True"
  using assms by (auto simp: match_policy_def split: if_splits)

lemma match_policies_Inr:
  "match_policies fval cel now act can ctx ps = Inr ms \<Longrightarrow>
   (\<forall>p \<in> set ps. \<exists>m. match_policy fval cel now act can ctx p = Inr m)
   \<and> ms = List.map_filter (\<lambda>p. case match_policy fval cel now act can ctx p of
                                 Inr m \<Rightarrow> m | Inl _ \<Rightarrow> None) ps"
  by (induction ps arbitrary: ms) (auto simp: List.map_filter_simps split: option.splits)

lemma match_policies_ok:
  "(\<forall>p \<in> set ps. \<exists>m. match_policy fval cel now act can ctx p = Inr m) \<Longrightarrow>
   \<exists>ms. match_policies fval cel now act can ctx ps = Inr ms"
  by (induction ps) auto

lemma match_policies_in:
  assumes "match_policies fval cel now act can ctx ps = Inr ms"
  shows "m \<in> set ms \<longleftrightarrow>
         (\<exists>p \<in> set ps. match_policy fval cel now act can ctx p = Inr (Some m))"
proof -
  let ?f = "\<lambda>p. case match_policy fval cel now act can ctx p of Inr m \<Rightarrow> m | Inl _ \<Rightarrow> None"
  have "m \<in> set (List.map_filter ?f ps) \<longleftrightarrow> (\<exists>p \<in> set ps. ?f p = Some m)"
    by (force simp: List.map_filter_def)
  then show ?thesis
    using match_policies_Inr [OF assms] by (auto split: sum.splits) force+
qed

lemma match_policies_error:
  assumes "p \<in> set ps" and "match_policy fval cel now act can ctx p = Inl e"
  shows "\<exists>e'. match_policies fval cel now act can ctx ps = Inl e'"
  using assms match_policies_Inr [of fval cel now act can ctx ps]
  by (cases "match_policies fval cel now act can ctx ps") fastforce+

lemma match_policies_set:
  assumes "set ps = set qs"
  shows "(\<exists>e. match_policies fval cel now act can ctx ps = Inl e \<and>
              (\<exists>e'. match_policies fval cel now act can ctx qs = Inl e'))
         \<or> (\<exists>ms ns. match_policies fval cel now act can ctx ps = Inr ms
              \<and> match_policies fval cel now act can ctx qs = Inr ns \<and> set ms = set ns)"
proof (cases "match_policies fval cel now act can ctx ps")
  case (Inl e)
  have "\<exists>e'. match_policies fval cel now act can ctx qs = Inl e'"
    using match_policies_ok [of ps] match_policies_Inr [of fval cel now act can ctx qs] Inl assms
    by (cases "match_policies fval cel now act can ctx qs") fastforce+
  with Inl show ?thesis by blast
next
  case (Inr ms)
  then obtain ns where "match_policies fval cel now act can ctx qs = Inr ns"
    using match_policies_ok [of qs] match_policies_Inr [OF Inr] assms by metis
  moreover from this have "set ms = set ns"
    using match_policies_in [OF Inr] match_policies_in [of fval cel now act can ctx qs ns] assms
    by blast
  ultimately show ?thesis using Inr by blast
qed

subsection \<open>Lemmas: overrides\<close>

lemma by_id_SomeD: "by_id ps i = Some p \<Longrightarrow> p \<in> set ps \<and> p_id p = i"
  using row_get_SomeD [of p_id i "rev ps" p] by (simp add: by_id_def)

lemma by_id_in:
  assumes "distinct (map p_id ps)" and "p \<in> set ps"
  shows "by_id ps (p_id p) = Some p"
proof -
  have "distinct (map p_id (rev ps))"
    using assms(1) distinct_rev [of "map p_id ps"] by (simp only: rev_map)
  then show ?thesis using assms(2) row_get_in [of p_id "rev ps" p] by (simp add: by_id_def)
qed

lemma by_id_eqI:
  assumes "inj_on p_id (set ps)"
  shows "by_id ps i = Some p \<longleftrightarrow> p \<in> set ps \<and> p_id p = i"
proof
  assume p: "p \<in> set ps \<and> p_id p = i"
  then have "by_id ps i \<noteq> None"
    by (auto simp: by_id_def row_get_None)
  then obtain q where "by_id ps i = Some q" by blast
  with by_id_SomeD [OF this] p assms show "by_id ps i = Some p" by (simp add: inj_on_def)
qed (rule by_id_SomeD)

lemma by_id_set_cong:
  assumes "set ps = set qs" and "inj_on p_id (set ps)"
  shows "by_id ps i = by_id qs i"
proof (cases "by_id ps i")
  case None
  then have "by_id qs i = None" using assms(1) by (simp add: by_id_def row_get_None)
  with None show ?thesis by simp
next
  case (Some p)
  then show ?thesis using assms by_id_eqI [of ps i p] by_id_eqI [of qs i p] by simp
qed

text \<open>The five controls.\<close>

definition controls :: "policy \<Rightarrow> bool" where
  "controls a \<longleftrightarrow> p_scope a = Agent \<and> nonempty (p_valid_until a)
     \<and> nonempty (p_justification a) \<and> nonempty (p_approved_by a)"

definition override_target :: "policy list \<Rightarrow> policy list \<Rightarrow> string \<Rightarrow> policy option" where
  "override_target all_policies denies i =
     (case by_id denies i of Some d \<Rightarrow> Some d | None \<Rightarrow> by_id all_policies i)"

lemma override_step_iff:
  "fst (override_step all_policies denies a i) \<longleftrightarrow>
     controls a \<and> (\<exists>d. override_target all_policies denies i = Some d \<and> p_scope d = Global)"
  unfolding override_step_def override_target_def controls_def
  by (cases "case by_id denies i of Some d \<Rightarrow> Some d | None \<Rightarrow> by_id all_policies i") simp_all

lemma override_ids_in:
  "i \<in> set (fst (override_ids all_policies denies a is)) \<longleftrightarrow>
     i \<in> set is \<and> fst (override_step all_policies denies a i)"
  by (induction "is") (auto split: prod.splits)

lemma override_allows_in:
  "i \<in> set (fst (override_allows all_policies denies as)) \<longleftrightarrow>
     (\<exists>a \<in> set as. i \<in> set (p_exception_to a) \<and> fst (override_step all_policies denies a i))"
proof (induction as)
  case (Cons a as)
  have "i \<in> set (fst (override_allows all_policies denies (a # as))) \<longleftrightarrow>
        i \<in> set (fst (override_ids all_policies denies a (p_exception_to a)))
        \<or> i \<in> set (fst (override_allows all_policies denies as))"
    by (simp add: split_beta)
  then show ?case by (simp only: override_ids_in Cons.IH) auto
qed simp

lemma compute_overrides_in:
  "i \<in> set (fst (compute_overrides all_policies matched)) \<longleftrightarrow>
     (\<exists>d \<in> m_policy ` set matched. p_effect d = Deny)
     \<and> (\<exists>a \<in> m_policy ` set matched. p_effect a = Allow \<and> controls a \<and> i \<in> set (p_exception_to a)
          \<and> (\<exists>d. override_target all_policies
                    (filter (\<lambda>p. p_effect p = Deny) (map m_policy matched)) i = Some d
                 \<and> p_scope d = Global))"
  unfolding compute_overrides_def Let_def
  by (auto simp: override_allows_in override_step_iff filter_empty_conv)

subsection \<open>Lemmas: resolution\<close>

text \<open>What the resolution of a set of policies must be.\<close>

definition resolution_spec :: "policy set \<Rightarrow> effect \<Rightarrow> bool \<Rightarrow> bool" where
  "resolution_spec P eff conflict \<longleftrightarrow>
     (if \<exists>d \<in> P. p_effect d = Deny then
        eff = Deny
        \<and> (conflict \<longleftrightarrow> (\<exists>d \<in> P. \<exists>q \<in> P. p_effect d = Deny \<and> p_effect q \<noteq> Deny \<and> p_priority q = p_priority d))
      else
        (let top = {q \<in> P. p_priority q = Max (p_priority ` P)} in
         (conflict \<and> eff = Require_Approval \<and> (\<exists>q \<in> top. \<exists>r \<in> top. p_effect q \<noteq> p_effect r))
         \<or> (\<not> conflict \<and> (\<forall>q \<in> top. p_effect q = eff))))"

lemma remdups_single: "length (remdups xs) \<le> 1 \<Longrightarrow> x \<in> set xs \<Longrightarrow> y \<in> set xs \<Longrightarrow> x = y"
proof -
  assume len: "length (remdups xs) \<le> 1" and "x \<in> set xs" and "y \<in> set xs"
  then have "x \<in> set (remdups xs)" and "y \<in> set (remdups xs)" by simp_all
  with len show "x = y" by (cases "remdups xs") auto
qed

lemma remdups_many: "length (remdups xs) > 1 \<Longrightarrow> \<exists>x \<in> set xs. \<exists>y \<in> set xs. x \<noteq> y"
proof -
  assume len: "length (remdups xs) > 1"
  then obtain x y zs where r: "remdups xs = x # y # zs"
    by (cases "remdups xs"; cases "tl (remdups xs)") auto
  then have "x \<in> set (remdups xs)" and "y \<in> set (remdups xs)" by simp_all
  moreover have "x \<noteq> y" using distinct_remdups [of xs] r by simp
  ultimately show ?thesis by auto
qed

lemma resolve_meets_spec:
  assumes "resolve ps = (eff, conflict, ws)" and "ps \<noteq> []"
  shows "resolution_spec (set ps) eff conflict"
proof (cases "Deny \<in> p_effect ` set ps")
  case True
  have e: "(filter (\<lambda>p. p_effect p \<noteq> Deny
            \<and> p_priority p \<in> p_priority ` set (filter (\<lambda>p. p_effect p = Deny) ps)) ps \<noteq> []) \<longleftrightarrow>
        (\<exists>d \<in> set ps. \<exists>q \<in> set ps. p_effect d = Deny \<and> p_effect q \<noteq> Deny \<and> p_priority q = p_priority d)"
    by (auto simp: filter_empty_conv)
  have "\<exists>d \<in> set ps. p_effect d = Deny" using True by force
  with True assms(1) show ?thesis
    unfolding resolve_def Let_def resolution_spec_def by (simp only: e) (auto split: if_splits)
next
  case False
  let ?top = "filter (\<lambda>p. p_priority p = max_priority ps) ps"
  have "max_priority ps \<in> p_priority ` set ps"
    using assms(2) by (simp add: max_priority_def)
  then have ne: "?top \<noteq> []" by (force simp: filter_empty_conv)
  have nd: "\<not> (\<exists>d \<in> set ps. p_effect d = Deny)" using False by force
  show ?thesis
  proof (cases "length (remdups (map p_effect ?top)) > 1")
    case True
    with False assms(1) have "eff = Require_Approval" "conflict"
      by (simp_all add: resolve_def Let_def)
    with remdups_many [OF True] nd show ?thesis
      unfolding resolution_spec_def Let_def max_priority_def by auto
  next
    case single: False
    with False assms(1) have "eff = p_effect (hd ?top)" "\<not> conflict"
      by (auto simp: resolve_def Let_def)
    moreover from hd_in_set [OF ne] have "p_effect (hd ?top) \<in> set (map p_effect ?top)"
      unfolding set_map by (rule imageI)
    moreover have "p_effect q = p_effect (hd ?top)" if "q \<in> set ?top" for q
    proof (rule remdups_single)
      show "length (remdups (map p_effect ?top)) \<le> 1" using single by (rule leI)
      show "p_effect q \<in> set (map p_effect ?top)" using that unfolding set_map by (rule imageI)
    qed fact
    ultimately have "\<not> conflict \<and> (\<forall>q \<in> set ?top. p_effect q = eff)"
      by blast
    with nd show ?thesis
      unfolding resolution_spec_def Let_def max_priority_def by simp
  qed
qed

lemma resolution_spec_deny: "\<exists>d \<in> P. p_effect d = Deny \<Longrightarrow> resolution_spec P e c \<Longrightarrow> e = Deny"
  unfolding resolution_spec_def by simp

lemma resolution_spec_top:
  assumes "resolution_spec P e c" and "\<not> (\<exists>d \<in> P. p_effect d = Deny)" and "finite P" and "P \<noteq> {}"
  obtains q where "q \<in> P" "p_priority q = Max (p_priority ` P)"
    and "(c \<and> e = Require_Approval \<and>
          (\<exists>r \<in> P. \<exists>s \<in> P. p_priority r = Max (p_priority ` P) \<and> p_priority s = Max (p_priority ` P)
                   \<and> p_effect r \<noteq> p_effect s))
         \<or> (\<not> c \<and> e = p_effect q \<and> (\<forall>r \<in> P. p_priority r = Max (p_priority ` P) \<longrightarrow> p_effect r = e))"
proof -
  have "Max (p_priority ` P) \<in> p_priority ` P" using assms(3,4) by simp
  then obtain q where q: "q \<in> P" "p_priority q = Max (p_priority ` P)" by force
  have u: "resolution_spec P e c \<longleftrightarrow>
      (let top = {q \<in> P. p_priority q = Max (p_priority ` P)} in
         (c \<and> e = Require_Approval \<and> (\<exists>q \<in> top. \<exists>r \<in> top. p_effect q \<noteq> p_effect r))
         \<or> (\<not> c \<and> (\<forall>q \<in> top. p_effect q = e)))"
    unfolding resolution_spec_def using assms(2) by (simp only: if_False)
  show thesis
    by (rule that [OF q]) (use assms(1) q in \<open>auto simp: u Let_def\<close>)
qed

lemma resolution_spec_unique:
  assumes "resolution_spec P e c" and "resolution_spec P e' c'" and "finite P" and "P \<noteq> {}"
  shows "e = e' \<and> c = c'"
proof (cases "\<exists>d \<in> P. p_effect d = Deny")
  case True
  with assms(1,2) show ?thesis unfolding resolution_spec_def by simp
next
  case False
  show ?thesis
    by (rule resolution_spec_top [OF assms(1) False assms(3,4)],
        rule resolution_spec_top [OF assms(2) False assms(3,4)]) metis
qed

lemma resolution_spec_effect_in:
  assumes "resolution_spec P e c" and "e = Allow \<or> e = Warn" and "finite P" and "P \<noteq> {}"
  shows "\<exists>p \<in> P. p_effect p = e"
proof -
  have nd: "\<not> (\<exists>d \<in> P. p_effect d = Deny)"
    using resolution_spec_deny [OF _ assms(1)] assms(2) by auto
  show ?thesis
    by (rule resolution_spec_top [OF assms(1) nd assms(3,4)]) (use assms(2) in auto)
qed

subsection \<open>Properties\<close>

lemma evaluate_cases:
  assumes "match_policies fval cel now act can ctx ps = Inr ms" and "ms \<noteq> []"
  defines "ov \<equiv> set (fst (compute_overrides ps ms))"
  defines "left \<equiv> {p \<in> m_policy ` set ms. p_id p \<notin> ov}"
  shows "r_matched (evaluate fval cel now ps act can ctx) = ms"
    and "left = {} \<Longrightarrow> r_effect (evaluate fval cel now ps act can ctx) = Allow
                    \<and> \<not> r_conflict (evaluate fval cel now ps act can ctx)"
    and "left \<noteq> {} \<Longrightarrow> resolution_spec left (r_effect (evaluate fval cel now ps act can ctx))
                         (r_conflict (evaluate fval cel now ps act can ctx))"
proof -
  let ?eff = "filter (\<lambda>m. p_id (m_policy m) \<notin> ov) ms"
  have left: "left = set (map m_policy ?eff)" by (auto simp: left_def)
  show "r_matched (evaluate fval cel now ps act can ctx) = ms"
    using assms(1,2) by (simp add: evaluate_def Let_def split: prod.split)
  show "r_effect (evaluate fval cel now ps act can ctx) = Allow
        \<and> \<not> r_conflict (evaluate fval cel now ps act can ctx)" if "left = {}"
  proof -
    have "set (map m_policy ?eff) = {}" by (simp only: left [symmetric] that)
    then have "?eff = []" by (simp only: set_empty map_is_Nil_conv)
    with assms(1,2) show ?thesis
      by (simp add: evaluate_def Let_def ov_def split_beta)
  qed
  show "resolution_spec left (r_effect (evaluate fval cel now ps act can ctx))
        (r_conflict (evaluate fval cel now ps act can ctx))" if "left \<noteq> {}"
  proof -
    obtain best conflict ws where r: "resolve (map m_policy ?eff) = (best, conflict, ws)"
      by (metis prod_cases3)
    have ne: "?eff \<noteq> []" using that unfolding left by (metis map_is_Nil_conv set_empty)
    have "r_effect (evaluate fval cel now ps act can ctx) = best
          \<and> r_conflict (evaluate fval cel now ps act can ctx) = conflict"
      using assms(1,2) ne r by (auto simp: evaluate_def Let_def ov_def split: prod.split)
    with resolve_meets_spec [OF r] ne left show ?thesis by simp
  qed
qed

lemma compute_overrides_cong:
  assumes ps: "set ps = set qs" and inj: "inj_on p_id (set ps)"
    and ms: "set ms = set ns" and sub: "m_policy ` set ms \<subseteq> set ps"
  shows "set (fst (compute_overrides ps ms)) = set (fst (compute_overrides qs ns))"
proof -
  let ?D = "\<lambda>ms. filter (\<lambda>p. p_effect p = Deny) (map m_policy ms)"
  have "inj_on p_id (set (?D ms))"
    by (rule inj_on_subset [OF inj]) (use sub in auto)
  then have "override_target ps (?D ms) i = override_target qs (?D ns) i" for i
    unfolding override_target_def
    using by_id_set_cong [of "?D ms" "?D ns" i] by_id_set_cong [OF ps inj, of i] ms
    by (cases "by_id (?D ns) i") simp_all
  then show ?thesis by (auto simp: set_eq_iff compute_overrides_in ms)
qed

lemma match_policies_sub:
  "match_policies fval cel now act can ctx ps = Inr ms \<Longrightarrow> m_policy ` set ms \<subseteq> set ps"
  using match_policies_in match_policy_SomeD(1) by fastforce

subsubsection \<open>A sample policy set\<close>

definition sample_policy :: "string \<Rightarrow> effect \<Rightarrow> int \<Rightarrow> policy" where
  "sample_policy i eff prio =
     \<lparr> p_id = i, p_effect = eff, p_actions = [''postgres.*''], p_resources = [''*''],
       p_conditions = [], p_priority = prio, p_scope = Global, p_agent_scope = None,
       p_project_id = None, p_branch_id = None, p_description = [], p_status = Active,
       p_created_by = ''u'', p_approved_by = Some ''u'', p_approved_at = None,
       p_activation_version = None, p_exception_to = [], p_valid_from = None,
       p_valid_until = None, p_justification = None \<rparr>"

definition sample_exception :: "string \<Rightarrow> string \<Rightarrow> policy" where
  "sample_exception i target =
     (sample_policy i Allow 0)
       \<lparr> p_scope := Agent, p_agent_scope := Some ''ag'', p_exception_to := [target],
         p_valid_until := Some ''2027'', p_justification := Some ''drill'' \<rparr>"

definition sample_eval :: "policy list \<Rightarrow> resolution" where
  "sample_eval ps =
     evaluate (\<lambda>_. 0) (\<lambda>_ _. Inl RuntimeError) ''2026'' ps ''postgres.execute''
       [''postgres://h/db''] [(''agent_id'', JStr ''ag'')]"





text \<open>Policies of equal priority with different effects: a deny wins over an allow, although
  EP-POLICY-007 asks for an approval, and a warning and an allow need an approval, although EP-POLICY-004
  asks for the warning.\<close>

lemma equal_priority_deny_wins:
  "r_effect (sample_eval [sample_policy ''d'' Deny 5, sample_policy ''a'' Allow 5]) = Deny"
  "r_conflict (sample_eval [sample_policy ''d'' Deny 5, sample_policy ''a'' Allow 5])"
  by code_simp+

lemma equal_priority_warn_needs_approval:
  "r_effect (sample_eval [sample_policy ''w'' Warn 5, sample_policy ''a'' Allow 5]) = Require_Approval"
  "r_effect (sample_eval []) = Require_Approval"
  by code_simp+

text \<open>C38: the effect and the conflict flag do not depend on the order in which the policies are
  supplied (policies have distinct identifiers).\<close>

theorem evaluate_order_independent:
  assumes ps: "set ps = set qs" and inj: "inj_on p_id (set ps)"
  shows "r_effect (evaluate fval cel now ps act can ctx) = r_effect (evaluate fval cel now qs act can ctx)
       \<and> r_conflict (evaluate fval cel now ps act can ctx) = r_conflict (evaluate fval cel now qs act can ctx)"
  using match_policies_set [OF ps, of fval cel now act can ctx]
proof (elim disjE exE conjE)
  fix ms ns
  assume m: "match_policies fval cel now act can ctx ps = Inr ms"
    and n: "match_policies fval cel now act can ctx qs = Inr ns" and s: "set ms = set ns"
  show ?thesis
  proof (cases "ms = []")
    case True
    with m n s show ?thesis by (simp add: evaluate_def)
  next
    case False
    then have nn: "ns \<noteq> []" using s by auto
    let ?L = "\<lambda>ps ms. {p \<in> m_policy ` set ms. p_id p \<notin> set (fst (compute_overrides ps ms))}"
    have ov: "set (fst (compute_overrides ps ms)) = set (fst (compute_overrides qs ns))"
      by (rule compute_overrides_cong [OF ps inj s match_policies_sub [OF m]])
    have L: "?L ps ms = ?L qs ns" unfolding ov s ..
    show ?thesis
    proof (cases "?L ps ms = {}")
      case True
      with evaluate_cases(2) [OF m False] evaluate_cases(2) [OF n nn] L show ?thesis by simp
    next
      case ne: False
      then have ne': "?L qs ns \<noteq> {}" unfolding L .
      from evaluate_cases(3) [OF m False ne, unfolded L] evaluate_cases(3) [OF n nn ne']
      show ?thesis by (rule resolution_spec_unique) (use ne' in auto)
    qed
  qed
qed (auto simp: evaluate_def)

theorem evaluate_order_independent_witness:
  "r_effect (sample_eval [sample_policy ''a'' Allow 3, sample_policy ''w'' Warn 3])
   = r_effect (sample_eval [sample_policy ''w'' Warn 3, sample_policy ''a'' Allow 3])"
  unfolding sample_eval_def
  by (rule conjunct1, rule evaluate_order_independent) (auto simp: sample_policy_def)

text \<open>Nothing is permitted by default. A result of allow or warn comes from a supplied policy
  with that effect that is active and in force, whose scope applies to the context, one of whose
  action patterns and one of whose resource patterns match, and whose conditions hold.\<close>

theorem permission_needs_policy:
  assumes e: "r_effect (evaluate fval cel now ps act can ctx) = eff" and "eff = Allow \<or> eff = Warn"
  shows "\<exists>p \<in> set ps. p_effect p = eff \<and> is_in_force now p \<and> scope_applies p ctx = Inr True
           \<and> (\<exists>pat \<in> set (p_actions p). fnmatchcase act pat)
           \<and> matched_resources_of p can \<noteq> []
           \<and> conditions_match fval cel (p_conditions p) ctx = Inr True"
proof -
  obtain ms where m: "match_policies fval cel now act can ctx ps = Inr ms" and ne: "ms \<noteq> []"
    using assms by (auto simp: evaluate_def split: sum.splits if_splits)
  let ?L = "{p \<in> m_policy ` set ms. p_id p \<notin> set (fst (compute_overrides ps ms))}"
  have "\<exists>p \<in> m_policy ` set ms. p_effect p = eff"
  proof (cases "?L = {}")
    case True
    then obtain x where "x \<in> set (fst (compute_overrides ps ms))" using ne by (cases ms) auto
    with evaluate_cases(2) [OF m ne True] e show ?thesis by (auto simp: compute_overrides_in)
  next
    case False
    have "resolution_spec ?L eff (r_conflict (evaluate fval cel now ps act can ctx))"
      using evaluate_cases(3) [OF m ne False] e by simp
    from resolution_spec_effect_in [OF this assms(2) _ False] show ?thesis by auto
  qed
  then obtain x where x: "x \<in> set ms" "p_effect (m_policy x) = eff" by auto
  then obtain p where p: "p \<in> set ps" "match_policy fval cel now act can ctx p = Inr (Some x)"
    unfolding match_policies_in [OF m] by blast
  have "\<exists>pat \<in> set (p_actions p). fnmatchcase act pat"
    using match_policy_SomeD(4,5) [OF p(2)] by (auto simp: matched_actions_of_def filter_empty_conv)
  with match_policy_SomeD [OF p(2)] x(2) p(1) show ?thesis by metis
qed

theorem permission_needs_policy_witness:
  "\<exists>p \<in> set [sample_policy ''w'' Warn 3, sample_policy ''a'' Allow 1]. p_effect p = Warn
     \<and> is_in_force ''2026'' p"
proof -
  have "r_effect (sample_eval [sample_policy ''w'' Warn 3, sample_policy ''a'' Allow 1]) = Warn"
    by code_simp
  from permission_needs_policy [OF this [unfolded sample_eval_def] disjI2 [OF refl]]
  show ?thesis by blast
qed

text \<open>Evaluation fails closed. If matching raises for one of the policies (a scoped policy
  without its context, a CEL expression that fails), or if none matches, the result is
  require_approval with no matched policy. In particular an error in one policy also hides every
  deny policy that matches.\<close>

theorem evaluate_fails_closed:
  assumes "(\<exists>p \<in> set ps. \<exists>e. match_policy fval cel now act can ctx p = Inl e)
         \<or> (\<forall>p \<in> set ps. match_policy fval cel now act can ctx p = Inr None)"
  shows "r_effect (evaluate fval cel now ps act can ctx) = Require_Approval
       \<and> r_matched (evaluate fval cel now ps act can ctx) = []
       \<and> \<not> r_conflict (evaluate fval cel now ps act can ctx)"
  using assms
proof
  assume "\<exists>p \<in> set ps. \<exists>e. match_policy fval cel now act can ctx p = Inl e"
  then obtain e where "match_policies fval cel now act can ctx ps = Inl e"
    using match_policies_error by blast
  then show ?thesis by (simp add: evaluate_def)
next
  assume none: "\<forall>p \<in> set ps. match_policy fval cel now act can ctx p = Inr None"
  then obtain ms where m: "match_policies fval cel now act can ctx ps = Inr ms"
    using match_policies_ok by blast
  then have "ms = []" using match_policies_in [OF m] none by (cases ms) auto
  with m show ?thesis by (simp add: evaluate_def)
qed

theorem evaluate_fails_closed_witness:
  "r_effect (sample_eval [sample_policy ''d'' Deny 9,
      (sample_policy ''c'' Allow 1)\<lparr>p_conditions := [(''cel'', JStr ''('')]\<rparr>]) = Require_Approval"
  unfolding sample_eval_def
  by (rule conjunct1, rule evaluate_fails_closed, rule disjI1,
      rule bexI [of _ "(sample_policy ''c'' Allow 1)\<lparr>p_conditions := [(''cel'', JStr ''('')]\<rparr>"])
     (rule exI [of _ RuntimeError], code_simp, simp)

subsubsection \<open>What modelling showed\<close>

text \<open>\<open>_compute_overrides\<close> falls back to the index of all policies without checking the effect: an
  exception that names a global \<open>require_approval\<close> policy removes it from the resolution, once
  any deny policy matches and is overridden as well. The action is then allowed although the
  approval policy has the higher priority.\<close>

theorem override_removes_approval_policy:
  "r_effect (sample_eval [sample_policy ''d'' Deny 1, sample_policy ''r'' Require_Approval 9,
       (sample_exception ''x'' ''d'')\<lparr>p_exception_to := [''d'', ''r'']\<rparr>]) = Allow"
  by code_simp

text \<open>A CEL expression that does not compile in one policy turns the denial by another into a
  request for approval.\<close>

theorem cel_error_hides_deny:
  "r_effect (sample_eval [sample_policy ''d'' Deny 9]) = Deny
   \<and> r_effect (sample_eval [sample_policy ''d'' Deny 9,
        (sample_policy ''c'' Allow 1)\<lparr>p_conditions := [(''cel'', JStr ''('')]\<rparr>]) = Require_Approval"
  by code_simp

end
