(* ===== verification/Deployment.thy ===== *)
theory Deployment
  imports Clock Classification Policy_Engine Json_Parse
begin

section \<open>Deployment verification and enforcement capabilities (deployment.py)\<close>

text \<open>
  \<open>verify_deployment\<close> decides whether enforced mode is real, and an \<open>EnforcementCapability\<close>
  carries that decision to the services that issue and execute authorizations.

  Arguments of the model: the host (environment variables, existing paths, home directory), the
  outcome of an HTTP request, the Ed25519 library (\<open>verify key message signature_hex\<close> is false
  when the library raises, a malformed signature included) and \<open>fromiso\<close>, the result of
  \<open>datetime.fromisoformat\<close>. Instants are microseconds as in Clock. Evidence texts are dropped:
  a reason is the name of the failed check.
\<close>

record isolation_check =
  c_name :: string
  c_passed :: bool
  c_required :: bool

record enforcement_status =
  s_requested :: string
  s_effective :: string
  s_checks :: "isolation_check list"
  s_reasons :: "string list"

definition failed_required_checks :: "enforcement_status \<Rightarrow> isolation_check list" where
  "failed_required_checks s = filter (\<lambda>c. c_required c \<and> \<not> c_passed c) (s_checks s)"

definition binding_enforcement_active :: "enforcement_status \<Rightarrow> bool" where
  "binding_enforcement_active s \<longleftrightarrow>
     s_effective s = ''enforced'' \<and> list_all (\<lambda>c. c_required c \<longrightarrow> c_passed c) (s_checks s)"

record attestation =
  proxy_separate_process :: bool
  proxy_identity_verified :: bool
  agent_has_no_target_credentials :: bool
  agent_has_no_docker_socket :: bool
  agent_has_no_ssh_agent :: bool
  agent_has_no_cloud_credentials :: bool
  raw_tools_removed :: bool
  target_network_restricted_to_proxy :: bool
  proxy_health_verified :: bool

record host =
  getenv :: "string \<Rightarrow> string option"
  path_exists :: "string \<Rightarrow> bool"
  home :: string

subsection \<open>Runtime checks\<close>

definition credential_env_vars :: "string list" where
  "credential_env_vars = [''EP_PROXY_TARGET_URL'', ''DATABASE_URL'', ''POSTGRES_URL'',
     ''POSTGRES_PASSWORD'', ''PGPASSWORD'', ''DB_PASSWORD'', ''TARGET_DB_URL'']"

definition cloud_credential_env_vars :: "string list" where
  "cloud_credential_env_vars = [''AWS_ACCESS_KEY_ID'', ''AWS_SECRET_ACCESS_KEY'', ''AZURE_CLIENT_SECRET'',
     ''GOOGLE_APPLICATION_CREDENTIALS'', ''GCLOUD_SERVICE_KEY'', ''ARM_CLIENT_SECRET'']"

definition credential_file_paths :: "string \<Rightarrow> string list" where
  "credential_file_paths hm = map (\<lambda>p. hm @ p)
     [''/.aws/credentials'', ''/.aws/config'', ''/.ssh/id_rsa'', ''/.ssh/id_ed25519'', ''/.kube/config'',
      ''/.docker/config.json''] @ [''/var/run/docker.sock'']"

definition raw_tools :: "string list" where
  "raw_tools = [''shell.exec'', ''shell'', ''postgres.execute'', ''postgres'', ''psql'', ''docker.exec'',
     ''docker'', ''docker.run'', ''ssh.exec'', ''ssh'', ''python.exec'', ''python'', ''terminal'',
     ''filesystem.write'', ''filesystem.delete'']"

definition governed_tools :: "string list" where
  "governed_tools = [''ep_execute'', ''ep_check'', ''ep_status'', ''ep_list_policies'', ''ep_log'',
     ''ep_audit'', ''ep_pending_approvals'', ''ep_approve'', ''ep_deny'', ''ep_claim'',
     ''ep_release_claim'']"

text \<open>\<open>e.get(v)\<close> is truthy: the variable is set and not empty.\<close>

definition env_set :: "host \<Rightarrow> string \<Rightarrow> bool" where
  "env_set h v = (case getenv h v of None \<Rightarrow> False | Some s \<Rightarrow> s \<noteq> [])"

definition env_flag :: "host \<Rightarrow> string \<Rightarrow> bool" where
  "env_flag h v = (case getenv h v of None \<Rightarrow> False
     | Some s \<Rightarrow> lower s \<in> set [''true'', ''1'', ''yes''])"

definition required_check :: "string \<Rightarrow> bool \<Rightarrow> isolation_check" where
  "required_check name ok = \<lparr> c_name = name, c_passed = ok, c_required = True \<rparr>"

definition check_runtime_environment :: "host \<Rightarrow> isolation_check list" where
  "check_runtime_environment h =
     [required_check ''no_target_credentials_in_env'' (filter (env_set h) credential_env_vars = []),
      required_check ''no_cloud_credentials_in_env'' (filter (env_set h) cloud_credential_env_vars = []),
      required_check ''no_docker_socket'' (\<not> path_exists h ''/var/run/docker.sock''),
      required_check ''no_ssh_agent'' (\<not> (case getenv h ''SSH_AUTH_SOCK'' of None \<Rightarrow> False
                                       | Some s \<Rightarrow> s \<noteq> [] \<and> path_exists h s)),
      required_check ''no_credential_files'' (filter (path_exists h) (credential_file_paths (home h)) = [])]"

definition check_agent_tool_manifest :: "string list \<Rightarrow> string list option \<Rightarrow> isolation_check" where
  "check_agent_tool_manifest tools allowed_tools =
     (let allowed = (case allowed_tools of None \<Rightarrow> governed_tools | Some a \<Rightarrow> a);
          raw_found = filter (\<lambda>t. t \<in> set raw_tools) tools;
          non_governed = filter (\<lambda>t. t \<notin> set allowed \<and> t \<notin> set raw_tools) tools
      in required_check ''no_raw_tools_in_manifest'' (raw_found = [] \<and> non_governed = []))"

definition load_attestation_from_env :: "host \<Rightarrow> attestation" where
  "load_attestation_from_env h =
     \<lparr> proxy_separate_process = env_flag h ''EP_ASSERT_PROXY_SEPARATE_PROCESS'',
       proxy_identity_verified = env_flag h ''EP_ASSERT_PROXY_IDENTITY_VERIFIED'',
       agent_has_no_target_credentials = env_flag h ''EP_ASSERT_NO_TARGET_CREDENTIALS'',
       agent_has_no_docker_socket = env_flag h ''EP_ASSERT_NO_DOCKER_SOCKET'',
       agent_has_no_ssh_agent = env_flag h ''EP_ASSERT_NO_SSH_AGENT'',
       agent_has_no_cloud_credentials = env_flag h ''EP_ASSERT_NO_CLOUD_CREDENTIALS'',
       raw_tools_removed = env_flag h ''EP_ASSERT_RAW_TOOLS_REMOVED'',
       target_network_restricted_to_proxy = env_flag h ''EP_ASSERT_TARGET_NETWORK_ISOLATED'',
       proxy_health_verified = env_flag h ''EP_ASSERT_PROXY_HEALTH_VERIFIED'' \<rparr>"

subsection \<open>The proxy health challenge\<close>

text \<open>\<open>http url\<close> is the status and the body of a GET request, \<open>None\<close> when it raises.\<close>

type_synonym http_lib = "string \<Rightarrow> (nat \<times> string) option"
type_synonym verify_lib = "string \<Rightarrow> string \<Rightarrow> string \<Rightarrow> bool"

definition check_proxy_health ::
  "http_lib \<Rightarrow> (string \<Rightarrow> string) \<Rightarrow> verify_lib \<Rightarrow> string \<Rightarrow> string \<Rightarrow> string option \<Rightarrow> bool" where
  "check_proxy_health http frep verify url nonce proxy_public_key =
     (case proxy_public_key of
        None \<Rightarrow> (case http url of None \<Rightarrow> False | Some (status, _) \<Rightarrow> status = 200)
      | Some key \<Rightarrow>
          (case http (url @ ''?nonce='' @ nonce) of
             None \<Rightarrow> False
           | Some (status, body) \<Rightarrow>
               status = 200 \<and>
               (case json_loads frep body of
                  Some (JObj kvs) \<Rightarrow>
                    (case map_of kvs ''signature'' of
                       Some (JStr sig) \<Rightarrow> sig \<noteq> [] \<and> verify key nonce sig
                     | _ \<Rightarrow> False)
                | _ \<Rightarrow> False)))"

subsection \<open>The verification\<close>

definition attestation_checks :: "attestation \<Rightarrow> isolation_check list" where
  "attestation_checks a =
     [required_check ''proxy_separate_process'' (proxy_separate_process a),
      required_check ''proxy_identity_verified'' (proxy_identity_verified a),
      required_check ''target_network_restricted'' (target_network_restricted_to_proxy a),
      required_check ''proxy_health_verified'' (proxy_health_verified a),
      required_check ''agent_no_target_credentials_attested'' (agent_has_no_target_credentials a),
      required_check ''agent_no_docker_socket_attested'' (agent_has_no_docker_socket a),
      required_check ''agent_no_ssh_agent_attested'' (agent_has_no_ssh_agent a),
      required_check ''agent_no_cloud_credentials_attested'' (agent_has_no_cloud_credentials a),
      required_check ''agent_no_raw_tools_attested'' (raw_tools_removed a)]"

text \<open>\<open>health url\<close> is the result of \<open>_check_proxy_health\<close> for the given key.\<close>

definition verify_deployment ::
  "host \<Rightarrow> (string \<Rightarrow> bool) \<Rightarrow> string \<Rightarrow> string list option \<Rightarrow> attestation option \<Rightarrow> string option
   \<Rightarrow> ep_error + enforcement_status" where
  "verify_deployment h health requested_mode agent_tools att proxy_health_url =
     bindE (requireE (requested_mode = ''enforced'' \<or> requested_mode = ''advisory'') ValueError) (\<lambda>_.
     let a = (case att of None \<Rightarrow> load_attestation_from_env h | Some a \<Rightarrow> a) in
     if requested_mode = ''advisory'' then
       Inr \<lparr> s_requested = ''advisory'', s_effective = ''advisory'', s_checks = [],
             s_reasons = [''advisory''] \<rparr>
     else
       let checks = check_runtime_environment h
             @ [case agent_tools of
                  Some ts \<Rightarrow> check_agent_tool_manifest ts None
                | None \<Rightarrow> required_check ''agent_tool_manifest_supplied'' False]
             @ attestation_checks a
             @ [required_check ''proxy_health_active''
                  (case proxy_health_url of None \<Rightarrow> False | Some u \<Rightarrow> u \<noteq> [] \<and> health u)];
           failed = filter (\<lambda>c. c_required c \<and> \<not> c_passed c) checks
       in Inr \<lparr> s_requested = requested_mode,
                s_effective = (if failed \<noteq> [] then ''advisory'' else ''enforced''),
                s_checks = checks, s_reasons = map c_name failed \<rparr>)"

subsection \<open>Capabilities\<close>

text \<open>Fields that \<open>from_signed_attestation\<close> copies without a type check are JSON values.\<close>

record capability =
  cap_effective_mode :: string
  cap_binding_active :: bool
  cap_agent_principal_id :: string
  cap_verification_time :: json
  cap_failure_reasons :: json
  cap_proxy_scoped :: bool
  cap_issued_at :: string
  cap_expires_at :: string
  cap_deployment_id :: string
  cap_runtime_instance_id :: json
  cap_proxy_principal_id :: string
  cap_proxy_audience :: string
  cap_target_id :: string
  cap_supported_action_types :: "string list"
  cap_attestation_digest :: string
  cap_trust_level :: string

datatype iso_time = Bad_Time | Naive_Time nat | Utc_Time nat

type_synonym fromiso_lib = "string \<Rightarrow> iso_time"

text \<open>\<open>datetime.isoformat()\<close> of an aware UTC instant: no fraction when it is zero.\<close>

definition isoformat :: "nat \<Rightarrow> string" where
  "isoformat t = (let dt = datetime_of t in
     pad 4 (year dt) @ ''-'' @ pad 2 (month dt) @ ''-'' @ pad 2 (day dt) @ ''T''
     @ pad 2 (hour dt) @ '':'' @ pad 2 (minute dt) @ '':'' @ pad 2 (second dt)
     @ (if microsecond dt = 0 then [] else ''.'' @ pad 6 (microsecond dt)) @ ''+00:00'')"

definition seconds :: "nat \<Rightarrow> nat" where
  "seconds n = n * 1000000"

definition from_status :: "enforcement_status \<Rightarrow> string \<Rightarrow> nat \<Rightarrow> capability" where
  "from_status st agent t =
     \<lparr> cap_effective_mode = s_effective st, cap_binding_active = binding_enforcement_active st,
       cap_agent_principal_id = agent, cap_verification_time = JStr (isoformat t),
       cap_failure_reasons = JArr (if binding_enforcement_active st then [] else map JStr (s_reasons st)),
       cap_proxy_scoped = False, cap_issued_at = isoformat t,
       cap_expires_at = isoformat (t + seconds 300), cap_deployment_id = [],
       cap_runtime_instance_id = JStr [], cap_proxy_principal_id = [], cap_proxy_audience = [],
       cap_target_id = [], cap_supported_action_types = [], cap_attestation_digest = [],
       cap_trust_level = ''unverified'' \<rparr>"

definition for_test ::
  "string \<Rightarrow> bool \<Rightarrow> string \<Rightarrow> string \<Rightarrow> string \<Rightarrow> string \<Rightarrow> nat \<Rightarrow> capability" where
  "for_test agent scoped proxy_principal audience deployment target t =
     \<lparr> cap_effective_mode = ''enforced'', cap_binding_active = True, cap_agent_principal_id = agent,
       cap_verification_time = JStr (isoformat t), cap_failure_reasons = JArr [],
       cap_proxy_scoped = scoped, cap_issued_at = isoformat t,
       cap_expires_at = isoformat (t + seconds 3600), cap_deployment_id = deployment,
       cap_runtime_instance_id = JStr [], cap_proxy_principal_id = proxy_principal,
       cap_proxy_audience = audience, cap_target_id = target, cap_supported_action_types = [],
       cap_attestation_digest = [], cap_trust_level = ''test'' \<rparr>"

definition replace_z :: "string \<Rightarrow> string" where
  "replace_z s = concat (map (\<lambda>c. if c = CHR ''Z'' then ''+00:00'' else [c]) s)"

definition production_mode :: "host \<Rightarrow> bool" where
  "production_mode h = env_flag h ''EP_PRODUCTION_MODE''"

text \<open>A stamp without time zone makes the comparison raise \<open>TypeError\<close>, which is not caught.\<close>

definition require_binding_enforcement :: "fromiso_lib \<Rightarrow> host \<Rightarrow> nat \<Rightarrow> capability \<Rightarrow> ep_error + unit" where
  "require_binding_enforcement fromiso h t c =
     bindE (requireE (cap_binding_active c) EnforcementUnavailableError) (\<lambda>_.
     bindE (if cap_expires_at c = [] then Inr ()
            else case fromiso (replace_z (cap_expires_at c)) of
                   Bad_Time \<Rightarrow> Inl EnforcementUnavailableError
                 | Naive_Time _ \<Rightarrow> Inl TypeError
                 | Utc_Time x \<Rightarrow> requireE (t \<le> x) EnforcementUnavailableError) (\<lambda>_.
       requireE (\<not> production_mode h \<or> cap_trust_level c = ''signed_attestation'')
         EnforcementUnavailableError))"

definition require_proxy_scoped :: "capability \<Rightarrow> ep_error + unit" where
  "require_proxy_scoped c =
     bindE (requireE (cap_proxy_scoped c) EnforcementUnavailableError) (\<lambda>_.
     bindE (requireE (cap_proxy_principal_id c \<noteq> []) EnforcementUnavailableError) (\<lambda>_.
       requireE (cap_proxy_audience c \<noteq> []) EnforcementUnavailableError))"

definition matches_proxy_audience :: "capability \<Rightarrow> string \<Rightarrow> bool" where
  "matches_proxy_audience c audience \<longleftrightarrow> cap_proxy_scoped c \<and> cap_proxy_audience c = audience"

definition supports_action_type :: "capability \<Rightarrow> string \<Rightarrow> bool" where
  "supports_action_type c ty \<longleftrightarrow>
     cap_supported_action_types c = [] \<or> ty \<in> set (cap_supported_action_types c)"

subsection \<open>Signed attestations\<close>

definition required_fields :: "string list" where
  "required_fields = [''effective_mode'', ''binding_enforcement_active'', ''agent_principal_id'',
     ''proxy_scoped'', ''issued_at'', ''expires_at'', ''proxy_principal_id'', ''proxy_audience'',
     ''deployment_id'', ''target_id'', ''supported_action_types'']"

definition identifier_fields :: "string list" where
  "identifier_fields = [''proxy_principal_id'', ''proxy_audience'', ''deployment_id'', ''target_id'',
     ''issued_at'', ''expires_at'']"

fun nonempty_str :: "json option \<Rightarrow> bool" where
  "nonempty_str (Some (JStr s)) = (s \<noteq> [])"
| "nonempty_str _ = False"

text \<open>The text of a field that has been checked to be a string.\<close>

fun str_field :: "(string \<times> json) list \<Rightarrow> string \<Rightarrow> string" where
  "str_field kvs k = (case map_of kvs k of Some (JStr s) \<Rightarrow> s | _ \<Rightarrow> [])"

fun str_items :: "json option \<Rightarrow> string list option" where
  "str_items (Some (JArr vs)) =
     (if list_all (\<lambda>v. nonempty_str (Some v)) vs
      then Some (map (\<lambda>v. case v of JStr s \<Rightarrow> s | _ \<Rightarrow> []) vs) else None)"
| "str_items _ = None"

definition attestation_time :: "fromiso_lib \<Rightarrow> string \<Rightarrow> ep_error + nat" where
  "attestation_time fromiso v =
     (case fromiso (replace_z v) of Utc_Time x \<Rightarrow> Inr x | _ \<Rightarrow> Inl EnforcementUnavailableError)"

definition expected_ok :: "string option \<Rightarrow> string \<Rightarrow> bool" where
  "expected_ok expected actual \<longleftrightarrow>
     (case expected of None \<Rightarrow> True | Some e \<Rightarrow> e = [] \<or> e = actual)"

record attestation_libs =
  al_sha :: "string \<Rightarrow> string"
  al_frep :: "string \<Rightarrow> string"
  al_fval :: float_lib
  al_verify :: verify_lib
  al_fromiso :: fromiso_lib

fun as_object :: "json \<Rightarrow> ep_error + (string \<times> json) list" where
  "as_object (JObj kvs) = Inr kvs"
| "as_object _ = Inl AttributeError"

fun signature_ok :: "verify_lib \<Rightarrow> string \<Rightarrow> string \<Rightarrow> json \<Rightarrow> bool" where
  "signature_ok verify key message (JStr s) = verify key message s"
| "signature_ok verify key message _ = False"

text \<open>Loading and signature: a document that is valid JSON but not an object has no \<open>get\<close>.\<close>

definition signed_document ::
  "(string \<Rightarrow> string) \<Rightarrow> verify_lib \<Rightarrow> string \<Rightarrow> string \<Rightarrow> ep_error + (string \<times> json) list" where
  "signed_document frep verify key text =
     bindE (someE EnforcementUnavailableError (json_loads frep text)) (\<lambda>v.
     bindE (as_object v) (\<lambda>data.
     let sig = (case map_of data ''signature'' of None \<Rightarrow> JStr [] | Some s \<Rightarrow> s);
         body = JObj (filter (\<lambda>(k, _). k \<noteq> ''signature'') data) in
     bindE (requireE (truthy sig) EnforcementUnavailableError) (\<lambda>_.
     bindE (requireE (finite_json body) ValueError) (\<lambda>_.
     bindE (requireE (signature_ok verify key (dumps body) sig) EnforcementUnavailableError) (\<lambda>_.
       Inr data)))))"

text \<open>The lifetime checks, on instants: clock skew of five minutes, at most one hour.\<close>

definition times_ok :: "nat \<Rightarrow> nat \<Rightarrow> nat \<Rightarrow> bool" where
  "times_ok t issued expires \<longleftrightarrow>
     t < expires \<and> issued \<le> t + seconds 300 \<and> issued < expires \<and> expires - issued \<le> seconds 3600"

definition from_signed_attestation ::
  "attestation_libs \<Rightarrow> string \<Rightarrow> nat \<Rightarrow> string option \<Rightarrow> string option \<Rightarrow> string option \<Rightarrow> string option
   \<Rightarrow> string \<Rightarrow> ep_error + capability" where
  "from_signed_attestation lib key t exp_principal exp_audience exp_deployment exp_target text =
     bindE (signed_document (al_frep lib) (al_verify lib) key text) (\<lambda>data.
     let get = map_of data; str = str_field data; err = EnforcementUnavailableError in
     bindE (requireE (case get ''schema_version'' of None \<Rightarrow> True
                      | Some v \<Rightarrow> py_eq (al_fval lib) v (JInt 1)) err) (\<lambda>_.
     bindE (requireE (list_all (\<lambda>f. get f \<noteq> None) required_fields) err) (\<lambda>_.
     bindE (requireE (get ''effective_mode'' = Some (JStr ''enforced'')) err) (\<lambda>_.
     bindE (requireE (get ''binding_enforcement_active'' = Some (JBool True)) err) (\<lambda>_.
     bindE (requireE (get ''proxy_scoped'' = Some (JBool True)) err) (\<lambda>_.
     bindE (requireE (get ''agent_principal_id'' = Some (JStr ''proxy'')) err) (\<lambda>_.
     bindE (requireE (list_all (\<lambda>f. nonempty_str (get f)) identifier_fields) err) (\<lambda>_.
     bindE (someE err (str_items (get ''supported_action_types''))) (\<lambda>types.
     bindE (requireE (types \<noteq> [] \<and> distinct types) err) (\<lambda>_.
     bindE (attestation_time (al_fromiso lib) (str ''expires_at'')) (\<lambda>expires.
     bindE (attestation_time (al_fromiso lib) (str ''issued_at'')) (\<lambda>issued.
     bindE (requireE (times_ok t issued expires) err) (\<lambda>_.
     bindE (requireE (expected_ok exp_principal (str ''proxy_principal_id'')
                    \<and> expected_ok exp_audience (str ''proxy_audience'')
                    \<and> expected_ok exp_deployment (str ''deployment_id'')
                    \<and> expected_ok exp_target (str ''target_id'')) err) (\<lambda>_.
       Inr \<lparr> cap_effective_mode = str ''effective_mode'', cap_binding_active = True,
             cap_agent_principal_id = str ''agent_principal_id'',
             cap_verification_time = (case get ''verification_time'' of None \<Rightarrow> JStr (str ''issued_at'')
                                      | Some v \<Rightarrow> v),
             cap_failure_reasons = (case get ''failure_reasons'' of None \<Rightarrow> JArr [] | Some v \<Rightarrow> v),
             cap_proxy_scoped = True, cap_issued_at = str ''issued_at'',
             cap_expires_at = str ''expires_at'', cap_deployment_id = str ''deployment_id'',
             cap_runtime_instance_id = (case get ''runtime_instance_id'' of None \<Rightarrow> JStr [] | Some v \<Rightarrow> v),
             cap_proxy_principal_id = str ''proxy_principal_id'',
             cap_proxy_audience = str ''proxy_audience'', cap_target_id = str ''target_id'',
             cap_supported_action_types = types, cap_attestation_digest = al_sha lib text,
             cap_trust_level = ''signed_attestation'' \<rparr>))))))))))))))"

subsection \<open>Properties\<close>

definition fully_attested :: "attestation \<Rightarrow> bool" where
  "fully_attested a \<longleftrightarrow> proxy_separate_process a \<and> proxy_identity_verified a
     \<and> agent_has_no_target_credentials a \<and> agent_has_no_docker_socket a \<and> agent_has_no_ssh_agent a
     \<and> agent_has_no_cloud_credentials a \<and> raw_tools_removed a
     \<and> target_network_restricted_to_proxy a \<and> proxy_health_verified a"

definition clean_host :: "host \<Rightarrow> bool" where
  "clean_host h \<longleftrightarrow> (\<forall>v \<in> set credential_env_vars \<union> set cloud_credential_env_vars. \<not> env_set h v)
     \<and> \<not> path_exists h ''/var/run/docker.sock''
     \<and> (\<forall>s. getenv h ''SSH_AUTH_SOCK'' = Some s \<longrightarrow> s = [] \<or> \<not> path_exists h s)
     \<and> (\<forall>p \<in> set (credential_file_paths (home h)). \<not> path_exists h p)"

lemma required_check_simps [simp]:
  "c_name (required_check n b) = n" "c_passed (required_check n b) = b"
  "c_required (required_check n b)"
  by (simp_all add: required_check_def)

lemma all_passed:
  "list_all (\<lambda>c. c_required c \<longrightarrow> c_passed c) cs \<longleftrightarrow> filter (\<lambda>c. c_required c \<and> \<not> c_passed c) cs = []"
  by (auto simp: filter_empty_conv list_all_iff)

lemma runtime_passed:
  "list_all (\<lambda>c. c_required c \<longrightarrow> c_passed c) (check_runtime_environment h) \<longleftrightarrow> clean_host h"
  by (auto simp: check_runtime_environment_def clean_host_def filter_empty_conv split: option.splits)

lemma attestation_passed:
  "list_all (\<lambda>c. c_required c \<longrightarrow> c_passed c) (attestation_checks a) \<longleftrightarrow> fully_attested a"
  by (auto simp: attestation_checks_def fully_attested_def)

lemma manifest_passed:
  "c_passed (check_agent_tool_manifest ts None) \<longleftrightarrow> set ts \<subseteq> set governed_tools"
proof -
  have "set governed_tools \<inter> set raw_tools = {}" by (simp add: governed_tools_def raw_tools_def)
  then show ?thesis
    by (auto simp: check_agent_tool_manifest_def Let_def filter_empty_conv)
qed

lemma manifest_required [simp]: "c_required (check_agent_tool_manifest ts a)"
  by (simp add: check_agent_tool_manifest_def Let_def)

lemma verified_deployment:
  assumes "verify_deployment h health mode tools att url = Inr st"
  shows "(binding_enforcement_active st \<longleftrightarrow>
            mode = ''enforced'' \<and> clean_host h \<and> (\<exists>ts. tools = Some ts \<and> set ts \<subseteq> set governed_tools)
            \<and> fully_attested (case att of None \<Rightarrow> load_attestation_from_env h | Some a \<Rightarrow> a)
            \<and> (\<exists>u. url = Some u \<and> u \<noteq> [] \<and> health u))
       \<and> (\<not> binding_enforcement_active st \<longrightarrow> s_effective st = ''advisory'')"
proof (cases "mode = ''advisory''")
  case True
  with assms show ?thesis
    by (auto simp: verify_deployment_def binding_enforcement_active_def Let_def)
next
  case False
  with assms have m: "mode = ''enforced''" by (auto simp: verify_deployment_def)
  let ?a = "case att of None \<Rightarrow> load_attestation_from_env h | Some a \<Rightarrow> a"
  have st: "s_effective st = (if list_all (\<lambda>c. c_required c \<longrightarrow> c_passed c) (s_checks st)
        then ''enforced'' else ''advisory'')"
    and checks: "s_checks st = check_runtime_environment h
             @ [case tools of Some ts \<Rightarrow> check_agent_tool_manifest ts None
                | None \<Rightarrow> required_check ''agent_tool_manifest_supplied'' False]
             @ attestation_checks ?a
             @ [required_check ''proxy_health_active''
                  (case url of None \<Rightarrow> False | Some u \<Rightarrow> u \<noteq> [] \<and> health u)]"
    using assms m by (auto simp: verify_deployment_def Let_def all_passed)
  have "binding_enforcement_active st \<longleftrightarrow> list_all (\<lambda>c. c_required c \<longrightarrow> c_passed c) (s_checks st)"
    unfolding binding_enforcement_active_def st by simp
  also have "\<dots> \<longleftrightarrow> clean_host h \<and> (\<exists>ts. tools = Some ts \<and> set ts \<subseteq> set governed_tools)
            \<and> fully_attested ?a \<and> (\<exists>u. url = Some u \<and> u \<noteq> [] \<and> health u)"
    unfolding checks list_all_append runtime_passed attestation_passed
    by (simp add: manifest_passed split: option.splits)
  finally show ?thesis using m st by (auto simp: binding_enforcement_active_def)
qed

text \<open>C32: enforced mode is binding exactly when it was requested, the host shows none of the known
  bypasses, the tool manifest was supplied and lists governed tools only, all nine properties of the
  attestation hold and the proxy answered its health check. With one condition missing the effective
  mode is advisory.\<close>

theorem binding_enforcement_iff:
  assumes "verify_deployment h health mode tools att url = Inr st"
  shows "(binding_enforcement_active st \<longleftrightarrow>
            mode = ''enforced'' \<and> clean_host h \<and> (\<exists>ts. tools = Some ts \<and> set ts \<subseteq> set governed_tools)
            \<and> fully_attested (case att of None \<Rightarrow> load_attestation_from_env h | Some a \<Rightarrow> a)
            \<and> (\<exists>u. url = Some u \<and> u \<noteq> [] \<and> health u))
       \<and> (\<not> binding_enforcement_active st \<longrightarrow> s_effective st = ''advisory'')"
  by (rule verified_deployment [OF assms])

definition sample_host :: host where
  "sample_host = \<lparr> getenv = (\<lambda>_. None), path_exists = (\<lambda>_. False), home = ''/root'' \<rparr>"

definition sample_attestation :: attestation where
  "sample_attestation = \<lparr> proxy_separate_process = True, proxy_identity_verified = True,
     agent_has_no_target_credentials = True, agent_has_no_docker_socket = True,
     agent_has_no_ssh_agent = True, agent_has_no_cloud_credentials = True, raw_tools_removed = True,
     target_network_restricted_to_proxy = True, proxy_health_verified = True \<rparr>"

theorem binding_enforcement_iff_witness:
  "\<exists>st. verify_deployment sample_host (\<lambda>_. True) ''enforced'' (Some [''ep_execute'']) (Some sample_attestation)
          (Some ''http'') = Inr st \<and> binding_enforcement_active st"
proof -
  obtain st where st: "verify_deployment sample_host (\<lambda>_. True) ''enforced'' (Some [''ep_execute''])
      (Some sample_attestation) (Some ''http'') = Inr st"
    by (simp add: verify_deployment_def Let_def)
  from binding_enforcement_iff [OF st] st show ?thesis
    by (simp add: clean_host_def sample_host_def env_set_def fully_attested_def sample_attestation_def
        governed_tools_def)
qed

text \<open>The steps of a successful \<open>from_signed_attestation\<close>.\<close>

lemma as_object_Inr [simp]: "as_object v = Inr kvs \<longleftrightarrow> v = JObj kvs"
  by (cases v) auto

lemma signature_ok_iff: "signature_ok verify key m sig \<longleftrightarrow> (\<exists>s. sig = JStr s \<and> verify key m s)"
  by (cases sig) auto

lemma nonempty_str_iff: "nonempty_str v \<longleftrightarrow> (\<exists>s. v = Some (JStr s) \<and> s \<noteq> [])"
  by (cases v rule: nonempty_str.cases) auto

lemma signed_document_Inr:
  assumes "signed_document frep verify key text = Inr data"
  shows "json_loads frep text = Some (JObj data)"
    and "\<exists>sig. map_of data ''signature'' = Some (JStr sig)
           \<and> verify key (dumps (JObj (filter (\<lambda>(k, _). k \<noteq> ''signature'') data))) sig"
  using assms by (auto simp: signed_document_def Let_def signature_ok_iff split: option.splits)

lemma attestation_time_Inr:
  "attestation_time fromiso v = Inr x \<longleftrightarrow> fromiso (replace_z v) = Utc_Time x"
  by (auto simp: attestation_time_def split: iso_time.splits)

lemma from_signed_attestation_Inr:
  assumes "from_signed_attestation lib key t xp xa xd xt text = Inr c"
  obtains data expires issued where
    "signed_document (al_frep lib) (al_verify lib) key text = Inr data"
    "map_of data ''expires_at'' = Some (JStr (cap_expires_at c))" "cap_expires_at c \<noteq> []"
    "map_of data ''proxy_principal_id'' = Some (JStr (cap_proxy_principal_id c))"
    "map_of data ''proxy_audience'' = Some (JStr (cap_proxy_audience c))"
    "cap_proxy_principal_id c \<noteq> []" "cap_proxy_audience c \<noteq> []"
    "al_fromiso lib (replace_z (cap_expires_at c)) = Utc_Time expires"
    "al_fromiso lib (replace_z (cap_issued_at c)) = Utc_Time issued" "times_ok t issued expires"
    "cap_supported_action_types c \<noteq> []" "distinct (cap_supported_action_types c)"
    "expected_ok xp (cap_proxy_principal_id c)" "expected_ok xa (cap_proxy_audience c)"
    "expected_ok xd (cap_deployment_id c)" "expected_ok xt (cap_target_id c)"
    "cap_binding_active c" "cap_proxy_scoped c" "cap_trust_level c = ''signed_attestation''"
    "cap_effective_mode c = ''enforced''"
proof -
  from assms show thesis
    unfolding from_signed_attestation_def Let_def
    by (clarsimp simp: attestation_time_Inr identifier_fields_def nonempty_str_iff)
       (rule that, auto)
qed

text \<open>C33: a capability made from a signed attestation is genuine and usable. The trusted key signed
  the canonical text of the whole document without its signature; the capability is bound to the
  expected principal, audience, deployment and target, lists at least one action type, lives at
  most one hour, and, at the time of the check, passes \<open>require_proxy_scoped\<close> and
  \<open>require_binding_enforcement\<close>, in production mode too.\<close>

theorem signed_attestation_genuine:
  assumes "from_signed_attestation lib key t xp xa xd xt text = Inr c"
  shows "(\<exists>data sig. json_loads (al_frep lib) text = Some (JObj data)
            \<and> map_of data ''signature'' = Some (JStr sig)
            \<and> al_verify lib key (dumps (JObj (filter (\<lambda>(k, _). k \<noteq> ''signature'') data))) sig
            \<and> map_of data ''proxy_audience'' = Some (JStr (cap_proxy_audience c)))
       \<and> expected_ok xp (cap_proxy_principal_id c) \<and> expected_ok xa (cap_proxy_audience c)
       \<and> expected_ok xd (cap_deployment_id c) \<and> expected_ok xt (cap_target_id c)
       \<and> cap_supported_action_types c \<noteq> [] \<and> cap_trust_level c = ''signed_attestation''
       \<and> (\<exists>i x. al_fromiso lib (replace_z (cap_issued_at c)) = Utc_Time i
              \<and> al_fromiso lib (replace_z (cap_expires_at c)) = Utc_Time x
              \<and> t < x \<and> i < x \<and> x \<le> i + seconds 3600)
       \<and> require_proxy_scoped c = Inr () \<and> require_binding_enforcement (al_fromiso lib) h t c = Inr ()"
proof (rule from_signed_attestation_Inr [OF assms], goal_cases)
  case (1 data expires issued)
  have "require_proxy_scoped c = Inr ()" using 1 by (simp add: require_proxy_scoped_def)
  moreover have "require_binding_enforcement (al_fromiso lib) h t c = Inr ()"
    using 1 by (simp add: require_binding_enforcement_def times_ok_def)
  moreover have "t < expires \<and> issued < expires \<and> expires \<le> issued + seconds 3600"
    using 1(10) by (auto simp: times_ok_def)
  ultimately show ?case using 1 signed_document_Inr [OF 1(1)] by simp
qed

definition sample_document :: json where
  "sample_document = JObj
     [(''agent_principal_id'', JStr ''proxy''), (''binding_enforcement_active'', JBool True),
      (''deployment_id'', JStr ''d''), (''effective_mode'', JStr ''enforced''),
      (''expires_at'', JStr ''2027''), (''issued_at'', JStr ''2026''),
      (''proxy_audience'', JStr ''pg''), (''proxy_principal_id'', JStr ''px''),
      (''proxy_scoped'', JBool True), (''signature'', JStr ''00''),
      (''supported_action_types'', JArr [JStr ''select'']), (''target_id'', JStr ''db'')]"

definition sample_attestation_libs :: attestation_libs where
  "sample_attestation_libs = \<lparr> al_sha = (\<lambda>_. ''h''), al_frep = (\<lambda>s. s), al_fval = (\<lambda>_. 0),
     al_verify = (\<lambda>_ _ s. s = ''00''),
     al_fromiso = (\<lambda>s. if s = ''2026'' then Utc_Time 5 else Utc_Time (seconds 600)) \<rparr>"

lemma sample_attestation_ok:
  obtains c where "from_signed_attestation sample_attestation_libs ''k'' 5 (Some ''px'') None None None
                     (dumps sample_document) = Inr c"
proof -
  have w: "wf_json (\<lambda>s. s) sample_document" by (simp add: sample_document_def)
  have s: "sort_keys sample_document = sample_document"
    by (simp add: sample_document_def sort_items_def)
  have "signed_document (\<lambda>s. s) (\<lambda>_ _ s. s = ''00'') ''k'' (dumps sample_document)
        = Inr (case sample_document of JObj kvs \<Rightarrow> kvs | _ \<Rightarrow> [])"
    unfolding signed_document_def json_loads_canonical [OF w] s
    by (simp add: sample_document_def Let_def)
  then have "\<exists>c. from_signed_attestation sample_attestation_libs ''k'' 5 (Some ''px'') None None None
                   (dumps sample_document) = Inr c"
    by (simp add: from_signed_attestation_def Let_def sample_attestation_libs_def sample_document_def
        required_fields_def identifier_fields_def attestation_time_def replace_z_def times_ok_def
        seconds_def expected_ok_def)
  then show thesis using that by blast
qed

theorem signed_attestation_genuine_witness:
  "\<exists>c. require_binding_enforcement (al_fromiso sample_attestation_libs)
         (sample_host\<lparr>getenv := (\<lambda>_. Some ''true'')\<rparr>) 5 c = Inr () \<and> cap_trust_level c = ''signed_attestation''"
proof -
  obtain c where c: "from_signed_attestation sample_attestation_libs ''k'' 5 (Some ''px'') None None None
                     (dumps sample_document) = Inr c"
    by (rule sample_attestation_ok)
  from signed_attestation_genuine [OF c] show ?thesis by blast
qed

text \<open>Capabilities expire. One hour and five minutes (the allowed clock skew) after an
  attestation was accepted at the latest, \<open>require_binding_enforcement\<close> refuses its capability.\<close>

theorem attestation_expires:
  assumes "from_signed_attestation lib key t xp xa xd xt text = Inr c"
    and "t + seconds 3900 < t'"
  shows "require_binding_enforcement (al_fromiso lib) h t' c = Inl EnforcementUnavailableError"
proof (rule from_signed_attestation_Inr [OF assms(1)], goal_cases)
  case (1 data expires issued)
  then have "expires < t'" using assms(2) by (auto simp: times_ok_def seconds_def)
  with 1 show ?case by (simp add: require_binding_enforcement_def requireE_def)
qed

theorem attestation_expires_witness:
  "\<exists>c. require_binding_enforcement (al_fromiso sample_attestation_libs) sample_host (seconds 4000) c
       = Inl EnforcementUnavailableError \<and> cap_binding_active c"
proof -
  obtain c where c: "from_signed_attestation sample_attestation_libs ''k'' 5 (Some ''px'') None None None
                     (dumps sample_document) = Inr c"
    by (rule sample_attestation_ok)
  have "cap_binding_active c" by (rule from_signed_attestation_Inr [OF c])
  with attestation_expires [OF c, of "seconds 4000"] show ?thesis by (auto simp: seconds_def)
qed

end
