(* ===== verification/Store.thy ===== *)
theory Store
  imports Policies
begin

section \<open>The database schema (migrations/, db/)\<close>

text \<open>
  One record type per table, with the columns the code reads or writes, and the record \<open>db\<close> of
  all tables. Columns that hold JSON text are kept as the value that \<open>json.loads\<close> returns for
  it (the stored text is canonical, so objects have sorted keys). Time stamps are ISO 8601
  strings, compared as strings, as on SQLite. CHECK constraints with a fixed set of strings are
  datatypes; the others, the unique indexes and the foreign keys are tested by the \<open>INSERT\<close>
  operations of the repositories, which raise \<open>IntegrityError\<close>.

  \<open>env\<close> is what an operation takes from its surroundings: the clock (read once per call) and the
  identifiers that its successive calls of \<open>XID.new()\<close> return.
\<close>

record env =
  now :: string
  ids :: "nat \<Rightarrow> string"

text \<open>The identifiers that are left after the first \<open>n\<close>.\<close>

definition env_from :: "nat \<Rightarrow> env \<Rightarrow> env" where
  "env_from n e = e\<lparr>ids := (\<lambda>k. ids e (n + k))\<rparr>"

datatype stage =
    Proposed | Pending_Approval | Authorized | Executing | Succeeded | Failed
  | Execution_Uncertain | Cancelled | Expired | Denied

datatype branch_status = Active_Branch | Merged_Branch | Abandoned_Branch

datatype node_status = Committed | Quarantined | At_Risk | Superseded_Node | Archived_Node

datatype approval_status = Pending | Approved | Approval_Denied | Approval_Expired

datatype claim_status = Claim_Active | Claim_Completed | Claim_Released

record project_row =
  pr_id :: string
  pr_name :: string
  pr_description :: string
  pr_created_at :: string

record lattice_row =
  l_id :: string
  l_project_id :: string
  l_name :: string
  l_created_at :: string

record branch_row =
  b_id :: string
  b_lattice_id :: string
  b_name :: string
  b_head_node_id :: "string option"
  b_version :: int
  b_status :: branch_status
  b_created_at :: string

record node_row =
  n_id :: string
  n_branch_id :: string
  n_agent_id :: string
  n_description :: string
  n_bt_planning_budget :: rat
  n_metadata :: json
  n_status :: node_status
  n_created_at :: string
  n_committed_at :: "string option"

record edge_row =
  e_id :: string
  e_upstream :: string
  e_downstream :: string
  e_created_at :: string

record principal_row =
  pp_id :: string
  pp_name :: string
  pp_type :: string
  pp_machine :: "string option"
  pp_description :: "string option"
  pp_status :: string
  pp_created_at :: string

record role_row =
  ro_id :: string
  ro_name :: string

record role_binding_row =
  rb_id :: string
  rb_principal_id :: string
  rb_role_id :: string
  rb_project_id :: "string option"

record policy_row =
  pol_policy :: policy
  pol_created_at :: string
  pol_updated_at :: string

record transition_row =
  t_id :: string
  t_branch_id :: string
  t_agent_id :: string
  t_from_node_id :: "string option"
  t_to_node_id :: "string option"
  t_tool :: string
  t_action :: "string option"
  t_resource :: "string option"
  t_payload_hash :: string
  t_payload :: json
  t_expected_head_id :: "string option"
  t_expected_version :: "int option"
  t_idempotency_key :: string
  t_stage :: stage
  t_exit_status :: "string option"
  t_result_summary :: "string option"
  t_policy_set_hash :: "string option"
  t_matched_policy_versions :: "(string \<times> int) list"
  t_requires_manual_reconciliation :: bool
  t_created_at :: string
  t_updated_at :: string

record authorization_row =
  a_id :: string
  a_transition_id :: string
  a_agent_id :: string
  a_project_id :: string
  a_branch_id :: string
  a_proxy_audience :: string
  a_tool :: string
  a_payload_hash :: string
  a_policy_set_hash :: string
  a_token_hash :: string
  a_matched_policy_versions :: "(string \<times> int) list"
  a_issued_at :: string
  a_expires_at :: string
  a_nonce :: string
  a_used :: bool
  a_used_at :: "string option"
  a_execution_attempt_id :: "string option"
  a_created_at :: string

record approval_row =
  r_id :: string
  r_transition_id :: string
  r_policy_id :: "string option"
  r_requested_by :: string
  r_justification :: string
  r_status :: approval_status
  r_decided_by :: "string option"
  r_decided_at :: "string option"
  r_decision :: "string option"
  r_reason :: "string option"
  r_created_at :: string
  r_updated_at :: string

record head_row =
  h_lattice_id :: string
  h_last_sequence :: nat
  h_last_hash :: string

record event_row =
  ev_id :: string
  ev_lattice_id :: string
  ev_sequence :: nat
  ev_event_type :: string
  ev_event_data :: json
  ev_previous_hash :: string
  ev_event_hash :: string
  ev_actor_principal_id :: string
  ev_authenticated_caller_id :: string
  ev_event_writer_id :: string
  ev_created_at :: string

record claim_row =
  wc_id :: string
  wc_agent_id :: string
  wc_branch_id :: string
  wc_region :: string
  wc_status :: claim_status
  wc_claimed_at :: string
  wc_released_at :: "string option"

record db =
  projects :: "project_row list"
  lattices :: "lattice_row list"
  branches :: "branch_row list"
  nodes :: "node_row list"
  edges :: "edge_row list"
  principals :: "principal_row list"
  roles :: "role_row list"
  role_bindings :: "role_binding_row list"
  policies :: "policy_row list"
  transitions :: "transition_row list"
  authorizations :: "authorization_row list"
  approvals :: "approval_row list"
  approval_policies :: "(string \<times> string) list"
  heads :: "head_row list"
  events :: "event_row list"
  claims :: "claim_row list"

definition empty_db :: db where
  "empty_db = \<lparr> projects = [], lattices = [], branches = [], nodes = [], edges = [],
     principals = [], roles = [], role_bindings = [], policies = [], transitions = [],
     authorizations = [], approvals = [], approval_policies = [], heads = [], events = [],
     claims = [] \<rparr>"

subsection \<open>Foreign keys\<close>

definition has_principal :: "db \<Rightarrow> string \<Rightarrow> bool" where
  "has_principal d p = row_has pp_id p (principals d)"

definition has_project :: "db \<Rightarrow> string \<Rightarrow> bool" where
  "has_project d p = row_has pr_id p (projects d)"

definition has_lattice :: "db \<Rightarrow> string \<Rightarrow> bool" where
  "has_lattice d l = row_has l_id l (lattices d)"

definition has_branch :: "db \<Rightarrow> string \<Rightarrow> bool" where
  "has_branch d b = row_has b_id b (branches d)"

definition has_node :: "db \<Rightarrow> string \<Rightarrow> bool" where
  "has_node d n = row_has n_id n (nodes d)"

definition has_policy :: "db \<Rightarrow> string \<Rightarrow> bool" where
  "has_policy d p = row_has (\<lambda>r. p_id (pol_policy r)) p (policies d)"

definition has_transition :: "db \<Rightarrow> string \<Rightarrow> bool" where
  "has_transition d t = row_has t_id t (transitions d)"

definition has_approval :: "db \<Rightarrow> string \<Rightarrow> bool" where
  "has_approval d r = row_has r_id r (approvals d)"

definition opt_ref :: "(string \<Rightarrow> bool) \<Rightarrow> string option \<Rightarrow> bool" where
  "opt_ref has x = (case x of None \<Rightarrow> True | Some k \<Rightarrow> has k)"

subsection \<open>Primary keys and unique indexes\<close>

definition keys_ok :: "db \<Rightarrow> bool" where
  "keys_ok d \<longleftrightarrow>
     distinct (map pr_id (projects d)) \<and> distinct (map l_id (lattices d))
     \<and> distinct (map l_project_id (lattices d))
     \<and> distinct (map b_id (branches d)) \<and> distinct (map n_id (nodes d))
     \<and> distinct (map e_id (edges d)) \<and> distinct (map pp_id (principals d))
     \<and> distinct (map (\<lambda>r. p_id (pol_policy r)) (policies d))
     \<and> distinct (map t_id (transitions d)) \<and> distinct (map t_idempotency_key (transitions d))
     \<and> distinct (map a_id (authorizations d)) \<and> distinct (map r_id (approvals d))
     \<and> distinct (approval_policies d)
     \<and> distinct (map h_lattice_id (heads d)) \<and> distinct (map ev_id (events d))
     \<and> distinct (map (\<lambda>r. (ev_lattice_id r, ev_sequence r)) (events d))
     \<and> distinct (map wc_id (claims d))"

lemma keys_ok_empty [simp]: "keys_ok empty_db"
  by (simp add: keys_ok_def empty_db_def)

subsection \<open>The tables as row stores\<close>

interpretation transition_table:
  row_store t_id "row_get t_id" "row_update t_id" "row_insert t_id" "\<lambda>t. distinct (map t_id t)"
  by (rule row_store_rows)

interpretation branch_table:
  row_store b_id "row_get b_id" "row_update b_id" "row_insert b_id" "\<lambda>t. distinct (map b_id t)"
  by (rule row_store_rows)

interpretation node_table:
  row_store n_id "row_get n_id" "row_update n_id" "row_insert n_id" "\<lambda>t. distinct (map n_id t)"
  by (rule row_store_rows)

interpretation authorization_table:
  row_store a_id "row_get a_id" "row_update a_id" "row_insert a_id" "\<lambda>t. distinct (map a_id t)"
  by (rule row_store_rows)

interpretation approval_table:
  row_store r_id "row_get r_id" "row_update r_id" "row_insert r_id" "\<lambda>t. distinct (map r_id t)"
  by (rule row_store_rows)

interpretation head_table:
  row_store h_lattice_id "row_get h_lattice_id" "row_update h_lattice_id"
    "row_insert h_lattice_id" "\<lambda>t. distinct (map h_lattice_id t)"
  by (rule row_store_rows)

interpretation claim_table:
  row_store wc_id "row_get wc_id" "row_update wc_id" "row_insert wc_id"
    "\<lambda>t. distinct (map wc_id t)"
  by (rule row_store_rows)

subsection \<open>Stages of a transition\<close>

text \<open>\<open>stage\<close> is ordered by its position in the life cycle.\<close>

fun stage_rank :: "stage \<Rightarrow> nat" where
  "stage_rank Proposed = 0"
| "stage_rank stage.Pending_Approval = 1"
| "stage_rank Authorized = 2"
| "stage_rank Executing = 3"
| "stage_rank Execution_Uncertain = 4"
| "stage_rank Succeeded = 5"
| "stage_rank Failed = 6"
| "stage_rank Cancelled = 7"
| "stage_rank Expired = 8"
| "stage_rank Denied = 9"

instantiation stage :: linorder
begin

definition less_eq_stage :: "stage \<Rightarrow> stage \<Rightarrow> bool" where
  "less_eq_stage a b \<longleftrightarrow> stage_rank a \<le> stage_rank b"

definition less_stage :: "stage \<Rightarrow> stage \<Rightarrow> bool" where
  "less_stage a b \<longleftrightarrow> stage_rank a < stage_rank b"

instance
proof
  fix a b :: stage
  show "a \<le> b \<Longrightarrow> b \<le> a \<Longrightarrow> a = b"
    unfolding less_eq_stage_def by (cases a; cases b) simp_all
qed (auto simp: less_eq_stage_def less_stage_def)

end

end
