(* ===== verification/Repositories.thy ===== *)
theory Repositories
  imports Store
begin

section \<open>Repositories (db/repositories.py)\<close>

text \<open>
  One definition per repository method. An operation returns \<open>ep_error + db \<times> result\<close>:
  \<open>Inl\<close> is an exception, after which the enclosing transaction rolls back. A row count of one
  is the code's \<open>rowcount == 1\<close>. Rows are inserted at the end of their table.
\<close>

type_synonym 'a op = "ep_error + db \<times> 'a"

definition check_fk :: "bool \<Rightarrow> ep_error + unit" where
  "check_fk ok = requireE ok IntegrityError"

text \<open>The value that comes back from a JSON column: objects have sorted keys.\<close>

definition stored_versions :: "(string \<times> int) list \<Rightarrow> (string \<times> int) list" where
  "stored_versions v = sort_items v"

subsection \<open>Projects, lattices, branches, nodes\<close>

definition create_project :: "db \<Rightarrow> env \<Rightarrow> string \<Rightarrow> string \<Rightarrow> project_row op" where
  "create_project d e name description =
     (let r = \<lparr> pr_id = ids e 0, pr_name = name, pr_description = description,
                pr_created_at = now e \<rparr>
      in bindE (someE IntegrityError (row_insert pr_id r (projects d)))
           (\<lambda>t. Inr (d\<lparr>projects := t\<rparr>, r)))"

definition create_lattice :: "db \<Rightarrow> env \<Rightarrow> string \<Rightarrow> string \<Rightarrow> lattice_row op" where
  "create_lattice d e project_id name =
     (let r = \<lparr> l_id = ids e 0, l_project_id = project_id, l_name = name, l_created_at = now e \<rparr>
      in bindE (check_fk (has_project d project_id)) (\<lambda>_.
         bindE (requireE (\<not> row_has l_project_id project_id (lattices d)) IntegrityError) (\<lambda>_.
         bindE (someE IntegrityError (row_insert l_id r (lattices d)))
           (\<lambda>t. Inr (d\<lparr>lattices := t\<rparr>, r)))))"

definition get_lattice :: "db \<Rightarrow> string \<Rightarrow> lattice_row option" where
  "get_lattice d lattice_id = row_get l_id lattice_id (lattices d)"

definition create_branch ::
  "db \<Rightarrow> env \<Rightarrow> string \<Rightarrow> string \<Rightarrow> string option \<Rightarrow> branch_row op" where
  "create_branch d e lattice_id name head_node_id =
     (let r = \<lparr> b_id = ids e 0, b_lattice_id = lattice_id, b_name = name,
                b_head_node_id = head_node_id, b_version = 1, b_status = Active_Branch,
                b_created_at = now e \<rparr>
      in bindE (check_fk (has_lattice d lattice_id)) (\<lambda>_.
         bindE (someE IntegrityError (row_insert b_id r (branches d)))
           (\<lambda>t. Inr (d\<lparr>branches := t\<rparr>, r))))"

definition get_branch :: "db \<Rightarrow> string \<Rightarrow> branch_row option" where
  "get_branch d branch_id = row_get b_id branch_id (branches d)"

definition update_head :: "db \<Rightarrow> string \<Rightarrow> string \<Rightarrow> int \<Rightarrow> db \<times> bool" where
  "update_head d branch_id head_node_id expected_version =
     (case row_update b_id branch_id (\<lambda>b. b_version b = expected_version)
             (\<lambda>b. b\<lparr>b_head_node_id := Some head_node_id, b_version := b_version b + 1\<rparr>) (branches d) of
        (t, n) \<Rightarrow> (d\<lparr>branches := t\<rparr>, n = 1))"

definition get_head :: "db \<Rightarrow> string \<Rightarrow> string option \<times> int" where
  "get_head d branch_id =
     (case row_get b_id branch_id (branches d) of
        None \<Rightarrow> (None, 0)
      | Some b \<Rightarrow> (b_head_node_id b, b_version b))"

definition insert_node ::
  "db \<Rightarrow> env \<Rightarrow> string \<Rightarrow> string \<Rightarrow> string \<Rightarrow> string \<Rightarrow> rat \<Rightarrow> json \<Rightarrow> node_status \<Rightarrow> node_row op"
  where
  "insert_node d e node_id branch_id agent_id description bt metadata status =
     (let r = \<lparr> n_id = node_id, n_branch_id = branch_id, n_agent_id = agent_id,
                n_description = description, n_bt_planning_budget = bt,
                n_metadata = sort_keys metadata, n_status = status, n_created_at = now e,
                n_committed_at = (if status = Committed then Some (now e) else None) \<rparr>
      in bindE (check_fk (has_branch d branch_id)) (\<lambda>_.
         bindE (requireE (0 \<le> bt) IntegrityError) (\<lambda>_.
         bindE (someE IntegrityError (row_insert n_id r (nodes d)))
           (\<lambda>t. Inr (d\<lparr>nodes := t\<rparr>, r)))))"

definition get_node :: "db \<Rightarrow> string \<Rightarrow> node_row option" where
  "get_node d node_id = row_get n_id node_id (nodes d)"

definition mark_superseded :: "db \<Rightarrow> string \<Rightarrow> db \<times> bool" where
  "mark_superseded d node_id =
     (case row_update n_id node_id (\<lambda>n. n_status n = Committed)
             (\<lambda>n. n\<lparr>n_status := Superseded_Node\<rparr>) (nodes d) of
        (t, n) \<Rightarrow> (d\<lparr>nodes := t\<rparr>, n = 1))"

definition mark_quarantined :: "db \<Rightarrow> string \<Rightarrow> db \<times> bool" where
  "mark_quarantined d node_id =
     (case row_update n_id node_id (\<lambda>n. n_status n = Committed \<or> n_status n = At_Risk)
             (\<lambda>n. n\<lparr>n_status := Quarantined\<rparr>) (nodes d) of
        (t, n) \<Rightarrow> (d\<lparr>nodes := t\<rparr>, n = 1))"

definition mark_at_risk :: "db \<Rightarrow> string \<Rightarrow> db \<times> bool" where
  "mark_at_risk d node_id =
     (case row_update n_id node_id (\<lambda>n. n_status n = Committed)
             (\<lambda>n. n\<lparr>n_status := At_Risk\<rparr>) (nodes d) of
        (t, n) \<Rightarrow> (d\<lparr>nodes := t\<rparr>, n = 1))"

subsection \<open>Policies\<close>

text \<open>\<open>insert_policy\<close> does not list the column \<open>justification\<close>: the stored row has none.\<close>

definition insert_policy :: "db \<Rightarrow> env \<Rightarrow> policy \<Rightarrow> policy_row op" where
  "insert_policy d e p =
     (let stored = p\<lparr>p_justification := None,
                     p_conditions := (case sort_keys (JObj (p_conditions p)) of
                                        JObj kvs \<Rightarrow> kvs | _ \<Rightarrow> []),
                     p_agent_scope := (if p_agent_scope p = Some [] then None else p_agent_scope p)\<rparr>;
          r = \<lparr> pol_policy = stored, pol_created_at = now e, pol_updated_at = now e \<rparr>
      in bindE (check_fk (has_principal d (p_created_by p)
                 \<and> opt_ref (has_principal d) (p_agent_scope stored)
                 \<and> opt_ref (has_project d) (p_project_id p)
                 \<and> opt_ref (has_branch d) (p_branch_id p)
                 \<and> opt_ref (has_principal d) (p_approved_by p))) (\<lambda>_.
         bindE (requireE (0 \<le> p_priority p \<and> scope_consistent stored) IntegrityError) (\<lambda>_.
         bindE (someE IntegrityError (row_insert (\<lambda>r. p_id (pol_policy r)) r (policies d)))
           (\<lambda>t. Inr (d\<lparr>policies := t\<rparr>, r)))))"

definition get_policy :: "db \<Rightarrow> string \<Rightarrow> policy_row option" where
  "get_policy d policy_id = row_get (\<lambda>r. p_id (pol_policy r)) policy_id (policies d)"

text \<open>\<open>ORDER BY priority DESC, created_at\<close>: a stable sort by creation time, then by priority.\<close>

definition order_policies :: "policy_row list \<Rightarrow> policy_row list" where
  "order_policies rs =
     sort_key (\<lambda>r. - p_priority (pol_policy r)) (sort_key pol_created_at rs)"

definition list_active_policies :: "db \<Rightarrow> policy_row list" where
  "list_active_policies d =
     order_policies (filter (\<lambda>r. p_status (pol_policy r) = Active) (policies d))"

definition list_active_policies_for_project :: "db \<Rightarrow> string \<Rightarrow> policy_row list" where
  "list_active_policies_for_project d project_id =
     order_policies (filter (\<lambda>r. p_status (pol_policy r) = Active \<and>
       (p_scope (pol_policy r) = Global
        \<or> (p_scope (pol_policy r) = Project \<and> p_project_id (pol_policy r) = Some project_id)
        \<or> (p_scope (pol_policy r) = Branch \<and>
            list_ex (\<lambda>b. Some (b_id b) = p_branch_id (pol_policy r)
                       \<and> (case get_lattice d (b_lattice_id b) of
                            None \<Rightarrow> False | Some l \<Rightarrow> l_project_id l = project_id)) (branches d))))
       (policies d))"

definition list_effective_policies ::
  "db \<Rightarrow> string \<Rightarrow> string \<Rightarrow> string \<Rightarrow> policy_row list" where
  "list_effective_policies d project_id branch_id agent_id =
     order_policies (filter (\<lambda>r. p_status (pol_policy r) = Active \<and>
       (p_scope (pol_policy r) = Global
        \<or> (p_scope (pol_policy r) = Project \<and> p_project_id (pol_policy r) = Some project_id)
        \<or> (p_scope (pol_policy r) = Branch \<and> p_branch_id (pol_policy r) = Some branch_id)
        \<or> (p_scope (pol_policy r) = Agent \<and> p_agent_scope (pol_policy r) = Some agent_id)))
       (policies d))"

definition policy_key :: "policy_row \<Rightarrow> string" where
  "policy_key r = p_id (pol_policy r)"

definition update_policy_status :: "db \<Rightarrow> env \<Rightarrow> string \<Rightarrow> policy_status \<Rightarrow> db \<times> bool" where
  "update_policy_status d e policy_id status =
     (case row_update policy_key policy_id (\<lambda>_. True)
             (\<lambda>r. r\<lparr>pol_policy := (pol_policy r)\<lparr>p_status := status\<rparr>, pol_updated_at := now e\<rparr>)
             (policies d) of
        (t, n) \<Rightarrow> (d\<lparr>policies := t\<rparr>, n = 1))"

definition approve_policy :: "db \<Rightarrow> env \<Rightarrow> string \<Rightarrow> string \<Rightarrow> string \<Rightarrow> bool op" where
  "approve_policy d e policy_id approved_by approved_at =
     (case row_update policy_key policy_id (\<lambda>_. True)
             (\<lambda>r. r\<lparr>pol_policy := (pol_policy r)\<lparr>p_approved_by := Some approved_by,
                      p_approved_at := Some approved_at, p_status := Active\<rparr>,
                    pol_updated_at := now e\<rparr>) (policies d) of
        (t, n) \<Rightarrow> bindE (check_fk (n = 0 \<or> has_principal d approved_by))
                    (\<lambda>_. Inr (d\<lparr>policies := t\<rparr>, n = 1)))"

subsection \<open>Principals\<close>

definition insert_principal ::
  "db \<Rightarrow> env \<Rightarrow> string \<Rightarrow> string \<Rightarrow> string \<Rightarrow> string option \<Rightarrow> string option \<Rightarrow> principal_row op"
  where
  "insert_principal d e principal_id name type machine description =
     (let r = \<lparr> pp_id = principal_id, pp_name = name, pp_type = type, pp_machine = machine,
                pp_description = description, pp_status = ''active'', pp_created_at = now e \<rparr>
      in bindE (requireE (type \<in> set [''human'', ''agent'', ''service'', ''proxy'']) IntegrityError) (\<lambda>_.
         bindE (someE IntegrityError (row_insert pp_id r (principals d)))
           (\<lambda>t. Inr (d\<lparr>principals := t\<rparr>, r))))"

definition get_principal :: "db \<Rightarrow> string \<Rightarrow> principal_row option" where
  "get_principal d principal_id = row_get pp_id principal_id (principals d)"

definition update_principal_status :: "db \<Rightarrow> string \<Rightarrow> string \<Rightarrow> bool op" where
  "update_principal_status d principal_id status =
     (case row_update pp_id principal_id (\<lambda>_. True) (\<lambda>r. r\<lparr>pp_status := status\<rparr>) (principals d) of
        (t, n) \<Rightarrow>
          bindE (requireE (n = 0 \<or> status \<in> set [''active'', ''suspended'', ''revoked'']) IntegrityError)
            (\<lambda>_. Inr (d\<lparr>principals := t\<rparr>, n = 1)))"

subsection \<open>Transitions\<close>

definition insert_transition :: "db \<Rightarrow> transition_row \<Rightarrow> transition_row op" where
  "insert_transition d r =
     bindE (check_fk (has_principal d (t_agent_id r) \<and> has_branch d (t_branch_id r)
              \<and> opt_ref (has_node d) (t_from_node_id r) \<and> opt_ref (has_node d) (t_to_node_id r))) (\<lambda>_.
     bindE (requireE (\<not> row_has t_idempotency_key (t_idempotency_key r) (transitions d)) IntegrityError) (\<lambda>_.
     bindE (someE IntegrityError (row_insert t_id r (transitions d)))
       (\<lambda>t. Inr (d\<lparr>transitions := t\<rparr>, r))))"

definition get_transition :: "db \<Rightarrow> string \<Rightarrow> transition_row option" where
  "get_transition d transition_id = row_get t_id transition_id (transitions d)"

definition update_stage :: "db \<Rightarrow> env \<Rightarrow> string \<Rightarrow> stage \<Rightarrow> stage option \<Rightarrow> db \<times> bool" where
  "update_stage d e transition_id stage expected_current_stage =
     (case row_update t_id transition_id
             (\<lambda>t. case expected_current_stage of None \<Rightarrow> True | Some s \<Rightarrow> t_stage t = s)
             (\<lambda>t. t\<lparr>t_stage := stage, t_updated_at := now e\<rparr>) (transitions d) of
        (t, n) \<Rightarrow> (d\<lparr>transitions := t\<rparr>, n = 1))"

definition update_result ::
  "db \<Rightarrow> env \<Rightarrow> string \<Rightarrow> string \<Rightarrow> string \<Rightarrow> string option \<Rightarrow> bool op" where
  "update_result d e transition_id exit_status result_summary to_node_id =
     (case row_update t_id transition_id (\<lambda>_. True)
             (\<lambda>t. t\<lparr>t_exit_status := Some exit_status, t_result_summary := Some result_summary,
                    t_to_node_id := to_node_id, t_updated_at := now e\<rparr>) (transitions d) of
        (t, n) \<Rightarrow>
          bindE (requireE (n = 0 \<or> exit_status \<in> set [''success'', ''failure'', ''timeout'']) IntegrityError) (\<lambda>_.
          bindE (check_fk (n = 0 \<or> opt_ref (has_node d) to_node_id))
            (\<lambda>_. Inr (d\<lparr>transitions := t\<rparr>, n = 1))))"

subsection \<open>Authorizations\<close>

definition insert_authorization :: "db \<Rightarrow> authorization_row \<Rightarrow> authorization_row op" where
  "insert_authorization d r =
     bindE (check_fk (has_transition d (a_transition_id r) \<and> has_principal d (a_agent_id r)
              \<and> has_project d (a_project_id r) \<and> has_branch d (a_branch_id r))) (\<lambda>_.
     bindE (someE IntegrityError (row_insert a_id r (authorizations d)))
       (\<lambda>t. Inr (d\<lparr>authorizations := t\<rparr>, r)))"

definition get_authorization :: "db \<Rightarrow> string \<Rightarrow> authorization_row option" where
  "get_authorization d auth_id = row_get a_id auth_id (authorizations d)"

text \<open>\<open>UPDATE ... WHERE used = FALSE AND expires_at > :now [AND token_hash = ...] RETURNING\<close>.\<close>

definition claim_guard :: "string \<Rightarrow> string option \<Rightarrow> authorization_row \<Rightarrow> bool" where
  "claim_guard t token_hash a \<longleftrightarrow>
     \<not> a_used a \<and> a_expires_at a > t
     \<and> (case token_hash of None \<Rightarrow> True | Some h \<Rightarrow> a_token_hash a = h)"

definition claim_authorization ::
  "db \<Rightarrow> env \<Rightarrow> string \<Rightarrow> string option \<Rightarrow> db \<times> authorization_row option" where
  "claim_authorization d e auth_id token_hash =
     (case row_update a_id auth_id (claim_guard (now e) token_hash)
             (\<lambda>a. a\<lparr>a_used := True, a_used_at := Some (now e)\<rparr>) (authorizations d) of
        (t, n) \<Rightarrow>
          (if n = 0 then (d, None)
           else (d\<lparr>authorizations := t\<rparr>, row_get a_id auth_id t)))"

definition update_execution_attempt_id :: "db \<Rightarrow> string \<Rightarrow> string \<Rightarrow> db \<times> bool" where
  "update_execution_attempt_id d auth_id attempt =
     (case row_update a_id auth_id (\<lambda>_. True)
             (\<lambda>a. a\<lparr>a_execution_attempt_id := Some attempt\<rparr>) (authorizations d) of
        (t, n) \<Rightarrow> (d\<lparr>authorizations := t\<rparr>, n = 1))"

definition check_stale :: "db \<Rightarrow> string \<Rightarrow> bool" where
  "check_stale d auth_id =
     (case row_get a_id auth_id (authorizations d) of
        None \<Rightarrow> False | Some a \<Rightarrow> a_policy_set_hash a \<noteq> '''')"

subsection \<open>Approval requests\<close>

definition create_request ::
  "db \<Rightarrow> string \<Rightarrow> string \<Rightarrow> string \<Rightarrow> string \<Rightarrow> string \<Rightarrow> string option \<Rightarrow> approval_row op" where
  "create_request d t request_id transition_id requested_by justification policy_id =
     (let r = \<lparr> r_id = request_id, r_transition_id = transition_id, r_policy_id = policy_id,
                r_requested_by = requested_by, r_justification = justification,
                r_status = Pending, r_decided_by = None, r_decided_at = None,
                r_decision = None, r_reason = None, r_created_at = t, r_updated_at = t \<rparr>
      in bindE (check_fk (has_transition d transition_id \<and> opt_ref (has_policy d) policy_id
                 \<and> has_principal d requested_by)) (\<lambda>_.
         bindE (someE IntegrityError (row_insert r_id r (approvals d)))
           (\<lambda>t. Inr (d\<lparr>approvals := t\<rparr>, r))))"

definition get_request :: "db \<Rightarrow> string \<Rightarrow> approval_row option" where
  "get_request d request_id = row_get r_id request_id (approvals d)"

text \<open>\<open>ORDER BY created_at DESC LIMIT 1\<close>: the first row with the latest time.\<close>

fun latest :: "approval_row list \<Rightarrow> approval_row option" where
  "latest [] = None"
| "latest (r # rs) =
     (case latest rs of
        None \<Rightarrow> Some r
      | Some q \<Rightarrow> (if r_created_at q > r_created_at r then Some q else Some r))"

definition find_pending_by_transition :: "db \<Rightarrow> string \<Rightarrow> approval_row option" where
  "find_pending_by_transition d transition_id =
     latest (filter (\<lambda>r. r_transition_id r = transition_id \<and> r_status r = Pending) (approvals d))"

definition decide :: "db \<Rightarrow> env \<Rightarrow> string \<Rightarrow> string \<Rightarrow> string \<Rightarrow> string \<Rightarrow> approval_row option op" where
  "decide d e request_id decided_by decision reason =
     (case row_update r_id request_id (\<lambda>r. r_status r = Pending)
             (\<lambda>r. r\<lparr>r_decided_by := Some decided_by, r_decided_at := Some (now e),
                    r_decision := Some decision, r_reason := Some reason,
                    r_status := (if decision = ''approved'' then Approved else Approval_Denied),
                    r_updated_at := now e\<rparr>) (approvals d) of
        (t, n) \<Rightarrow>
          (if n = 0 then Inr (d, None)
           else bindE (check_fk (has_principal d decided_by))
                  (\<lambda>_. Inr (d\<lparr>approvals := t\<rparr>, row_get r_id request_id t))))"

text \<open>\<open>INSERT OR IGNORE\<close> for each policy: existing pairs are skipped, a missing policy raises.\<close>

fun add_policies :: "db \<Rightarrow> string \<Rightarrow> string list \<Rightarrow> unit op" where
  "add_policies d request_id [] = Inr (d, ())"
| "add_policies d request_id (p # ps) =
     (if (request_id, p) \<in> set (approval_policies d) then add_policies d request_id ps
      else bindE (check_fk (has_approval d request_id \<and> has_policy d p)) (\<lambda>_.
             add_policies (d\<lparr>approval_policies := approval_policies d @ [(request_id, p)]\<rparr>) request_id ps))"

definition get_policies :: "db \<Rightarrow> string \<Rightarrow> string list" where
  "get_policies d request_id =
     sort (map snd (filter (\<lambda>(r, p). r = request_id) (approval_policies d)))"

subsection \<open>Work claims\<close>

text \<open>SQLite: \<open>INSERT OR IGNORE\<close> under a unique index on \<open>(branch_id, region)\<close> of all rows.\<close>

definition claim_region_sqlite ::
  "db \<Rightarrow> env \<Rightarrow> string \<Rightarrow> string \<Rightarrow> string \<Rightarrow> claim_row option op" where
  "claim_region_sqlite d e agent_id branch_id region =
     (let r = \<lparr> wc_id = ids e 0, wc_agent_id = agent_id, wc_branch_id = branch_id,
                wc_region = region, wc_status = Claim_Active, wc_claimed_at = now e,
                wc_released_at = None \<rparr>
      in if row_has wc_id (ids e 0) (claims d)
            \<or> list_ex (\<lambda>c. wc_branch_id c = branch_id \<and> wc_region c = region) (claims d)
         then Inr (d, None)
         else bindE (check_fk (has_principal d agent_id \<and> has_branch d branch_id))
                (\<lambda>_. Inr (d\<lparr>claims := claims d @ [r]\<rparr>, Some r)))"

text \<open>PostgreSQL: the unique index covers the active claims only.\<close>

definition claim_region_postgres ::
  "db \<Rightarrow> env \<Rightarrow> string \<Rightarrow> string \<Rightarrow> string \<Rightarrow> claim_row option op" where
  "claim_region_postgres d e agent_id branch_id region =
     (let r = \<lparr> wc_id = ids e 0, wc_agent_id = agent_id, wc_branch_id = branch_id,
                wc_region = region, wc_status = Claim_Active, wc_claimed_at = now e,
                wc_released_at = None \<rparr>
      in if list_ex (\<lambda>c. wc_branch_id c = branch_id \<and> wc_region c = region
                       \<and> wc_status c = Claim_Active) (claims d)
         then Inr (d, None)
         else bindE (check_fk (has_principal d agent_id \<and> has_branch d branch_id)) (\<lambda>_.
              bindE (someE IntegrityError (row_insert wc_id r (claims d)))
                (\<lambda>t. Inr (d\<lparr>claims := t\<rparr>, Some r))))"

definition release_claim :: "db \<Rightarrow> env \<Rightarrow> string \<Rightarrow> db \<times> bool" where
  "release_claim d e claim_id =
     (case row_update wc_id claim_id (\<lambda>c. wc_status c = Claim_Active)
             (\<lambda>c. c\<lparr>wc_status := Claim_Released, wc_released_at := Some (now e)\<rparr>) (claims d) of
        (t, n) \<Rightarrow> (d\<lparr>claims := t\<rparr>, n = 1))"

definition list_active_claims :: "db \<Rightarrow> string \<Rightarrow> claim_row list" where
  "list_active_claims d branch_id =
     sort_key wc_claimed_at
       (filter (\<lambda>c. wc_branch_id c = branch_id \<and> wc_status c = Claim_Active) (claims d))"

subsection \<open>Every operation preserves the keys\<close>

text \<open>\<open>store_simps\<close> collects what an update leaves of the other columns.\<close>

lemmas [store_simps] = row_update_keys row_update_col row_insert_Some row_has_iff Let_def split_beta
  check_fk_def

lemma create_project_keys [wf_intros]:
  "create_project d e a b = Inr (d', r) \<Longrightarrow> keys_ok d \<Longrightarrow> keys_ok d'"
  by (auto simp: create_project_def keys_ok_def store_simps)

lemma create_lattice_keys [wf_intros]:
  "create_lattice d e a b = Inr (d', r) \<Longrightarrow> keys_ok d \<Longrightarrow> keys_ok d'"
  by (auto simp: create_lattice_def keys_ok_def store_simps)

lemma create_branch_keys [wf_intros]:
  "create_branch d e a b c = Inr (d', r) \<Longrightarrow> keys_ok d \<Longrightarrow> keys_ok d'"
  by (auto simp: create_branch_def keys_ok_def store_simps)

lemma update_head_keys [wf_intros]: "keys_ok d \<Longrightarrow> keys_ok (fst (update_head d b h v))"
  by (auto simp: update_head_def keys_ok_def store_simps)

lemma insert_node_keys [wf_intros]:
  "insert_node d e n b a de bt md st = Inr (d', r) \<Longrightarrow> keys_ok d \<Longrightarrow> keys_ok d'"
  by (auto simp: insert_node_def keys_ok_def store_simps)

lemma mark_superseded_keys [wf_intros]: "keys_ok d \<Longrightarrow> keys_ok (fst (mark_superseded d n))"
  by (auto simp: mark_superseded_def keys_ok_def store_simps)

lemma mark_quarantined_keys [wf_intros]: "keys_ok d \<Longrightarrow> keys_ok (fst (mark_quarantined d n))"
  by (auto simp: mark_quarantined_def keys_ok_def store_simps)

lemma mark_at_risk_keys [wf_intros]: "keys_ok d \<Longrightarrow> keys_ok (fst (mark_at_risk d n))"
  by (auto simp: mark_at_risk_def keys_ok_def store_simps)

lemma insert_policy_keys [wf_intros]:
  "insert_policy d e p = Inr (d', r) \<Longrightarrow> keys_ok d \<Longrightarrow> keys_ok d'"
  by (auto simp: insert_policy_def keys_ok_def store_simps)

lemma insert_principal_keys [wf_intros]:
  "insert_principal d e a b c f g = Inr (d', r) \<Longrightarrow> keys_ok d \<Longrightarrow> keys_ok d'"
  by (auto simp: insert_principal_def keys_ok_def store_simps)

lemma insert_transition_keys [wf_intros]:
  "insert_transition d t = Inr (d', r) \<Longrightarrow> keys_ok d \<Longrightarrow> keys_ok d'"
  by (auto simp: insert_transition_def keys_ok_def store_simps)

lemma update_stage_keys [wf_intros]: "keys_ok d \<Longrightarrow> keys_ok (fst (update_stage d e t s x))"
  by (auto simp: update_stage_def keys_ok_def store_simps)

lemma update_result_keys [wf_intros]:
  "update_result d e t x s n = Inr (d', b) \<Longrightarrow> keys_ok d \<Longrightarrow> keys_ok d'"
  by (auto simp: update_result_def keys_ok_def store_simps)

lemma insert_authorization_keys [wf_intros]:
  "insert_authorization d a = Inr (d', r) \<Longrightarrow> keys_ok d \<Longrightarrow> keys_ok d'"
  by (auto simp: insert_authorization_def keys_ok_def store_simps)

lemma claim_authorization_keys [wf_intros]: "keys_ok d \<Longrightarrow> keys_ok (fst (claim_authorization d e a h))"
  by (auto simp: claim_authorization_def keys_ok_def store_simps)

lemma update_execution_attempt_id_keys [wf_intros]:
  "keys_ok d \<Longrightarrow> keys_ok (fst (update_execution_attempt_id d a x))"
  by (auto simp: update_execution_attempt_id_def keys_ok_def store_simps)

lemma create_request_keys [wf_intros]:
  "create_request d t i x b j p = Inr (d', r) \<Longrightarrow> keys_ok d \<Longrightarrow> keys_ok d'"
  by (auto simp: create_request_def keys_ok_def store_simps)

lemma decide_keys [wf_intros]:
  "decide d e i b c r = Inr (d', x) \<Longrightarrow> keys_ok d \<Longrightarrow> keys_ok d'"
  by (auto simp: decide_def keys_ok_def store_simps split: if_splits)

lemma add_policies_keys [wf_intros]:
  "add_policies d i ps = Inr (d', x) \<Longrightarrow> keys_ok d \<Longrightarrow> keys_ok d'"
proof (induction d i ps rule: add_policies.induct)
  case (2 d i p ps)
  show ?case
  proof (cases "(i, p) \<in> set (approval_policies d)")
    case True
    with 2 show ?thesis by simp
  next
    case False
    with "2.prems"(2) have "keys_ok (d\<lparr>approval_policies := approval_policies d @ [(i, p)]\<rparr>)"
      by (auto simp: keys_ok_def)
    with 2 False show ?thesis by (auto simp: check_fk_def)
  qed
qed simp

lemma claim_region_sqlite_keys [wf_intros]:
  "claim_region_sqlite d e a b g = Inr (d', r) \<Longrightarrow> keys_ok d \<Longrightarrow> keys_ok d'"
  by (auto simp: claim_region_sqlite_def keys_ok_def store_simps split: if_splits)

lemma claim_region_postgres_keys [wf_intros]:
  "claim_region_postgres d e a b g = Inr (d', r) \<Longrightarrow> keys_ok d \<Longrightarrow> keys_ok d'"
  by (auto simp: claim_region_postgres_def keys_ok_def store_simps split: if_splits)

lemma release_claim_keys [wf_intros]: "keys_ok d \<Longrightarrow> keys_ok (fst (release_claim d e c))"
  by (auto simp: release_claim_def keys_ok_def store_simps)

subsection \<open>One-shot updates\<close>

text \<open>Claiming an authorization and deciding an approval request are one-shot: the guard of the
  \<open>UPDATE\<close> is falsified by the update itself.\<close>

definition auth_fire :: "string \<Rightarrow> env \<times> string option \<Rightarrow> db \<Rightarrow> db option" where
  "auth_fire auth_id a d =
     (case claim_authorization d (fst a) auth_id (snd a) of
        (d', Some _) \<Rightarrow> Some d' | (_, None) \<Rightarrow> None)"

definition auth_spent :: "string \<Rightarrow> db \<Rightarrow> bool" where
  "auth_spent auth_id d =
     (case get_authorization d auth_id of None \<Rightarrow> False | Some a \<Rightarrow> a_used a)"

definition decide_fire :: "string \<Rightarrow> env \<times> string \<times> string \<times> string \<Rightarrow> db \<Rightarrow> db option" where
  "decide_fire request_id a d =
     (case a of (e, by, decision, reason) \<Rightarrow>
        (case decide d e request_id by decision reason of
           Inr (d', Some _) \<Rightarrow> Some d' | _ \<Rightarrow> None))"

definition decide_spent :: "string \<Rightarrow> db \<Rightarrow> bool" where
  "decide_spent request_id d =
     (case get_request d request_id of None \<Rightarrow> False | Some r \<Rightarrow> r_status r \<noteq> Pending)"

lemma keys_okD:
  assumes "keys_ok d"
  shows "distinct (map a_id (authorizations d))" and "distinct (map r_id (approvals d))"
    and "distinct (map t_id (transitions d))" and "distinct (map b_id (branches d))"
    and "distinct (map n_id (nodes d))" and "distinct (map t_idempotency_key (transitions d))"
    and "distinct (map ev_id (events d))" and "distinct (map h_lattice_id (heads d))"
  using assms by (simp_all add: keys_ok_def)

lemma row_update_positive:
  assumes "distinct (map key rows)" and "snd (row_update key k g f rows) \<noteq> 0"
  shows "\<exists>r. row_get key k rows = Some r \<and> g r"
proof -
  have "snd (row_update key k g f rows) = 1"
    using row_update_count_le [OF assms(1), of k g f] assms(2) by simp
  then show ?thesis using row_update_count [OF assms(1)] by metis
qed

lemma claim_authorization_Some:
  assumes "keys_ok d" and "claim_authorization d e i h = (d', Some a)"
  obtains a0 where "get_authorization d i = Some a0" and "claim_guard (now e) h a0"
    and "a = a0\<lparr>a_used := True, a_used_at := Some (now e)\<rparr>"
    and "d' = d\<lparr>authorizations := fst (row_update a_id i (claim_guard (now e) h)
                 (\<lambda>a. a\<lparr>a_used := True, a_used_at := Some (now e)\<rparr>) (authorizations d))\<rparr>"
    and "get_authorization d' i = Some a"
proof -
  from assms(2) have n: "snd (row_update a_id i (claim_guard (now e) h)
                 (\<lambda>a. a\<lparr>a_used := True, a_used_at := Some (now e)\<rparr>) (authorizations d)) \<noteq> 0"
    by (auto simp: claim_authorization_def split_beta split: if_splits)
  from row_update_positive [OF keys_okD(1) [OF assms(1)] this]
  obtain a0 where "row_get a_id i (authorizations d) = Some a0" "claim_guard (now e) h a0" by blast
  with that assms(2) n show thesis
    by (auto simp: claim_authorization_def get_authorization_def split_beta authorization_table.get_upd)
qed

lemma decide_Some:
  assumes "keys_ok d" and "decide d e i by decision reason = Inr (d', Some r)"
  obtains r0 where "get_request d i = Some r0" and "r_status r0 = Pending"
    and "r = r0\<lparr>r_decided_by := Some by, r_decided_at := Some (now e), r_decision := Some decision,
               r_reason := Some reason,
               r_status := (if decision = ''approved'' then Approved else Approval_Denied),
               r_updated_at := now e\<rparr>"
    and "get_request d' i = Some r" and "has_principal d by"
    and "d' = d\<lparr>approvals := approvals d'\<rparr>" and "r_status r \<noteq> Pending"
    and "\<forall>j. j \<noteq> i \<longrightarrow> get_request d' j = get_request d j"
proof -
  let ?f = "\<lambda>r. r\<lparr>r_decided_by := Some by, r_decided_at := Some (now e), r_decision := Some decision,
               r_reason := Some reason,
               r_status := (if decision = ''approved'' then Approved else Approval_Denied),
               r_updated_at := now e\<rparr>"
  let ?u = "row_update r_id i (\<lambda>r. r_status r = Pending) ?f (approvals d)"
  from assms(2) have n: "snd ?u \<noteq> 0" and p: "has_principal d by"
    and d': "d' = d\<lparr>approvals := fst ?u\<rparr>" and r: "row_get r_id i (fst ?u) = Some r"
    by (auto simp: decide_def split_beta check_fk_def split: if_splits)
  from row_update_positive [OF keys_okD(2) [OF assms(1)] n]
  obtain r0 where r0: "row_get r_id i (approvals d) = Some r0" "r_status r0 = Pending" by blast
  have upd: "row_get r_id j (fst ?u) = (if j = i then map_option (\<lambda>r. if r_status r = Pending then ?f r else r)
      (row_get r_id i (approvals d)) else row_get r_id j (approvals d))" for j
    by (rule approval_table.get_upd) simp
  have rf: "r = ?f r0" using r r0 upd [of i] by simp
  then have "r_status r \<noteq> Pending" by simp
  with rf show thesis
    by (intro that [of r0]) (use r0 p d' r upd in \<open>simp_all add: get_request_def\<close>)
qed

interpretation claim_once: one_shot keys_ok auth_fire auth_spent
proof
  fix s s' :: db and k j :: string and a :: "env \<times> string option"
  assume ok: "keys_ok s" and f: "auth_fire k a s = Some s'"
  then obtain x where c: "claim_authorization s (fst a) k (snd a) = (s', Some x)"
    by (auto simp: auth_fire_def split: prod.splits option.splits)
  from claim_authorization_keys [OF ok, of "fst a" k "snd a"] c show "keys_ok s'" by simp
  obtain a0 where
    a0: "get_authorization s k = Some a0" "claim_guard (now (fst a)) (snd a) a0"
    and x: "x = a0\<lparr>a_used := True, a_used_at := Some (now (fst a))\<rparr>"
    and s': "s' = s\<lparr>authorizations := fst (row_update a_id k (claim_guard (now (fst a)) (snd a))
                 (\<lambda>b. b\<lparr>a_used := True, a_used_at := Some (now (fst a))\<rparr>) (authorizations s))\<rparr>"
    and g: "get_authorization s' k = Some x"
    by (rule claim_authorization_Some [OF ok c])
  show "\<not> auth_spent k s" using a0 by (simp add: auth_spent_def claim_guard_def)
  show "auth_spent k s'" using g x by (simp add: auth_spent_def)
  show "auth_spent j s'" if "auth_spent j s"
  proof (cases "j = k")
    case True
    then show ?thesis using g x by (simp add: auth_spent_def)
  next
    case False
    with that show ?thesis
      unfolding s' by (simp add: auth_spent_def get_authorization_def authorization_table.get_upd)
  qed
qed

interpretation decide_once: one_shot keys_ok decide_fire decide_spent
proof
  fix s s' :: db and k j :: string and a :: "env \<times> string \<times> string \<times> string"
  assume ok: "keys_ok s" and f: "decide_fire k a s = Some s'"
  obtain e by' dec rea where a: "a = (e, by', dec, rea)" by (metis prod_cases4)
  with f obtain x where c: "decide s e k by' dec rea = Inr (s', Some x)"
    by (auto simp: decide_fire_def split: sum.splits prod.splits option.splits)
  show "keys_ok s'" by (rule decide_keys [OF c ok])
  obtain r0 where r0: "get_request s k = Some r0" "r_status r0 = Pending"
    and x: "r_status x \<noteq> Pending" and g: "get_request s' k = Some x"
    and other: "\<forall>j. j \<noteq> k \<longrightarrow> get_request s' j = get_request s j"
    by (rule decide_Some [OF ok c])
  show "\<not> decide_spent k s" using r0 by (simp add: decide_spent_def)
  show "decide_spent k s'" using g x by (simp add: decide_spent_def)
  show "decide_spent j s'" if "decide_spent j s"
    using that g x other by (cases "j = k") (simp_all add: decide_spent_def)
qed

end
