(* ===== verification/Audit_Log.thy ===== *)
theory Audit_Log
  imports Repositories Json_Parse
begin

section \<open>The audit trail (audit.py)\<close>

text \<open>
  \<open>write_event\<close> is \<open>AuditWriter.write_event_in_transaction\<close>: it appends to the chain of a
  lattice and moves the lattice's audit head. \<open>verify\<close> is \<open>AuditVerifier.verify\<close>. SHA-256 is the
  argument \<open>sha\<close>. \<open>chain_ok\<close> is the invariant of the table of events: sequence numbers count from
  one, each event links to its predecessor, stored hashes are the recomputed ones, and the head
  row holds the last number and hash.
\<close>

definition genesis_hash :: string where
  "genesis_hash = replicate 64 CHR ''0''"

definition to_envelope :: "event_row \<Rightarrow> json" where
  "to_envelope ev = JObj
     [(''sequence'', JInt (int (ev_sequence ev))), (''event_id'', JStr (ev_id ev)),
      (''lattice_id'', JStr (ev_lattice_id ev)), (''event_type'', JStr (ev_event_type ev)),
      (''event_data'', ev_event_data ev), (''actor_principal_id'', JStr (ev_actor_principal_id ev)),
      (''authenticated_caller_id'', JStr (ev_authenticated_caller_id ev)),
      (''event_writer_id'', JStr (ev_event_writer_id ev)), (''created_at'', JStr (ev_created_at ev)),
      (''previous_hash'', JStr (ev_previous_hash ev))]"

definition recompute_hash :: "(string \<Rightarrow> string) \<Rightarrow> event_row \<Rightarrow> string" where
  "recompute_hash sha ev = json_hash sha (to_envelope ev)"

text \<open>The event before its hash is known.\<close>

definition new_event ::
  "string \<Rightarrow> string \<Rightarrow> string \<Rightarrow> head_row \<Rightarrow> string \<Rightarrow> json \<Rightarrow> string \<Rightarrow> string \<Rightarrow> event_row" where
  "new_event writer t event_id h event_type event_data actor caller =
     \<lparr> ev_id = event_id, ev_lattice_id = h_lattice_id h, ev_sequence = h_last_sequence h + 1,
       ev_event_type = event_type, ev_event_data = sort_keys event_data,
       ev_previous_hash = h_last_hash h, ev_event_hash = [], ev_actor_principal_id = actor,
       ev_authenticated_caller_id = caller, ev_event_writer_id = writer, ev_created_at = t \<rparr>"

definition write_event ::
  "(string \<Rightarrow> string) \<Rightarrow> string \<Rightarrow> db \<Rightarrow> string \<Rightarrow> string \<Rightarrow> string \<Rightarrow> string \<Rightarrow> json \<Rightarrow> string \<Rightarrow> string
   \<Rightarrow> event_row op" where
  "write_event sha writer d t event_id lattice_id event_type event_data actor caller =
     bindE (someE AuditWriteError (row_get h_lattice_id lattice_id (heads d))) (\<lambda>h.
     bindE (requireE (finite_json event_data) ValueError) (\<lambda>_.
     let ev0 = new_event writer t event_id h event_type event_data actor caller;
         ev = ev0\<lparr>ev_event_hash := recompute_hash sha ev0\<rparr>
     in bindE (check_fk (has_principal d actor \<and> has_principal d caller \<and> has_principal d writer)) (\<lambda>_.
        bindE (requireE (\<not> row_has (\<lambda>r. (ev_lattice_id r, ev_sequence r))
                              (lattice_id, ev_sequence ev) (events d)) IntegrityError) (\<lambda>_.
        bindE (someE IntegrityError (row_insert ev_id ev (events d))) (\<lambda>evs.
          Inr (d\<lparr>events := evs,
                 heads := fst (row_update h_lattice_id lattice_id (\<lambda>_. True)
                   (\<lambda>h. h\<lparr>h_last_sequence := ev_sequence ev, h_last_hash := ev_event_hash ev\<rparr>)
                   (heads d))\<rparr>, ev))))))"

subsection \<open>Verification\<close>

fun verify_rows :: "(string \<Rightarrow> string) \<Rightarrow> string \<Rightarrow> event_row list \<Rightarrow> bool" where
  "verify_rows sha expected [] = True"
| "verify_rows sha expected (ev # evs) =
     (if recompute_hash sha ev \<noteq> ev_event_hash ev then False
      else if ev_previous_hash ev \<noteq> expected then False
      else verify_rows sha (ev_event_hash ev) evs)"

definition lattice_events :: "db \<Rightarrow> string \<Rightarrow> event_row list" where
  "lattice_events d lattice_id =
     sort_key ev_sequence (filter (\<lambda>ev. ev_lattice_id ev = lattice_id) (events d))"

definition verify :: "(string \<Rightarrow> string) \<Rightarrow> db \<Rightarrow> string \<Rightarrow> bool" where
  "verify sha d lattice_id = verify_rows sha genesis_hash (lattice_events d lattice_id)"

definition verify_all :: "(string \<Rightarrow> string) \<Rightarrow> db \<Rightarrow> (string \<times> bool) list" where
  "verify_all sha d =
     map (\<lambda>l. (l, verify sha d l)) (sort (remdups (map ev_lattice_id (events d))))"

subsection \<open>The chain invariant\<close>

definition head_hash :: "event_row list \<Rightarrow> string" where
  "head_hash evs = (if evs = [] then genesis_hash else ev_event_hash (last evs))"

text \<open>The log of one lattice, against its head row (\<open>None\<close>: the lattice has no head).\<close>

definition log_ok :: "(string \<Rightarrow> string) \<Rightarrow> event_row list \<Rightarrow> head_row option \<Rightarrow> bool" where
  "log_ok sha evs head \<longleftrightarrow>
     map ev_sequence evs = [1..<Suc (length evs)] \<and> verify_rows sha genesis_hash evs
     \<and> (case head of None \<Rightarrow> evs = []
         | Some h \<Rightarrow> h_last_sequence h = length evs \<and> h_last_hash h = head_hash evs)"

definition events_of :: "db \<Rightarrow> string \<Rightarrow> event_row list" where
  "events_of d l = filter (\<lambda>ev. ev_lattice_id ev = l) (events d)"

definition chain_ok :: "(string \<Rightarrow> string) \<Rightarrow> db \<Rightarrow> bool" where
  "chain_ok sha d \<longleftrightarrow> (\<forall>l. log_ok sha (events_of d l) (row_get h_lattice_id l (heads d)))"

lemma verify_rows_append:
  "verify_rows sha e (evs @ [ev]) \<longleftrightarrow>
     verify_rows sha e evs \<and> recompute_hash sha ev = ev_event_hash ev
     \<and> ev_previous_hash ev = (if evs = [] then e else ev_event_hash (last evs))"
  by (induction evs arbitrary: e) auto

lemma chain_ok_lattice_events:
  assumes "chain_ok sha d"
  shows "lattice_events d l = events_of d l"
proof -
  have "map ev_sequence (events_of d l) = [1..<Suc (length (events_of d l))]"
    using assms by (simp add: chain_ok_def log_ok_def del: upt_Suc)
  then have "sorted (map ev_sequence (events_of d l))" by (simp only: sorted_upt)
  then show ?thesis
    unfolding lattice_events_def events_of_def by (rule sort_key_id_if_sorted)
qed

lemma chain_ok_verify: "chain_ok sha d \<Longrightarrow> verify sha d l"
  by (simp add: verify_def chain_ok_lattice_events) (simp add: chain_ok_def log_ok_def)

text \<open>An update of other tables leaves the chain alone.\<close>

lemma chain_ok_cong:
  "events d' = events d \<Longrightarrow> heads d' = heads d \<Longrightarrow> chain_ok sha d' \<longleftrightarrow> chain_ok sha d"
  by (simp add: chain_ok_def events_of_def)

lemma recompute_hash_hash [simp]:
  "recompute_hash sha (ev\<lparr>ev_event_hash := x\<rparr>) = recompute_hash sha ev"
  by (simp add: recompute_hash_def to_envelope_def)

lemma write_event_Inr:
  assumes "write_event sha w d t i l ty data actor caller = Inr (d', ev)"
  obtains h where "row_get h_lattice_id l (heads d) = Some h" and "h_lattice_id h = l"
    and "ev = (new_event w t i h ty data actor caller)
                \<lparr>ev_event_hash := recompute_hash sha (new_event w t i h ty data actor caller)\<rparr>"
    and "i \<notin> ev_id ` set (events d)"
    and "has_principal d actor" and "has_principal d caller" and "has_principal d w"
    and "d' = d\<lparr>events := events d @ [ev],
                heads := fst (row_update h_lattice_id l (\<lambda>_. True)
                   (\<lambda>h. h\<lparr>h_last_sequence := ev_sequence ev, h_last_hash := ev_event_hash ev\<rparr>)
                   (heads d))\<rparr>"
    and "(l, ev_sequence ev) \<notin> (\<lambda>r. (ev_lattice_id r, ev_sequence r)) ` set (events d)"
proof -
  from assms obtain h where h: "row_get h_lattice_id l (heads d) = Some h"
    by (auto simp: write_event_def)
  then have hl: "h_lattice_id h = l" by (auto dest: row_get_SomeD)
  show thesis
    by (rule that [OF h hl])
       (use assms h in \<open>auto simp: write_event_def Let_def check_fk_def row_insert_Some row_has_iff
                              new_event_def\<close>)
qed

lemma log_ok_snoc:
  assumes "log_ok sha evs (Some h)" and "ev_sequence ev = Suc (h_last_sequence h)"
    and "ev_previous_hash ev = h_last_hash h" and "recompute_hash sha ev = ev_event_hash ev"
  shows "log_ok sha (evs @ [ev])
           (Some (h\<lparr>h_last_sequence := ev_sequence ev, h_last_hash := ev_event_hash ev\<rparr>))"
  using assms by (auto simp: log_ok_def verify_rows_append head_hash_def)

lemma write_event_chain_ok:
  assumes ok: "chain_ok sha d" and w: "write_event sha w d t i l ty data actor caller = Inr (d', ev)"
  shows "chain_ok sha d'"
proof -
  from w obtain h where h: "row_get h_lattice_id l (heads d) = Some h" "h_lattice_id h = l"
    and ev: "ev = (new_event w t i h ty data actor caller)
                \<lparr>ev_event_hash := recompute_hash sha (new_event w t i h ty data actor caller)\<rparr>"
    and d': "d' = d\<lparr>events := events d @ [ev],
                heads := fst (row_update h_lattice_id l (\<lambda>_. True)
                   (\<lambda>h. h\<lparr>h_last_sequence := ev_sequence ev, h_last_hash := ev_event_hash ev\<rparr>)
                   (heads d))\<rparr>"
    by (rule write_event_Inr)
  have evl: "ev_lattice_id ev = l" "ev_sequence ev = Suc (h_last_sequence h)"
      "ev_previous_hash ev = h_last_hash h"
    using ev h by (simp_all add: new_event_def)
  have hash: "recompute_hash sha ev = ev_event_hash ev" unfolding ev by simp
  have "log_ok sha (events_of d' k) (row_get h_lattice_id k (heads d'))" for k
  proof (cases "k = l")
    case True
    have "log_ok sha (events_of d l) (Some h)"
      using ok h(1) unfolding chain_ok_def by metis
    from log_ok_snoc [OF this evl(2,3) hash] True evl(1) h(1) show ?thesis
      by (simp add: d' events_of_def head_table.get_upd)
  next
    case False
    moreover have "log_ok sha (events_of d k) (row_get h_lattice_id k (heads d))"
      using ok unfolding chain_ok_def by blast
    ultimately show ?thesis
      using evl(1) by (simp add: d' events_of_def head_table.get_upd)
  qed
  then show ?thesis by (simp add: chain_ok_def)
qed

lemma write_event_keys [wf_intros]:
  assumes w: "write_event sha w d t i l ty data actor caller = Inr (d', ev)" and k: "keys_ok d"
  shows "keys_ok d'"
proof (rule write_event_Inr [OF w])
  fix h
  assume h: "h_lattice_id h = l" and i: "i \<notin> ev_id ` set (events d)"
    and ev: "ev = (new_event w t i h ty data actor caller)
                \<lparr>ev_event_hash := recompute_hash sha (new_event w t i h ty data actor caller)\<rparr>"
    and s: "(l, ev_sequence ev) \<notin> (\<lambda>r. (ev_lattice_id r, ev_sequence r)) ` set (events d)"
    and d': "d' = d\<lparr>events := events d @ [ev],
                heads := fst (row_update h_lattice_id l (\<lambda>_. True)
                   (\<lambda>h. h\<lparr>h_last_sequence := ev_sequence ev, h_last_hash := ev_event_hash ev\<rparr>)
                   (heads d))\<rparr>"
  have "ev_id ev = i" and "ev_lattice_id ev = l" unfolding ev by (simp_all add: new_event_def h)
  with k i s show ?thesis unfolding d' keys_ok_def by (simp add: row_update_keys)
qed

text \<open>What an append leaves alone.\<close>

lemma write_event_frame:
  assumes "write_event sha w d t i l ty data actor caller = Inr (d', ev)"
  obtains hs where "d' = d\<lparr>events := events d @ [ev], heads := hs\<rparr>"
    and "map h_lattice_id hs = map h_lattice_id (heads d)"
    and "ev_id ev = i" and "ev_event_type ev = ty" and "ev_actor_principal_id ev = actor"
    and "ev_event_data ev = sort_keys data" and "ev_lattice_id ev = l"
    and "has_principal d actor"
proof (rule write_event_Inr [OF assms])
  fix h
  assume h: "h_lattice_id h = l" "has_principal d actor"
    and ev: "ev = (new_event w t i h ty data actor caller)
                \<lparr>ev_event_hash := recompute_hash sha (new_event w t i h ty data actor caller)\<rparr>"
    and d': "d' = d\<lparr>events := events d @ [ev],
                heads := fst (row_update h_lattice_id l (\<lambda>_. True)
                   (\<lambda>h. h\<lparr>h_last_sequence := ev_sequence ev, h_last_hash := ev_event_hash ev\<rparr>)
                   (heads d))\<rparr>"
  show thesis
    by (rule that [OF d']) (simp_all add: row_update_keys ev new_event_def h)
qed

subsection \<open>Tamper evidence\<close>

text \<open>What the envelope determines.\<close>

lemma wf_envelope: "wf_json frep (ev_event_data ev) \<Longrightarrow> wf_json frep (to_envelope ev)"
  by (simp add: to_envelope_def)

lemma sort_keys_envelope:
  "sort_keys (to_envelope ev) = JObj
     [(''actor_principal_id'', JStr (ev_actor_principal_id ev)),
      (''authenticated_caller_id'', JStr (ev_authenticated_caller_id ev)),
      (''created_at'', JStr (ev_created_at ev)), (''event_data'', sort_keys (ev_event_data ev)),
      (''event_id'', JStr (ev_id ev)), (''event_type'', JStr (ev_event_type ev)),
      (''event_writer_id'', JStr (ev_event_writer_id ev)), (''lattice_id'', JStr (ev_lattice_id ev)),
      (''previous_hash'', JStr (ev_previous_hash ev)), (''sequence'', JInt (int (ev_sequence ev)))]"
  by (simp add: to_envelope_def sort_items_def)

text \<open>An event up to the order of keys in its data, which the stored text does not keep.\<close>

definition canonical_event :: "event_row \<Rightarrow> event_row" where
  "canonical_event ev = ev\<lparr>ev_event_data := sort_keys (ev_event_data ev)\<rparr>"

definition hash_inputs :: "event_row list \<Rightarrow> string set" where
  "hash_inputs evs = (\<lambda>ev. dumps (to_envelope ev)) ` set evs"

lemma envelope_inj:
  assumes "inj_on sha (hash_inputs evs)" and "a \<in> set evs" and "b \<in> set evs" and "wf_json frep (ev_event_data a)" and "wf_json frep (ev_event_data b)"
    and "recompute_hash sha a = recompute_hash sha b" and "ev_event_hash a = ev_event_hash b"
  shows "canonical_event a = canonical_event b"
proof -
  have "dumps (to_envelope a) = dumps (to_envelope b)"
    using assms(1,2,3,6)
    by (auto simp: recompute_hash_def json_hash_def hash_inputs_def inj_on_def)
  then have "sort_keys (to_envelope a) = sort_keys (to_envelope b)"
    by (rule dumps_inj [OF wf_envelope wf_envelope, OF assms(4,5)])
  then show ?thesis
    using assms(7) by (simp add: sort_keys_envelope canonical_event_def event_row.equality)
qed

lemma verified_chains_agree:
  assumes inj: "inj_on sha (hash_inputs evs)" and wf: "\<forall>ev \<in> set evs. wf_json frep (ev_event_data ev)"
  shows "verify_rows sha e as \<Longrightarrow> verify_rows sha e bs \<Longrightarrow> length as = length bs \<Longrightarrow>
    (as \<noteq> [] \<Longrightarrow> ev_event_hash (last as) = ev_event_hash (last bs)) \<Longrightarrow>
    set as \<subseteq> set evs \<Longrightarrow> set bs \<subseteq> set evs \<Longrightarrow>
    map canonical_event as = map canonical_event bs"
proof (induction as arbitrary: bs rule: rev_induct)
  case (snoc a as)
  then obtain b bs' where bs: "bs = bs' @ [b]" by (cases bs rule: rev_cases) auto
  have ab: "canonical_event a = canonical_event b"
    using snoc.prems bs wf by (intro envelope_inj [OF inj]) (auto simp: verify_rows_append)
  then have prev: "ev_previous_hash a = ev_previous_hash b"
    by (metis (no_types, lifting) canonical_event_def event_row.select_convs(6) event_row.surjective
        event_row.update_convs(5))
  have "map canonical_event as = map canonical_event bs'"
  proof (rule snoc.IH)
    show "ev_event_hash (last as) = ev_event_hash (last bs')" if "as \<noteq> []"
    proof -
      from that snoc.prems(3) bs have "bs' \<noteq> []" by auto
      with that snoc.prems(1,2) bs prev show ?thesis by (simp add: verify_rows_append)
    qed
  qed (use snoc.prems bs in \<open>auto simp: verify_rows_append\<close>)
  with bs ab show ?case by simp
qed simp

lemma verify_rows_take: "verify_rows sha e evs \<Longrightarrow> verify_rows sha e (take n evs)"
  by (induction evs arbitrary: e n) (auto simp: take_Cons split: nat.split if_splits)

subsection \<open>Properties\<close>

definition sample_head :: "string \<Rightarrow> head_row" where
  "sample_head l = \<lparr> h_lattice_id = l, h_last_sequence = 0, h_last_hash = genesis_hash \<rparr>"

definition sample_audit_db :: db where
  "sample_audit_db = empty_db\<lparr>heads := [sample_head ''l''],
     principals := [\<lparr> pp_id = ''p'', pp_name = ''p'', pp_type = ''agent'', pp_machine = None,
                       pp_description = None, pp_status = ''active'', pp_created_at = [] \<rparr>]\<rparr>"

definition sample_write :: "db \<Rightarrow> string \<Rightarrow> string \<Rightarrow> event_row op" where
  "sample_write d i ty = write_event (\<lambda>s. s) ''p'' d ''2026'' i ''l'' ty (JObj [(''k'', JInt 1), (''r'', JStr ty)]) ''p'' ''p''"

lemma sample_audit_chain_ok: "chain_ok sha sample_audit_db"
  by (simp add: chain_ok_def log_ok_def sample_audit_db_def sample_head_def events_of_def empty_db_def
      head_hash_def)

lemma sample_write_ok:
  obtains d ev where "sample_write sample_audit_db ''e1'' ''a'' = Inr (d, ev)"
  by (simp add: sample_write_def write_event_def sample_audit_db_def sample_head_def empty_db_def
      check_fk_def has_principal_def row_has_def row_insert_def Let_def)

text \<open>C30: appending keeps the chain valid. From a database whose chains are intact,
  \<open>write_event\<close> leaves every chain intact, so the verifier accepts every lattice, and the new event
  is the last of its lattice and carries the next sequence number.\<close>

theorem audit_append_verifies:
  assumes "chain_ok sha d" and "write_event sha w d t i l ty data actor caller = Inr (d', ev)"
  shows "chain_ok sha d' \<and> verify sha d' k
       \<and> lattice_events d' l = lattice_events d l @ [ev]
       \<and> ev_sequence ev = length (lattice_events d' l)"
proof -
  have ok: "chain_ok sha d'" by (rule write_event_chain_ok [OF assms])
  from assms(2) obtain h where ev: "ev = (new_event w t i h ty data actor caller)
                \<lparr>ev_event_hash := recompute_hash sha (new_event w t i h ty data actor caller)\<rparr>"
      "h_lattice_id h = l" and d': "events d' = events d @ [ev]"
    by (rule write_event_Inr) simp
  have l: "lattice_events d' l = lattice_events d l @ [ev]"
    unfolding chain_ok_lattice_events [OF ok] chain_ok_lattice_events [OF assms(1)]
    using d' ev by (simp add: events_of_def new_event_def)
  have "map ev_sequence (lattice_events d' l) = [1..<Suc (length (lattice_events d' l))]"
    using ok unfolding chain_ok_lattice_events [OF ok] chain_ok_def log_ok_def by blast
  then have "last (map ev_sequence (lattice_events d' l)) = length (lattice_events d' l)"
    unfolding l by simp
  then have "ev_sequence ev = length (lattice_events d' l)" unfolding l by simp
  with ok l chain_ok_verify show ?thesis by blast
qed

theorem audit_append_verifies_witness:
  "verify (\<lambda>s. s) (case sample_write sample_audit_db ''e1'' ''a'' of Inr (d, ev) \<Rightarrow> d | Inl _ \<Rightarrow> empty_db) ''l''"
proof -
  obtain d ev where w: "sample_write sample_audit_db ''e1'' ''a'' = Inr (d, ev)"
    by (rule sample_write_ok)
  from audit_append_verifies [OF sample_audit_chain_ok w [unfolded sample_write_def]] w
  show ?thesis by simp
qed

text \<open>C29: tampering is detected. If the verifier accepts the chain of a lattice in two databases,
  the chains are equally long and end in the same hash, and SHA-256 does not collide on their
  events, then the two chains record the same events (up to the key order of event data, which
  the stored text does not keep). So no event of a verified chain can be altered, reordered or
  replaced without changing the last hash.\<close>

theorem audit_tamper_evident:
  assumes "verify sha d l" and "verify sha d' l"
    and "length (lattice_events d l) = length (lattice_events d' l)"
    and "lattice_events d l \<noteq> [] \<longrightarrow>
         ev_event_hash (last (lattice_events d l)) = ev_event_hash (last (lattice_events d' l))"
    and "inj_on sha (hash_inputs (lattice_events d l @ lattice_events d' l))"
    and "\<forall>ev \<in> set (lattice_events d l @ lattice_events d' l). wf_json frep (ev_event_data ev)"
  shows "map canonical_event (lattice_events d l) = map canonical_event (lattice_events d' l)"
  by (rule verified_chains_agree [OF assms(5,6)])
     (use assms(1-4) in \<open>auto simp: verify_def\<close>)

definition sample_chain :: db where
  "sample_chain = (case sample_write sample_audit_db ''e1'' ''a'' of Inr (d, ev) \<Rightarrow> d | Inl _ \<Rightarrow> empty_db)"

definition reordered_chain :: db where
  "reordered_chain = sample_chain\<lparr>events :=
     map (\<lambda>ev. ev\<lparr>ev_event_data := JObj [(''r'', JStr ''a''), (''k'', JInt 1)]\<rparr>) (events sample_chain)\<rparr>"

lemma sample_chain_events:
  obtains ev where "lattice_events sample_chain ''l'' = [ev]"
    and "lattice_events reordered_chain ''l''
         = [ev\<lparr>ev_event_data := JObj [(''r'', JStr ''a''), (''k'', JInt 1)]\<rparr>]"
    and "ev_event_data ev = sort_keys (JObj [(''k'', JInt 1), (''r'', JStr ''a'')])"
    and "verify (\<lambda>s. s) sample_chain ''l''"
proof -
  obtain d ev where w: "sample_write sample_audit_db ''e1'' ''a'' = Inr (d, ev)"
    by (rule sample_write_ok)
  then have d: "sample_chain = d" by (simp add: sample_chain_def)
  from w [unfolded sample_write_def] have e: "events d = [ev]" "ev_lattice_id ev = ''l''"
      "ev_event_data ev = sort_keys (JObj [(''k'', JInt 1), (''r'', JStr ''a'')])"
    by (auto elim!: write_event_Inr simp: new_event_def sample_audit_db_def empty_db_def)
  show thesis
  proof (rule that)
    show "lattice_events sample_chain ''l'' = [ev]"
      by (simp add: lattice_events_def d e)
    show "lattice_events reordered_chain ''l''
         = [ev\<lparr>ev_event_data := JObj [(''r'', JStr ''a''), (''k'', JInt 1)]\<rparr>]"
      by (simp add: lattice_events_def reordered_chain_def d e)
    show "verify (\<lambda>s. s) sample_chain ''l''"
      unfolding d by (rule chain_ok_verify, rule write_event_chain_ok [OF sample_audit_chain_ok])
                     (rule w [unfolded sample_write_def])
  qed (rule e(3))
qed

lemma recompute_hash_data:
  assumes "sort_keys x = sort_keys (ev_event_data ev)"
  shows "recompute_hash sha (ev\<lparr>ev_event_data := x\<rparr>) = recompute_hash sha ev"
proof -
  have "sort_keys (to_envelope (ev\<lparr>ev_event_data := x\<rparr>)) = sort_keys (to_envelope ev)"
    using assms by (simp add: sort_keys_envelope del: sort_keys.simps)
  then show ?thesis by (simp add: recompute_hash_def json_hash_def dumps_def del: sort_keys.simps)
qed

theorem audit_tamper_evident_witness:
  "map canonical_event (lattice_events sample_chain ''l'')
   = map canonical_event (lattice_events reordered_chain ''l'')"
proof -
  let ?x = "JObj [(''r'', JStr ''a''), (''k'', JInt 1)]"
  obtain ev where ev: "lattice_events sample_chain ''l'' = [ev]"
      "lattice_events reordered_chain ''l'' = [ev\<lparr>ev_event_data := ?x\<rparr>]"
      "ev_event_data ev = sort_keys (JObj [(''k'', JInt 1), (''r'', JStr ''a'')])"
    and v: "verify (\<lambda>s. s) sample_chain ''l''"
    by (rule sample_chain_events)
  have "sort_keys ?x = sort_keys (ev_event_data ev)"
    unfolding ev(3) by (simp add: sort_items_def)
  from recompute_hash_data [OF this, of "\<lambda>s. s"] v
  have v': "verify (\<lambda>s. s) reordered_chain ''l''"
    by (simp add: verify_def ev split: if_splits)
  show ?thesis
    by (rule audit_tamper_evident [OF v v', where frep = "\<lambda>s. s"]) (simp_all add: ev sort_items_def)
qed

subsection \<open>What modelling showed\<close>

text \<open>The verifier does not consult \<open>ep_audit_heads\<close>: removing the newest events of a lattice goes
  unnoticed.\<close>

definition drop_newest :: "string \<Rightarrow> nat \<Rightarrow> db \<Rightarrow> db" where
  "drop_newest l n d =
     d\<lparr>events := filter (\<lambda>ev. ev_lattice_id ev = l \<longrightarrow> ev_sequence ev \<le> n) (events d)\<rparr>"

lemma filter_upto_take:
  "map f xs = [a..<a + length xs] \<Longrightarrow> filter (\<lambda>x. f x < a + n) xs = take n xs"
proof (induction xs arbitrary: a n)
  case (Cons x xs)
  have x: "f x = a" and xs: "map f xs = [Suc a..<Suc a + length xs]"
    using Cons.prems upt_conv_Cons [of a "a + length (x # xs)"] by (simp_all del: upt_Suc)
  show ?case
  proof (cases n)
    case 0
    have "y \<in> set xs \<Longrightarrow> a \<le> f y" for y
    proof -
      assume "y \<in> set xs"
      then have "f y \<in> set (map f xs)" by simp
      then show "a \<le> f y" unfolding xs by auto
    qed
    with x 0 show ?thesis by (auto simp: filter_empty_conv not_less)
  next
    case (Suc m)
    with x Cons.IH [OF xs, of m] show ?thesis by simp
  qed
qed simp

theorem truncated_chain_verifies:
  assumes "chain_ok sha d"
  shows "verify sha (drop_newest l n d) l"
proof -
  have l: "log_ok sha (events_of d l) (row_get h_lattice_id l (heads d))"
    using assms unfolding chain_ok_def by blast
  then have s: "map ev_sequence (events_of d l) = [1..<1 + length (events_of d l)]"
    by (simp add: log_ok_def del: upt_Suc)
  have "filter (\<lambda>ev. ev_lattice_id ev = l) (events (drop_newest l n d))
        = filter (\<lambda>ev. ev_sequence ev < 1 + n) (events_of d l)"
    by (auto simp: drop_newest_def events_of_def intro: filter_cong)
  also have "\<dots> = take n (events_of d l)" by (rule filter_upto_take [OF s])
  finally have t: "filter (\<lambda>ev. ev_lattice_id ev = l) (events (drop_newest l n d)) = take n (events_of d l)" .
  have "sorted (map ev_sequence (take n (events_of d l)))"
    unfolding take_map [symmetric] s by (intro sorted_wrt_take sorted_upt)
  then have "lattice_events (drop_newest l n d) l = take n (events_of d l)"
    unfolding lattice_events_def t by (rule sort_key_id_if_sorted)
  with l verify_rows_take show ?thesis by (simp add: verify_def log_ok_def)
qed

end
