(* ===== verification/Sample.thy ===== *)
theory Sample
  imports Audit_Log
begin

section \<open>A sample database\<close>

text \<open>
  The concrete states at which the properties of the components are instantiated: one project
  with its lattice, audit head and branch, a service principal, an agent and a human, and one
  transition whose stage is chosen by the caller. The hash function of the samples is constant.
\<close>

definition sample_principal :: "string \<Rightarrow> string \<Rightarrow> principal_row" where
  "sample_principal i ty = \<lparr> pp_id = i, pp_name = i, pp_type = ty, pp_machine = None,
     pp_description = None, pp_status = ''active'', pp_created_at = [] \<rparr>"

definition sample_transition :: "stage \<Rightarrow> transition_row" where
  "sample_transition s =
     \<lparr> t_id = ''t1'', t_branch_id = ''b1'', t_agent_id = ''ag'', t_from_node_id = None,
       t_to_node_id = None, t_tool = ''shell.execute'', t_action = Some ''shell.execute'',
       t_resource = None, t_payload_hash = ''ph'', t_payload = JObj [],
       t_expected_head_id = None, t_expected_version = None, t_idempotency_key = ''k1'',
       t_stage = s, t_exit_status = None, t_result_summary = None, t_policy_set_hash = None,
       t_matched_policy_versions = [], t_requires_manual_reconciliation = False,
       t_created_at = [], t_updated_at = [] \<rparr>"

definition sample_approval :: "approval_status \<Rightarrow> approval_row" where
  "sample_approval s =
     \<lparr> r_id = ''r1'', r_transition_id = ''t1'', r_policy_id = None, r_requested_by = ''ag'',
       r_justification = [], r_status = s, r_decided_by = None, r_decided_at = None,
       r_decision = None, r_reason = None, r_created_at = [], r_updated_at = [] \<rparr>"

definition sample_auth :: authorization_row where
  "sample_auth =
     \<lparr> a_id = ''a1'', a_transition_id = ''t1'', a_agent_id = ''ag'', a_project_id = ''p1'',
       a_branch_id = ''b1'', a_proxy_audience = ''proxy'', a_tool = ''shell.execute'',
       a_payload_hash = ''ph'', a_policy_set_hash = [], a_token_hash = ''h'',
       a_matched_policy_versions = [], a_issued_at = ''2026'', a_expires_at = ''2027'',
       a_nonce = ''n'', a_used = False, a_used_at = None, a_execution_attempt_id = None,
       a_created_at = ''2026'' \<rparr>"

definition sample_db :: "stage \<Rightarrow> db" where
  "sample_db s = empty_db
     \<lparr> projects := [\<lparr> pr_id = ''p1'', pr_name = ''p'', pr_description = [], pr_created_at = [] \<rparr>],
       lattices := [\<lparr> l_id = ''l1'', l_project_id = ''p1'', l_name = ''l'', l_created_at = [] \<rparr>],
       branches := [\<lparr> b_id = ''b1'', b_lattice_id = ''l1'', b_name = ''main'', b_head_node_id = None,
                      b_version = 1, b_status = Active_Branch, b_created_at = [] \<rparr>],
       principals := [sample_principal ''svc'' ''service'', sample_principal ''ag'' ''agent'',
                      sample_principal ''hu'' ''human''],
       heads := [\<lparr> h_lattice_id = ''l1'', h_last_sequence = 0, h_last_hash = genesis_hash \<rparr>],
       transitions := [sample_transition s],
       approvals := (if s = stage.Pending_Approval then [sample_approval Pending] else []),
       authorizations := (if s = Authorized then [sample_auth] else []) \<rparr>"

definition sample_env :: "string \<Rightarrow> env" where
  "sample_env i = \<lparr> now = ''2026-06-01T00:00:00.000000Z'', ids = (\<lambda>n. i @ replicate n CHR ''x'') \<rparr>"

definition sample_sha :: "string \<Rightarrow> string" where
  "sample_sha s = ''h''"

text \<open>The simplification rules that evaluate an operation on a sample.\<close>

named_theorems sample_simps

lemmas [sample_simps] = sample_principal_def sample_transition_def sample_approval_def sample_auth_def
  sample_db_def sample_env_def empty_db_def
  has_principal_def has_project_def has_lattice_def has_branch_def has_node_def has_policy_def
  has_transition_def has_approval_def opt_ref_def row_has_def row_update_def row_insert_def
  check_fk_def Let_def

lemma recompute_sample [simp]: "recompute_hash sample_sha ev = ''h''"
  by (simp add: recompute_hash_def json_hash_def sample_sha_def)

lemma sample_keys_ok [simp]: "keys_ok (sample_db s)"
  by (simp add: keys_ok_def sample_simps)

lemma sample_chain_ok [simp]: "chain_ok sha (sample_db s)"
  by (simp add: chain_ok_def log_ok_def events_of_def head_hash_def sample_simps)

lemma sample_dag [simp]: "edges (sample_db s) = []" "nodes (sample_db s) = []"
  by (simp_all add: sample_simps)

lemma sample_gets [simp]:
  "get_transition (sample_db s) ''t1'' = Some (sample_transition s)"
  "get_request (sample_db stage.Pending_Approval) ''r1'' = Some (sample_approval Pending)"
  "get_authorization (sample_db Authorized) ''a1'' = Some sample_auth"
  "get_head (sample_db s) ''b1'' = (None, 1)"
  by (simp_all add: get_transition_def get_request_def get_authorization_def get_head_def sample_simps)

end
