(* ===== verification/Branches.thy ===== *)
theory Branches
  imports Sample
begin

section \<open>Committing a branch head (branches.py)\<close>

text \<open>
  \<open>commit\<close> is \<open>BranchCommitter.commit\<close>: the nine steps run in one transaction, so an exception
  (\<open>Inl\<close>) leaves the database unchanged. The committer's \<open>ep_service_principal_id\<close> is \<open>svc\<close>.
  \<open>dag_ok\<close> is the invariant that makes the graph of realized states acyclic: along every edge
  the upstream node was inserted before the downstream node.
\<close>

record commit_result =
  cr_node_id :: string
  cr_branch_id :: string
  cr_version :: int

text \<open>Steps 4 and 5, when the branch has a head: the dependency edge and the superseded node.\<close>

definition insert_edge :: "db \<Rightarrow> env \<Rightarrow> string \<Rightarrow> string \<Rightarrow> string \<Rightarrow> edge_row op" where
  "insert_edge d e edge_id upstream downstream =
     (let r = \<lparr> e_id = edge_id, e_upstream = upstream, e_downstream = downstream,
                e_created_at = now e \<rparr>
      in bindE (check_fk (has_node d upstream \<and> has_node d downstream)) (\<lambda>_.
         bindE (requireE (upstream \<noteq> downstream) IntegrityError) (\<lambda>_.
         bindE (someE IntegrityError (row_insert e_id r (edges d)))
           (\<lambda>t. Inr (d\<lparr>edges := t\<rparr>, r)))))"

definition link_head :: "db \<Rightarrow> env \<Rightarrow> string option \<Rightarrow> string \<Rightarrow> unit op" where
  "link_head d e head new_node_id =
     (case head of
        None \<Rightarrow> Inr (d, ())
      | Some h \<Rightarrow>
          bindE (insert_edge d e (ids e 1) h new_node_id)
            (\<lambda>(d, _). Inr (fst (mark_superseded d h), ())))"

definition commit_event_data ::
  "string \<Rightarrow> string \<Rightarrow> string \<Rightarrow> string option \<Rightarrow> int \<Rightarrow> json" where
  "commit_event_data transition_id branch_id new_node_id old_head new_version =
     JObj [(''transition_id'', JStr transition_id), (''branch_id'', JStr branch_id),
           (''new_node_id'', JStr new_node_id),
           (''old_head_id'', (case old_head of None \<Rightarrow> JNull | Some h \<Rightarrow> JStr h)),
           (''new_version'', JInt new_version)]"

text \<open>Steps 1 and 2: the stage may be committed, and the head is the one the caller expects.\<close>

definition committable :: "stage \<Rightarrow> bool" where
  "committable s \<longleftrightarrow> s = Executing \<or> s = Execution_Uncertain"

definition head_expected :: "string option \<Rightarrow> string option \<Rightarrow> bool" where
  "head_expected expected head \<longleftrightarrow> expected = None \<or> head = expected"

definition commit ::
  "(string \<Rightarrow> string) \<Rightarrow> string \<Rightarrow> db \<Rightarrow> env \<Rightarrow> string \<Rightarrow> string \<Rightarrow> string \<Rightarrow> string \<Rightarrow> rat \<Rightarrow> json
   \<Rightarrow> string option \<Rightarrow> int \<Rightarrow> string \<Rightarrow> commit_result op" where
  "commit sha svc d e transition_id branch_id agent_id description bt metadata
          expected_head_id expected_version lattice_id =
     bindE (someE IllegalTransitionError (get_transition d transition_id)) (\<lambda>t.
     bindE (requireE (committable (t_stage t)) IllegalTransitionError) (\<lambda>_.
     let head = fst (get_head d branch_id); version = snd (get_head d branch_id); new_id = ids e 0 in
     bindE (requireE (head_expected expected_head_id head) StaleHeadError) (\<lambda>_.
     bindE (requireE (version = expected_version) StaleHeadError) (\<lambda>_.
     bindE (requireE (finite_json metadata) ValueError) (\<lambda>_.
     bindE (insert_node d e new_id branch_id agent_id description bt metadata Committed) (\<lambda>(d, _).
     bindE (link_head d e head new_id) (\<lambda>(d, _).
     bindE (guarded StaleHeadError (update_head d branch_id new_id expected_version)) (\<lambda>d.
     bindE (update_result d e transition_id ''success'' description (Some new_id)) (\<lambda>(d, _).
     bindE (guarded IllegalTransitionError
              (update_stage d e transition_id Succeeded (Some (t_stage t)))) (\<lambda>d.
     bindE (write_event sha svc d (now e) (ids e (if head = None then 1 else 2)) lattice_id
              ''branch_committed''
              (commit_event_data transition_id branch_id new_id head (expected_version + 1))
              agent_id svc) (\<lambda>(d, _).
       Inr (d, \<lparr> cr_node_id = new_id, cr_branch_id = branch_id,
                 cr_version = expected_version + 1 \<rparr>))))))))))))"

subsection \<open>What a successful commit did\<close>

lemma insert_node_Inr:
  assumes "insert_node d e n b a de bt md st = Inr (d', r)"
  shows "d' = d\<lparr>nodes := nodes d @ [r]\<rparr>" and "n \<notin> n_id ` set (nodes d)" and "n_id r = n"
    and "n_status r = st" and "has_branch d b" and "n_branch_id r = b" and "0 \<le> bt"
  using assms by (auto simp: insert_node_def store_simps)

lemma insert_edge_Inr:
  assumes "insert_edge d e i u v = Inr (d', r)"
  shows "d' = d\<lparr>edges := edges d @ [r]\<rparr>" and "e_upstream r = u" and "e_downstream r = v"
    and "u \<noteq> v" and "has_node d u" and "i \<notin> e_id ` set (edges d)" and "e_id r = i"
  using assms by (auto simp: insert_edge_def store_simps)

lemma mark_superseded_fst:
  "fst (mark_superseded d h) = d\<lparr>nodes := fst (row_update n_id h (\<lambda>n. n_status n = Committed)
     (\<lambda>n. n\<lparr>n_status := Superseded_Node\<rparr>) (nodes d))\<rparr>"
  by (simp add: mark_superseded_def split_beta)

lemma mark_superseded_ids: "map n_id (nodes (fst (mark_superseded d h))) = map n_id (nodes d)"
  by (simp add: mark_superseded_fst row_update_keys)

lemma link_head_None [simp]: "link_head d e None n = Inr (d, ())"
  by (simp add: link_head_def)

lemma link_head_Some:
  assumes "link_head d e (Some h) n = Inr (d', u)"
  obtains r where "insert_edge d e (ids e 1) h n = Inr (d\<lparr>edges := edges d @ [r]\<rparr>, r)"
    and "d' = fst (mark_superseded (d\<lparr>edges := edges d @ [r]\<rparr>) h)"
proof -
  from assms obtain d1 r where r: "insert_edge d e (ids e 1) h n = Inr (d1, r)"
    and d': "d' = fst (mark_superseded d1 h)"
    by (auto simp: link_head_def)
  from insert_edge_Inr(1) [OF r] r d' that show thesis by simp
qed

lemma link_head_frame:
  assumes "link_head d e head n = Inr (d', u)"
  obtains ns es where "d' = d\<lparr>nodes := ns, edges := es\<rparr>" and "map n_id ns = map n_id (nodes d)"
proof (cases head)
  case None
  with assms have "d' = d\<lparr>nodes := nodes d, edges := edges d\<rparr>" by simp
  then show ?thesis by (rule that) simp
next
  case (Some h)
  with assms obtain r where d': "d' = fst (mark_superseded (d\<lparr>edges := edges d @ [r]\<rparr>) h)"
    by (auto elim: link_head_Some)
  have "d' = d\<lparr>nodes := fst (row_update n_id h (\<lambda>n. n_status n = Committed)
     (\<lambda>n. n\<lparr>n_status := Superseded_Node\<rparr>) (nodes d)), edges := edges d @ [r]\<rparr>"
    unfolding d' by (simp add: mark_superseded_fst)
  then show ?thesis by (rule that) (simp add: row_update_keys)
qed

lemma link_head_keys:
  assumes s: "link_head d e head n = Inr (d', u)" and k: "keys_ok d"
  shows "keys_ok d'"
proof (cases head)
  case None
  with s k show ?thesis by simp
next
  case (Some h)
  with s obtain r where ie: "insert_edge d e (ids e 1) h n = Inr (d\<lparr>edges := edges d @ [r]\<rparr>, r)"
    and d': "d' = fst (mark_superseded (d\<lparr>edges := edges d @ [r]\<rparr>) h)"
    by (auto elim: link_head_Some)
  have "keys_ok (d\<lparr>edges := edges d @ [r]\<rparr>)"
    using k insert_edge_Inr(6,7) [OF ie] by (auto simp: keys_ok_def)
  then show ?thesis unfolding d' by (rule mark_superseded_keys)
qed

text \<open>The head of a branch moves and its version grows by one.\<close>

definition move_head :: "string \<Rightarrow> branch_row \<Rightarrow> branch_row" where
  "move_head h b = b\<lparr>b_head_node_id := Some h, b_version := b_version b + 1\<rparr>"

lemma move_head_simps [simp]:
  "b_id (move_head h b) = b_id b" "b_lattice_id (move_head h b) = b_lattice_id b"
  "b_version (move_head h b) = b_version b + 1" "b_head_node_id (move_head h b) = Some h"
  by (simp_all add: move_head_def)

lemma update_head_True:
  assumes "distinct (map b_id (branches d))" and "update_head d b h v = (d', True)"
  obtains r where "get_branch d b = Some r" and "b_version r = v"
    and "d' = d\<lparr>branches := fst (row_update b_id b (\<lambda>b. b_version b = v) (move_head h) (branches d))\<rparr>"
proof -
  let ?u = "row_update b_id b (\<lambda>b. b_version b = v) (move_head h) (branches d)"
  from assms(2) have n: "snd ?u = 1" and d': "d' = d\<lparr>branches := fst ?u\<rparr>"
    by (auto simp: update_head_def split_beta move_head_def [abs_def])
  obtain r where r: "row_get b_id b (branches d) = Some r" "b_version r = v"
    using row_update_positive [OF assms(1), of b "\<lambda>b. b_version b = v" "move_head h"] n by auto
  show thesis by (rule that [OF _ r(2) d']) (simp add: get_branch_def r)
qed

text \<open>The result fields and the stage of a transition.\<close>

definition set_result :: "string \<Rightarrow> string \<Rightarrow> string \<Rightarrow> string option \<Rightarrow> transition_row \<Rightarrow> transition_row" where
  "set_result t x s n r = r\<lparr>t_exit_status := Some x, t_result_summary := Some s, t_to_node_id := n,
                          t_updated_at := t\<rparr>"

definition set_stage :: "string \<Rightarrow> stage \<Rightarrow> transition_row \<Rightarrow> transition_row" where
  "set_stage t s r = r\<lparr>t_stage := s, t_updated_at := t\<rparr>"

lemma set_result_simps [simp]:
  "t_id (set_result t x s n r) = t_id r" "t_stage (set_result t x s n r) = t_stage r"
  "t_idempotency_key (set_result t x s n r) = t_idempotency_key r"
  "t_agent_id (set_result t x s n r) = t_agent_id r"
  "t_branch_id (set_result t x s n r) = t_branch_id r"
  "t_to_node_id (set_result t x s n r) = n" "t_exit_status (set_result t x s n r) = Some x"
  "t_payload_hash (set_result t x s n r) = t_payload_hash r"
  by (simp_all add: set_result_def)

lemma set_stage_simps [simp]:
  "t_id (set_stage t s r) = t_id r" "t_stage (set_stage t s r) = s"
  "t_idempotency_key (set_stage t s r) = t_idempotency_key r"
  "t_agent_id (set_stage t s r) = t_agent_id r" "t_branch_id (set_stage t s r) = t_branch_id r"
  "t_to_node_id (set_stage t s r) = t_to_node_id r" "t_exit_status (set_stage t s r) = t_exit_status r"
  "t_payload_hash (set_stage t s r) = t_payload_hash r"
  by (simp_all add: set_stage_def)

lemma update_result_Inr:
  assumes "update_result d e t x s n = Inr (d', b)"
  shows "d' = d\<lparr>transitions := fst (row_update t_id t (\<lambda>_. True) (set_result (now e) x s n) (transitions d))\<rparr>"
  using assms by (auto simp: update_result_def store_simps set_result_def [abs_def])

lemma update_stage_eq:
  "update_stage d e t s x =
     (d\<lparr>transitions := fst (row_update t_id t (\<lambda>r. case x of None \<Rightarrow> True | Some y \<Rightarrow> t_stage r = y)
                          (set_stage (now e) s) (transitions d))\<rparr>,
      snd (row_update t_id t (\<lambda>r. case x of None \<Rightarrow> True | Some y \<Rightarrow> t_stage r = y)
                          (set_stage (now e) s) (transitions d)) = 1)"
  by (simp add: update_stage_def split_beta set_stage_def [abs_def])

text \<open>The intermediate databases of a successful commit.\<close>

lemma commit_steps:
  assumes "commit sha svc d e tid bid ag desc bt md eh ev l = Inr (d', res)"
  obtains t d1 n d2 d3 d4 ok d5 evt u where
    "get_transition d tid = Some t" "committable (t_stage t)" "head_expected eh (fst (get_head d bid))"
    "snd (get_head d bid) = ev"
    "insert_node d e (ids e 0) bid ag desc bt md Committed = Inr (d1, n)"
    "link_head d1 e (fst (get_head d bid)) (ids e 0) = Inr (d2, u)"
    "update_head d2 bid (ids e 0) ev = (d3, True)"
    "update_result d3 e tid ''success'' desc (Some (ids e 0)) = Inr (d4, ok)"
    "update_stage d4 e tid Succeeded (Some (t_stage t)) = (d5, True)"
    "write_event sha svc d5 (now e) (ids e (if fst (get_head d bid) = None then 1 else 2)) l
       ''branch_committed'' (commit_event_data tid bid (ids e 0) (fst (get_head d bid)) (ev + 1)) ag svc
     = Inr (d', evt)"
    "res = \<lparr> cr_node_id = ids e 0, cr_branch_id = bid, cr_version = ev + 1 \<rparr>"
  using assms unfolding commit_def Let_def
  by clarsimp

text \<open>The database after a successful commit, table by table.\<close>

definition commit_transitions ::
  "env \<Rightarrow> string \<Rightarrow> string \<Rightarrow> stage \<Rightarrow> transition_row list \<Rightarrow> transition_row list" where
  "commit_transitions e tid desc s ts =
     fst (row_update t_id tid (\<lambda>r. t_stage r = s) (set_stage (now e) Succeeded)
       (fst (row_update t_id tid (\<lambda>_. True) (set_result (now e) ''success'' desc (Some (ids e 0))) ts)))"

lemma commit_Inr:
  assumes k: "keys_ok d" and c: "commit sha svc d e tid bid ag desc bt md eh ev l = Inr (d', res)"
  obtains t r ns es evt hs where
    "get_transition d tid = Some t" "committable (t_stage t)" "head_expected eh (b_head_node_id r)"
    "get_branch d bid = Some r" "b_version r = ev" "keys_ok d'"
    "d' = d\<lparr>nodes := ns, edges := es,
             branches := fst (row_update b_id bid (\<lambda>b. b_version b = ev) (move_head (ids e 0)) (branches d)),
             transitions := commit_transitions e tid desc (t_stage t) (transitions d),
             events := events d @ [evt], heads := hs\<rparr>"
    "map n_id ns = map n_id (nodes d) @ [ids e 0]"
    "ev_event_type evt = ''branch_committed''" "ev_actor_principal_id evt = ag"
    "res = \<lparr> cr_node_id = ids e 0, cr_branch_id = bid, cr_version = ev + 1 \<rparr>"
proof -
  obtain t d1 n d2 d3 d4 ok d5 evt u where
    t: "get_transition d tid = Some t" "committable (t_stage t)" "head_expected eh (fst (get_head d bid))" and
    v: "snd (get_head d bid) = ev" and
    s1: "insert_node d e (ids e 0) bid ag desc bt md Committed = Inr (d1, n)" and
    s2: "link_head d1 e (fst (get_head d bid)) (ids e 0) = Inr (d2, u)" and
    s3: "update_head d2 bid (ids e 0) ev = (d3, True)" and
    s4: "update_result d3 e tid ''success'' desc (Some (ids e 0)) = Inr (d4, ok)" and
    s5: "update_stage d4 e tid Succeeded (Some (t_stage t)) = (d5, True)" and
    s6: "write_event sha svc d5 (now e) (ids e (if fst (get_head d bid) = None then 1 else 2)) l
       ''branch_committed'' (commit_event_data tid bid (ids e 0) (fst (get_head d bid)) (ev + 1)) ag svc
     = Inr (d', evt)" and
    res: "res = \<lparr> cr_node_id = ids e 0, cr_branch_id = bid, cr_version = ev + 1 \<rparr>"
    by (rule commit_steps [OF c])
  have k1: "keys_ok d1" by (rule insert_node_keys [OF s1 k])
  have k2: "keys_ok d2" by (rule link_head_keys [OF s2 k1])
  note n1 = insert_node_Inr [OF s1]
  obtain ns es where d2: "d2 = d1\<lparr>nodes := ns, edges := es\<rparr>" and ns: "map n_id ns = map n_id (nodes d1)"
    by (rule link_head_frame [OF s2])
  obtain r where r: "get_branch d2 bid = Some r" "b_version r = ev"
    and d3: "d3 = d2\<lparr>branches := fst (row_update b_id bid (\<lambda>b. b_version b = ev) (move_head (ids e 0)) (branches d2))\<rparr>"
    by (rule update_head_True [OF keys_okD(4) [OF k2] s3])
  have k3: "keys_ok d3" using update_head_keys [OF k2, of bid "ids e 0" ev] s3 by simp
  have k4: "keys_ok d4" by (rule update_result_keys [OF s4 k3])
  have k5: "keys_ok d5" using update_stage_keys [OF k4, of e tid Succeeded "Some (t_stage t)"] s5 by simp
  have d5: "d5 = d4\<lparr>transitions := fst (row_update t_id tid (\<lambda>r. t_stage r = t_stage t)
                          (set_stage (now e) Succeeded) (transitions d4))\<rparr>"
    using s5 by (simp add: update_stage_eq)
  obtain hs where d': "d' = d5\<lparr>events := events d5 @ [evt], heads := hs\<rparr>"
    and ty: "ev_event_type evt = ''branch_committed''" "ev_actor_principal_id evt = ag"
    by (rule write_event_frame [OF s6])
  have b: "get_branch d bid = Some r" using r(1) by (simp add: d2 n1(1) get_branch_def)
  then have "fst (get_head d bid) = b_head_node_id r" by (simp add: get_head_def get_branch_def)
  with t(3) have he: "head_expected eh (b_head_node_id r)" by simp
  show thesis
  proof (rule that [OF t(1,2) he b r(2) _ _ _ ty res])
    show "keys_ok d'" by (rule write_event_keys [OF s6 k5])
    show "map n_id ns = map n_id (nodes d) @ [ids e 0]" using ns n1(1,3) by simp
    show "d' = d\<lparr>nodes := ns, edges := es,
             branches := fst (row_update b_id bid (\<lambda>b. b_version b = ev) (move_head (ids e 0)) (branches d)),
             transitions := commit_transitions e tid desc (t_stage t) (transitions d),
             events := events d @ [evt], heads := hs\<rparr>"
      unfolding d' d5 update_result_Inr [OF s4] d3 d2 n1(1) commit_transitions_def by simp
  qed
qed

lemma commit_transitions_get:
  assumes "row_get t_id tid ts = Some t" and "s = t_stage t"
  shows "row_get t_id i (commit_transitions e tid desc s ts) =
     (if i = tid then Some (set_stage (now e) Succeeded
                             (set_result (now e) ''success'' desc (Some (ids e 0)) t))
      else row_get t_id i ts)"
  using assms by (simp add: commit_transitions_def transition_table.get_upd)

lemma commit_transitions_keys [simp]:
  "map t_id (commit_transitions e tid desc s ts) = map t_id ts"
  "map t_idempotency_key (commit_transitions e tid desc s ts) = map t_idempotency_key ts"
  by (simp_all add: commit_transitions_def row_update_keys row_update_col)

lemma move_head_get:
  "row_get b_id c (fst (row_update b_id b g (move_head h) bs)) =
     (if c = b then map_option (\<lambda>r. if g r then move_head h r else r) (row_get b_id b bs)
      else row_get b_id c bs)"
  by (rule branch_table.get_upd) simp

lemma commit_get_branch:
  assumes "keys_ok d" and "commit sha svc d e tid bid ag desc bt md eh ev l = Inr (d', res)"
  shows "\<exists>r. get_branch d bid = Some r \<and> b_version r = ev
           \<and> get_branch d' bid = Some (move_head (ids e 0) r)"
    and "c \<noteq> bid \<Longrightarrow> get_branch d' c = get_branch d c"
  by (rule commit_Inr [OF assms], simp add: get_branch_def move_head_get)+

lemma commit_get_transition:
  assumes "keys_ok d" and "commit sha svc d e tid bid ag desc bt md eh ev l = Inr (d', res)"
  shows "\<exists>t. get_transition d tid = Some t \<and> committable (t_stage t)
           \<and> get_transition d' tid = Some (set_stage (now e) Succeeded
                (set_result (now e) ''success'' desc (Some (ids e 0)) t))"
    and "i \<noteq> tid \<Longrightarrow> get_transition d' i = get_transition d i"
  by (rule commit_Inr [OF assms], simp add: get_transition_def commit_transitions_get)+

subsection \<open>The graph is acyclic\<close>

text \<open>Along an edge, the upstream node was inserted before the downstream node.\<close>

definition before :: "string list \<Rightarrow> string \<Rightarrow> string \<Rightarrow> bool" where
  "before xs u v \<longleftrightarrow> (\<exists>as bs. xs = as @ v # bs \<and> u \<in> set as)"

definition dag_ok :: "db \<Rightarrow> bool" where
  "dag_ok d \<longleftrightarrow> (\<forall>ed \<in> set (edges d). before (map n_id (nodes d)) (e_upstream ed) (e_downstream ed))"

text \<open>The same apart from the edges in \<open>E\<close>.\<close>

definition dag_apart :: "(string \<times> string) set \<Rightarrow> db \<Rightarrow> bool" where
  "dag_apart E d \<longleftrightarrow> (\<forall>ed \<in> set (edges d). (e_upstream ed, e_downstream ed) \<in> E
     \<or> before (map n_id (nodes d)) (e_upstream ed) (e_downstream ed))"

lemma dag_apart_none [simp]: "dag_apart {} d = dag_ok d"
  by (simp add: dag_apart_def dag_ok_def)

definition edge_rel :: "db \<Rightarrow> (string \<times> string) set" where
  "edge_rel d = (\<lambda>ed. (e_upstream ed, e_downstream ed)) ` set (edges d)"

lemma before_append: "before xs u v \<Longrightarrow> before (xs @ ys) u v"
  by (force simp: before_def)

lemma before_last: "u \<in> set xs \<Longrightarrow> before (xs @ [v]) u v"
  by (auto simp: before_def)

text \<open>The position of a node; it grows along \<open>before\<close>.\<close>

definition position :: "string list \<Rightarrow> string \<Rightarrow> nat" where
  "position xs x = length (takeWhile (\<lambda>y. y \<noteq> x) xs)"

lemma before_position:
  assumes "distinct xs" and "before xs u v"
  shows "position xs u < position xs v"
proof -
  from assms(2) obtain as bs where xs: "xs = as @ v # bs" and u: "u \<in> set as"
    by (auto simp: before_def)
  then obtain cs ds where as: "as = cs @ u # ds" and n: "u \<notin> set cs"
    by (meson split_list_first)
  have "takeWhile (\<lambda>y. y \<noteq> u) xs = cs"
    using n unfolding xs as by (auto simp: takeWhile_append)
  moreover have "takeWhile (\<lambda>y. y \<noteq> v) xs = as"
    using assms(1) unfolding xs by (auto simp: takeWhile_append)
  ultimately show ?thesis unfolding position_def as by simp
qed

lemma dag_apart_acyclic:
  assumes "dag_apart E d" and "distinct (map n_id (nodes d))"
  shows "acyclic (edge_rel d - E)"
proof (rule acyclic_subset [OF wf_acyclic])
  show "wf (measure (position (map n_id (nodes d))))" by simp
  show "edge_rel d - E \<subseteq> measure (position (map n_id (nodes d)))"
    using assms before_position by (auto simp: edge_rel_def dag_apart_def)
qed

lemma dag_ok_acyclic: "dag_ok d \<Longrightarrow> distinct (map n_id (nodes d)) \<Longrightarrow> acyclic (edge_rel d)"
  using dag_apart_acyclic [of "{}" d] by simp

lemma dag_apart_cong:
  "edges d' = edges d \<Longrightarrow> map n_id (nodes d') = map n_id (nodes d) \<Longrightarrow> dag_apart E d' \<longleftrightarrow> dag_apart E d"
  by (simp add: dag_apart_def)

lemma dag_ok_cong:
  "edges d' = edges d \<Longrightarrow> map n_id (nodes d') = map n_id (nodes d) \<Longrightarrow> dag_ok d' \<longleftrightarrow> dag_ok d"
  by (simp add: dag_ok_def)

lemma commit_dag_apart:
  assumes k: "keys_ok d" and g: "dag_apart E d"
    and c: "commit sha svc d e tid bid ag desc bt md eh ev l = Inr (d', res)"
  shows "dag_apart E d'"
proof (rule commit_steps [OF c])
  fix d1 n d2 u
  assume s1: "insert_node d e (ids e 0) bid ag desc bt md Committed = Inr (d1, n)"
    and s2: "link_head d1 e (fst (get_head d bid)) (ids e 0) = Inr (d2, u)"
  fix t d3 d4 ok d5 evt
  assume s3: "update_head d2 bid (ids e 0) ev = (d3, True)"
    and s4: "update_result d3 e tid ''success'' desc (Some (ids e 0)) = Inr (d4, ok)"
    and s5: "update_stage d4 e tid Succeeded (Some (t_stage t)) = (d5, True)"
    and s6: "write_event sha svc d5 (now e) (ids e (if fst (get_head d bid) = None then 1 else 2)) l
       ''branch_committed'' (commit_event_data tid bid (ids e 0) (fst (get_head d bid)) (ev + 1)) ag svc
     = Inr (d', evt)"
  note n1 = insert_node_Inr [OF s1]
  have g1: "dag_apart E d1"
    using g by (auto simp: n1(1) n1(3) dag_apart_def before_append)
  have g2: "dag_apart E d2"
  proof (cases "fst (get_head d bid)")
    case None
    with s2 g1 show ?thesis by simp
  next
    case (Some h)
    with s2 obtain r where ie: "insert_edge d1 e (ids e 1) h (ids e 0) = Inr (d1\<lparr>edges := edges d1 @ [r]\<rparr>, r)"
      and d2: "d2 = fst (mark_superseded (d1\<lparr>edges := edges d1 @ [r]\<rparr>) h)"
      by (auto elim: link_head_Some)
    note ie' = insert_edge_Inr [OF ie]
    have "h \<in> set (map n_id (nodes d))"
      using ie'(4,5) n1(1,3) by (auto simp: has_node_def row_has_iff)
    then have "before (map n_id (nodes d1)) h (ids e 0)"
      using before_last [of h "map n_id (nodes d)" "ids e 0"] by (simp add: n1(1,3))
    with g1 have "dag_apart E (d1\<lparr>edges := edges d1 @ [r]\<rparr>)" by (simp add: dag_apart_def ie'(2,3))
    moreover have "edges d2 = edges (d1\<lparr>edges := edges d1 @ [r]\<rparr>)"
      and "map n_id (nodes d2) = map n_id (nodes (d1\<lparr>edges := edges d1 @ [r]\<rparr>))"
      unfolding d2 by (simp_all add: mark_superseded_fst row_update_keys)
    ultimately show ?thesis using dag_apart_cong by blast
  qed
  have k2: "keys_ok d2" by (rule link_head_keys [OF s2 insert_node_keys [OF s1 k]])
  obtain bs where d3: "d3 = d2\<lparr>branches := bs\<rparr>"
    by (rule update_head_True [OF keys_okD(4) [OF k2] s3])
  obtain ts where d5: "d5 = d4\<lparr>transitions := ts\<rparr>" using s5 by (auto simp: update_stage_eq)
  obtain es hs where d': "d' = d5\<lparr>events := es, heads := hs\<rparr>" by (rule write_event_frame [OF s6])
  have "edges d' = edges d2" and "map n_id (nodes d') = map n_id (nodes d2)"
    by (simp_all add: d' d5 d3 update_result_Inr [OF s4])
  with g2 show ?thesis by (simp add: dag_apart_def)
qed

lemma commit_dag_ok:
  assumes "keys_ok d" and "dag_ok d" and "commit sha svc d e tid bid ag desc bt md eh ev l = Inr (d', res)"
  shows "dag_ok d'"
  using commit_dag_apart [OF assms(1) _ assms(3), of "{}"] assms(2) by simp

subsection \<open>Properties\<close>

definition sample_commit :: "db \<Rightarrow> string \<Rightarrow> int \<Rightarrow> commit_result op" where
  "sample_commit d i v =
     commit sample_sha ''svc'' d (sample_env i) ''t1'' ''b1'' ''ag'' ''done'' 0 (JObj []) None v ''l1''"

lemma sample_commit_ok:
  obtains d' res where "sample_commit (sample_db Executing) ''n'' 1 = Inr (d', res)"
  by (simp add: sample_commit_def commit_def committable_def head_expected_def insert_node_def
      link_head_def update_head_def update_result_def update_stage_def write_event_def new_event_def
      commit_event_data_def get_transition_def get_head_def sample_simps guarded_def)

text \<open>A successful commit moves the head of its branch to the new node and the version from the
  expected one to its successor, leaves every other branch alone, marks the transition succeeded
  with a link to the node, and records exactly one event.\<close>

theorem commit_advances_branch:
  assumes "keys_ok d" and "commit sha svc d e tid bid ag desc bt md eh ev l = Inr (d', res)"
  shows "snd (get_head d bid) = ev \<and> get_head d' bid = (Some (cr_node_id res), ev + 1)
       \<and> cr_version res = ev + 1
       \<and> (\<forall>c. c \<noteq> bid \<longrightarrow> get_branch d' c = get_branch d c)
       \<and> (\<exists>t. get_transition d' tid = Some t \<and> t_stage t = Succeeded
              \<and> t_to_node_id t = Some (cr_node_id res))
       \<and> (\<exists>evt. events d' = events d @ [evt] \<and> ev_event_type evt = ''branch_committed'')"
proof -
  obtain r where r: "get_branch d bid = Some r" "b_version r = ev"
      "get_branch d' bid = Some (move_head (ids e 0) r)"
    using commit_get_branch(1) [OF assms] by blast
  have res: "res = \<lparr> cr_node_id = ids e 0, cr_branch_id = bid, cr_version = ev + 1 \<rparr>"
    by (rule commit_Inr [OF assms])
  have ev: "\<exists>evt. events d' = events d @ [evt] \<and> ev_event_type evt = ''branch_committed''"
    by (rule commit_Inr [OF assms]) simp
  have t: "\<exists>t. get_transition d' tid = Some t \<and> t_stage t = Succeeded \<and> t_to_node_id t = Some (ids e 0)"
    using commit_get_transition(1) [OF assms] by auto
  from r t ev res commit_get_branch(2) [OF assms] show ?thesis
    by (simp add: get_head_def get_branch_def)
qed

theorem commit_advances_branch_witness:
  "\<exists>d' n. get_head d' ''b1'' = (Some n, 2)"
proof -
  obtain d' res where c: "sample_commit (sample_db Executing) ''n'' 1 = Inr (d', res)"
    by (rule sample_commit_ok)
  from commit_advances_branch [OF sample_keys_ok c [unfolded sample_commit_def]]
  show ?thesis by auto
qed

text \<open>C37: optimistic concurrency. Once a commit on a branch has succeeded with an expected version,
  every other commit on that branch with the same expected version fails, whatever its transition,
  agent, description, metadata, expected head and lattice.\<close>

theorem competing_commit_fails:
  assumes "keys_ok d" and "commit sha svc d e tid bid ag desc bt md eh ev l = Inr (d', res)"
  shows "\<nexists>d'' res'. commit sha svc d' e' tid' bid ag' desc' bt' md' eh' ev l' = Inr (d'', res')"
proof
  assume "\<exists>d'' res'. commit sha svc d' e' tid' bid ag' desc' bt' md' eh' ev l' = Inr (d'', res')"
  then obtain d'' res' where c: "commit sha svc d' e' tid' bid ag' desc' bt' md' eh' ev l' = Inr (d'', res')"
    by blast
  have "keys_ok d'" by (rule commit_Inr [OF assms])
  from commit_get_branch(1) [OF this c] obtain r' where r': "get_branch d' bid = Some r'" "b_version r' = ev"
    by blast
  from commit_get_branch(1) [OF assms] obtain r where "b_version r = ev"
      "get_branch d' bid = Some (move_head (ids e 0) r)"
    by blast
  with r'(1) have "r' = move_head (ids e 0) r" by simp
  with r'(2) \<open>b_version r = ev\<close> show False by simp
qed

theorem competing_commit_fails_witness:
  "\<exists>d'. \<nexists>d'' res'. sample_commit d' ''m'' 1 = Inr (d'', res')"
proof -
  obtain d' res where c: "sample_commit (sample_db Executing) ''n'' 1 = Inr (d', res)"
    by (rule sample_commit_ok)
  from competing_commit_fails [OF sample_keys_ok c [unfolded sample_commit_def]]
  show ?thesis unfolding sample_commit_def by blast
qed

text \<open>A stale commit is refused. For a transition that may be committed, a head other than the
  expected one, or a version other than the expected one, raises \<open>StaleHeadError\<close>.\<close>

theorem stale_commit_refused:
  assumes "get_transition d tid = Some t" and "committable (t_stage t)"
    and "\<not> head_expected eh (fst (get_head d bid)) \<or> snd (get_head d bid) \<noteq> ev"
  shows "commit sha svc d e tid bid ag desc bt md eh ev l = Inl StaleHeadError"
  using assms by (auto simp: commit_def Let_def requireE_def)

theorem stale_commit_refused_witness:
  "sample_commit (sample_db Executing) ''n'' 7 = Inl StaleHeadError"
  unfolding sample_commit_def
  by (rule stale_commit_refused [where t = "sample_transition Executing"])
     (simp_all add: committable_def sample_transition_def)

text \<open>The graph of realized states stays acyclic. If every edge of the graph points from an
  older to a newer node, the same holds after a commit, so the dependency relation has no cycle.\<close>

theorem commit_keeps_graph_acyclic:
  assumes "keys_ok d" and "dag_ok d"
    and "commit sha svc d e tid bid ag desc bt md eh ev l = Inr (d', res)"
  shows "dag_ok d' \<and> acyclic (edge_rel d')"
proof -
  have "keys_ok d'" by (rule commit_Inr [OF assms(1,3)])
  then have "distinct (map n_id (nodes d'))" by (rule keys_okD)
  then show ?thesis using commit_dag_ok [OF assms] by (intro conjI dag_ok_acyclic)
qed

theorem commit_keeps_graph_acyclic_witness: "\<exists>d'. dag_ok d' \<and> map n_id (nodes d') = [''n'']"
proof -
  obtain d' res where c: "sample_commit (sample_db Executing) ''n'' 1 = Inr (d', res)"
    by (rule sample_commit_ok)
  have g: "dag_ok (sample_db Executing)" by (simp add: dag_ok_def)
  have n: "map n_id (nodes d') = [''n'']"
    by (rule commit_Inr [OF sample_keys_ok c [unfolded sample_commit_def]]) (simp add: sample_env_def)
  have "dag_ok d'"
    by (rule conjunct1, rule commit_keeps_graph_acyclic [OF sample_keys_ok g c [unfolded sample_commit_def]])
  with n show ?thesis by (intro exI [of _ d']) simp
qed

end
