(* ===== verification/Transitions.thy ===== *)
theory Transitions
  imports Branches Classification Policy_Engine
begin

section \<open>The transition engine (transitions.py)\<close>

text \<open>
  The life cycle of a transition: \<open>propose\<close>, \<open>approve\<close>, \<open>deny_approval\<close>, \<open>cancel\<close>,
  \<open>record_result\<close> and \<open>reconcile\<close> of \<open>TransitionEngine\<close>, with \<open>advance_stage\<close> as the only
  unguarded change of a stage. An operation that runs in one database transaction returns
  \<open>Inl\<close> for an exception, which rolls everything back; \<open>reconcile\<close> uses several transactions and
  returns the database it leaves together with its result. \<open>svc\<close> is the engine's
  \<open>ep_service_principal_id\<close> and \<open>pe\<close> the policies of its policy engine, if it has one.
\<close>

record libs =
  sha256 :: "string \<Rightarrow> string"
  float_value :: float_lib
  cel_eval :: cel_lib
  sql_parser :: sqlglot_lib

subsection \<open>The legal stage changes\<close>

definition legal_transitions :: "(stage \<times> stage) list" where
  "legal_transitions =
     [(Proposed, Denied), (Proposed, stage.Pending_Approval), (Proposed, Authorized), (Proposed, Cancelled),
      (stage.Pending_Approval, Authorized), (stage.Pending_Approval, Denied), (stage.Pending_Approval, Expired),
      (stage.Pending_Approval, Cancelled),
      (Authorized, Executing), (Authorized, Expired), (Authorized, Cancelled),
      (Executing, Succeeded), (Executing, Failed), (Executing, Execution_Uncertain),
      (Execution_Uncertain, Succeeded), (Execution_Uncertain, Failed)]"

definition terminal_stages :: "stage list" where
  "terminal_stages = [Succeeded, Failed, Cancelled, Expired, Denied]"

definition idempotent_return_existing :: "stage list" where
  "idempotent_return_existing = [Proposed, Authorized, stage.Pending_Approval]"

definition idempotent_return_result :: "stage list" where
  "idempotent_return_result = [Executing, Succeeded]"

definition idempotent_allow_new :: "stage list" where
  "idempotent_allow_new = [Failed, Cancelled, Expired, Denied, Execution_Uncertain]"

definition is_legal_transition :: "stage \<Rightarrow> stage \<Rightarrow> bool" where
  "is_legal_transition from_stage to_stage \<longleftrightarrow> (from_stage, to_stage) \<in> set legal_transitions"

subsection \<open>Helpers of the engine\<close>

text \<open>\<open>_write_audit_event\<close>: the lattice of the branch, or the branch id when it has none.\<close>

definition event_lattice :: "db \<Rightarrow> string \<Rightarrow> string" where
  "event_lattice d branch_id =
     (case get_branch d branch_id of None \<Rightarrow> branch_id | Some b \<Rightarrow> b_lattice_id b)"

definition write_audit_event ::
  "(string \<Rightarrow> string) \<Rightarrow> string \<Rightarrow> db \<Rightarrow> string \<Rightarrow> string \<Rightarrow> string \<Rightarrow> string \<Rightarrow> string \<Rightarrow> json \<Rightarrow> event_row op"
  where
  "write_audit_event sha svc d t event_id branch_id event_type actor data =
     write_event sha svc d t event_id (event_lattice d branch_id) event_type data actor actor"

definition advance_stage :: "db \<Rightarrow> env \<Rightarrow> string \<Rightarrow> stage \<Rightarrow> transition_row op" where
  "advance_stage d e transition_id to_stage =
     bindE (someE IllegalTransitionError (get_transition d transition_id)) (\<lambda>t.
     bindE (requireE (is_legal_transition (t_stage t) to_stage) IllegalTransitionError) (\<lambda>_.
     let d' = fst (update_stage d e transition_id to_stage None) in
     bindE (someE IllegalTransitionError (get_transition d' transition_id)) (\<lambda>t'.
       Inr (d', t'))))"

definition set_requires_manual_reconciliation :: "db \<Rightarrow> env \<Rightarrow> string \<Rightarrow> bool \<Rightarrow> db" where
  "set_requires_manual_reconciliation d e transition_id value =
     d\<lparr>transitions := fst (row_update t_id transition_id (\<lambda>_. True)
         (\<lambda>t. t\<lparr>t_requires_manual_reconciliation := value, t_updated_at := now e\<rparr>) (transitions d))\<rparr>"

definition get_by_idempotency_key :: "db \<Rightarrow> string \<Rightarrow> transition_row option" where
  "get_by_idempotency_key d key = row_get t_idempotency_key key (transitions d)"

definition jopt :: "string option \<Rightarrow> json" where
  "jopt x = (case x of None \<Rightarrow> JNull | Some s \<Rightarrow> JStr s)"

subsection \<open>Propose\<close>

text \<open>What the policy engine says of a proposal: the verification result, the versions of the
  matched policies, their set hash, and the matched policies that require approval.\<close>

record verdict =
  v_result :: string
  v_versions :: "(string \<times> int) list"
  v_set_hash :: "string option"
  v_approval_policies :: "string list"

definition project_of_branch :: "db \<Rightarrow> string \<Rightarrow> string option" where
  "project_of_branch d branch_id =
     (case get_branch d branch_id of
        None \<Rightarrow> None
      | Some b \<Rightarrow> map_option l_project_id (get_lattice d (b_lattice_id b)))"

definition matched_versions :: "policy_match list \<Rightarrow> (string \<times> int) list" where
  "matched_versions ms =
     dict_of (map (\<lambda>m. (p_id (m_policy m),
                        case p_activation_version (m_policy m) of None \<Rightarrow> 0 | Some v \<Rightarrow> v)) ms)"

definition verify_proposal ::
  "libs \<Rightarrow> policy list option \<Rightarrow> db \<Rightarrow> env \<Rightarrow> string \<Rightarrow> string \<Rightarrow> classification \<Rightarrow> ep_error + verdict"
  where
  "verify_proposal lib pe d e agent_id branch_id c =
     (case pe of
        None \<Rightarrow> Inr \<lparr> v_result = ''pending_approval'', v_versions = [], v_set_hash = None,
                      v_approval_policies = [] \<rparr>
      | Some ps \<Rightarrow>
          bindE (someE IllegalTransitionError (project_of_branch d branch_id)) (\<lambda>project_id.
            let r = evaluate (float_value lib) (cel_eval lib) (now e) ps (action_type c)
                      (canonical_resources c)
                      [(''agent_id'', JStr agent_id), (''project_id'', JStr project_id),
                       (''branch_id'', JStr branch_id)];
                versions = matched_versions (r_matched r)
            in Inr \<lparr> v_result = (case r_effect r of Deny \<Rightarrow> ''denied''
                                | Require_Approval \<Rightarrow> ''pending_approval''
                                | Allow \<Rightarrow> ''admissible'' | Warn \<Rightarrow> ''admissible''),
                     v_versions = versions,
                     v_set_hash = (if r_matched r = [] then None
                                   else Some (compute_policy_set_hash (sha256 lib) versions)),
                     v_approval_policies =
                       map (\<lambda>m. p_id (m_policy m))
                         (filter (\<lambda>m. p_effect (m_policy m) = Require_Approval) (r_matched r)) \<rparr>))"

definition proposal_event :: "string \<Rightarrow> string \<Rightarrow> string \<Rightarrow> string \<Rightarrow> string \<Rightarrow> json" where
  "proposal_event transition_id tool action result reason =
     JObj [(''transition_id'', JStr transition_id), (''tool'', JStr tool), (''action'', JStr action),
           (''verification_result'', JStr result), (''reason'', JStr reason)]"

definition proposed_row ::
  "env \<Rightarrow> string \<Rightarrow> string \<Rightarrow> string \<Rightarrow> json \<Rightarrow> string \<Rightarrow> string \<Rightarrow> string option \<Rightarrow> int option
   \<Rightarrow> classification \<Rightarrow> verdict \<Rightarrow> transition_row" where
  "proposed_row e agent_id branch_id tool arguments payload_hash idempotency_key
                expected_head_id expected_version c v =
     \<lparr> t_id = ids e 0, t_branch_id = branch_id, t_agent_id = agent_id, t_from_node_id = None,
       t_to_node_id = None, t_tool = tool, t_action = Some (action_type c),
       t_resource = (case canonical_resources c of [] \<Rightarrow> None | r # _ \<Rightarrow> Some r),
       t_payload_hash = payload_hash, t_payload = sort_keys arguments,
       t_expected_head_id = expected_head_id, t_expected_version = expected_version,
       t_idempotency_key = idempotency_key, t_stage = Proposed, t_exit_status = None,
       t_result_summary = None, t_policy_set_hash = v_set_hash v,
       t_matched_policy_versions = stored_versions (v_versions v),
       t_requires_manual_reconciliation = False, t_created_at = now e, t_updated_at = now e \<rparr>"

definition propose ::
  "libs \<Rightarrow> string \<Rightarrow> policy list option \<Rightarrow> db \<Rightarrow> env \<Rightarrow> string \<Rightarrow> string \<Rightarrow> string
   \<Rightarrow> (string \<times> json) list \<Rightarrow> string \<Rightarrow> string option \<Rightarrow> int option \<Rightarrow> transition_row op" where
  "propose lib svc pe d e agent_id branch_id tool arguments idempotency_key
           expected_head_id expected_version =
     (let existing = get_by_idempotency_key d idempotency_key in
      if (case existing of None \<Rightarrow> False
          | Some t \<Rightarrow> t_stage t \<in> set idempotent_return_existing \<or> t_stage t \<in> set idempotent_return_result)
      then Inr (d, the existing)
      else
     bindE (classify (sql_parser lib) tool arguments) (\<lambda>c.
     bindE (json_canonical_hash (sha256 lib) (JObj arguments)) (\<lambda>payload_hash.
     bindE (verify_proposal lib pe d e agent_id branch_id c) (\<lambda>v.
     bindE (insert_transition d (proposed_row e agent_id branch_id tool (JObj arguments) payload_hash
              idempotency_key expected_head_id expected_version c v)) (\<lambda>(d, t).
     if v_result v = ''denied'' then
       bindE (advance_stage d e (t_id t) Denied) (\<lambda>(d, t').
       bindE (write_audit_event (sha256 lib) svc d (now e) (ids e 1) branch_id ''transition.denied''
                agent_id (proposal_event (t_id t) tool (action_type c) (v_result v) ''policy_deny'')) (\<lambda>(d, _).
         Inr (d, t')))
     else if v_result v = ''pending_approval'' then
       bindE (advance_stage d e (t_id t) stage.Pending_Approval) (\<lambda>(d, t').
       bindE (create_request d (now e) (ids e 1) (t_id t) agent_id
                (''Action '' @ action_type c @ '' requires approval'')
                (case v_approval_policies v of [] \<Rightarrow> None | p # _ \<Rightarrow> Some p)) (\<lambda>(d, r).
       bindE (add_policies d (r_id r) (v_approval_policies v)) (\<lambda>(d, _).
       bindE (write_audit_event (sha256 lib) svc d (now e) (ids e 2) branch_id
                ''transition.pending_approval'' agent_id
                (proposal_event (t_id t) tool (action_type c) (v_result v) ''requires_approval'')) (\<lambda>(d, _).
         Inr (d, t')))))
     else
       bindE (advance_stage d e (t_id t) Authorized) (\<lambda>(d, t').
       bindE (write_audit_event (sha256 lib) svc d (now e) (ids e 1) branch_id ''transition.authorized''
                agent_id (proposal_event (t_id t) tool (action_type c) (v_result v) ''policy_allow'')) (\<lambda>(d, _).
         Inr (d, t'))))))))"

subsection \<open>Approve and deny\<close>

text \<open>The checks that both share: the transition is pending and its requester is not the decider.\<close>

definition approve ::
  "(string \<Rightarrow> string) \<Rightarrow> string \<Rightarrow> db \<Rightarrow> env \<Rightarrow> string \<Rightarrow> string \<Rightarrow> string \<Rightarrow> string \<Rightarrow> transition_row op"
  where
  "approve sha svc d e transition_id approver_id approver_type reason =
     bindE (someE IllegalTransitionError (get_transition d transition_id)) (\<lambda>t.
     bindE (requireE (t_stage t = stage.Pending_Approval) IllegalTransitionError) (\<lambda>_.
     bindE (requireE (approver_id \<noteq> t_agent_id t) SeparationOfDutiesError) (\<lambda>_.
     bindE (requireE (approver_type \<noteq> ''agent'') SeparationOfDutiesError) (\<lambda>_.
     bindE (someE IllegalTransitionError (find_pending_by_transition d transition_id)) (\<lambda>r.
     bindE (decide d e (r_id r) approver_id ''approved'' reason) (\<lambda>(d, decided).
     bindE (requireE (decided \<noteq> None) ApprovalAlreadyDecidedError) (\<lambda>_.
     bindE (advance_stage d e transition_id Authorized) (\<lambda>(d, t').
     bindE (write_audit_event sha svc d (now e) (ids e 0) (t_branch_id t) ''transition.approved''
              approver_id
              (JObj [(''transition_id'', JStr transition_id), (''approver_id'', JStr approver_id),
                     (''approver_type'', JStr approver_type), (''reason'', JStr reason)])) (\<lambda>(d, _).
       Inr (d, t'))))))))))"

definition deny_approval ::
  "(string \<Rightarrow> string) \<Rightarrow> string \<Rightarrow> db \<Rightarrow> env \<Rightarrow> string \<Rightarrow> string \<Rightarrow> string \<Rightarrow> transition_row op" where
  "deny_approval sha svc d e transition_id approver_id reason =
     bindE (someE IllegalTransitionError (get_transition d transition_id)) (\<lambda>t.
     bindE (requireE (t_stage t = stage.Pending_Approval) IllegalTransitionError) (\<lambda>_.
     bindE (requireE (approver_id \<noteq> t_agent_id t) SeparationOfDutiesError) (\<lambda>_.
     bindE (someE IllegalTransitionError (find_pending_by_transition d transition_id)) (\<lambda>r.
     bindE (decide d e (r_id r) approver_id ''denied'' reason) (\<lambda>(d, decided).
     bindE (requireE (decided \<noteq> None) ApprovalAlreadyDecidedError) (\<lambda>_.
     bindE (advance_stage d e transition_id Denied) (\<lambda>(d, t').
     bindE (write_audit_event sha svc d (now e) (ids e 0) (t_branch_id t) ''transition.denied_approval''
              approver_id
              (JObj [(''transition_id'', JStr transition_id), (''approver_id'', JStr approver_id),
                     (''reason'', JStr reason)])) (\<lambda>(d, _).
       Inr (d, t')))))))))"

subsection \<open>Cancel\<close>

definition is_administrator :: "db \<Rightarrow> string \<Rightarrow> bool" where
  "is_administrator d principal_id =
     list_ex (\<lambda>rb. rb_principal_id rb = principal_id
                \<and> list_ex (\<lambda>r. ro_id r = rb_role_id rb \<and> ro_name r = ''administrator'') (roles d))
       (role_bindings d)"

definition cancellable :: "stage \<Rightarrow> bool" where
  "cancellable s \<longleftrightarrow> s = Proposed \<or> s = stage.Pending_Approval \<or> s = Authorized"

definition cancel ::
  "(string \<Rightarrow> string) \<Rightarrow> string \<Rightarrow> db \<Rightarrow> env \<Rightarrow> string \<Rightarrow> string \<Rightarrow> transition_row op" where
  "cancel sha svc d e transition_id agent_id =
     bindE (someE IllegalTransitionError (get_transition d transition_id)) (\<lambda>t.
     bindE (requireE (cancellable (t_stage t)) IllegalTransitionError) (\<lambda>_.
     bindE (requireE (agent_id = t_agent_id t \<or> is_administrator d agent_id) AuthorizationError) (\<lambda>_.
     bindE (advance_stage d e transition_id Cancelled) (\<lambda>(d, t').
     bindE (write_audit_event sha svc d (now e) (ids e 0) (t_branch_id t) ''transition.cancelled''
              agent_id
              (JObj [(''transition_id'', JStr transition_id), (''agent_id'', JStr agent_id)])) (\<lambda>(d, _).
       Inr (d, t'))))))"

subsection \<open>Record the result\<close>

definition record_result ::
  "(string \<Rightarrow> string) \<Rightarrow> string \<Rightarrow> db \<Rightarrow> env \<Rightarrow> string \<Rightarrow> string \<Rightarrow> string \<Rightarrow> string option
   \<Rightarrow> transition_row op" where
  "record_result sha svc d e transition_id exit_status result_summary to_node_id =
     bindE (someE IllegalTransitionError (get_transition d transition_id)) (\<lambda>t.
     bindE (requireE (t_stage t = Executing) IllegalTransitionError) (\<lambda>_.
     let uncertain = exit_status \<noteq> ''success'' \<and> exit_status \<noteq> ''failure'';
         d1 = (if uncertain then set_requires_manual_reconciliation d e transition_id True else d);
         target = (if exit_status = ''success'' then Succeeded
                   else if exit_status = ''failure'' then Failed else Execution_Uncertain);
         ty = (if exit_status = ''success'' then ''transition.succeeded''
               else if exit_status = ''failure'' then ''transition.failed''
               else ''transition.execution_uncertain'');
         base = [(''transition_id'', JStr transition_id), (''exit_status'', JStr exit_status),
                 (''result_summary'', JStr result_summary)];
         extra = (if exit_status = ''success'' then [(''to_node_id'', jopt to_node_id)]
                  else if exit_status = ''failure'' then []
                  else [(''requires_manual_reconciliation'', JBool True)])
     in
     bindE (update_result d1 e transition_id exit_status result_summary to_node_id) (\<lambda>(d, _).
     bindE (advance_stage d e transition_id target) (\<lambda>(d, t').
     bindE (write_audit_event sha svc d (now e) (ids e 0) (t_branch_id t) ty (t_agent_id t)
              (JObj (base @ extra))) (\<lambda>(d, _).
       Inr (d, t'))))))"

subsection \<open>Reconcile\<close>

text \<open>The data of the two reconciliation events.\<close>

definition reconciled_event :: "string \<Rightarrow> string \<Rightarrow> string \<Rightarrow> json" where
  "reconciled_event transition_id final_status result_summary =
     JObj [(''transition_id'', JStr transition_id), (''final_status'', JStr final_status),
           (''result_summary'', JStr result_summary), (''requires_manual_reconciliation'', JBool False)]"

definition commit_failed_event :: "string \<Rightarrow> string \<Rightarrow> json" where
  "commit_failed_event transition_id final_status =
     JObj [(''transition_id'', JStr transition_id), (''final_status'', JStr final_status),
           (''requires_manual_reconciliation'', JBool True)]"

text \<open>The identifiers that the transactions after the first one take.\<close>

definition later :: "env \<Rightarrow> env" where
  "later e = e\<lparr>ids := (\<lambda>n. ids e (n + 3))\<rparr>"

definition finish :: "db \<Rightarrow> 'a op \<Rightarrow> db \<times> (ep_error + 'a)" where
  "finish d r = (case r of Inl e \<Rightarrow> (d, Inl e) | Inr (d', x) \<Rightarrow> (d', Inr x))"

definition orelse :: "'a option \<Rightarrow> 'a \<Rightarrow> 'a" where
  "orelse x y = (case x of None \<Rightarrow> y | Some z \<Rightarrow> z)"

definition reconcile_failed ::
  "(string \<Rightarrow> string) \<Rightarrow> string \<Rightarrow> db \<Rightarrow> env \<Rightarrow> transition_row \<Rightarrow> string \<Rightarrow> transition_row op" where
  "reconcile_failed sha svc d e t result_summary =
     bindE (advance_stage d e (t_id t) Failed) (\<lambda>(d, t').
     bindE (write_audit_event sha svc (set_requires_manual_reconciliation d e (t_id t) False) (now e)
              (ids e 0) (t_branch_id t) ''transition.reconciled'' (t_agent_id t)
              (reconciled_event (t_id t) ''failed'' result_summary)) (\<lambda>(d, _).
       Inr (d, t')))"

text \<open>The succeeded path: commit, and on failure record that manual reconciliation is needed.\<close>

definition reconcile_succeeded ::
  "(string \<Rightarrow> string) \<Rightarrow> string \<Rightarrow> string \<Rightarrow> db \<Rightarrow> env \<Rightarrow> transition_row \<Rightarrow> string \<Rightarrow> string option
   \<Rightarrow> rat \<Rightarrow> json option \<Rightarrow> string option \<Rightarrow> int option \<Rightarrow> string option
   \<Rightarrow> db \<times> (ep_error + transition_row)" where
  "reconcile_succeeded sha svc committer d e t result_summary branch_description bt metadata
        expected_head_id expected_version lattice_id =
     (let head = get_head d (t_branch_id t);
          commit_head = (case expected_head_id of Some h \<Rightarrow> Some h
                         | None \<Rightarrow> (case t_expected_head_id t of Some h \<Rightarrow> Some h | None \<Rightarrow> fst head));
          commit_version = orelse expected_version (orelse (t_expected_version t) (snd head));
          commit_lattice = orelse lattice_id (event_lattice d (t_branch_id t))
      in case commit sha committer d e (t_id t) (t_branch_id t) (t_agent_id t)
                (orelse branch_description result_summary) bt (orelse metadata (JObj []))
                commit_head commit_version commit_lattice of
           Inl _ \<Rightarrow>
             finish d
               (bindE (write_audit_event sha svc (set_requires_manual_reconciliation d e (t_id t) True)
                         (now e) (ids (later e) 0) (t_branch_id t) ''transition.reconcile_commit_failed''
                         (t_agent_id t) (commit_failed_event (t_id t) ''succeeded'')) (\<lambda>(d, _).
                bindE (someE IllegalTransitionError (get_transition d (t_id t))) (\<lambda>t'. Inr (d, t'))))
         | Inr (d', _) \<Rightarrow>
             finish d'
               (bindE (someE IllegalTransitionError (get_transition d' (t_id t))) (\<lambda>t'.
                bindE (write_audit_event sha svc (set_requires_manual_reconciliation d' e (t_id t) False)
                         (now e) (ids (later e) 0) (t_branch_id t) ''transition.reconciled''
                         (t_agent_id t) (reconciled_event (t_id t) ''succeeded'' result_summary)) (\<lambda>(d, _).
                  Inr (d, t')))))"

definition reconcile ::
  "(string \<Rightarrow> string) \<Rightarrow> string \<Rightarrow> db \<Rightarrow> env \<Rightarrow> string \<Rightarrow> string \<Rightarrow> string \<Rightarrow> string option \<Rightarrow> string option
   \<Rightarrow> rat \<Rightarrow> json option \<Rightarrow> string option \<Rightarrow> int option \<Rightarrow> string option
   \<Rightarrow> db \<times> (ep_error + transition_row)" where
  "reconcile sha svc d e transition_id final_status result_summary branch_committer branch_description
       bt metadata expected_head_id expected_version lattice_id =
     (case bindE (someE IllegalTransitionError (get_transition d transition_id)) (\<lambda>t.
           bindE (requireE (t_stage t = Execution_Uncertain) IllegalTransitionError) (\<lambda>_. Inr t)) of
        Inl err \<Rightarrow> (d, Inl err)
      | Inr t \<Rightarrow>
          (if final_status = ''succeeded'' then
             (case branch_committer of
                None \<Rightarrow> (d, Inl IllegalTransitionError)
              | Some committer \<Rightarrow>
                  reconcile_succeeded sha svc committer d e t result_summary branch_description bt
                    metadata expected_head_id expected_version lattice_id)
           else if final_status = ''failed'' then
             finish d (reconcile_failed sha svc d e t result_summary)
           else (d, Inl IllegalTransitionError)))"

subsection \<open>What a stage change does\<close>

lemma legal_moves [simp]:
  "is_legal_transition Proposed Denied" "is_legal_transition Proposed stage.Pending_Approval"
  "is_legal_transition Proposed Authorized" "is_legal_transition stage.Pending_Approval Authorized"
  "is_legal_transition stage.Pending_Approval Denied" "is_legal_transition Executing Succeeded"
  "is_legal_transition Executing Failed" "is_legal_transition Executing Execution_Uncertain"
  "is_legal_transition Execution_Uncertain Succeeded" "is_legal_transition Execution_Uncertain Failed"
  "is_legal_transition Authorized Executing" "is_legal_transition Authorized Expired"
  by (simp_all add: is_legal_transition_def legal_transitions_def)

lemma legal_cancel: "is_legal_transition s Cancelled \<longleftrightarrow> cancellable s"
  by (cases s) (simp_all add: is_legal_transition_def legal_transitions_def cancellable_def)

text \<open>Every legal move goes up in the life cycle, and none leaves a terminal stage.\<close>

lemma legal_rank: "is_legal_transition a b \<Longrightarrow> stage_rank a < stage_rank b"
  by (auto simp: is_legal_transition_def legal_transitions_def)

lemma legal_terminal: "is_legal_transition a b \<Longrightarrow> a \<notin> set terminal_stages"
  by (auto simp: is_legal_transition_def legal_transitions_def terminal_stages_def)

lemma event_lattice_cong: "branches d' = branches d \<Longrightarrow> event_lattice d' b = event_lattice d b"
  by (simp add: event_lattice_def get_branch_def)

text \<open>The table of transitions after the stage of one of them was set.\<close>

definition staged :: "env \<Rightarrow> string \<Rightarrow> stage \<Rightarrow> transition_row list \<Rightarrow> transition_row list" where
  "staged e i s ts = fst (row_update t_id i (\<lambda>_. True) (set_stage (now e) s) ts)"

lemma staged_get:
  "row_get t_id j (staged e i s ts) =
     (if j = i then map_option (set_stage (now e) s) (row_get t_id i ts) else row_get t_id j ts)"
  by (simp add: staged_def transition_table.get_upd)

lemma staged_keys [simp]:
  "map t_id (staged e i s ts) = map t_id ts"
  "map t_idempotency_key (staged e i s ts) = map t_idempotency_key ts"
  by (simp_all add: staged_def row_update_keys row_update_col)

lemma advance_stage_Inr:
  assumes "advance_stage d e i s = Inr (d', t')"
  obtains t where "get_transition d i = Some t" and "is_legal_transition (t_stage t) s"
    and "t' = set_stage (now e) s t" and "d' = d\<lparr>transitions := staged e i s (transitions d)\<rparr>"
proof -
  from assms obtain t where t: "get_transition d i = Some t" "is_legal_transition (t_stage t) s"
    and d': "d' = fst (update_stage d e i s None)" and t': "get_transition d' i = Some t'"
    by (auto simp: advance_stage_def Let_def)
  from d' have d'': "d' = d\<lparr>transitions := staged e i s (transitions d)\<rparr>"
    by (simp add: update_stage_eq staged_def)
  with t(1) t' have "t' = set_stage (now e) s t" by (simp add: get_transition_def staged_get)
  then show thesis using t d'' that by blast
qed

lemma advance_stage_ok:
  assumes "get_transition d i = Some t" and "is_legal_transition (t_stage t) s"
  shows "advance_stage d e i s =
     Inr (d\<lparr>transitions := staged e i s (transitions d)\<rparr>, set_stage (now e) s t)"
  using assms by (simp add: advance_stage_def update_stage_eq staged_def Let_def get_transition_def
      transition_table.get_upd)

lemma keys_ok_transitions:
  "keys_ok d \<Longrightarrow> map t_id ts = map t_id (transitions d)
   \<Longrightarrow> map t_idempotency_key ts = map t_idempotency_key (transitions d)
   \<Longrightarrow> keys_ok (d\<lparr>transitions := ts\<rparr>)"
  by (simp add: keys_ok_def)

lemma chain_ok_transitions [simp]: "chain_ok sha (d\<lparr>transitions := ts\<rparr>) = chain_ok sha d"
  by (rule chain_ok_cong) simp_all

lemma chain_ok_approvals [simp]: "chain_ok sha (d\<lparr>approvals := ts\<rparr>) = chain_ok sha d"
  by (rule chain_ok_cong) simp_all

lemma latest_in: "latest rs = Some r \<Longrightarrow> r \<in> set rs"
  by (induction rs arbitrary: r) (auto split: option.splits if_splits)

lemma find_pending_in:
  assumes "find_pending_by_transition d i = Some r"
  shows "r \<in> set (approvals d)" and "r_transition_id r = i" and "r_status r = Pending"
  using latest_in [OF assms [unfolded find_pending_by_transition_def]] by auto

text \<open>The common tail of the operations: set the stage, then record one event.\<close>

definition advance_and_log ::
  "(string \<Rightarrow> string) \<Rightarrow> string \<Rightarrow> db \<Rightarrow> env \<Rightarrow> string \<Rightarrow> stage \<Rightarrow> string \<Rightarrow> string \<Rightarrow> string \<Rightarrow> string
   \<Rightarrow> json \<Rightarrow> transition_row op" where
  "advance_and_log sha svc d e i s event_id branch_id ty actor data =
     bindE (advance_stage d e i s) (\<lambda>(d, t').
     bindE (write_audit_event sha svc d (now e) event_id branch_id ty actor data) (\<lambda>(d, _).
       Inr (d, t')))"

lemma advance_and_log_Inr:
  assumes "advance_and_log sha svc d e i s event_id branch_id ty actor data = Inr (d', t')"
  obtains t ev hs where "get_transition d i = Some t" and "is_legal_transition (t_stage t) s"
    and "t' = set_stage (now e) s t"
    and "d' = d\<lparr>transitions := staged e i s (transitions d), events := events d @ [ev], heads := hs\<rparr>"
    and "ev_event_type ev = ty" and "ev_actor_principal_id ev = actor"
    and "ev_event_data ev = sort_keys data" and "has_principal d actor"
    and "keys_ok d \<Longrightarrow> keys_ok d'" and "chain_ok sha d \<Longrightarrow> chain_ok sha d'"
proof -
  from assms obtain d1 ev where a: "advance_stage d e i s = Inr (d1, t')"
    and w: "write_event sha svc d1 (now e) event_id (event_lattice d1 branch_id) ty data actor actor
            = Inr (d', ev)"
    by (auto simp: advance_and_log_def write_audit_event_def)
  obtain t where t: "get_transition d i = Some t" "is_legal_transition (t_stage t) s"
      "t' = set_stage (now e) s t" and d1: "d1 = d\<lparr>transitions := staged e i s (transitions d)\<rparr>"
    by (rule advance_stage_Inr [OF a])
  have ko: "keys_ok d'" if "keys_ok d"
    by (rule write_event_keys [OF w]) (unfold d1, rule keys_ok_transitions [OF that], simp_all)
  have co: "chain_ok sha d'" if "chain_ok sha d"
    by (rule write_event_chain_ok [OF _ w]) (simp add: d1 that)
  show thesis
  proof (rule write_event_frame [OF w])
    fix hs
    assume "d' = d1\<lparr>events := events d1 @ [ev], heads := hs\<rparr>" "ev_event_type ev = ty"
      "ev_actor_principal_id ev = actor" "ev_event_data ev = sort_keys data" "has_principal d1 actor"
    then show thesis using t ko co by (intro that [of t hs ev]) (simp_all add: d1 has_principal_def)
  qed
qed

subsection \<open>What each operation does\<close>

text \<open>A decided approval request.\<close>

definition decided_row :: "env \<Rightarrow> string \<Rightarrow> string \<Rightarrow> string \<Rightarrow> approval_row \<Rightarrow> approval_row" where
  "decided_row e by decision reason r =
     r\<lparr>r_decided_by := Some by, r_decided_at := Some (now e), r_decision := Some decision,
       r_reason := Some reason,
       r_status := (if decision = ''approved'' then Approved else Approval_Denied),
       r_updated_at := now e\<rparr>"

lemma decided_row_simps [simp]:
  "r_id (decided_row e by c x r) = r_id r" "r_transition_id (decided_row e by c x r) = r_transition_id r"
  "r_decided_by (decided_row e by c x r) = Some by"
  "r_status (decided_row e by c x r) = (if c = ''approved'' then Approved else Approval_Denied)"
  "r_requested_by (decided_row e by c x r) = r_requested_by r"
  by (simp_all add: decided_row_def)

definition decided_table ::
  "env \<Rightarrow> string \<Rightarrow> string \<Rightarrow> string \<Rightarrow> string \<Rightarrow> approval_row list \<Rightarrow> approval_row list" where
  "decided_table e i by decision reason rs =
     fst (row_update r_id i (\<lambda>r. r_status r = Pending) (decided_row e by decision reason) rs)"

lemma decided_table_get:
  "row_get r_id j (decided_table e i by c x rs) =
     (if j = i then map_option (\<lambda>r. if r_status r = Pending then decided_row e by c x r else r)
                     (row_get r_id i rs)
      else row_get r_id j rs)"
  unfolding decided_table_def by (rule approval_table.get_upd) simp

lemma decide_table:
  assumes "decide d e i by c x = Inr (d', Some r)"
  shows "d' = d\<lparr>approvals := decided_table e i by c x (approvals d)\<rparr>" and "has_principal d by"
  using assms
  by (auto simp: decide_def split_beta decided_table_def decided_row_def [abs_def] check_fk_def
      split: if_splits)

lemma pending_get:
  assumes "keys_ok d" and "find_pending_by_transition d i = Some r"
  shows "row_get r_id (r_id r) (approvals d) = Some r"
  using row_get_in [OF keys_okD(2) [OF assms(1)] find_pending_in(1) [OF assms(2)]] by simp

text \<open>Approving and denying: the pending request is decided, then the stage is set.\<close>

lemma decide_and_log:
  assumes k: "keys_ok d" and p: "find_pending_by_transition d tid = Some r"
    and dec: "decide d e (r_id r) by c x = Inr (d1, Some r')"
    and al: "advance_and_log sha svc d1 e tid s i br ty by data = Inr (d', t')"
    and t: "get_transition d tid = Some t"
  obtains ev hs where "t' = set_stage (now e) s t"
    and "row_get r_id (r_id r) (approvals d') = Some (decided_row e by c x r)"
    and "d' = d\<lparr>approvals := decided_table e (r_id r) by c x (approvals d),
                transitions := staged e tid s (transitions d),
                events := events d @ [ev], heads := hs\<rparr>"
    and "ev_event_type ev = ty" and "ev_actor_principal_id ev = by"
    and "ev_event_data ev = sort_keys data" and "has_principal d by"
    and "keys_ok d'" and "chain_ok sha d \<Longrightarrow> chain_ok sha d'"
proof -
  note d1 = decide_table [OF dec]
  have k1: "keys_ok d1" by (rule decide_keys [OF dec k])
  show thesis
  proof (rule advance_and_log_Inr [OF al])
    fix t1 ev hs
    assume a: "get_transition d1 tid = Some t1" "t' = set_stage (now e) s t1"
      "d' = d1\<lparr>transitions := staged e tid s (transitions d1), events := events d1 @ [ev], heads := hs\<rparr>"
      "ev_event_type ev = ty" "ev_actor_principal_id ev = by" "ev_event_data ev = sort_keys data"
      and ko: "keys_ok d1 \<Longrightarrow> keys_ok d'" and co: "chain_ok sha d1 \<Longrightarrow> chain_ok sha d'"
    have t1: "t1 = t" using a(1) t by (simp add: get_transition_def d1(1))
    show thesis
    proof (rule that)
      show "t' = set_stage (now e) s t" using a(2) t1 by simp
      show "row_get r_id (r_id r) (approvals d') = Some (decided_row e by c x r)"
        using pending_get [OF k p] find_pending_in(3) [OF p] by (simp add: a(3) d1(1) decided_table_get)
      show "d' = d\<lparr>approvals := decided_table e (r_id r) by c x (approvals d),
                transitions := staged e tid s (transitions d),
                events := events d @ [ev], heads := hs\<rparr>"
        unfolding a(3) d1(1) by simp
      show "keys_ok d'" by (rule ko [OF k1])
      show "chain_ok sha d'" if "chain_ok sha d" using that by (intro co) (simp add: d1(1))
    qed (fact a d1(2))+
  qed
qed

text \<open>The audit record of an approval and of a denial.\<close>

definition approved_event :: "string \<Rightarrow> string \<Rightarrow> string \<Rightarrow> string \<Rightarrow> json" where
  "approved_event tid by ty reason =
     JObj [(''transition_id'', JStr tid), (''approver_id'', JStr by), (''approver_type'', JStr ty),
           (''reason'', JStr reason)]"

definition denied_event :: "string \<Rightarrow> string \<Rightarrow> string \<Rightarrow> json" where
  "denied_event tid by reason =
     JObj [(''transition_id'', JStr tid), (''approver_id'', JStr by), (''reason'', JStr reason)]"

lemma approve_steps:
  assumes "approve sha svc d e tid by ty reason = Inr (d', t')"
  obtains t r d1 r' where "get_transition d tid = Some t" and "t_stage t = stage.Pending_Approval"
    and "by \<noteq> t_agent_id t" and "ty \<noteq> ''agent''" and "find_pending_by_transition d tid = Some r"
    and "decide d e (r_id r) by ''approved'' reason = Inr (d1, Some r')"
    and "advance_and_log sha svc d1 e tid Authorized (ids e 0) (t_branch_id t) ''transition.approved''
        by (approved_event tid by ty reason) = Inr (d', t')"
  using assms unfolding approve_def advance_and_log_def [symmetric] approved_event_def [symmetric]
  by clarsimp

lemma deny_approval_steps:
  assumes "deny_approval sha svc d e tid by reason = Inr (d', t')"
  obtains t r d1 r' where "get_transition d tid = Some t" and "t_stage t = stage.Pending_Approval"
    and "by \<noteq> t_agent_id t" and "find_pending_by_transition d tid = Some r"
    and "decide d e (r_id r) by ''denied'' reason = Inr (d1, Some r')"
    and "advance_and_log sha svc d1 e tid Denied (ids e 0) (t_branch_id t) ''transition.denied_approval''
        by (denied_event tid by reason) = Inr (d', t')"
  using assms unfolding deny_approval_def advance_and_log_def [symmetric] denied_event_def [symmetric]
  by clarsimp

lemma cancel_steps:
  assumes "cancel sha svc d e tid ag = Inr (d', t')"
  obtains t where "get_transition d tid = Some t" and "cancellable (t_stage t)"
    and "ag = t_agent_id t \<or> is_administrator d ag"
    and "advance_and_log sha svc d e tid Cancelled (ids e 0) (t_branch_id t) ''transition.cancelled'' ag
        (JObj [(''transition_id'', JStr tid), (''agent_id'', JStr ag)]) = Inr (d', t')"
  using assms unfolding cancel_def advance_and_log_def [symmetric] by clarsimp

lemma row_update_found:
  "row_get key k rows = Some r \<Longrightarrow> snd (row_update key k (\<lambda>_. True) f rows) \<noteq> 0"
  by (induction rows) (auto simp: row_update_def split: if_splits)

text \<open>Recording a result: the fields and the stage of one row change.\<close>

definition result_stage :: "string \<Rightarrow> stage" where
  "result_stage x = (if x = ''success'' then Succeeded else if x = ''failure'' then Failed
                     else Execution_Uncertain)"

definition result_type :: "string \<Rightarrow> string" where
  "result_type x = (if x = ''success'' then ''transition.succeeded''
               else if x = ''failure'' then ''transition.failed''
               else ''transition.execution_uncertain'')"

definition set_flag :: "string \<Rightarrow> bool \<Rightarrow> transition_row \<Rightarrow> transition_row" where
  "set_flag t b r = r\<lparr>t_requires_manual_reconciliation := b, t_updated_at := t\<rparr>"

lemma set_flag_simps [simp]:
  "t_id (set_flag t b r) = t_id r" "t_stage (set_flag t b r) = t_stage r"
  "t_idempotency_key (set_flag t b r) = t_idempotency_key r"
  "t_agent_id (set_flag t b r) = t_agent_id r" "t_branch_id (set_flag t b r) = t_branch_id r"
  "t_payload_hash (set_flag t b r) = t_payload_hash r" "t_tool (set_flag t b r) = t_tool r"
  "t_payload (set_flag t b r) = t_payload r" "t_to_node_id (set_flag t b r) = t_to_node_id r"
  "t_requires_manual_reconciliation (set_flag t b r) = b"
  by (simp_all add: set_flag_def)

lemma set_more_simps [simp]:
  "t_tool (set_stage t s r) = t_tool r" "t_payload (set_stage t s r) = t_payload r"
  "t_requires_manual_reconciliation (set_stage t s r) = t_requires_manual_reconciliation r"
  "t_result_summary (set_stage t s r) = t_result_summary r"
  "t_tool (set_result t x m n r) = t_tool r" "t_payload (set_result t x m n r) = t_payload r"
  "t_result_summary (set_result t x m n r) = Some m"
  "t_requires_manual_reconciliation (set_result t x m n r) = t_requires_manual_reconciliation r"
  by (simp_all add: set_stage_def set_result_def)

definition flagged :: "env \<Rightarrow> string \<Rightarrow> bool \<Rightarrow> transition_row list \<Rightarrow> transition_row list" where
  "flagged e i b ts = fst (row_update t_id i (\<lambda>_. True) (set_flag (now e) b) ts)"

lemma flagged_get:
  "row_get t_id j (flagged e i b ts) =
     (if j = i then map_option (set_flag (now e) b) (row_get t_id i ts) else row_get t_id j ts)"
  by (simp add: flagged_def transition_table.get_upd)

lemma flagged_keys [simp]:
  "map t_id (flagged e i b ts) = map t_id ts"
  "map t_idempotency_key (flagged e i b ts) = map t_idempotency_key ts"
  by (simp_all add: flagged_def row_update_keys row_update_col)

lemma set_flag_eq:
  "set_requires_manual_reconciliation d e i b = d\<lparr>transitions := flagged e i b (transitions d)\<rparr>"
  by (simp add: set_requires_manual_reconciliation_def flagged_def set_flag_def [abs_def])

definition resulted ::
  "env \<Rightarrow> string \<Rightarrow> string \<Rightarrow> string \<Rightarrow> string option \<Rightarrow> transition_row list \<Rightarrow> transition_row list" where
  "resulted e i x m n ts = fst (row_update t_id i (\<lambda>_. True) (set_result (now e) x m n) ts)"

lemma resulted_get:
  "row_get t_id j (resulted e i x m n ts) =
     (if j = i then map_option (set_result (now e) x m n) (row_get t_id i ts) else row_get t_id j ts)"
  by (simp add: resulted_def transition_table.get_upd)

lemma resulted_keys [simp]:
  "map t_id (resulted e i x m n ts) = map t_id ts"
  "map t_idempotency_key (resulted e i x m n ts) = map t_idempotency_key ts"
  by (simp_all add: resulted_def row_update_keys row_update_col)

lemma record_result_Inr:
  assumes k: "keys_ok d" and c: "record_result sha svc d e tid x m n = Inr (d', t')"
  obtains t ev hs ts where "get_transition d tid = Some t" and "t_stage t = Executing"
    and "t' = set_stage (now e) (result_stage x) (set_result (now e) x m n
                (if result_stage x = Execution_Uncertain then set_flag (now e) True t else t))"
    and "x \<in> set [''success'', ''failure'', ''timeout'']"
    and "d' = d\<lparr>transitions := ts, events := events d @ [ev], heads := hs\<rparr>"
    and "\<forall>j. row_get t_id j ts = (if j = tid then Some t' else row_get t_id j (transitions d))"
    and "ev_event_type ev = result_type x" and "ev_actor_principal_id ev = t_agent_id t"
    and "keys_ok d'" and "chain_ok sha d \<Longrightarrow> chain_ok sha d'"
proof -
  let ?u = "x \<noteq> ''success'' \<and> x \<noteq> ''failure''"
  let ?d1 = "if ?u then d\<lparr>transitions := flagged e tid True (transitions d)\<rparr> else d"
  from c obtain t d2 b data where t: "get_transition d tid = Some t" "t_stage t = Executing"
    and ur: "update_result ?d1 e tid x m n = Inr (d2, b)"
    and al: "advance_and_log sha svc d2 e tid (result_stage x) (ids e 0) (t_branch_id t) (result_type x)
               (t_agent_id t) data = Inr (d', t')"
    unfolding record_result_def Let_def result_stage_def [symmetric] result_type_def [symmetric]
      advance_and_log_def [symmetric] set_flag_eq
    by clarsimp
  let ?ts1 = "if ?u then flagged e tid True (transitions d) else transitions d"
  have d1: "?d1 = d\<lparr>transitions := ?ts1\<rparr>" by simp
  have d2: "d2 = d\<lparr>transitions := resulted e tid x m n ?ts1\<rparr>"
    using update_result_Inr [OF ur] by (simp add: resulted_def)
  have k2: "keys_ok d2" unfolding d2 by (rule keys_ok_transitions [OF k]) simp_all
  have g1: "row_get t_id tid ?ts1 = Some (if ?u then set_flag (now e) True t else t)"
    using t(1) by (simp add: get_transition_def flagged_get)
  have t2: "get_transition d2 tid
      = Some (set_result (now e) x m n (if ?u then set_flag (now e) True t else t))"
    using g1 by (simp add: get_transition_def d2 resulted_get)
  have u: "?u \<longleftrightarrow> result_stage x = Execution_Uncertain" by (simp add: result_stage_def)
  have "snd (row_update t_id tid (\<lambda>_. True) (set_result (now e) x m n) ?ts1) \<noteq> 0"
    by (rule row_update_found [OF g1])
  then have x: "x \<in> set [''success'', ''failure'', ''timeout'']"
    using ur unfolding d1 by (auto simp: update_result_def split_beta row_update_def)
  show thesis
  proof (rule advance_and_log_Inr [OF al])
    fix t1 ev hs
    assume a: "get_transition d2 tid = Some t1" "t' = set_stage (now e) (result_stage x) t1"
      "d' = d2\<lparr>transitions := staged e tid (result_stage x) (transitions d2),
               events := events d2 @ [ev], heads := hs\<rparr>"
      "ev_event_type ev = result_type x" "ev_actor_principal_id ev = t_agent_id t"
      and ko: "keys_ok d2 \<Longrightarrow> keys_ok d'" and co: "chain_ok sha d2 \<Longrightarrow> chain_ok sha d'"
    let ?ts = "staged e tid (result_stage x) (transitions d2)"
    show thesis
    proof (rule that [OF t _ x])
      show "t' = set_stage (now e) (result_stage x) (set_result (now e) x m n
                (if result_stage x = Execution_Uncertain then set_flag (now e) True t else t))"
        using a(1,2) t2 u by simp
      show "d' = d\<lparr>transitions := ?ts, events := events d @ [ev], heads := hs\<rparr>"
        unfolding a(3) d2 by simp
      show "\<forall>j. row_get t_id j ?ts = (if j = tid then Some t' else row_get t_id j (transitions d))"
        using a(1,2) by (auto simp: staged_get get_transition_def d2 resulted_get flagged_get)
      show "keys_ok d'" by (rule ko [OF k2])
      show "chain_ok sha d'" if "chain_ok sha d" using that by (intro co) (simp add: d2)
    qed (fact a)+
  qed
qed

text \<open>Proposing: a new row is inserted and moved to the stage the verdict asks for.\<close>

definition verdict_stage :: "string \<Rightarrow> stage" where
  "verdict_stage r = (if r = ''denied'' then Denied
                      else if r = ''pending_approval'' then stage.Pending_Approval else Authorized)"

definition verdict_type :: "string \<Rightarrow> string" where
  "verdict_type r = (if r = ''denied'' then ''transition.denied''
                     else if r = ''pending_approval'' then ''transition.pending_approval''
                     else ''transition.authorized'')"

definition verdict_reason :: "string \<Rightarrow> string" where
  "verdict_reason r = (if r = ''denied'' then ''policy_deny''
                       else if r = ''pending_approval'' then ''requires_approval''
                       else ''policy_allow'')"

definition replayed :: "db \<Rightarrow> string \<Rightarrow> bool" where
  "replayed d key \<longleftrightarrow>
     (case get_by_idempotency_key d key of None \<Rightarrow> False
      | Some t \<Rightarrow> t_stage t \<in> set idempotent_return_existing \<or> t_stage t \<in> set idempotent_return_result)"

lemma propose_replayed:
  "replayed d key \<Longrightarrow> propose lib svc pe d e ag br tool args key eh ev
     = Inr (d, the (get_by_idempotency_key d key))"
  by (simp add: propose_def replayed_def Let_def)

lemma insert_transition_Inr:
  assumes "insert_transition d r = Inr (d', r')"
  shows "r' = r" and "d' = d\<lparr>transitions := transitions d @ [r]\<rparr>"
    and "t_id r \<notin> t_id ` set (transitions d)"
    and "t_idempotency_key r \<notin> t_idempotency_key ` set (transitions d)"
    and "has_principal d (t_agent_id r)" and "has_branch d (t_branch_id r)"
  using assms by (auto simp: insert_transition_def store_simps)

lemma staged_fresh:
  assumes "i \<notin> t_id ` set ts" and "t_id r = i"
  shows "staged e i s (ts @ [r]) = ts @ [set_stage (now e) s r]"
proof -
  have "map (\<lambda>r. if t_id r = i then set_stage (now e) s r else r) ts = ts"
    using assms(1) by (intro map_idI) auto
  then show ?thesis using assms(2) by (simp add: staged_def row_update_def)
qed

lemma create_request_Inr:
  assumes "create_request d t i tid by j p = Inr (d', r)"
  shows "d' = d\<lparr>approvals := approvals d @ [r]\<rparr>" and "r_id r = i" and "r_transition_id r = tid"
    and "r_status r = Pending" and "r_requested_by r = by" and "i \<notin> r_id ` set (approvals d)"
    and "r_policy_id r = p"
  using assms by (auto simp: create_request_def store_simps)

lemma add_policies_frame:
  assumes "add_policies d i ps = Inr (d', u)"
  shows "d' = d\<lparr>approval_policies := approval_policies d'\<rparr>
       \<and> (\<forall>p \<in> set ps. (i, p) \<in> set (approval_policies d'))
       \<and> set (approval_policies d) \<subseteq> set (approval_policies d')"
  using assms
proof (induction d i ps rule: add_policies.induct)
  case (2 d i p ps)
  show ?case
  proof (cases "(i, p) \<in> set (approval_policies d)")
    case True
    with 2 show ?thesis by auto
  next
    case False
    with "2.prems" have r: "add_policies (d\<lparr>approval_policies := approval_policies d @ [(i, p)]\<rparr>) i ps
        = Inr (d', u)"
      by (simp add: check_fk_def)
    from "2.IH"(2) [OF False r] "2.prems" False show ?thesis
      by (auto simp: check_fk_def)
  qed
qed simp

lemma add_policies_Inr:
  assumes "add_policies d i ps = Inr (d', u)"
  obtains aps where "d' = d\<lparr>approval_policies := aps\<rparr>" and "\<forall>p \<in> set ps. (i, p) \<in> set aps"
    and "set (approval_policies d) \<subseteq> set aps"
  using add_policies_frame [OF assms] by blast

text \<open>The last step of \<open>propose\<close>, on the inserted row.\<close>

definition proposal ::
  "libs \<Rightarrow> string \<Rightarrow> db \<Rightarrow> env \<Rightarrow> string \<Rightarrow> string \<Rightarrow> string \<Rightarrow> classification \<Rightarrow> verdict
   \<Rightarrow> transition_row \<Rightarrow> transition_row op" where
  "proposal lib svc d e ag br tool c v t =
     (if v_result v = ''denied'' then
       advance_and_log (sha256 lib) svc d e (t_id t) Denied (ids e 1) br ''transition.denied'' ag
         (proposal_event (t_id t) tool (action_type c) (v_result v) ''policy_deny'')
     else if v_result v = ''pending_approval'' then
       bindE (advance_stage d e (t_id t) stage.Pending_Approval) (\<lambda>(d, t').
       bindE (create_request d (now e) (ids e 1) (t_id t) ag
                (''Action '' @ action_type c @ '' requires approval'')
                (case v_approval_policies v of [] \<Rightarrow> None | p # _ \<Rightarrow> Some p)) (\<lambda>(d, r).
       bindE (add_policies d (r_id r) (v_approval_policies v)) (\<lambda>(d, _).
       bindE (write_audit_event (sha256 lib) svc d (now e) (ids e 2) br
                ''transition.pending_approval'' ag
                (proposal_event (t_id t) tool (action_type c) (v_result v) ''requires_approval'')) (\<lambda>(d, _).
         Inr (d, t')))))
     else
       advance_and_log (sha256 lib) svc d e (t_id t) Authorized (ids e 1) br ''transition.authorized'' ag
         (proposal_event (t_id t) tool (action_type c) (v_result v) ''policy_allow''))"

lemma propose_eq:
  "\<not> replayed d key \<Longrightarrow> propose lib svc pe d e ag br tool args key eh ev =
     bindE (classify (sql_parser lib) tool args) (\<lambda>c.
     bindE (json_canonical_hash (sha256 lib) (JObj args)) (\<lambda>h.
     bindE (verify_proposal lib pe d e ag br c) (\<lambda>v.
     bindE (insert_transition d (proposed_row e ag br tool (JObj args) h key eh ev c v)) (\<lambda>(d, t).
       proposal lib svc d e ag br tool c v t))))"
  unfolding propose_def Let_def replayed_def [symmetric] proposal_def advance_and_log_def by simp

lemma propose_steps:
  assumes n: "\<not> replayed d key"
    and p: "propose lib svc pe d e ag br tool args key eh ev = Inr (d', t')"
  obtains c h v row where "classify (sql_parser lib) tool args = Inr c"
    and "json_canonical_hash (sha256 lib) (JObj args) = Inr h"
    and "verify_proposal lib pe d e ag br c = Inr v"
    and "row = proposed_row e ag br tool (JObj args) h key eh ev c v"
    and "insert_transition d row = Inr (d\<lparr>transitions := transitions d @ [row]\<rparr>, row)"
    and "proposal lib svc (d\<lparr>transitions := transitions d @ [row]\<rparr>) e ag br tool c v row = Inr (d', t')"
proof -
  from p obtain c h v d1 t where c: "classify (sql_parser lib) tool args = Inr c"
    and h: "json_canonical_hash (sha256 lib) (JObj args) = Inr h"
    and v: "verify_proposal lib pe d e ag br c = Inr v"
    and i: "insert_transition d (proposed_row e ag br tool (JObj args) h key eh ev c v) = Inr (d1, t)"
    and q: "proposal lib svc d1 e ag br tool c v t = Inr (d', t')"
    unfolding propose_eq [OF n] by clarsimp
  show thesis
    by (rule that [OF c h v refl]) (use i q insert_transition_Inr(1,2) [OF i] in simp_all)
qed

lemma proposal_decided:
  "v_result v \<noteq> ''pending_approval'' \<Longrightarrow> proposal lib svc d e ag br tool c v t =
     advance_and_log (sha256 lib) svc d e (t_id t) (verdict_stage (v_result v)) (ids e 1) br
       (verdict_type (v_result v)) ag
       (proposal_event (t_id t) tool (action_type c) (v_result v) (verdict_reason (v_result v)))"
  by (simp add: proposal_def verdict_stage_def verdict_type_def verdict_reason_def)

lemma proposal_pending:
  assumes "v_result v = ''pending_approval''" and "proposal lib svc d e ag br tool c v t = Inr (d', t')"
  obtains d1 d2 r d3 u evt where "advance_stage d e (t_id t) stage.Pending_Approval = Inr (d1, t')"
    and "create_request d1 (now e) (ids e 1) (t_id t) ag
           (''Action '' @ action_type c @ '' requires approval'')
           (case v_approval_policies v of [] \<Rightarrow> None | p # _ \<Rightarrow> Some p) = Inr (d2, r)"
    and "add_policies d2 (r_id r) (v_approval_policies v) = Inr (d3, u)"
    and "write_event (sha256 lib) svc d3 (now e) (ids e 2) (event_lattice d3 br)
           ''transition.pending_approval'' (proposal_event (t_id t) tool (action_type c)
              (v_result v) ''requires_approval'') ag ag = Inr (d', evt)"
  using assms unfolding proposal_def write_audit_event_def by clarsimp

text \<open>A proposed transition, as the handler leaves it.\<close>

definition requested :: "string \<Rightarrow> string \<Rightarrow> string list \<Rightarrow> approval_row list \<Rightarrow> approval_row list
   \<Rightarrow> (string \<times> string) list \<Rightarrow> bool" where
  "requested tid ag ps old as aps \<longleftrightarrow>
     (\<exists>r. as = old @ [r] \<and> r_transition_id r = tid \<and> r_status r = Pending \<and> r_requested_by r = ag
        \<and> r_id r \<notin> r_id ` set old \<and> (\<forall>p \<in> set ps. (r_id r, p) \<in> set aps))"

lemma proposal_Inr:
  assumes k: "keys_ok d" and q: "proposal lib svc d e ag br tool c v t = Inr (d', t')"
    and g: "get_transition d (t_id t) = Some t"
  obtains evt hs as aps where "t' = set_stage (now e) (verdict_stage (v_result v)) t"
    and "d' = d\<lparr>transitions := staged e (t_id t) (verdict_stage (v_result v)) (transitions d),
                approvals := as, approval_policies := aps, events := events d @ [evt], heads := hs\<rparr>"
    and "ev_event_type evt = verdict_type (v_result v)" and "ev_actor_principal_id evt = ag"
    and "ev_event_data evt = sort_keys (proposal_event (t_id t) tool (action_type c) (v_result v)
                                   (verdict_reason (v_result v)))"
    and "if v_result v = ''pending_approval''
         then requested (t_id t) ag (v_approval_policies v) (approvals d) as aps else as = approvals d"
    and "keys_ok d'" and "chain_ok (sha256 lib) d \<Longrightarrow> chain_ok (sha256 lib) d'"
proof (cases "v_result v = ''pending_approval''")
  case False
  show thesis
  proof (rule advance_and_log_Inr [OF q [unfolded proposal_decided [OF False]]])
    fix t1 evt hs
    assume a: "get_transition d (t_id t) = Some t1" "t' = set_stage (now e) (verdict_stage (v_result v)) t1"
      "d' = d\<lparr>transitions := staged e (t_id t) (verdict_stage (v_result v)) (transitions d),
              events := events d @ [evt], heads := hs\<rparr>"
      "ev_event_type evt = verdict_type (v_result v)" "ev_actor_principal_id evt = ag"
      "ev_event_data evt = sort_keys (proposal_event (t_id t) tool (action_type c) (v_result v)
                                   (verdict_reason (v_result v)))"
      and ko: "keys_ok d \<Longrightarrow> keys_ok d'" and co: "chain_ok (sha256 lib) d \<Longrightarrow> chain_ok (sha256 lib) d'"
    show thesis
    proof (rule that [of hs evt "approval_policies d" "approvals d"])
      show "d' = d\<lparr>transitions := staged e (t_id t) (verdict_stage (v_result v)) (transitions d),
                approvals := approvals d, approval_policies := approval_policies d,
                events := events d @ [evt], heads := hs\<rparr>"
        unfolding a(3) by simp
    qed (use a g k ko co False in simp_all)
  qed
next
  case True
  show thesis
  proof (rule proposal_pending [OF True q])
    fix d1 d2 r d3 u evt
    assume s1: "advance_stage d e (t_id t) stage.Pending_Approval = Inr (d1, t')"
      and s2: "create_request d1 (now e) (ids e 1) (t_id t) ag
           (''Action '' @ action_type c @ '' requires approval'')
           (case v_approval_policies v of [] \<Rightarrow> None | p # _ \<Rightarrow> Some p) = Inr (d2, r)"
      and s3: "add_policies d2 (r_id r) (v_approval_policies v) = Inr (d3, u)"
      and s4: "write_event (sha256 lib) svc d3 (now e) (ids e 2) (event_lattice d3 br)
           ''transition.pending_approval'' (proposal_event (t_id t) tool (action_type c)
              (v_result v) ''requires_approval'') ag ag = Inr (d', evt)"
    have d1: "d1 = d\<lparr>transitions := staged e (t_id t) stage.Pending_Approval (transitions d)\<rparr>"
      and t': "t' = set_stage (now e) stage.Pending_Approval t"
      by (rule advance_stage_Inr [OF s1]; use g in simp)+
    note r = create_request_Inr [OF s2]
    obtain aps where d3: "d3 = d2\<lparr>approval_policies := aps\<rparr>"
      and aps: "\<forall>p \<in> set (v_approval_policies v). (r_id r, p) \<in> set aps"
      by (rule add_policies_Inr [OF s3])
    obtain hs where d': "d' = d3\<lparr>events := events d3 @ [evt], heads := hs\<rparr>"
      and ev: "ev_event_type evt = ''transition.pending_approval''" "ev_actor_principal_id evt = ag"
        "ev_event_data evt = sort_keys (proposal_event (t_id t) tool (action_type c)
              (v_result v) ''requires_approval'')"
      by (rule write_event_frame [OF s4])
    have vs: "verdict_stage (v_result v) = stage.Pending_Approval"
        "verdict_type (v_result v) = ''transition.pending_approval''"
        "verdict_reason (v_result v) = ''requires_approval''"
      using True by (simp_all add: verdict_stage_def verdict_type_def verdict_reason_def)
    have k1: "keys_ok d1" unfolding d1 by (rule keys_ok_transitions [OF k]) simp_all
    have k3: "keys_ok d3" by (rule add_policies_keys [OF s3 create_request_keys [OF s2 k1]])
    show thesis
    proof (rule that)
      show "t' = set_stage (now e) (verdict_stage (v_result v)) t" using t' vs by simp
      show "d' = d\<lparr>transitions := staged e (t_id t) (verdict_stage (v_result v)) (transitions d),
                approvals := approvals d @ [r], approval_policies := aps,
                events := events d @ [evt], heads := hs\<rparr>"
        unfolding d' d3 r(1) d1 vs by simp
      show "ev_event_type evt = verdict_type (v_result v)" using ev vs by simp
      show "ev_actor_principal_id evt = ag" by (fact ev)
      show "ev_event_data evt = sort_keys (proposal_event (t_id t) tool (action_type c) (v_result v)
                                   (verdict_reason (v_result v)))"
        using ev vs by simp
      show "if v_result v = ''pending_approval''
         then requested (t_id t) ag (v_approval_policies v) (approvals d) (approvals d @ [r]) aps
         else approvals d @ [r] = approvals d"
        using True r(2-6) aps by (auto simp: requested_def d1)
      show "keys_ok d'" by (rule write_event_keys [OF s4 k3])
      show "chain_ok (sha256 lib) d'" if "chain_ok (sha256 lib) d"
      proof (rule write_event_chain_ok [OF _ s4])
        have "chain_ok (sha256 lib) d3 = chain_ok (sha256 lib) d"
          by (rule chain_ok_cong) (simp_all add: d3 r(1) d1)
        with that show "chain_ok (sha256 lib) d3" by simp
      qed
    qed
  qed
qed

text \<open>Reconciling: nothing, the failed path, a commit that was refused, or a commit.\<close>

lemma flag_and_log_Inr:
  assumes k: "keys_ok d"
    and w: "write_audit_event sha svc (set_requires_manual_reconciliation d e i b) tm eid br ty actor data
            = Inr (d', ev)"
  obtains hs where "d' = d\<lparr>transitions := flagged e i b (transitions d), events := events d @ [ev],
                heads := hs\<rparr>"
    and "ev_event_type ev = ty" and "keys_ok d'" and "chain_ok sha d \<Longrightarrow> chain_ok sha d'"
proof -
  let ?d1 = "d\<lparr>transitions := flagged e i b (transitions d)\<rparr>"
  have w1: "write_event sha svc ?d1 tm eid (event_lattice ?d1 br) ty data actor actor = Inr (d', ev)"
    using w by (simp add: write_audit_event_def set_flag_eq)
  have k1: "keys_ok ?d1" by (rule keys_ok_transitions [OF k]) simp_all
  show thesis
  proof (rule write_event_frame [OF w1])
    fix hs
    assume "d' = ?d1\<lparr>events := events ?d1 @ [ev], heads := hs\<rparr>" "ev_event_type ev = ty"
    then show thesis using write_event_keys [OF w1 k1] write_event_chain_ok [OF _ w1]
      by (intro that [of hs]) simp_all
  qed
qed

lemma reconcile_failed_Inr:
  assumes k: "keys_ok d" and t: "get_transition d (t_id t) = Some t"
    and r: "reconcile_failed sha svc d e t s = Inr (d', t')"
  obtains ev hs where "t' = set_stage (now e) Failed t" and "is_legal_transition (t_stage t) Failed"
    and "d' = d\<lparr>transitions := flagged e (t_id t) False (staged e (t_id t) Failed (transitions d)),
                events := events d @ [ev], heads := hs\<rparr>"
    and "ev_event_type ev = ''transition.reconciled''"
    and "keys_ok d'" and "chain_ok sha d \<Longrightarrow> chain_ok sha d'"
proof -
  from r obtain d1 ev where a: "advance_stage d e (t_id t) Failed = Inr (d1, t')"
    and w: "write_audit_event sha svc (set_requires_manual_reconciliation d1 e (t_id t) False) (now e)
              (ids e 0) (t_branch_id t) ''transition.reconciled'' (t_agent_id t)
              (reconciled_event (t_id t) ''failed'' s) = Inr (d', ev)"
    unfolding reconcile_failed_def by clarsimp
  obtain t1 where t1: "get_transition d (t_id t) = Some t1" "is_legal_transition (t_stage t1) Failed"
      "t' = set_stage (now e) Failed t1"
    and d1: "d1 = d\<lparr>transitions := staged e (t_id t) Failed (transitions d)\<rparr>"
    by (rule advance_stage_Inr [OF a])
  have k1: "keys_ok d1" unfolding d1 by (rule keys_ok_transitions [OF k]) simp_all
  show thesis
  proof (rule flag_and_log_Inr [OF k1 w])
    fix hs
    assume "d' = d1\<lparr>transitions := flagged e (t_id t) False (transitions d1),
                events := events d1 @ [ev], heads := hs\<rparr>"
      "ev_event_type ev = ''transition.reconciled''" "keys_ok d'"
      "chain_ok sha d1 \<Longrightarrow> chain_ok sha d'"
    then show thesis using t t1 by (intro that [of hs ev]) (simp_all add: d1)
  qed
qed

lemma reconcile_succeeded_cases:
  assumes k: "keys_ok d" and t: "get_transition d (t_id t) = Some t"
    and r: "reconcile_succeeded sha svc c d e t rs bd bt md eh ev l = (d', res)"
  obtains (unchanged) "d' = d" and "isl res"
  | (refused) evt hs where "res = Inr (set_flag (now e) True t)"
      and "d' = d\<lparr>transitions := flagged e (t_id t) True (transitions d),
                events := events d @ [evt], heads := hs\<rparr>"
      and "ev_event_type evt = ''transition.reconcile_commit_failed''"
      and "keys_ok d'" and "chain_ok sha d \<Longrightarrow> chain_ok sha d'"
  | (committed) desc md' eh' ev' l' dc cr where
      "commit sha c d e (t_id t) (t_branch_id t) (t_agent_id t) desc bt md' eh' ev' l' = Inr (dc, cr)"
      and "d' = dc" and "isl res"
  | (reconciled) desc md' eh' ev' l' dc cr t' evt hs where
      "commit sha c d e (t_id t) (t_branch_id t) (t_agent_id t) desc bt md' eh' ev' l' = Inr (dc, cr)"
      and "get_transition dc (t_id t) = Some t'" and "res = Inr t'"
      and "d' = dc\<lparr>transitions := flagged e (t_id t) False (transitions dc),
                events := events dc @ [evt], heads := hs\<rparr>"
      and "ev_event_type evt = ''transition.reconciled''"
      and "keys_ok d'" and "chain_ok sha dc \<Longrightarrow> chain_ok sha d'"
proof -
  define m where "m = commit sha c d e (t_id t) (t_branch_id t) (t_agent_id t) (orelse bd rs) bt
      (orelse md (JObj []))
      (case eh of Some h \<Rightarrow> Some h | None \<Rightarrow> (case t_expected_head_id t of Some h \<Rightarrow> Some h
         | None \<Rightarrow> fst (get_head d (t_branch_id t))))
      (orelse ev (orelse (t_expected_version t) (snd (get_head d (t_branch_id t)))))
      (orelse l (event_lattice d (t_branch_id t)))"
  note R = r [unfolded reconcile_succeeded_def Let_def m_def [symmetric]]
  show thesis
  proof (cases m)
    case (Inl err)
    define w where "w = write_audit_event sha svc (set_requires_manual_reconciliation d e (t_id t) True)
       (now e) (ids (later e) 0) (t_branch_id t) ''transition.reconcile_commit_failed'' (t_agent_id t)
       (commit_failed_event (t_id t) ''succeeded'')"
    note R1 = R [unfolded Inl w_def [symmetric]]
    show thesis
    proof (cases w)
      case (Inl err')
      with R1 show thesis by (intro unchanged) (auto simp: finish_def)
    next
      case (Inr p)
      obtain d1 evt where p: "p = (d1, evt)" by (cases p)
      show thesis
      proof (rule flag_and_log_Inr [OF k Inr [unfolded w_def p]])
        fix hs
        assume a: "d1 = d\<lparr>transitions := flagged e (t_id t) True (transitions d),
                events := events d @ [evt], heads := hs\<rparr>"
          "ev_event_type evt = ''transition.reconcile_commit_failed''" "keys_ok d1"
          "chain_ok sha d \<Longrightarrow> chain_ok sha d1"
        have "get_transition d1 (t_id t) = Some (set_flag (now e) True t)"
          using t by (simp add: a(1) get_transition_def flagged_get)
        with R1 Inr p have "d' = d1" "res = Inr (set_flag (now e) True t)" by (simp_all add: finish_def)
        with a show thesis by (intro refused) simp_all
      qed
    qed
  next
    case (Inr q)
    obtain dc cr where q: "q = (dc, cr)" by (cases q)
    note C = Inr [unfolded m_def q]
    have kc: "keys_ok dc" by (rule commit_Inr [OF k C])
    obtain t' where t': "get_transition dc (t_id t) = Some t'"
      using commit_get_transition(1) [OF k C] by blast
    define w where "w = write_audit_event sha svc (set_requires_manual_reconciliation dc e (t_id t) False)
       (now e) (ids (later e) 0) (t_branch_id t) ''transition.reconciled'' (t_agent_id t)
       (reconciled_event (t_id t) ''succeeded'' rs)"
    note R1 = R [unfolded Inr q, simplified, unfolded w_def [symmetric] t', simplified]
    show thesis
    proof (cases w)
      case (Inl err')
      with R1 C show thesis by (intro committed) (auto simp: finish_def)
    next
      case (Inr p)
      obtain d1 evt where p: "p = (d1, evt)" by (cases p)
      from R1 Inr p have dr: "d' = d1" "res = Inr t'" by (simp_all add: finish_def)
      show thesis
        by (rule flag_and_log_Inr [OF kc Inr [unfolded w_def p]])
           (rule reconciled [OF C t'], use dr in simp_all)
    qed
  qed
qed

lemma reconcile_cases:
  assumes k: "keys_ok d"
    and r: "reconcile sha svc d e tid st rs cm bd bt md eh ev l = (d', res)"
  obtains (unchanged) "d' = d" and "isl res"
  | (failed) t evt hs where "st = ''failed''" and "get_transition d tid = Some t"
      and "t_stage t = Execution_Uncertain" and "res = Inr (set_stage (now e) Failed t)"
      and "d' = d\<lparr>transitions := flagged e tid False (staged e tid Failed (transitions d)),
                events := events d @ [evt], heads := hs\<rparr>"
      and "ev_event_type evt = ''transition.reconciled''"
      and "keys_ok d'" and "chain_ok sha d \<Longrightarrow> chain_ok sha d'"
  | (refused) t evt hs where "st = ''succeeded''" and "get_transition d tid = Some t"
      and "t_stage t = Execution_Uncertain" and "res = Inr (set_flag (now e) True t)"
      and "d' = d\<lparr>transitions := flagged e tid True (transitions d),
                events := events d @ [evt], heads := hs\<rparr>"
      and "ev_event_type evt = ''transition.reconcile_commit_failed''"
      and "keys_ok d'" and "chain_ok sha d \<Longrightarrow> chain_ok sha d'"
  | (committed) t c desc md' eh' ev' l' dc cr where "st = ''succeeded''" and "cm = Some c"
      and "get_transition d tid = Some t" and "t_stage t = Execution_Uncertain"
      and "commit sha c d e tid (t_branch_id t) (t_agent_id t) desc bt md' eh' ev' l' = Inr (dc, cr)"
      and "d' = dc" and "isl res"
  | (reconciled) t c desc md' eh' ev' l' dc cr t' evt hs where "st = ''succeeded''" and "cm = Some c"
      and "get_transition d tid = Some t" and "t_stage t = Execution_Uncertain"
      and "commit sha c d e tid (t_branch_id t) (t_agent_id t) desc bt md' eh' ev' l' = Inr (dc, cr)"
      and "get_transition dc tid = Some t'" and "res = Inr t'"
      and "d' = dc\<lparr>transitions := flagged e tid False (transitions dc),
                events := events dc @ [evt], heads := hs\<rparr>"
      and "ev_event_type evt = ''transition.reconciled''"
      and "keys_ok d'" and "chain_ok sha dc \<Longrightarrow> chain_ok sha d'"
proof (cases "get_transition d tid")
  case None
  with r show thesis by (intro unchanged) (auto simp: reconcile_def)
next
  case (Some t)
  then have tid: "t_id t = tid"
    using row_get_SomeD by (fastforce simp: get_transition_def)
  show thesis
  proof (cases "t_stage t = Execution_Uncertain")
    case False
    with r Some show thesis by (intro unchanged) (auto simp: reconcile_def requireE_def)
  next
    case u: True
    note R = r [unfolded reconcile_def]
    show thesis
    proof (cases "st = ''succeeded''")
      case False
      show thesis
      proof (cases "st = ''failed''")
        case f: True
        show thesis
        proof (cases "reconcile_failed sha svc d e t rs")
          case (Inl err)
          with R Some u f show thesis by (intro unchanged) (auto simp: finish_def)
        next
          case (Inr p)
          obtain d1 t1 where p: "p = (d1, t1)" by (cases p)
          with R Some u f Inr have dr: "d' = d1" "res = Inr t1" by (simp_all add: finish_def)
          show thesis
            by (rule reconcile_failed_Inr [OF k Some [folded tid] Inr [unfolded p]])
               (rule failed [OF f Some u], use dr tid in simp_all)
        qed
      next
        case False
        with R Some u \<open>st \<noteq> ''succeeded''\<close> show thesis by (intro unchanged) auto
      qed
    next
      case s: True
      show thesis
      proof (cases cm)
        case None
        with R Some u s show thesis by (intro unchanged) auto
      next
        case (Some c)
        with R \<open>get_transition d tid = Some t\<close> u s
        have R1: "reconcile_succeeded sha svc c d e t rs bd bt md eh ev l = (d', res)" by simp
        show thesis
        proof (rule reconcile_succeeded_cases [OF k \<open>get_transition d tid = Some t\<close> [folded tid] R1,
              unfolded tid], goal_cases)
          case 1
          then show ?thesis by (rule unchanged)
        next
          case (2 evt hs)
          show ?thesis by (rule refused [OF s \<open>get_transition d tid = Some t\<close> u 2])
        next
          case (3 desc md' eh' ev' l' dc cr)
          show ?thesis by (rule committed [OF s Some \<open>get_transition d tid = Some t\<close> u 3])
        next
          case (4 desc md' eh' ev' l' dc cr t' evt hs)
          show ?thesis by (rule reconciled [OF s Some \<open>get_transition d tid = Some t\<close> u 4])
        qed
      qed
    qed
  qed
qed

end
