(* ===== verification/Lifecycle.thy ===== *)
theory Lifecycle
  imports Transitions
begin

section \<open>The life cycle of a transition\<close>

text \<open>
  What the operations of the transition engine guarantee of every row of the table of transitions:
  a row is never removed, its proposal (branch, agent, tool, payload, idempotency key) never
  changes, and its stage changes only along \<open>LEGAL_TRANSITIONS\<close>. \<open>evolves\<close> states this between
  two databases; \<open>born\<close> states in which stages new rows appear. One lemma per operation gives
  both; then come the properties of the single operations.
\<close>

definition proposal_fields ::
  "transition_row \<Rightarrow> string \<times> string \<times> string \<times> string \<times> string \<times> json \<times> string" where
  "proposal_fields t = (t_id t, t_branch_id t, t_agent_id t, t_tool t, t_payload_hash t, t_payload t,
                        t_idempotency_key t)"

lemma proposal_fields_set [simp]:
  "proposal_fields (set_stage e s t) = proposal_fields t"
  "proposal_fields (set_result e x m n t) = proposal_fields t"
  "proposal_fields (set_flag e b t) = proposal_fields t"
  by (simp_all add: proposal_fields_def)

definition row_evolves :: "transition_row \<Rightarrow> transition_row \<Rightarrow> bool" where
  "row_evolves t t' \<longleftrightarrow> proposal_fields t' = proposal_fields t
     \<and> (t_stage t' = t_stage t \<or> is_legal_transition (t_stage t) (t_stage t'))"

definition evolves :: "db \<Rightarrow> db \<Rightarrow> bool" where
  "evolves d d' \<longleftrightarrow>
     (\<forall>i t. get_transition d i = Some t \<longrightarrow> (\<exists>t'. get_transition d' i = Some t' \<and> row_evolves t t'))"

definition born :: "stage set \<Rightarrow> db \<Rightarrow> db \<Rightarrow> bool" where
  "born S d d' \<longleftrightarrow>
     (\<forall>i t'. get_transition d' i = Some t' \<longrightarrow> get_transition d i = None \<longrightarrow> t_stage t' \<in> S)"

lemma row_evolves_refl [simp]: "row_evolves t t"
  by (simp add: row_evolves_def)

lemma evolves_refl [simp]: "evolves d d"
  by (simp add: evolves_def)

lemma born_refl [simp]: "born S d d"
  by (simp add: born_def)

text \<open>One row changes, the others stay.\<close>

lemma evolves_one:
  assumes "get_transition d i = Some t" and "row_evolves t t'"
    and "\<And>j. get_transition d' j = (if j = i then Some t' else get_transition d j)"
  shows "evolves d d'" and "born S d d'"
  using assms by (auto simp: evolves_def born_def)

lemma evolves_get:
  assumes "evolves d d'" and "get_transition d i = Some t"
  obtains t' where "get_transition d' i = Some t'" and "row_evolves t t'"
  using assms by (auto simp: evolves_def)

lemma staged_evolves:
  assumes "get_transition d i = Some t" and "is_legal_transition (t_stage t) s"
    and "transitions d' = staged e i s (transitions d)"
  shows "evolves d d'" and "born S d d'"
  by (rule evolves_one [OF assms(1), of "set_stage (now e) s t"],
      use assms in \<open>auto simp: row_evolves_def get_transition_def staged_get\<close>)+

lemma flagged_evolves:
  assumes "get_transition d i = Some t" and "transitions d' = flagged e i b (transitions d)"
  shows "evolves d d'" and "born S d d'"
  by (rule evolves_one [OF assms(1), of "set_flag (now e) b t"],
      use assms in \<open>auto simp: row_evolves_def get_transition_def flagged_get\<close>)+

subsection \<open>One lemma per operation\<close>

lemma approve_lifecycle:
  assumes k: "keys_ok d" and c: "approve sha svc d e tid by ty reason = Inr (d', t')"
  shows "evolves d d'" and "born S d d'" and "keys_ok d'" and "chain_ok sha d \<Longrightarrow> chain_ok sha d'"
proof (atomize (full), rule approve_steps [OF c], goal_cases)
  case (1 t r d1 r')
  show ?case
    by (rule decide_and_log [OF k 1(5,6,7,1)])
       (use staged_evolves [OF 1(1), of Authorized d' e] 1(2) in simp)
qed

lemma deny_approval_lifecycle:
  assumes k: "keys_ok d" and c: "deny_approval sha svc d e tid by reason = Inr (d', t')"
  shows "evolves d d'" and "born S d d'" and "keys_ok d'" and "chain_ok sha d \<Longrightarrow> chain_ok sha d'"
proof (atomize (full), rule deny_approval_steps [OF c], goal_cases)
  case (1 t r d1 r')
  show ?case
    by (rule decide_and_log [OF k 1(4,5,6,1)])
       (use staged_evolves [OF 1(1), of Denied d' e] 1(2) in simp)
qed

lemma advance_and_log_lifecycle:
  assumes "keys_ok d" and "advance_and_log sha svc d e i s eid br ty actor data = Inr (d', t')"
  shows "evolves d d'" and "born S d d'" and "keys_ok d'" and "chain_ok sha d \<Longrightarrow> chain_ok sha d'"
proof (atomize (full), rule advance_and_log_Inr [OF assms(2)], goal_cases)
  case (1 t ev hs)
  then show ?case using staged_evolves [OF 1(1,2), of d' e] assms(1) by simp
qed

lemma cancel_lifecycle:
  assumes k: "keys_ok d" and c: "cancel sha svc d e tid ag = Inr (d', t')"
  shows "evolves d d'" and "born S d d'" and "keys_ok d'" and "chain_ok sha d \<Longrightarrow> chain_ok sha d'"
  by (rule cancel_steps [OF c], erule advance_and_log_lifecycle [OF k])+ 

lemma record_result_lifecycle:
  assumes k: "keys_ok d" and c: "record_result sha svc d e tid x m n = Inr (d', t')"
  shows "evolves d d'" and "born S d d'" and "keys_ok d'" and "chain_ok sha d \<Longrightarrow> chain_ok sha d'"
proof (atomize (full), rule record_result_Inr [OF k c], goal_cases)
  case (1 t ev hs ts)
  have "row_evolves t t'" using 1(2,3) by (auto simp: row_evolves_def result_stage_def)
  from evolves_one [OF 1(1) this, of d'] 1 show ?case by (simp add: get_transition_def)
qed

lemma commit_evolves:
  assumes k: "keys_ok d" and c: "commit sha svc d e tid bid ag desc bt md eh ev l = Inr (d', res)"
  shows "evolves d d'" and "born S d d'"
proof -
  obtain t where t: "get_transition d tid = Some t" "committable (t_stage t)"
    and t': "get_transition d' tid = Some (set_stage (now e) Succeeded
                (set_result (now e) ''success'' desc (Some (ids e 0)) t))"
    using commit_get_transition(1) [OF k c] by blast
  have "row_evolves t (set_stage (now e) Succeeded (set_result (now e) ''success'' desc (Some (ids e 0)) t))"
    using t(2) by (auto simp: row_evolves_def committable_def)
  from evolves_one [OF t(1) this, of d'] t' commit_get_transition(2) [OF k c]
  show "evolves d d'" and "born S d d'" by (simp_all split: if_splits)
qed

lemma commit_chain_ok:
  assumes c: "commit sha svc d e tid bid ag desc bt md eh ev l = Inr (d', res)" and ok: "chain_ok sha d"
  shows "chain_ok sha d'"
proof (rule commit_steps [OF c])
  fix t d1 n d2 d3 d4 b d5 evt u
  assume s1: "insert_node d e (ids e 0) bid ag desc bt md Committed = Inr (d1, n)"
    and s2: "link_head d1 e (fst (get_head d bid)) (ids e 0) = Inr (d2, u)"
    and s3: "update_head d2 bid (ids e 0) ev = (d3, True)"
    and s4: "update_result d3 e tid ''success'' desc (Some (ids e 0)) = Inr (d4, b)"
    and s5: "update_stage d4 e tid Succeeded (Some (t_stage t)) = (d5, True)"
    and s6: "write_event sha svc d5 (now e) (ids e (if fst (get_head d bid) = None then 1 else 2)) l
       ''branch_committed'' (commit_event_data tid bid (ids e 0) (fst (get_head d bid)) (ev + 1)) ag svc
     = Inr (d', evt)"
  obtain ns es where d2: "d2 = d1\<lparr>nodes := ns, edges := es\<rparr>" by (rule link_head_frame [OF s2])
  have "events d5 = events d" and "heads d5 = heads d"
    using s3 s5 by (auto simp: update_stage_eq update_result_Inr [OF s4] update_head_def split_beta d2
        insert_node_Inr(1) [OF s1])
  then have "chain_ok sha d5" using ok chain_ok_cong by blast
  then show ?thesis by (rule write_event_chain_ok [OF _ s6])
qed

lemma reconcile_lifecycle:
  assumes k: "keys_ok d" and c: "reconcile sha svc d e tid st rs cm bd bt md eh ev l = (d', res)"
  shows "evolves d d'" and "born S d d'" and "keys_ok d'" and "chain_ok sha d \<Longrightarrow> chain_ok sha d'"
proof (atomize (full), rule reconcile_cases [OF k c], goal_cases)
  case 1
  then show ?case using k by simp
next
  case (2 t evt hs)
  have "evolves d d'" "born S d d'"
    by (rule evolves_one [OF 2(2), of "set_flag (now e) False (set_stage (now e) Failed t)"],
        use 2 in \<open>auto simp: row_evolves_def get_transition_def flagged_get staged_get\<close>)+
  with 2 show ?case by simp
next
  case (3 t evt hs)
  with flagged_evolves [OF 3(2), of d' e True] show ?case by simp
next
  case (4 t c desc md' eh' ev' l' dc cr)
  have "keys_ok dc" by (rule commit_Inr [OF k 4(5)])
  with 4 commit_evolves [OF k 4(5)] commit_chain_ok [OF 4(5)] show ?case by simp
next
  case (5 t c desc md' eh' ev' l' dc cr t' evt hs)
  obtain t1 where t1: "get_transition d tid = Some t1" "committable (t_stage t1)"
    and t2: "get_transition dc tid = Some (set_stage (now e) Succeeded
                (set_result (now e) ''success'' desc (Some (ids e 0)) t1))"
    using commit_get_transition(1) [OF k 5(5)] by blast
  have "evolves d d'" "born S d d'"
    by (rule evolves_one [OF t1(1), of "set_flag (now e) False (set_stage (now e) Succeeded
                (set_result (now e) ''success'' desc (Some (ids e 0)) t1))"],
        use 5(8) t1 t2 commit_get_transition(2) [OF k 5(5)]
        in \<open>auto simp: row_evolves_def committable_def get_transition_def flagged_get\<close>)+
  with 5 commit_chain_ok [OF 5(5)] show ?case by simp
qed

lemma get_transition_snoc:
  "get_transition (d\<lparr>transitions := transitions d @ [r]\<rparr>) i =
     (case get_transition d i of None \<Rightarrow> if t_id r = i then Some r else None | Some t \<Rightarrow> Some t)"
  by (simp add: get_transition_def row_get_append split: option.split)

text \<open>What a successful \<open>propose\<close> of a new key leaves.\<close>

lemma propose_Inr:
  assumes k: "keys_ok d" and n: "\<not> replayed d key"
    and p: "propose lib svc pe d e ag br tool args key eh ev = Inr (d', t')"
  obtains c h v evt hs as aps where "classify (sql_parser lib) tool args = Inr c"
    and "json_canonical_hash (sha256 lib) (JObj args) = Inr h"
    and "verify_proposal lib pe d e ag br c = Inr v"
    and "t' = set_stage (now e) (verdict_stage (v_result v))
               (proposed_row e ag br tool (JObj args) h key eh ev c v)"
    and "d' = d\<lparr>transitions := transitions d @ [t'], approvals := as, approval_policies := aps,
                events := events d @ [evt], heads := hs\<rparr>"
    and "ids e 0 \<notin> t_id ` set (transitions d)"
    and "key \<notin> t_idempotency_key ` set (transitions d)"
    and "ev_event_type evt = verdict_type (v_result v)" and "ev_actor_principal_id evt = ag"
    and "ev_event_data evt = sort_keys (proposal_event (ids e 0) tool (action_type c) (v_result v)
                                   (verdict_reason (v_result v)))"
    and "if v_result v = ''pending_approval''
         then requested (ids e 0) ag (v_approval_policies v) (approvals d) as aps else as = approvals d"
    and "has_principal d ag" and "has_branch d br"
    and "keys_ok d'" and "chain_ok (sha256 lib) d \<Longrightarrow> chain_ok (sha256 lib) d'"
proof (rule propose_steps [OF n p])
  fix c h v row
  assume s: "classify (sql_parser lib) tool args = Inr c"
      "json_canonical_hash (sha256 lib) (JObj args) = Inr h" "verify_proposal lib pe d e ag br c = Inr v"
    and row: "row = proposed_row e ag br tool (JObj args) h key eh ev c v"
    and i: "insert_transition d row = Inr (d\<lparr>transitions := transitions d @ [row]\<rparr>, row)"
    and q: "proposal lib svc (d\<lparr>transitions := transitions d @ [row]\<rparr>) e ag br tool c v row = Inr (d', t')"
  let ?d = "d\<lparr>transitions := transitions d @ [row]\<rparr>"
  note f = insert_transition_Inr(3-6) [OF i]
  have id: "t_id row = ids e 0" and key: "t_idempotency_key row = key"
    and ab: "t_agent_id row = ag" "t_branch_id row = br"
    by (simp_all add: row proposed_row_def)
  have k1: "keys_ok ?d" by (rule insert_transition_keys [OF i k])
  have g: "get_transition ?d (t_id row) = Some row"
    using f(1) by (simp add: get_transition_def row_get_append row_get_None [THEN iffD2])
  show thesis
  proof (rule proposal_Inr [OF k1 q g])
    fix evt hs as aps
    assume t': "t' = set_stage (now e) (verdict_stage (v_result v)) row"
      and d': "d' = ?d\<lparr>transitions := staged e (t_id row) (verdict_stage (v_result v)) (transitions ?d),
                approvals := as, approval_policies := aps, events := events ?d @ [evt], heads := hs\<rparr>"
      and ev: "ev_event_type evt = verdict_type (v_result v)" "ev_actor_principal_id evt = ag"
       "ev_event_data evt = sort_keys (proposal_event (t_id row) tool (action_type c) (v_result v)
                                   (verdict_reason (v_result v)))"
      and as: "if v_result v = ''pending_approval''
         then requested (t_id row) ag (v_approval_policies v) (approvals ?d) as aps else as = approvals ?d"
      and ok: "keys_ok d'" "chain_ok (sha256 lib) ?d \<Longrightarrow> chain_ok (sha256 lib) d'"
    show thesis
    proof (rule that [OF s _ _ _ _ ev(1,2)])
      show "d' = d\<lparr>transitions := transitions d @ [t'], approvals := as, approval_policies := aps,
                events := events d @ [evt], heads := hs\<rparr>"
        using f(1) by (simp add: d' t' staged_fresh)
      show "t' = set_stage (now e) (verdict_stage (v_result v))
               (proposed_row e ag br tool (JObj args) h key eh ev c v)"
        using t' row by simp
      show "if v_result v = ''pending_approval''
         then requested (ids e 0) ag (v_approval_policies v) (approvals d) as aps else as = approvals d"
        using as unfolding id by (simp split: if_splits)
    qed (use ev ok f id key ab in simp_all)
  qed
qed

lemma propose_lifecycle:
  assumes k: "keys_ok d" and p: "propose lib svc pe d e ag br tool args key eh ev = Inr (d', t')"
  shows "evolves d d'" and "born {Denied, stage.Pending_Approval, Authorized} d d'" and "keys_ok d'"
    and "chain_ok (sha256 lib) d \<Longrightarrow> chain_ok (sha256 lib) d'"
proof (atomize (full), cases "replayed d key", goal_cases)
  case 1
  with propose_replayed [OF 1, of lib svc pe e ag br tool args eh ev] p k show ?case by simp
next
  case 2
  show ?case
  proof (rule propose_Inr [OF k 2 p], goal_cases)
    case (1 c h v evt hs as aps)
    have "get_transition d' i = (case get_transition d i of None \<Rightarrow> if t_id t' = i then Some t' else None
         | Some t \<Rightarrow> Some t)" for i
      by (simp add: 1(5) get_transition_def row_get_append split: option.split)
    moreover have "t_stage t' \<in> {Denied, stage.Pending_Approval, Authorized}"
      by (simp add: 1(4) verdict_stage_def)
    ultimately show ?case using 1(14,15) by (auto simp: evolves_def born_def split: if_splits)
  qed
qed

subsection \<open>Samples\<close>

definition sample_libs :: libs where
  "sample_libs = \<lparr> sha256 = sample_sha, float_value = (\<lambda>_. 0),
                   cel_eval = (\<lambda>_ _. Inl RuntimeError), sql_parser = None \<rparr>"

definition sample_allow :: "policy list" where
  "sample_allow = [(sample_policy ''p1'' Allow 5)\<lparr>p_actions := [''opaque'']\<rparr>]"

definition sample_propose :: "policy list option \<Rightarrow> db \<Rightarrow> string \<Rightarrow> string \<Rightarrow> transition_row op" where
  "sample_propose pe d i key =
     propose sample_libs ''svc'' pe d (sample_env i) ''ag'' ''b1'' ''custom'' [] key None None"

lemma sample_classify: "classify None ''custom'' [] = Inr no_classifier"
  by (simp add: classify_def classify_tool_def)

lemma sample_verdict_allow:
  "verify_proposal sample_libs (Some sample_allow) (sample_db s) (sample_env i) ''ag'' ''b1'' no_classifier
   = Inr \<lparr> v_result = ''admissible'', v_versions = [(''p1'', 0)],
           v_set_hash = Some (compute_policy_set_hash sample_sha [(''p1'', 0)]), v_approval_policies = [] \<rparr>"
proof -
  have "project_of_branch (sample_db s) ''b1'' = Some ''p1''"
    by (simp add: project_of_branch_def get_branch_def get_lattice_def sample_db_def empty_db_def)
  moreover have "evaluate (\<lambda>_. 0) (\<lambda>_ _. Inl RuntimeError) ''2026-06-01T00:00:00.000000Z'' sample_allow
      ''opaque'' [] [(''agent_id'', JStr ''ag''), (''project_id'', JStr ''p1''), (''branch_id'', JStr ''b1'')]
    = \<lparr> r_effect = Allow,
        r_matched = [\<lparr> m_policy = (sample_policy ''p1'' Allow 5)\<lparr>p_actions := [''opaque'']\<rparr>,
                       m_actions = [''opaque''], m_resources = [''*''] \<rparr>],
        r_conflict = False, r_warnings = [] \<rparr>"
    by code_simp
  ultimately show ?thesis
    by (simp add: verify_proposal_def sample_libs_def sample_env_def no_classifier_def Let_def
        matched_versions_def dict_of_def sample_policy_def)
qed

lemmas sample_run = propose_def approve_def deny_approval_def cancel_def record_result_def
  advance_stage_def write_audit_event_def write_event_def new_event_def update_stage_def update_result_def
  insert_transition_def create_request_def decide_def get_transition_def get_by_idempotency_key_def
  find_pending_by_transition_def event_lattice_def get_branch_def proposed_row_def proposal_event_def split_beta

lemma sample_propose_pending:
  obtains d t where "sample_propose None (sample_db Executing) ''n'' ''k2'' = Inr (d, t)"
    and "\<not> replayed (sample_db Executing) ''k2''"
proof
  show "\<not> replayed (sample_db Executing) ''k2''"
    by (simp add: replayed_def get_by_idempotency_key_def sample_simps)
  let ?r = "sample_propose None (sample_db Executing) ''n'' ''k2''"
  have "\<exists>p. ?r = Inr p"
    by (simp add: sample_propose_def sample_classify sample_libs_def json_canonical_hash_def
        verify_proposal_def sample_run sample_simps)
  then show "?r = Inr (fst (projr ?r), snd (projr ?r))" by auto
qed

lemma sample_propose_allowed:
  obtains d t where "sample_propose (Some sample_allow) (sample_db Executing) ''n'' ''k2'' = Inr (d, t)"
    and "\<not> replayed (sample_db Executing) ''k2''" and "t_stage t = Authorized"
proof
  show n: "\<not> replayed (sample_db Executing) ''k2''"
    by (simp add: replayed_def get_by_idempotency_key_def sample_simps)
  let ?r = "sample_propose (Some sample_allow) (sample_db Executing) ''n'' ''k2''"
  have "\<exists>p. ?r = Inr p \<and> t_stage (snd p) = Authorized"
    using sample_verdict_allow [of Executing "''n''"]
    by (simp add: sample_propose_def propose_eq [OF n] proposal_def advance_and_log_def sample_classify
        sample_libs_def json_canonical_hash_def sample_run sample_simps)
  then show "?r = Inr (fst (projr ?r), snd (projr ?r))" and "t_stage (snd (projr ?r)) = Authorized"
    by auto
qed

subsection \<open>Properties of propose\<close>

text \<open>The stage that a policy effect asks for.\<close>

fun effect_stage :: "effect \<Rightarrow> stage" where
  "effect_stage Deny = Denied"
| "effect_stage Require_Approval = stage.Pending_Approval"
| "effect_stage Allow = Authorized"
| "effect_stage Warn = Authorized"

lemma verdict_effect:
  "verdict_stage (case eff of Deny \<Rightarrow> ''denied'' | Require_Approval \<Rightarrow> ''pending_approval''
     | Allow \<Rightarrow> ''admissible'' | Warn \<Rightarrow> ''admissible'') = effect_stage eff"
  by (cases eff) (simp_all add: verdict_stage_def)

lemma verify_proposal_stage:
  assumes "verify_proposal lib pe d e ag br c = Inr v"
  shows "case pe of None \<Rightarrow> verdict_stage (v_result v) = stage.Pending_Approval
     | Some ps \<Rightarrow> \<exists>project. project_of_branch d br = Some project
         \<and> verdict_stage (v_result v) = effect_stage (r_effect (evaluate (float_value lib) (cel_eval lib)
             (now e) ps (action_type c) (canonical_resources c)
             [(''agent_id'', JStr ag), (''project_id'', JStr project), (''branch_id'', JStr br)]))"
proof (cases pe)
  case None
  with assms show ?thesis by (auto simp: verify_proposal_def verdict_stage_def)
next
  case (Some ps)
  with assms show ?thesis
    by (auto simp: verify_proposal_def Let_def verdict_effect)
qed

text \<open>C35: what \<open>propose\<close> does with a new idempotency key. The stored transition has the canonical
  hash of the arguments and the stage that the policy effect asks for (denied, pending approval or
  authorized; without a policy engine always pending approval); a pending transition comes with a
  pending approval request in the name of the agent; and exactly one event records the outcome.\<close>

theorem propose_follows_policy:
  assumes "keys_ok d" and "\<not> replayed d key"
    and "propose lib svc pe d e ag br tool args key eh ev = Inr (d', t')"
  shows "get_transition d' (t_id t') = Some t' \<and> t_agent_id t' = ag \<and> t_branch_id t' = br
    \<and> json_canonical_hash (sha256 lib) (JObj args) = Inr (t_payload_hash t')
    \<and> (\<exists>c. classify (sql_parser lib) tool args = Inr c
         \<and> (case pe of None \<Rightarrow> t_stage t' = stage.Pending_Approval
            | Some ps \<Rightarrow> \<exists>project. project_of_branch d br = Some project
                \<and> t_stage t' = effect_stage (r_effect (evaluate (float_value lib) (cel_eval lib)
                    (now e) ps (action_type c) (canonical_resources c)
                    [(''agent_id'', JStr ag), (''project_id'', JStr project), (''branch_id'', JStr br)]))))
    \<and> (t_stage t' = stage.Pending_Approval \<longrightarrow>
         (\<exists>r \<in> set (approvals d'). r_transition_id r = t_id t' \<and> r_status r = Pending
                                 \<and> r_requested_by r = ag))
    \<and> (\<exists>evt. events d' = events d @ [evt] \<and> ev_actor_principal_id evt = ag)"
proof (rule propose_Inr [OF assms], goal_cases)
  case (1 c h v evt hs as aps)
  have id: "t_id t' = ids e 0" by (simp add: 1(4) proposed_row_def)
  have st: "t_stage t' = verdict_stage (v_result v)" by (simp add: 1(4))
  have r: "\<exists>r \<in> set as. r_transition_id r = ids e 0 \<and> r_status r = Pending \<and> r_requested_by r = ag"
    if "t_stage t' = stage.Pending_Approval"
    using that 1(11) by (auto simp: st verdict_stage_def requested_def split: if_splits)
  show ?case
    using r verify_proposal_stage [OF 1(3)] 1
    by (auto simp: id st get_transition_def row_get_append row_get_None [THEN iffD2] proposed_row_def
        split: option.splits)
qed

theorem propose_follows_policy_witness:
  "\<exists>d t. sample_propose (Some sample_allow) (sample_db Executing) ''n'' ''k2'' = Inr (d, t)
       \<and> get_transition d (t_id t) = Some t \<and> t_agent_id t = ''ag''"
proof -
  obtain d t where p: "sample_propose (Some sample_allow) (sample_db Executing) ''n'' ''k2'' = Inr (d, t)"
    and n: "\<not> replayed (sample_db Executing) ''k2''"
    by (rule sample_propose_allowed)
  from propose_follows_policy [OF sample_keys_ok n p [unfolded sample_propose_def]] p
  show ?thesis by blast
qed

text \<open>Proposing is idempotent. After a proposal that was not denied, any further \<open>propose\<close> with
  the same idempotency key, by whatever agent and with whatever arguments and policies, returns
  the same transition and changes nothing.\<close>

theorem propose_retry_idempotent:
  assumes "keys_ok d" and "\<not> replayed d key"
    and "propose lib svc pe d e ag br tool args key eh ev = Inr (d', t')" and "t_stage t' \<noteq> Denied"
  shows "propose lib2 svc2 pe2 d' e2 ag2 br2 tool2 args2 key eh2 ev2 = Inr (d', t')"
proof (rule propose_Inr [OF assms(1-3)], goal_cases)
  case (1 c h v evt hs as aps)
  have g: "get_by_idempotency_key d' key = Some t'"
    using 1(7) by (simp add: get_by_idempotency_key_def 1(5) row_get_append
        row_get_None [THEN iffD2]) (simp add: 1(4) proposed_row_def)
  have "replayed d' key"
    using assms(4) by (auto simp: replayed_def g 1(4) verdict_stage_def idempotent_return_existing_def)
  from propose_replayed [OF this] g show ?case by simp
qed

theorem propose_retry_idempotent_witness:
  "\<exists>d t. sample_propose None d ''m'' ''k2'' = Inr (d, t) \<and> t_id t = ''n''"
proof -
  obtain d t where p: "sample_propose None (sample_db Executing) ''n'' ''k2'' = Inr (d, t)"
    and n: "\<not> replayed (sample_db Executing) ''k2''"
    by (rule sample_propose_pending)
  have s: "t_stage t \<noteq> Denied" and i: "t_id t = ''n''"
    by (rule propose_Inr [OF sample_keys_ok n p [unfolded sample_propose_def]];
        auto simp: verdict_stage_def verify_proposal_def proposed_row_def sample_env_def)+
  from propose_retry_idempotent [OF sample_keys_ok n p [unfolded sample_propose_def] s] i
  show ?thesis unfolding sample_propose_def by blast
qed

text \<open>C36: a used idempotency key never creates a transition. While the transition that has it is proposed, pending,
  authorized or executing, or when it has succeeded, \<open>propose\<close> returns that transition and changes nothing.
  When it has failed or was cancelled, denied, expired or left uncertain, \<open>propose\<close> raises; and once classification,
  hashing and policy evaluation have succeeded, what it raises is the \<open>IntegrityError\<close> of the unique index on the key. The
  specification (EP-TRANSITION-014) and the comment of the code ask for a new transition in this
  second case, for every one of these stages but the uncertain one.\<close>

theorem used_key_creates_nothing:
  assumes "get_by_idempotency_key d key = Some t"
  shows "if t_stage t \<in> {Failed, Cancelled, Denied, Expired, Execution_Uncertain}
    then (\<nexists>d' t'. propose lib svc pe d e ag br tool args key eh ev = Inr (d', t'))
      \<and> (\<forall>c h v. classify (sql_parser lib) tool args = Inr c \<longrightarrow> json_canonical_hash (sha256 lib) (JObj args) = Inr h
           \<longrightarrow> verify_proposal lib pe d e ag br c = Inr v
           \<longrightarrow> propose lib svc pe d e ag br tool args key eh ev = Inl IntegrityError)
    else propose lib svc pe d e ag br tool args key eh ev = Inr (d, t)"
proof (cases "t_stage t \<in> {Failed, Cancelled, Denied, Expired, Execution_Uncertain}")
  case True
  then have n: "\<not> replayed d key"
    using assms by (auto simp: replayed_def idempotent_return_existing_def idempotent_return_result_def)
  have dup: "row_has t_idempotency_key key (transitions d)"
    using row_get_SomeD [OF assms [unfolded get_by_idempotency_key_def]] by (auto simp: row_has_def list_ex_iff)
  have ins: "insert_transition d (proposed_row e ag br tool (JObj args) h key eh ev c v) = Inl IntegrityError" for h c v
    using dup by (simp add: insert_transition_def check_fk_def requireE_def proposed_row_def)
  have "propose lib svc pe d e ag br tool args key eh ev \<noteq> Inr (d', t')" for d' t'
  proof
    assume "propose lib svc pe d e ag br tool args key eh ev = Inr (d', t')"
    from propose_steps [OF n this] ins show False by simp
  qed
  moreover have "propose lib svc pe d e ag br tool args key eh ev = Inl IntegrityError"
    if "classify (sql_parser lib) tool args = Inr c" "json_canonical_hash (sha256 lib) (JObj args) = Inr h"
      "verify_proposal lib pe d e ag br c = Inr v" for c h v
    using that n ins by (simp add: propose_def replayed_def Let_def)
  ultimately show ?thesis using True by auto
next
  case False
  then have "replayed d key"
    using assms by (cases "t_stage t") (auto simp: replayed_def idempotent_return_existing_def idempotent_return_result_def)
  then show ?thesis using propose_replayed assms False by simp
qed

theorem used_key_creates_nothing_witness:
  "(\<nexists>d' t'. sample_propose None (sample_db Failed) ''n'' ''k1'' = Inr (d', t'))
   \<and> sample_propose None (sample_db Executing) ''n'' ''k1'' = Inr (sample_db Executing, sample_transition Executing)"
proof -
  have get: "get_by_idempotency_key (sample_db s) ''k1'' = Some (sample_transition s)" for s
    by (simp add: get_by_idempotency_key_def sample_simps)
  show ?thesis
    using used_key_creates_nothing [OF get [of Failed]] used_key_creates_nothing [OF get [of Executing]]
    by (simp add: sample_propose_def sample_transition_def)
qed

subsection \<open>Properties of approve, deny and cancel\<close>

definition sample_approve :: "db \<Rightarrow> string \<Rightarrow> transition_row op" where
  "sample_approve d by =
     approve sample_sha ''svc'' d (sample_env ''n'') ''t1'' by ''human'' ''ok''"

lemma sample_approve_ok:
  obtains d t where "sample_approve (sample_db stage.Pending_Approval) ''hu'' = Inr (d, t)"
proof -
  let ?r = "sample_approve (sample_db stage.Pending_Approval) ''hu''"
  have "\<exists>p. ?r = Inr p"
    by (simp add: sample_approve_def sample_run sample_simps)
  then show thesis using that by auto
qed

text \<open>C28: separation of duties. When \<open>approve\<close> succeeds, the transition was pending approval, the
  approver is not the agent that requested it and does not act as an agent, and the pending request
  of that transition is now approved in the approver's name; the transition becomes authorized and
  one event names the approver.\<close>

theorem approval_separates_duties:
  assumes "keys_ok d" and "approve sha svc d e tid by ty reason = Inr (d', t')"
  shows "\<exists>t r r'. get_transition d tid = Some t \<and> t_stage t = stage.Pending_Approval
    \<and> by \<noteq> t_agent_id t \<and> ty \<noteq> ''agent''
    \<and> r \<in> set (approvals d) \<and> r_transition_id r = tid \<and> r_status r = Pending
    \<and> get_request d' (r_id r) = Some r' \<and> r_status r' = Approved \<and> r_decided_by r' = Some by
    \<and> get_transition d' tid = Some t' \<and> t_stage t' = Authorized
    \<and> (\<exists>evt. events d' = events d @ [evt] \<and> ev_event_type evt = ''transition.approved''
           \<and> ev_actor_principal_id evt = by)"
proof (rule approve_steps [OF assms(2)], goal_cases)
  case (1 t r d1 r')
  note p = find_pending_in [OF 1(5)]
  show ?case
  proof (rule decide_and_log [OF assms(1) 1(5,6,7,1)], goal_cases)
    case (1 evt hs)
    then have "get_transition d' tid = Some t'"
      using \<open>get_transition d tid = Some t\<close> by (simp add: get_transition_def staged_get)
    moreover have "get_request d' (r_id r) = Some (decided_row e by ''approved'' reason r)"
      using 1(2) by (simp add: get_request_def)
    moreover have "events d' = events d @ [evt]" by (simp add: 1(3))
    ultimately show ?case
      using \<open>get_transition d tid = Some t\<close> \<open>t_stage t = stage.Pending_Approval\<close>
        \<open>by \<noteq> t_agent_id t\<close> \<open>ty \<noteq> ''agent''\<close> p 1(1,4,5)
      by (intro exI [of _ t] exI [of _ r] exI [of _ "decided_row e by ''approved'' reason r"]) simp
  qed
qed

theorem approval_separates_duties_witness:
  "\<exists>d t. sample_approve (sample_db stage.Pending_Approval) ''hu'' = Inr (d, t) \<and> t_stage t = Authorized"
proof -
  obtain d t where a: "sample_approve (sample_db stage.Pending_Approval) ''hu'' = Inr (d, t)"
    by (rule sample_approve_ok)
  from approval_separates_duties [OF sample_keys_ok a [unfolded sample_approve_def]] a
  show ?thesis by blast
qed

lemma not_pending_refused:
  assumes "get_transition d tid = Some t" and "t_stage t \<noteq> stage.Pending_Approval"
  shows "approve sha svc d e tid by ty reason = Inl IllegalTransitionError"
    and "deny_approval sha svc d e tid by reason = Inl IllegalTransitionError"
  using assms by (simp_all add: approve_def deny_approval_def requireE_def)

text \<open>C39: a decision is final. Once a transition has been approved or its approval denied, every
  later \<open>approve\<close> and \<open>deny_approval\<close> of it raises \<open>IllegalTransitionError\<close>, whoever calls.\<close>

theorem decision_is_final:
  assumes "keys_ok d"
    and "approve sha svc d e tid by ty reason = Inr (d', t')
       \<or> deny_approval sha svc d e tid by reason = Inr (d', t')"
  shows "approve sha2 svc2 d' e2 tid by2 ty2 reason2 = Inl IllegalTransitionError
       \<and> deny_approval sha2 svc2 d' e2 tid by2 reason2 = Inl IllegalTransitionError"
proof -
  have "\<exists>t. get_transition d' tid = Some t \<and> t_stage t \<noteq> stage.Pending_Approval"
    using assms(2)
  proof
    assume a: "approve sha svc d e tid by ty reason = Inr (d', t')"
    show ?thesis
    proof (rule approve_steps [OF a], goal_cases)
      case (1 t r d1 r')
      show ?case
        by (rule decide_and_log [OF assms(1) 1(5,6,7,1)])
           (use 1(1) in \<open>simp add: get_transition_def staged_get\<close>)
    qed
  next
    assume a: "deny_approval sha svc d e tid by reason = Inr (d', t')"
    show ?thesis
    proof (rule deny_approval_steps [OF a], goal_cases)
      case (1 t r d1 r')
      show ?case
        by (rule decide_and_log [OF assms(1) 1(4,5,6,1)])
           (use 1(1) in \<open>simp add: get_transition_def staged_get\<close>)
    qed
  qed
  then show ?thesis using not_pending_refused by blast
qed

theorem decision_is_final_witness:
  "\<exists>d. sample_approve d ''svc'' = Inl IllegalTransitionError"
proof -
  obtain d t where a: "sample_approve (sample_db stage.Pending_Approval) ''hu'' = Inr (d, t)"
    by (rule sample_approve_ok)
  from decision_is_final [OF sample_keys_ok disjI1, OF a [unfolded sample_approve_def]]
  show ?thesis unfolding sample_approve_def by blast
qed

definition sample_cancel :: "db \<Rightarrow> string \<Rightarrow> transition_row op" where
  "sample_cancel d ag = cancel sample_sha ''svc'' d (sample_env ''n'') ''t1'' ag"

lemma sample_cancel_ok:
  obtains d t where "sample_cancel (sample_db Authorized) ''ag'' = Inr (d, t)"
proof -
  let ?r = "sample_cancel (sample_db Authorized) ''ag''"
  have "\<exists>p. ?r = Inr p"
    by (simp add: sample_cancel_def legal_cancel cancellable_def sample_run sample_simps)
  then show thesis using that by auto
qed

text \<open>Cancelling. A successful \<open>cancel\<close> was asked for by the proposing agent or by an
  administrator, found the transition proposed, pending or authorized, and leaves it cancelled;
  anybody else gets \<open>AuthorizationError\<close>, and a transition that is being executed or finished
  gives \<open>IllegalTransitionError\<close>.\<close>

theorem cancel_needs_authority:
  assumes "get_transition d tid = Some t"
  shows "(\<not> cancellable (t_stage t) \<longrightarrow> cancel sha svc d e tid ag = Inl IllegalTransitionError)
    \<and> (cancellable (t_stage t) \<and> ag \<noteq> t_agent_id t \<and> \<not> is_administrator d ag
         \<longrightarrow> cancel sha svc d e tid ag = Inl AuthorizationError)
    \<and> (\<forall>d' t'. cancel sha svc d e tid ag = Inr (d', t') \<longrightarrow>
         (ag = t_agent_id t \<or> is_administrator d ag) \<and> cancellable (t_stage t)
         \<and> get_transition d' tid = Some t' \<and> t_stage t' = Cancelled
         \<and> (\<forall>i. i \<noteq> tid \<longrightarrow> get_transition d' i = get_transition d i))"
proof (intro conjI impI allI, goal_cases)
  case 1
  then show ?case by (simp add: cancel_def assms requireE_def)
next
  case 2
  then show ?case by (simp add: cancel_def assms requireE_def)
next
  case (3 d' t')
  then show ?case using assms by (auto elim: cancel_steps)
next
  case (4 d' t')
  then show ?case using assms by (auto elim: cancel_steps)
next
  case (5 d' t')
  then show ?case
    by (rule cancel_steps, elim advance_and_log_Inr) (simp add: get_transition_def staged_get)
next
  case (6 d' t')
  then show ?case by (rule cancel_steps, elim advance_and_log_Inr) simp
next
  case (7 d' t' i)
  from 7(1) show ?case
    by (rule cancel_steps, elim advance_and_log_Inr) (simp add: get_transition_def staged_get 7(2))
qed

theorem cancel_needs_authority_witness:
  "sample_cancel (sample_db Authorized) ''hu'' = Inl AuthorizationError
   \<and> (\<exists>d t. sample_cancel (sample_db Authorized) ''ag'' = Inr (d, t) \<and> t_stage t = Cancelled)"
proof -
  obtain d t where c: "sample_cancel (sample_db Authorized) ''ag'' = Inr (d, t)"
    by (rule sample_cancel_ok)
  have "\<not> is_administrator (sample_db Authorized) ''hu''"
    by (simp add: is_administrator_def sample_simps)
  then have h: "sample_cancel (sample_db Authorized) ''hu'' = Inl AuthorizationError"
    using cancel_needs_authority [OF sample_gets(1) [of Authorized]] unfolding sample_cancel_def
    by (simp add: cancellable_def sample_transition_def)
  have "t_stage t = Cancelled"
    using cancel_needs_authority [OF sample_gets(1) [of Authorized]] c unfolding sample_cancel_def
    by blast
  with h c show ?thesis by blast
qed

subsection \<open>Properties of record_result and reconcile\<close>

definition sample_result :: "string \<Rightarrow> transition_row op" where
  "sample_result x = record_result sample_sha ''svc'' (sample_db Executing) (sample_env ''n'') ''t1'' x ''done'' None"

lemma sample_result_ok:
  obtains d t where "sample_result ''timeout'' = Inr (d, t)"
proof -
  let ?r = "sample_result ''timeout''"
  have "\<exists>p. ?r = Inr p"
    by (simp add: sample_result_def set_requires_manual_reconciliation_def sample_run sample_simps)
  then show thesis using that by auto
qed

text \<open>Recording a result. It needs an executing transition and an exit status of the schema
  (success, failure or timeout). Success and failure end the transition as succeeded or failed;
  a timeout leaves it uncertain and flags it for manual reconciliation. The result is stored, no
  other transition changes, and one event in the agent's name has the matching type.\<close>

theorem record_result_outcome:
  assumes "keys_ok d" and "record_result sha svc d e tid x m n = Inr (d', t')"
  shows "\<exists>t. get_transition d tid = Some t \<and> t_stage t = Executing
    \<and> x \<in> {''success'', ''failure'', ''timeout''}
    \<and> get_transition d' tid = Some t'
    \<and> t_stage t' = (if x = ''success'' then Succeeded else if x = ''failure'' then Failed
                    else Execution_Uncertain)
    \<and> t_exit_status t' = Some x \<and> t_result_summary t' = Some m \<and> t_to_node_id t' = n
    \<and> (x = ''timeout'' \<longrightarrow> t_requires_manual_reconciliation t')
    \<and> (\<forall>i. i \<noteq> tid \<longrightarrow> get_transition d' i = get_transition d i)
    \<and> (\<exists>evt. events d' = events d @ [evt] \<and> ev_event_type evt = result_type x
           \<and> ev_actor_principal_id evt = t_agent_id t)"
proof (rule record_result_Inr [OF assms], goal_cases)
  case (1 t ev hs ts)
  have "t_requires_manual_reconciliation t'" if "x = ''timeout''"
    using that by (simp add: 1(3) result_stage_def)
  with 1 show ?case by (intro exI [of _ t]) (auto simp: get_transition_def result_stage_def)
qed

theorem record_result_outcome_witness:
  "\<exists>d t. sample_result ''timeout'' = Inr (d, t) \<and> t_stage t = Execution_Uncertain
       \<and> t_requires_manual_reconciliation t"
proof -
  obtain d t where r: "sample_result ''timeout'' = Inr (d, t)" by (rule sample_result_ok)
  from record_result_outcome [OF sample_keys_ok r [unfolded sample_result_def]] r
  show ?thesis by auto
qed

lemma commit_new_node:
  assumes k: "keys_ok d" and c: "commit sha svc d e tid bid ag desc bt md eh ev l = Inr (d', res)"
  shows "has_node d' (ids e 0)" and "\<not> has_node d (ids e 0)"
    and "fst (get_head d' bid) = Some (ids e 0)" and "dag_ok d \<Longrightarrow> dag_ok d'"
proof -
  have n: "map n_id (nodes d') = map n_id (nodes d) @ [ids e 0]"
    by (rule commit_Inr [OF k c]) simp
  then show "has_node d' (ids e 0)"
    by (metis has_node_def image_set in_set_conv_decomp row_has_iff)
  have "keys_ok d'" by (rule commit_Inr [OF k c])
  then have "distinct (map n_id (nodes d) @ [ids e 0])" using keys_okD(5) n by metis
  then show "\<not> has_node d (ids e 0)" by (simp add: has_node_def row_has_iff)
  show "fst (get_head d' bid) = Some (ids e 0)"
    using commit_get_branch(1) [OF k c] by (auto simp: get_head_def get_branch_def)
  show "dag_ok d'" if "dag_ok d" by (rule commit_dag_ok [OF k that c])
qed

definition sample_reconcile :: "string \<Rightarrow> string option \<Rightarrow> db \<times> (ep_error + transition_row)" where
  "sample_reconcile st cm =
     reconcile sample_sha ''svc'' (sample_db Execution_Uncertain) (sample_env ''n'') ''t1'' st ''checked'' cm
       None 0 None None None None"

lemma sample_reconcile_succeeds:
  "\<exists>t. get_transition (fst (sample_reconcile ''succeeded'' (Some ''svc''))) ''t1'' = Some t
     \<and> t_stage t = Succeeded"
  by (simp add: sample_reconcile_def reconcile_def reconcile_succeeded_def finish_def commit_def
      committable_def head_expected_def insert_node_def link_head_def update_head_def guarded_def
      commit_event_data_def get_head_def orelse_def later_def reconciled_event_def
      set_requires_manual_reconciliation_def sample_run sample_simps)

text \<open>C26: reconciliation cannot claim success without a realized state. If an uncertain transition
  is succeeded after \<open>reconcile\<close>, the operator asked for it with a committer, the transition links
  to a node that this call created, and that node is the head of the transition's branch. A call
  that leaves it uncertain, for instance because the commit was refused, moves no head.\<close>

theorem reconcile_success_needs_commit:
  assumes "keys_ok d" and "reconcile sha svc d e tid st rs cm bd bt md eh ev l = (d', res)"
    and "get_transition d tid = Some t" and "t_stage t = Execution_Uncertain"
    and "get_transition d' tid = Some t'"
  shows "(t_stage t' = Succeeded \<longrightarrow> st = ''succeeded'' \<and> cm \<noteq> None
           \<and> (\<exists>n. t_to_node_id t' = Some n \<and> has_node d' n \<and> \<not> has_node d n
                \<and> fst (get_head d' (t_branch_id t)) = Some n))
       \<and> (t_stage t' \<noteq> Succeeded \<longrightarrow> nodes d' = nodes d \<and> edges d' = edges d \<and> branches d' = branches d)
       \<and> t_stage t' \<in> {Succeeded, Failed, Execution_Uncertain}"
proof (rule reconcile_cases [OF assms(1,2)], goal_cases)
  case 1
  then show ?case using assms(3-5) by simp
next
  case (2 t2 evt hs)
  then show ?case using assms(5) by (auto simp: get_transition_def flagged_get staged_get)
next
  case (3 t2 evt hs)
  then show ?case using assms(5) by (auto simp: get_transition_def flagged_get)
next
  case (4 t2 c desc md' eh' ev' l' dc cr)
  then have [simp]: "t2 = t" using assms(3) by simp
  from commit_new_node [OF assms(1) 4(5)] commit_get_transition(1) [OF assms(1) 4(5)] assms(5) 4(1,2,6)
  show ?case by auto
next
  case (5 t2 c desc md' eh' ev' l' dc cr t3 evt hs)
  then have [simp]: "t2 = t" using assms(3) by simp
  have n: "has_node d' i = has_node dc i" "get_head d' b = get_head dc b" for i b
    by (simp_all add: 5(8) has_node_def get_head_def)
  have "t_stage t' = Succeeded" "t_to_node_id t' = Some (ids e 0)"
    using assms(5) commit_get_transition(1) [OF assms(1) 5(5)]
    by (auto simp: 5(8) get_transition_def flagged_get)
  with commit_new_node [OF assms(1) 5(5)] 5(1,2) n show ?case by simp
qed

theorem reconcile_success_needs_commit_witness:
  "\<exists>n. fst (get_head (fst (sample_reconcile ''succeeded'' (Some ''svc''))) ''b1'') = Some n"
proof -
  obtain t where t: "get_transition (fst (sample_reconcile ''succeeded'' (Some ''svc''))) ''t1'' = Some t"
      "t_stage t = Succeeded"
    using sample_reconcile_succeeds by blast
  have b: "t_branch_id (sample_transition Execution_Uncertain) = ''b1''"
      "t_stage (sample_transition Execution_Uncertain) = Execution_Uncertain"
    by (simp_all add: sample_transition_def)
  from reconcile_success_needs_commit [OF sample_keys_ok _ sample_gets(1) b(2)
      t(1) [unfolded sample_reconcile_def], OF surjective_pairing] t(2)
  show ?thesis unfolding sample_reconcile_def b by blast
qed

end
