(* ===== verification/Authorizations.thy ===== *)
theory Authorizations
  imports Deployment Lifecycle
begin

section \<open>Authorization tokens (authorizations.py)\<close>

text \<open>
  Issuing a signed token for a transition, verifying it, and the atomic claim that lets a proxy
  execute it exactly once. SHA-256 and Ed25519 are arguments: \<open>sg_sign message\<close> is the
  hexadecimal signature of the engine's key, \<open>sg_verify key message signature\<close> whether the
  library accepts it. The random nonce is an argument of \<open>issue_authorization\<close>.
\<close>

record auth_libs =
  sg_sha :: "string \<Rightarrow> string"
  sg_frep :: "string \<Rightarrow> string"
  sg_sign :: "string \<Rightarrow> string"
  sg_verify :: verify_lib
  sg_fromiso :: fromiso_lib

text \<open>\<open>AuthorizationToken\<close>.\<close>

record token =
  tk_authorization_id :: string
  tk_transition_id :: string
  tk_agent_id :: string
  tk_project_id :: string
  tk_branch_id :: string
  tk_proxy_audience :: string
  tk_tool :: string
  tk_payload_hash :: string
  tk_policy_set_hash :: string
  tk_matched_policy_versions :: json
  tk_issued_at :: string
  tk_expires_at :: string
  tk_nonce :: string
  tk_signature :: string

definition to_canonical_payload :: "token \<Rightarrow> (string \<times> json) list" where
  "to_canonical_payload k =
     [(''authorization_id'', JStr (tk_authorization_id k)), (''transition_id'', JStr (tk_transition_id k)),
      (''agent_id'', JStr (tk_agent_id k)), (''project_id'', JStr (tk_project_id k)),
      (''branch_id'', JStr (tk_branch_id k)), (''proxy_audience'', JStr (tk_proxy_audience k)),
      (''tool'', JStr (tk_tool k)), (''payload_hash'', JStr (tk_payload_hash k)),
      (''policy_set_hash'', JStr (tk_policy_set_hash k)),
      (''matched_policy_versions'', tk_matched_policy_versions k),
      (''issued_at'', JStr (tk_issued_at k)), (''expires_at'', JStr (tk_expires_at k)),
      (''nonce'', JStr (tk_nonce k))]"

text \<open>\<open>to_signed_token\<close>: the token with its signature, and its JSON text.\<close>

definition to_signed_token :: "(string \<Rightarrow> string) \<Rightarrow> token \<Rightarrow> token \<times> string" where
  "to_signed_token sign k =
     (let payload = to_canonical_payload k; sig = sign (dumps (JObj payload))
      in (k\<lparr>tk_signature := sig\<rparr>, dumps (JObj (payload @ [(''signature'', JStr sig)]))))"

definition verify_signature :: "verify_lib \<Rightarrow> string \<Rightarrow> token \<Rightarrow> bool" where
  "verify_signature vfy key k \<longleftrightarrow>
     tk_signature k \<noteq> [] \<and> vfy key (dumps (JObj (to_canonical_payload k))) (tk_signature k)"

subsection \<open>Issuing\<close>

text \<open>The entries of \<open>matched_policies\<close>: an absent key and \<open>None\<close> are both \<open>None\<close> here.\<close>

record matched_entry =
  me_id :: "string option"
  me_policy_id :: "string option"
  me_activation_version :: "int option"
  me_version :: "int option"

definition entry_id :: "matched_entry \<Rightarrow> string option" where
  "entry_id m = (case me_id m of Some i \<Rightarrow> (if i \<noteq> [] then Some i else me_policy_id m)
                               | None \<Rightarrow> me_policy_id m)"

definition entry_version :: "matched_entry \<Rightarrow> int" where
  "entry_version m = (case me_activation_version m of Some v \<Rightarrow> v
     | None \<Rightarrow> (case me_version m of Some v \<Rightarrow> v | None \<Rightarrow> 0))"

definition policy_versions :: "matched_entry list \<Rightarrow> (string \<times> int) list" where
  "policy_versions ms =
     dict_of (concat (map (\<lambda>m. case entry_id m of None \<Rightarrow> [] | Some i \<Rightarrow> [(i, entry_version m)]) ms))"

definition versions_json :: "(string \<times> int) list \<Rightarrow> json" where
  "versions_json vs = JObj (map (\<lambda>(p, v). (p, JInt v)) vs)"

text \<open>The capability checks of \<open>issue_authorization\<close>.\<close>

definition capability_admits ::
  "fromiso_lib \<Rightarrow> host \<Rightarrow> nat \<Rightarrow> capability \<Rightarrow> string \<Rightarrow> string \<Rightarrow> string \<Rightarrow> ep_error + unit" where
  "capability_admits fromiso h t cap agent_id audience tool =
     bindE (require_binding_enforcement fromiso h t cap) (\<lambda>_.
       if \<not> cap_proxy_scoped cap then
         requireE (cap_agent_principal_id cap = agent_id) EnforcementUnavailableError
       else
         bindE (require_proxy_scoped cap) (\<lambda>_.
         bindE (requireE (cap_proxy_audience cap = audience) EnforcementUnavailableError) (\<lambda>_.
           requireE (supports_action_type cap tool) EnforcementUnavailableError)))"

definition env_at :: "nat \<Rightarrow> (nat \<Rightarrow> string) \<Rightarrow> env" where
  "env_at t xid = \<lparr> now = iso_utc t, ids = xid \<rparr>"

lemma env_at_simps [simp]: "now (env_at t xid) = iso_utc t" "ids (env_at t xid) = xid"
  by (simp_all add: env_at_def)

definition authorization_of :: "token \<Rightarrow> string \<Rightarrow> (string \<times> int) list \<Rightarrow> authorization_row" where
  "authorization_of k token_hash versions =
     \<lparr> a_id = tk_authorization_id k, a_transition_id = tk_transition_id k, a_agent_id = tk_agent_id k,
       a_project_id = tk_project_id k, a_branch_id = tk_branch_id k,
       a_proxy_audience = tk_proxy_audience k, a_tool = tk_tool k,
       a_payload_hash = tk_payload_hash k, a_policy_set_hash = tk_policy_set_hash k,
       a_token_hash = token_hash, a_matched_policy_versions = stored_versions versions,
       a_issued_at = tk_issued_at k, a_expires_at = tk_expires_at k, a_nonce = tk_nonce k,
       a_used = False, a_used_at = None, a_execution_attempt_id = None, a_created_at = tk_issued_at k \<rparr>"

definition issue_authorization ::
  "auth_libs \<Rightarrow> host \<Rightarrow> nat \<Rightarrow> db \<Rightarrow> nat \<Rightarrow> (nat \<Rightarrow> string) \<Rightarrow> string \<Rightarrow> string \<Rightarrow> string \<Rightarrow> string \<Rightarrow> string
   \<Rightarrow> string \<Rightarrow> string \<Rightarrow> string \<Rightarrow> matched_entry list \<Rightarrow> capability \<Rightarrow> token op" where
  "issue_authorization lib h ttl d t xid nonce transition_id agent_id project_id branch_id
       audience tool payload_hash matched cap =
     bindE (capability_admits (sg_fromiso lib) h t cap agent_id audience tool) (\<lambda>_.
     let versions = policy_versions matched;
         k = \<lparr> tk_authorization_id = xid 0, tk_transition_id = transition_id, tk_agent_id = agent_id,
               tk_project_id = project_id, tk_branch_id = branch_id, tk_proxy_audience = audience,
               tk_tool = tool, tk_payload_hash = payload_hash,
               tk_policy_set_hash = compute_policy_set_hash (sg_sha lib) versions,
               tk_matched_policy_versions = versions_json versions, tk_issued_at = iso_utc t,
               tk_expires_at = iso_utc (t + seconds ttl), tk_nonce = nonce, tk_signature = [] \<rparr>;
         signed = to_signed_token (sg_sign lib) k
     in bindE (insert_authorization d (authorization_of (fst signed) (sg_sha lib (snd signed)) versions)) (\<lambda>(d, _).
          Inr (d, fst signed)))"

text \<open>\<open>record_advisory_decision\<close> touches no table and carries no signature.\<close>

record advisory_decision =
  ad_decision_id :: string
  ad_transition_id :: string
  ad_agent_id :: string
  ad_project_id :: string
  ad_branch_id :: string
  ad_tool :: string
  ad_payload_hash :: string
  ad_policy_set_hash :: string
  ad_matched_policy_versions :: "(string \<times> int) list"
  ad_created_at :: string
  ad_advisory :: bool

definition record_advisory_decision ::
  "(string \<Rightarrow> string) \<Rightarrow> env \<Rightarrow> string \<Rightarrow> string \<Rightarrow> string \<Rightarrow> string \<Rightarrow> string \<Rightarrow> string
   \<Rightarrow> matched_entry list \<Rightarrow> advisory_decision" where
  "record_advisory_decision sha e transition_id agent_id project_id branch_id tool payload_hash matched =
     (let versions = policy_versions matched in
      \<lparr> ad_decision_id = ids e 0, ad_transition_id = transition_id, ad_agent_id = agent_id,
        ad_project_id = project_id, ad_branch_id = branch_id, ad_tool = tool,
        ad_payload_hash = payload_hash, ad_policy_set_hash = compute_policy_set_hash sha versions,
        ad_matched_policy_versions = versions, ad_created_at = now e, ad_advisory = True \<rparr>)"

subsection \<open>Verifying and claiming\<close>

text \<open>\<open>token_data.get(key, "")\<close>.\<close>

definition get_or_empty :: "(string \<times> json) list \<Rightarrow> string \<Rightarrow> json" where
  "get_or_empty data k = (case map_of data k of None \<Rightarrow> JStr [] | Some v \<Rightarrow> v)"

text \<open>Parsing and signature, as both verifiers do it: \<open>Inr None\<close> is \<open>return None\<close>.\<close>

definition open_token :: "auth_libs \<Rightarrow> string \<Rightarrow> string \<Rightarrow> ep_error + (string \<times> json) list option" where
  "open_token lib key signed_token =
     (case json_loads (sg_frep lib) signed_token of
        None \<Rightarrow> Inr None
      | Some v \<Rightarrow>
          bindE (as_object v) (\<lambda>data.
          let sig = get_or_empty data ''signature'';
              body = JObj (filter (\<lambda>(k, _). k \<noteq> ''signature'') data) in
          if \<not> truthy sig then Inr None
          else bindE (requireE (finite_json body) ValueError) (\<lambda>_.
            Inr (if signature_ok (sg_verify lib) key (dumps body) sig then Some data else None))))"

record claim_result =
  cl_authorization_id :: string
  cl_transition_id :: string
  cl_execution_attempt_id :: string
  cl_payload_hash :: string
  cl_policy_set_hash :: string
  cl_proxy_principal_id :: string

text \<open>The savepoint: claim, record the attempt, advance the transition; \<open>None\<close> rolls all back.\<close>

definition claim_and_advance ::
  "db \<Rightarrow> env \<Rightarrow> string \<Rightarrow> string \<Rightarrow> string \<Rightarrow> (db \<times> authorization_row) option" where
  "claim_and_advance d e authorization_id token_hash attempt =
     (case claim_authorization d e authorization_id (Some token_hash) of
        (_, None) \<Rightarrow> None
      | (d1, Some claimed) \<Rightarrow>
          let d2 = fst (update_execution_attempt_id d1 authorization_id attempt) in
          if a_transition_id claimed = [] then None
          else (case update_stage d2 e (a_transition_id claimed) Executing (Some Authorized) of
                  (d3, ok) \<Rightarrow> if ok then Some (d3, claimed) else None))"

definition verify_and_claim ::
  "auth_libs \<Rightarrow> db \<Rightarrow> env \<Rightarrow> string \<Rightarrow> string \<Rightarrow> string \<Rightarrow> string \<Rightarrow> string \<Rightarrow> claim_result option op"
  where
  "verify_and_claim lib d e authorization_id signed_token payload_hash proxy_principal_id key =
     bindE (open_token lib key signed_token) (\<lambda>opened.
       case opened of
         None \<Rightarrow> Inr (d, None)
       | Some data \<Rightarrow>
           if get_or_empty data ''payload_hash'' \<noteq> JStr payload_hash then Inr (d, None)
           else if map_of data ''authorization_id'' \<noteq> Some (JStr authorization_id) then Inr (d, None)
           else
             let presented = sg_sha lib signed_token in
             (case get_authorization d authorization_id of
                None \<Rightarrow> Inr (d, None)
              | Some stored \<Rightarrow>
                  if a_token_hash stored = [] \<or> presented \<noteq> a_token_hash stored then Inr (d, None)
                  else (case claim_and_advance d e authorization_id presented (ids e 0) of
                          None \<Rightarrow> Inr (d, None)
                        | Some (d', claimed) \<Rightarrow>
                            Inr (d', Some \<lparr> cl_authorization_id = authorization_id,
                                           cl_transition_id = a_transition_id claimed,
                                           cl_execution_attempt_id = ids e 0,
                                           cl_payload_hash = a_payload_hash claimed,
                                           cl_policy_set_hash = a_policy_set_hash claimed,
                                           cl_proxy_principal_id = proxy_principal_id \<rparr>))))"

definition check_stale_authorization :: "db \<Rightarrow> string \<Rightarrow> string \<Rightarrow> bool" where
  "check_stale_authorization d authorization_id current_hash \<longleftrightarrow>
     (case get_authorization d authorization_id of
        None \<Rightarrow> True
      | Some a \<Rightarrow> (if a_policy_set_hash a = [] then current_hash \<noteq> []
                   else a_policy_set_hash a \<noteq> current_hash))"

text \<open>\<open>verify_token\<close> returns the arguments of the \<open>AuthorizationToken\<close> that it builds, by field
  name: the code does not check the types of the fields.\<close>

definition token_fields :: "string list" where
  "token_fields = [''authorization_id'', ''transition_id'', ''agent_id'', ''project_id'', ''branch_id'',
     ''proxy_audience'', ''tool'', ''payload_hash'', ''policy_set_hash'', ''issued_at'', ''expires_at'',
     ''nonce'']"

definition loaded_versions :: "(string \<Rightarrow> string) \<Rightarrow> (string \<times> json) list \<Rightarrow> json" where
  "loaded_versions frep data =
     (case map_of data ''matched_policy_versions'' of
        None \<Rightarrow> JObj []
      | Some (JStr s) \<Rightarrow> (case json_loads frep s of None \<Rightarrow> JObj [] | Some v \<Rightarrow> v)
      | Some v \<Rightarrow> v)"

definition verify_token ::
  "auth_libs \<Rightarrow> nat \<Rightarrow> string \<Rightarrow> string \<Rightarrow> ep_error + (string \<times> json) list option" where
  "verify_token lib t signed_token key =
     bindE (open_token lib key signed_token) (\<lambda>opened.
       case opened of
         None \<Rightarrow> Inr None
       | Some data \<Rightarrow>
           (case get_or_empty data ''expires_at'' of
              JStr s \<Rightarrow>
                (case strptime_utc s of
                   None \<Rightarrow> Inr None
                 | Some expires \<Rightarrow>
                     if expires < t then Inr None
                     else if list_all (\<lambda>f. map_of data f \<noteq> None) token_fields
                     then Inr (Some (map (\<lambda>f. (f, the (map_of data f))) token_fields
                                     @ [(''matched_policy_versions'', loaded_versions (sg_frep lib) data),
                                        (''signature'', get_or_empty data ''signature'')]))
                     else Inr None)
            | v \<Rightarrow> if truthy v then Inl TypeError else Inr None))"

subsection \<open>What a claim does\<close>

lemma update_stage_True:
  assumes "keys_ok d" and "update_stage d e i s (Some s0) = (d', True)"
  obtains t where "get_transition d i = Some t" and "t_stage t = s0"
    and "d' = d\<lparr>transitions := fst (row_update t_id i (\<lambda>r. t_stage r = s0) (set_stage (now e) s) (transitions d))\<rparr>"
proof -
  let ?u = "row_update t_id i (\<lambda>r. t_stage r = s0) (set_stage (now e) s) (transitions d)"
  from assms(2) have n: "snd ?u \<noteq> 0" and d': "d' = d\<lparr>transitions := fst ?u\<rparr>"
    by (auto simp: update_stage_eq)
  from row_update_positive [OF keys_okD(3) [OF assms(1)] n] d' show thesis
    by (auto simp: get_transition_def intro: that)
qed

lemma claim_and_advance_Some:
  assumes k: "keys_ok d" and c: "claim_and_advance d e i h att = Some (d', a)"
  obtains a0 t as ts where "get_authorization d i = Some a0" and "claim_guard (now e) (Some h) a0"
    and "a = a0\<lparr>a_used := True, a_used_at := Some (now e)\<rparr>"
    and "get_transition d (a_transition_id a0) = Some t" and "t_stage t = Authorized"
    and "d' = d\<lparr>authorizations := as, transitions := ts\<rparr>"
    and "\<forall>j. row_get a_id j as =
           (if j = i then Some (a\<lparr>a_execution_attempt_id := Some att\<rparr>) else row_get a_id j (authorizations d))"
    and "\<forall>j. row_get t_id j ts = (if j = a_transition_id a0 then Some (set_stage (now e) Executing t)
                                  else row_get t_id j (transitions d))"
    and "keys_ok d'"
proof -
  from c obtain d1 where cl: "claim_authorization d e i (Some h) = (d1, Some a)"
    and us: "update_stage (fst (update_execution_attempt_id d1 i att)) e (a_transition_id a) Executing
               (Some Authorized) = (d', True)"
    by (auto simp: claim_and_advance_def Let_def split: prod.splits option.splits if_splits)
  obtain a0 where a0: "get_authorization d i = Some a0" "claim_guard (now e) (Some h) a0"
      "a = a0\<lparr>a_used := True, a_used_at := Some (now e)\<rparr>"
    and d1: "d1 = d\<lparr>authorizations := fst (row_update a_id i (claim_guard (now e) (Some h))
                 (\<lambda>a. a\<lparr>a_used := True, a_used_at := Some (now e)\<rparr>) (authorizations d))\<rparr>"
    by (rule claim_authorization_Some [OF k cl])
  define as where "as = fst (row_update a_id i (\<lambda>_. True) (\<lambda>a. a\<lparr>a_execution_attempt_id := Some att\<rparr>)
     (fst (row_update a_id i (claim_guard (now e) (Some h))
                 (\<lambda>a. a\<lparr>a_used := True, a_used_at := Some (now e)\<rparr>) (authorizations d))))"
  have d2: "fst (update_execution_attempt_id d1 i att) = d\<lparr>authorizations := as\<rparr>"
    by (simp add: update_execution_attempt_id_def split_beta d1 as_def)
  have k1: "keys_ok d1" using claim_authorization_keys [OF k, of e i "Some h"] cl by simp
  have k2: "keys_ok (d\<lparr>authorizations := as\<rparr>)"
    using update_execution_attempt_id_keys [OF k1, of i att] d2 by simp
  show thesis
  proof (rule update_stage_True [OF k2 us [unfolded d2]])
    fix t
    assume t: "get_transition (d\<lparr>authorizations := as\<rparr>) (a_transition_id a) = Some t" "t_stage t = Authorized"
      and d': "d' = d\<lparr>authorizations := as, transitions := fst (row_update t_id (a_transition_id a)
                (\<lambda>r. t_stage r = Authorized) (set_stage (now e) Executing)
                (transitions (d\<lparr>authorizations := as\<rparr>)))\<rparr>"
    have at: "a_transition_id a = a_transition_id a0" using a0(3) by simp
    show thesis
    proof (rule that [OF a0])
      show "get_transition d (a_transition_id a0) = Some t" using t(1) by (simp add: get_transition_def at)
      show "d' = d\<lparr>authorizations := as, transitions := fst (row_update t_id (a_transition_id a)
                (\<lambda>r. t_stage r = Authorized) (set_stage (now e) Executing) (transitions d))\<rparr>"
        using d' by simp
      show "\<forall>j. row_get a_id j as = (if j = i then Some (a\<lparr>a_execution_attempt_id := Some att\<rparr>)
                                      else row_get a_id j (authorizations d))"
        using a0 by (simp add: as_def authorization_table.get_upd get_authorization_def)
      show "\<forall>j. row_get t_id j (fst (row_update t_id (a_transition_id a) (\<lambda>r. t_stage r = Authorized)
                (set_stage (now e) Executing) (transitions d)))
            = (if j = a_transition_id a0 then Some (set_stage (now e) Executing t)
               else row_get t_id j (transitions d))"
        using t by (simp add: transition_table.get_upd get_transition_def at)
      show "keys_ok d'" using update_stage_keys [OF k2] us [unfolded d2] by (metis fst_conv)
    qed (fact t(2))
  qed
qed

lemma open_token_Some:
  assumes "open_token lib key text = Inr (Some data)"
  shows "json_loads (sg_frep lib) text = Some (JObj data)"
    and "\<exists>sig. map_of data ''signature'' = Some (JStr sig) \<and> sig \<noteq> []
           \<and> sg_verify lib key (dumps (JObj (filter (\<lambda>(k, _). k \<noteq> ''signature'') data))) sig"
  using assms
  by (auto simp: open_token_def Let_def get_or_empty_def signature_ok_iff split: option.splits if_splits)

lemma verify_and_claim_Some:
  assumes "verify_and_claim lib d e i text ph proxy key = Inr (d', Some r)"
  obtains data stored a where "open_token lib key text = Inr (Some data)"
    and "get_or_empty data ''payload_hash'' = JStr ph"
    and "map_of data ''authorization_id'' = Some (JStr i)"
    and "get_authorization d i = Some stored" and "a_token_hash stored = sg_sha lib text"
    and "claim_and_advance d e i (sg_sha lib text) (ids e 0) = Some (d', a)"
    and "r = \<lparr> cl_authorization_id = i, cl_transition_id = a_transition_id a,
               cl_execution_attempt_id = ids e 0, cl_payload_hash = a_payload_hash a,
               cl_policy_set_hash = a_policy_set_hash a, cl_proxy_principal_id = proxy \<rparr>"
  using assms
  by (auto simp: verify_and_claim_def Let_def split: option.splits if_splits prod.splits intro: that)

lemma verify_and_claim_None:
  "verify_and_claim lib d e i text ph proxy key = Inr (d', None) \<Longrightarrow> d' = d"
  by (auto simp: verify_and_claim_def Let_def split: option.splits if_splits prod.splits)

lemma verify_and_claim_lifecycle:
  assumes k: "keys_ok d" and c: "verify_and_claim lib d e i text ph proxy key = Inr (d', res)"
  shows "evolves d d'" and "born S d d'" and "keys_ok d'" and "chain_ok sha d \<Longrightarrow> chain_ok sha d'"
proof (atomize (full), cases res, goal_cases)
  case 1
  with c k show ?case by (auto dest: verify_and_claim_None)
next
  case (2 r)
  show ?case
  proof (rule verify_and_claim_Some [OF c [unfolded 2]], rule claim_and_advance_Some [OF k], assumption,
      goal_cases)
    case (1 data stored a a0 t as ts)
    have "row_evolves t (set_stage (now e) Executing t)" using 1(12) by (simp add: row_evolves_def)
    from evolves_one [OF 1(11) this, of d'] 1 chain_ok_cong [of d' d sha]
    show ?case by (simp add: get_transition_def)
  qed
qed

text \<open>Claiming a token is one-shot per authorization: \<open>token_fire\<close> is an attempt by any caller with
  any token text, payload hash and key.\<close>

record claim_attempt =
  at_libs :: auth_libs
  at_env :: env
  at_text :: string
  at_payload_hash :: string
  at_proxy :: string
  at_key :: string

definition token_fire :: "string \<Rightarrow> claim_attempt \<Rightarrow> db \<Rightarrow> db option" where
  "token_fire i x d =
     (case verify_and_claim (at_libs x) d (at_env x) i (at_text x) (at_payload_hash x) (at_proxy x)
             (at_key x) of
        Inr (d', Some _) \<Rightarrow> Some d' | _ \<Rightarrow> None)"

lemma token_fire_Some:
  assumes k: "keys_ok d" and f: "token_fire i x d = Some d'"
  obtains a0 a t as ts where "get_authorization d i = Some a0"
    and "claim_guard (now (at_env x)) (Some (sg_sha (at_libs x) (at_text x))) a0"
    and "get_authorization d' i = Some a" and "a_used a"
    and "\<forall>j. j \<noteq> i \<longrightarrow> get_authorization d' j = get_authorization d j"
    and "d' = d\<lparr>authorizations := as, transitions := ts\<rparr>" and "keys_ok d'"
proof -
  from f obtain r where
    c: "verify_and_claim (at_libs x) d (at_env x) i (at_text x) (at_payload_hash x) (at_proxy x)
             (at_key x) = Inr (d', Some r)"
    by (auto simp: token_fire_def split: sum.splits prod.splits option.splits)
  show thesis
  proof (rule verify_and_claim_Some [OF c], rule claim_and_advance_Some [OF k], assumption, goal_cases)
    case (1 data stored a a0 t as ts)
    show ?case
      by (rule that [OF 1(8,9), of "a\<lparr>a_execution_attempt_id := Some (ids (at_env x) 0)\<rparr>"])
         (use 1 in \<open>simp_all add: get_authorization_def\<close>)
  qed
qed

interpretation claim_token: one_shot keys_ok token_fire auth_spent
proof
  fix s s' :: db and k j :: string and a :: claim_attempt
  assume ok: "keys_ok s" and f: "token_fire k a s = Some s'"
  obtain a0 x as ts where x: "get_authorization s k = Some a0"
      "claim_guard (now (at_env a)) (Some (sg_sha (at_libs a) (at_text a))) a0"
      "get_authorization s' k = Some x" "a_used x"
      "\<forall>j. j \<noteq> k \<longrightarrow> get_authorization s' j = get_authorization s j" "keys_ok s'"
    by (rule token_fire_Some [OF ok f])
  show "keys_ok s'" by (fact x(6))
  show "\<not> auth_spent k s" using x(1,2) by (simp add: auth_spent_def claim_guard_def)
  show "auth_spent k s'" using x(3,4) by (simp add: auth_spent_def)
  show "auth_spent j s'" if "auth_spent j s"
    using that x(3,4,5) by (cases "j = k") (simp_all add: auth_spent_def)
qed

subsection \<open>What issuing does\<close>

lemma capability_admits_Inr:
  assumes "capability_admits fromiso h t cap ag aud tool = Inr u"
  shows "require_binding_enforcement fromiso h t cap = Inr ()"
    and "if cap_proxy_scoped cap then cap_proxy_audience cap = aud \<and> supports_action_type cap tool
         else cap_agent_principal_id cap = ag"
  using assms by (auto simp: capability_admits_def split: if_splits)

lemma insert_authorization_Inr:
  assumes "insert_authorization d row = Inr (d', r)"
  shows "d' = d\<lparr>authorizations := authorizations d @ [row]\<rparr>" and "has_transition d (a_transition_id row)"
    and "a_id row \<notin> a_id ` set (authorizations d)"
  using assms by (auto simp: insert_authorization_def store_simps)

lemma issue_authorization_Inr:
  assumes "issue_authorization lib h ttl d t xid nonce tid ag pid bid aud tool ph ms cap = Inr (d', k)"
  obtains row where "capability_admits (sg_fromiso lib) h t cap ag aud tool = Inr ()"
    and "d' = d\<lparr>authorizations := authorizations d @ [row]\<rparr>"
    and "xid 0 \<notin> a_id ` set (authorizations d)"
    and "row = authorization_of k (sg_sha lib (dumps (JObj (to_canonical_payload k @
                 [(''signature'', JStr (tk_signature k))])))) (policy_versions ms)"
    and "tk_signature k = sg_sign lib (dumps (JObj (to_canonical_payload k)))"
    and "tk_authorization_id k = xid 0" and "tk_transition_id k = tid" and "tk_agent_id k = ag"
    and "tk_payload_hash k = ph" and "tk_issued_at k = iso_utc t"
    and "tk_expires_at k = iso_utc (t + seconds ttl)" and "tk_proxy_audience k = aud"
    and "tk_matched_policy_versions k = versions_json (policy_versions ms)"
    and "has_transition d tid" and "tk_tool k = tool"
proof -
  define k0 where "k0 = \<lparr> tk_authorization_id = xid 0, tk_transition_id = tid, tk_agent_id = ag,
               tk_project_id = pid, tk_branch_id = bid, tk_proxy_audience = aud,
               tk_tool = tool, tk_payload_hash = ph,
               tk_policy_set_hash = compute_policy_set_hash (sg_sha lib) (policy_versions ms),
               tk_matched_policy_versions = versions_json (policy_versions ms), tk_issued_at = iso_utc t,
               tk_expires_at = iso_utc (t + seconds ttl), tk_nonce = nonce, tk_signature = [] \<rparr>"
  define st where "st = to_signed_token (sg_sign lib) k0"
  define row where "row = authorization_of (fst st) (sg_sha lib (snd st)) (policy_versions ms)"
  from assms have c: "capability_admits (sg_fromiso lib) h t cap ag aud tool = Inr ()"
    and i': "\<exists>r. insert_authorization d row = Inr (d', r)" and k: "k = fst st"
    by (auto simp: issue_authorization_def Let_def row_def st_def k0_def)
  from i' obtain r where i: "insert_authorization d row = Inr (d', r)" by blast
  note ins = insert_authorization_Inr [OF i]
  have k': "k = k0\<lparr>tk_signature := sg_sign lib (dumps (JObj (to_canonical_payload k0)))\<rparr>"
    by (simp add: k st_def to_signed_token_def Let_def)
  have p: "to_canonical_payload k0 = to_canonical_payload k"
    by (simp add: k' to_canonical_payload_def)
  have g: "tk_signature k = sg_sign lib (dumps (JObj (to_canonical_payload k)))"
    unfolding p [symmetric] by (simp add: k')
  have s: "snd st = dumps (JObj (to_canonical_payload k @ [(''signature'', JStr (tk_signature k))]))"
    unfolding g by (simp add: st_def to_signed_token_def Let_def p)
  have f: "tk_authorization_id k = xid 0" "tk_transition_id k = tid" "tk_agent_id k = ag"
      "tk_payload_hash k = ph" "tk_issued_at k = iso_utc t" "tk_expires_at k = iso_utc (t + seconds ttl)"
      "tk_proxy_audience k = aud" "tk_tool k = tool"
      "tk_matched_policy_versions k = versions_json (policy_versions ms)"
    by (simp_all add: k' k0_def)
  have r: "row = authorization_of k (sg_sha lib (dumps (JObj (to_canonical_payload k @
                 [(''signature'', JStr (tk_signature k))])))) (policy_versions ms)"
    by (simp only: row_def s k)
  show thesis
    by (rule that [OF c ins(1) _ r g f(1-7) f(9) _ f(8)])
      (use ins(2,3) f(1,2) in \<open>simp_all add: r authorization_of_def\<close>)
qed

lemma issue_authorization_keys:
  assumes "issue_authorization lib h ttl d t xid nonce tid ag pid bid aud tool ph ms cap = Inr (d', k)"
    and "keys_ok d"
  shows "keys_ok d'"
  by (rule issue_authorization_Inr [OF assms(1)]) (use assms(2) in \<open>simp add: keys_ok_def authorization_of_def\<close>)

subsection \<open>The text of an issued token\<close>

definition signed_text :: "token \<Rightarrow> string" where
  "signed_text k = dumps (JObj (to_canonical_payload k @ [(''signature'', JStr (tk_signature k))]))"

lemma finite_versions [simp]: "finite_json (versions_json vs)"
  by (induction vs) (auto simp: versions_json_def)

lemma wf_versions: "distinct (map fst vs) \<Longrightarrow> wf_json frep (versions_json vs)"
proof -
  assume d: "distinct (map fst vs)"
  have "map fst (map (\<lambda>(p, v). (p, JInt v)) vs) = map fst vs" by (induction vs) auto
  with d show ?thesis by (auto simp: versions_json_def list_all_iff simp del: map_map)
qed

lemma dict_put_keys: "set (map fst (dict_put k v d)) = insert k (set (map fst d))"
proof (induction d)
  case (Cons a d)
  then show ?case by (cases a) auto
qed simp

lemma dict_put_distinct: "distinct (map fst d) \<Longrightarrow> distinct (map fst (dict_put k v d))"
proof (induction d)
  case (Cons a d)
  then show ?case using dict_put_keys [of k v d] by (cases a) (auto simp del: set_map)
qed simp

lemma dict_of_keys_distinct: "distinct (map fst (dict_of kvs))"
proof -
  have "distinct (map fst d) \<Longrightarrow> distinct (map fst (fold (\<lambda>(k, v) d. dict_put k v d) kvs d))" for d
    by (induction kvs arbitrary: d) (auto simp: dict_put_distinct)
  then show ?thesis by (simp add: dict_of_def)
qed

lemma policy_versions_distinct: "distinct (map fst (policy_versions ms))"
  by (simp add: policy_versions_def dict_of_keys_distinct)

lemma sort_items_map_of:
  assumes "distinct (map fst kvs)"
  shows "map_of (sort_items kvs) = map_of kvs"
  using assms by (simp add: map_of_inject_set)

lemma map_of_sorted_keys:
  "map_of (map (\<lambda>(k, v). (k, sort_keys v)) kvs) k = map_option sort_keys (map_of kvs k)"
  by (induction kvs) auto

text \<open>Opening the text of a signed token gives its payload and signature, keys sorted.\<close>

lemma open_signed_text:
  assumes vs: "tk_matched_policy_versions k = versions_json vs" and d: "distinct (map fst vs)"
    and sig: "tk_signature k \<noteq> []"
    and ok: "sg_verify lib key (dumps (JObj (to_canonical_payload k))) (tk_signature k)"
  shows "open_token lib key (signed_text k)
         = Inr (Some (sort_items (map (\<lambda>(f, v). (f, sort_keys v))
                  (to_canonical_payload k @ [(''signature'', JStr (tk_signature k))]))))"
proof -
  let ?all = "to_canonical_payload k @ [(''signature'', JStr (tk_signature k))]"
  let ?sk = "\<lambda>(f, v). (f, sort_keys v)"
  define data where "data = sort_items (map ?sk ?all)"
  have dist: "distinct (map fst ?all)" by (simp add: to_canonical_payload_def)
  have fst_sk: "fst (?sk kv) = fst kv" for kv by (cases kv) simp
  have wf: "wf_json (sg_frep lib) (JObj ?all)"
    using wf_versions [OF d] by (simp add: to_canonical_payload_def vs)
  have load: "json_loads (sg_frep lib) (signed_text k) = Some (JObj data)"
    using json_loads_canonical [OF wf] by (simp add: signed_text_def data_def)
  have "distinct (map fst (map ?sk ?all))" using dist by (simp add: comp_def fst_sk del: map_append)
  then have g: "get_or_empty data ''signature'' = JStr (tk_signature k)"
    by (simp add: data_def get_or_empty_def sort_items_map_of map_of_sorted_keys del: map_append)
      (simp add: to_canonical_payload_def)
  have "filter (\<lambda>(f, _). f \<noteq> ''signature'') data = sort_items (map ?sk (to_canonical_payload k))"
    by (simp add: data_def sort_items_def filter_sort split_beta) (simp add: to_canonical_payload_def)
  then have body: "JObj (filter (\<lambda>(f, _). f \<noteq> ''signature'') data)
      = sort_keys (JObj (to_canonical_payload k))" by simp
  have fin: "finite_json (sort_keys (JObj (to_canonical_payload k)))"
    by (simp add: list_all_iff to_canonical_payload_def vs versions_json_def split_beta)
  show ?thesis
    unfolding data_def [symmetric]
    using load g sig ok fin by (simp add: open_token_def Let_def body signature_ok_iff del: sort_keys.simps)
qed

subsection \<open>Claims\<close>

lemma issued_row:
  assumes "issue_authorization lib h ttl d t xid nonce tid ag pid bid aud tool ph ms cap = Inr (d', k)"
  shows "get_authorization d (xid 0) = None"
    and "get_authorization d' (xid 0) = Some (authorization_of k (sg_sha lib (signed_text k)) (policy_versions ms))"
    and "j \<noteq> xid 0 \<Longrightarrow> get_authorization d' j = get_authorization d j"
proof (atomize (full), rule issue_authorization_Inr [OF assms], goal_cases)
  case (1 row)
  have "row_get a_id (xid 0) (authorizations d) = None" using 1(3) by (auto simp: row_get_None)
  moreover have "a_id row = xid 0" using 1(4,6) by (simp add: authorization_of_def)
  ultimately show ?case
    using 1(2,4) by (simp add: get_authorization_def row_get_append signed_text_def split: option.split)
qed

lemma issued_token_verified:
  assumes i: "issue_authorization lib h ttl d t xid nonce tid ag pid bid aud tool ph ms cap = Inr (d', k)"
    and sig: "\<forall>m. sg_sign lib m \<noteq> [] \<and> sg_verify lib key m (sg_sign lib m)"
    and rep: "representable (t + seconds ttl)"
  shows "if t' \<le> t + seconds ttl
         then \<exists>args. verify_token lib t' (signed_text k) key = Inr (Some args)
                 \<and> (\<forall>f \<in> set token_fields. map_of args f = map_of (to_canonical_payload k) f)
                 \<and> map_of args ''transition_id'' = Some (JStr tid)
                 \<and> map_of args ''payload_hash'' = Some (JStr ph)
                 \<and> map_of args ''signature'' = Some (JStr (tk_signature k))
         else verify_token lib t' (signed_text k) key = Inr None"
proof (rule issue_authorization_Inr [OF i], goal_cases)
  case (1 row)
  let ?kvs = "map (\<lambda>(f, v). (f, sort_keys v)) (to_canonical_payload k @ [(''signature'', JStr (tk_signature k))])"
  define data where "data = sort_items ?kvs"
  have op: "open_token lib key (signed_text k) = Inr (Some data)"
    using sig 1(5) unfolding data_def by (intro open_signed_text [OF 1(13) policy_versions_distinct]) simp_all
  have dist: "distinct (map fst ?kvs)" by (simp add: to_canonical_payload_def)
  have get: "map_of data f = map_option sort_keys
      (map_of (to_canonical_payload k @ [(''signature'', JStr (tk_signature k))]) f)" for f
    unfolding data_def sort_items_map_of [OF dist] by (rule map_of_sorted_keys)
  have ex: "get_or_empty data ''expires_at'' = JStr (iso_utc (t + seconds ttl))"
    and sg: "get_or_empty data ''signature'' = JStr (tk_signature k)"
    unfolding get_or_empty_def get using 1(11) by (simp_all add: to_canonical_payload_def)
  have all: "list_all (\<lambda>f. map_of data f \<noteq> None) token_fields"
    unfolding get by (simp add: token_fields_def to_canonical_payload_def)
  have vt: "verify_token lib t' (signed_text k) key =
     (if t + seconds ttl < t' then Inr None
      else Inr (Some (map (\<lambda>f. (f, the (map_of data f))) token_fields
                 @ [(''matched_policy_versions'', loaded_versions (sg_frep lib) data),
                    (''signature'', JStr (tk_signature k))])))"
    unfolding verify_token_def op using all by (simp add: ex sg strptime_representable [OF rep])
  show ?case
    using 1(7,9) unfolding vt get by (simp add: token_fields_def to_canonical_payload_def)
qed

text \<open>A token that \<open>issue_authorization\<close> returns is accepted by \<open>verify_token\<close> until it expires,
  with the fields it was issued for, and refused afterwards; its row, unused and with the digest of the
  token's text, is the only row of the table that is new. The library accepts its own signatures.\<close>

theorem issued_token_verifies:
  assumes i: "issue_authorization lib h ttl d t xid nonce tid ag pid bid aud tool ph ms cap = Inr (d', k)"
    and sig: "\<forall>m. sg_sign lib m \<noteq> [] \<and> sg_verify lib key m (sg_sign lib m)"
    and rep: "representable (t + seconds ttl)"
  shows "(if t' \<le> t + seconds ttl
          then \<exists>args. verify_token lib t' (signed_text k) key = Inr (Some args)
                 \<and> (\<forall>f \<in> set token_fields. map_of args f = map_of (to_canonical_payload k) f)
                 \<and> map_of args ''transition_id'' = Some (JStr tid)
                 \<and> map_of args ''payload_hash'' = Some (JStr ph)
                 \<and> map_of args ''signature'' = Some (JStr (tk_signature k))
          else verify_token lib t' (signed_text k) key = Inr None)
       \<and> (\<exists>a. get_authorization d' (tk_authorization_id k) = Some a \<and> \<not> a_used a
            \<and> a_token_hash a = sg_sha lib (signed_text k))
       \<and> (\<forall>j. j \<noteq> tk_authorization_id k \<longrightarrow> get_authorization d' j = get_authorization d j)"
proof -
  have "tk_authorization_id k = xid 0" using i by (rule issue_authorization_Inr)
  with issued_token_verified [OF assms] issued_row [OF i] show ?thesis
    by (simp add: authorization_of_def)
qed

definition sample_auth_libs :: auth_libs where
  "sample_auth_libs = \<lparr> sg_sha = (\<lambda>s. ''h'' @ s), sg_frep = (\<lambda>s. s), sg_sign = (\<lambda>m. ''00'' @ m),
     sg_verify = (\<lambda>_ m s. s = ''00'' @ m), sg_fromiso = (\<lambda>_. Utc_Time (sample_instant + seconds 3600)) \<rparr>"

definition sample_capability :: capability where
  "sample_capability = for_test ''ag'' False [] [] [] [] sample_instant"

lemma sample_representable [simp]: "n \<le> 86400 \<Longrightarrow> representable (sample_instant + seconds n)"
  by (simp add: representable_def sample_instant_def days_before_year_def day_micros_def seconds_def
      less_eq_div_iff_mult_less_eq div_less_iff_less_mult)

lemma sample_issue:
  obtains d' k where "issue_authorization sample_auth_libs sample_host 300 (sample_db Authorized) sample_instant
      (\<lambda>_. ''a2'') ''n'' ''t1'' ''ag'' ''p1'' ''b1'' ''proxy'' ''shell.execute'' ''ph'' [] sample_capability
    = Inr (d', k)"
proof -
  have "capability_admits (sg_fromiso sample_auth_libs) sample_host sample_instant sample_capability ''ag''
      ''proxy'' ''shell.execute'' = Inr ()"
    by (simp add: capability_admits_def require_binding_enforcement_def sample_capability_def for_test_def
        sample_auth_libs_def production_mode_def env_flag_def sample_host_def)
  moreover have "insert_authorization (sample_db Authorized) r
      = Inr (sample_db Authorized\<lparr>authorizations := [sample_auth, r]\<rparr>, r)"
    if "a_id r = ''a2''" "a_transition_id r = ''t1''" "a_agent_id r = ''ag''"
      "a_project_id r = ''p1''" "a_branch_id r = ''b1''" for r :: authorization_row
    using that by (simp add: insert_authorization_def sample_simps)
  ultimately have "\<exists>p. issue_authorization sample_auth_libs sample_host 300 (sample_db Authorized) sample_instant
      (\<lambda>_. ''a2'') ''n'' ''t1'' ''ag'' ''p1'' ''b1'' ''proxy'' ''shell.execute'' ''ph'' [] sample_capability
    = Inr p"
    by (simp add: issue_authorization_def Let_def to_signed_token_def authorization_of_def)
  then show thesis using that by (metis prod.exhaust)
qed

theorem issued_token_verifies_witness:
  "\<exists>d' k args. get_authorization d' (tk_authorization_id k) \<noteq> None
     \<and> verify_token sample_auth_libs (sample_instant + seconds 60) (signed_text k) ''key'' = Inr (Some args)
     \<and> map_of args ''transition_id'' = Some (JStr ''t1'')"
proof -
  obtain d' k where i: "issue_authorization sample_auth_libs sample_host 300 (sample_db Authorized) sample_instant
      (\<lambda>_. ''a2'') ''n'' ''t1'' ''ag'' ''p1'' ''b1'' ''proxy'' ''shell.execute'' ''ph'' [] sample_capability
    = Inr (d', k)" by (rule sample_issue)
  have "\<forall>m. sg_sign sample_auth_libs m \<noteq> [] \<and> sg_verify sample_auth_libs ''key'' m (sg_sign sample_auth_libs m)"
    by (simp add: sample_auth_libs_def)
  from issued_token_verifies [OF i this sample_representable, of "sample_instant + seconds 60"]
  show ?thesis by (auto simp: seconds_def)
qed

text \<open>No capability, no authorization. Issuing raises \<open>EnforcementUnavailableError\<close> when binding
  enforcement is not active, when an unscoped capability belongs to another agent, or when a scoped one is
  for another proxy audience or does not support the tool; when it succeeds, the capability passed all of
  these checks at the time of issue and the transition exists.\<close>

theorem issue_needs_capability:
  shows "(\<not> cap_binding_active cap
          \<longrightarrow> issue_authorization lib h ttl d t xid nonce tid ag pid bid aud tool ph ms cap
              = Inl EnforcementUnavailableError)
       \<and> (\<forall>d' k. issue_authorization lib h ttl d t xid nonce tid ag pid bid aud tool ph ms cap = Inr (d', k)
           \<longrightarrow> cap_binding_active cap \<and> require_binding_enforcement (sg_fromiso lib) h t cap = Inr ()
             \<and> (cap_proxy_scoped cap \<longrightarrow> cap_proxy_audience cap = aud \<and> supports_action_type cap tool)
             \<and> (\<not> cap_proxy_scoped cap \<longrightarrow> cap_agent_principal_id cap = ag)
             \<and> has_transition d tid \<and> get_authorization d (tk_authorization_id k) = None)"
proof (intro conjI [where P = "_ \<longrightarrow> _"] allI impI, goal_cases)
  case 1
  then show ?case
    by (simp add: issue_authorization_def capability_admits_def require_binding_enforcement_def requireE_def)
next
  case (2 d' k)
  show ?case
  proof (rule issue_authorization_Inr [OF 2], goal_cases)
    case (1 row)
    then show ?case
      using capability_admits_Inr [OF 1(1)] issued_row(1) [OF 2]
      by (auto simp: require_binding_enforcement_def requireE_def split: if_splits)
  qed
qed

theorem issue_needs_capability_witness:
  "issue_authorization sample_auth_libs sample_host 300 (sample_db Authorized) sample_instant (\<lambda>_. ''a2'') ''n''
      ''t1'' ''ag'' ''p1'' ''b1'' ''proxy'' ''shell.execute'' ''ph'' [] (sample_capability\<lparr>cap_binding_active := False\<rparr>)
    = Inl EnforcementUnavailableError"
  using issue_needs_capability [of "sample_capability\<lparr>cap_binding_active := False\<rparr>"] by simp

text \<open>C23: the claim is sound. When \<open>verify_and_claim_in_transaction\<close> returns a result, the presented
  text carries a valid signature over the payload hash that the proxy is about to execute, its digest is
  the stored one, the authorization was unused and not expired, and its transition was authorized; both
  rows are updated together (used, with the execution attempt; executing) and nothing else changes. When
  it returns \<open>None\<close>, nothing changes at all.\<close>

theorem claim_is_sound:
  assumes k: "keys_ok d"
    and c: "verify_and_claim lib d e i text ph proxy key = Inr (d', res)"
  shows "case res of
           None \<Rightarrow> d' = d
         | Some r \<Rightarrow> \<exists>data sig a t.
             json_loads (sg_frep lib) text = Some (JObj data) \<and> map_of data ''signature'' = Some (JStr sig)
             \<and> sg_verify lib key (dumps (JObj (filter (\<lambda>(f, _). f \<noteq> ''signature'') data))) sig
             \<and> get_or_empty data ''payload_hash'' = JStr ph
             \<and> get_authorization d i = Some a \<and> \<not> a_used a \<and> now e < a_expires_at a
             \<and> a_token_hash a = sg_sha lib text
             \<and> get_transition d (a_transition_id a) = Some t \<and> t_stage t = Authorized
             \<and> cl_transition_id r = a_transition_id a \<and> cl_payload_hash r = a_payload_hash a
             \<and> (\<forall>j. get_authorization d' j = (if j = i then Some (a\<lparr>a_used := True, a_used_at := Some (now e),
                    a_execution_attempt_id := Some (cl_execution_attempt_id r)\<rparr>) else get_authorization d j))
             \<and> (\<forall>j. get_transition d' j = (if j = a_transition_id a then Some (set_stage (now e) Executing t)
                    else get_transition d j))
             \<and> d' = d\<lparr>authorizations := authorizations d', transitions := transitions d'\<rparr>"
proof (cases res)
  case None
  then show ?thesis using verify_and_claim_None c by simp
next
  case (Some r)
  show ?thesis
  proof (rule verify_and_claim_Some [OF c [unfolded Some]], rule claim_and_advance_Some [OF k], assumption, goal_cases)
    case (1 data stored a a0 t as ts)
    from open_token_Some(2) [OF 1(1)] obtain sig where
      "map_of data ''signature'' = Some (JStr sig)"
      "sg_verify lib key (dumps (JObj (filter (\<lambda>(k, _). k \<noteq> ''signature'') data))) sig" by blast
    then show ?case
      unfolding Some option.case
      using 1 open_token_Some(1) [OF 1(1)]
      by (intro exI [of _ data] exI [of _ sig] exI [of _ a0] exI [of _ t])
        (simp add: get_authorization_def get_transition_def claim_guard_def)
  qed
qed

text \<open>An authorization is claimed at most once. Over any sequence of attempts, by any callers with
  any token texts, payload hashes and keys, at most one attempt on an authorization succeeds.\<close>

theorem token_claimed_at_most_once:
  assumes "keys_ok d"
  shows "length (filter (\<lambda>j. j = i) (snd (claim_token.attempts xs d))) \<le> 1"
  using assms by (rule claim_token.at_most_once)

text \<open>Only the issued text claims. Right after a token was issued, a claim of its authorization
  that succeeds was made with exactly that text (SHA-256 tells the two texts apart), for the payload hash
  and the transition it was issued for, before its time to live had passed.\<close>

theorem only_issued_token_claims:
  assumes k: "keys_ok d"
    and i: "issue_authorization lib h ttl d t xid nonce tid ag pid bid aud tool ph ms cap = Inr (d1, k)"
    and sig: "\<forall>m. sg_sign lib m \<noteq> [] \<and> sg_verify lib key m (sg_sign lib m)"
    and rep: "representable (t + seconds ttl)" "representable t'"
    and c: "verify_and_claim lib d1 (env_at t' ids') (tk_authorization_id k) text ph' proxy key = Inr (d2, Some r)"
    and inj: "inj_on (sg_sha lib) {text, signed_text k}"
  shows "text = signed_text k \<and> ph' = ph \<and> cl_transition_id r = tid \<and> cl_payload_hash r = ph
       \<and> t' < t + seconds ttl"
proof (rule issue_authorization_Inr [OF i], goal_cases)
  case (1 row)
  note I = 1
  have k1: "keys_ok d1" using i k by (rule issue_authorization_keys)
  have a: "get_authorization d1 (tk_authorization_id k)
      = Some (authorization_of k (sg_sha lib (signed_text k)) (policy_versions ms))"
    using issued_row(2) [OF i] I(6) by simp
  show ?case
  proof (rule verify_and_claim_Some [OF c], rule claim_and_advance_Some [OF k1], assumption, goal_cases)
    case (1 data stored a a0 tr as ts)
    have a0: "a0 = authorization_of k (sg_sha lib (signed_text k)) (policy_versions ms)"
      using 1(8) a by simp
    have "sg_sha lib text = sg_sha lib (signed_text k)"
      using 1(9) by (simp add: a0 claim_guard_def authorization_of_def)
    from inj_onD [OF inj this] have tx: "text = signed_text k" by simp
    have "open_token lib key (signed_text k) = Inr (Some (sort_items (map (\<lambda>(f, v). (f, sort_keys v))
        (to_canonical_payload k @ [(''signature'', JStr (tk_signature k))]))))"
      using sig I(5) by (intro open_signed_text [OF I(13) policy_versions_distinct]) simp_all
    with 1(1) have data: "data = sort_items (map (\<lambda>(f, v). (f, sort_keys v))
        (to_canonical_payload k @ [(''signature'', JStr (tk_signature k))]))" by (simp add: tx)
    have "get_or_empty data ''payload_hash'' = JStr (tk_payload_hash k)"
      unfolding data get_or_empty_def
      by (subst sort_items_map_of) (simp_all add: to_canonical_payload_def)
    with 1(2) I(9) have "ph' = ph" by simp
    moreover have "t' < t + seconds ttl"
      using 1(9) I(11) iso_utc_order [OF rep(2,1)] by (simp add: a0 claim_guard_def authorization_of_def)
    ultimately show ?case using 1(7,10) tx I(7,9) by (simp add: a0 authorization_of_def)
  qed
qed

lemma claim_and_advance_ok:
  assumes k: "keys_ok d" and a: "get_authorization d i = Some a" and g: "claim_guard (now e) (Some h) a"
    and t: "get_transition d (a_transition_id a) = Some tr" "t_stage tr = Authorized"
    and ne: "a_transition_id a \<noteq> []"
  shows "\<exists>d'. claim_and_advance d e i h att = Some (d', a\<lparr>a_used := True, a_used_at := Some (now e)\<rparr>)"
proof -
  let ?f = "\<lambda>a. a\<lparr>a_used := True, a_used_at := Some (now e)\<rparr>"
  let ?u = "row_update a_id i (claim_guard (now e) (Some h)) ?f (authorizations d)"
  have "snd ?u = 1"
    using authorization_table.upd_count [OF keys_okD(1) [OF k]] a g by (auto simp: get_authorization_def)
  then have cl: "claim_authorization d e i (Some h) = (d\<lparr>authorizations := fst ?u\<rparr>, Some (?f a))"
    using a g by (simp add: claim_authorization_def split_beta authorization_table.get_upd get_authorization_def)
  define as where "as = authorizations (fst (update_execution_attempt_id (d\<lparr>authorizations := fst ?u\<rparr>) i att))"
  have d2: "fst (update_execution_attempt_id (d\<lparr>authorizations := fst ?u\<rparr>) i att) = d\<lparr>authorizations := as\<rparr>"
    by (simp add: as_def update_execution_attempt_id_def split_beta)
  have "snd (row_update t_id (a_transition_id a) (\<lambda>r. t_stage r = Authorized)
      (set_stage (now e) Executing) (transitions d)) = 1"
    using transition_table.upd_count [OF keys_okD(3) [OF k]] t by (auto simp: get_transition_def)
  then obtain d3 where
    "update_stage (d\<lparr>authorizations := as\<rparr>) e (a_transition_id a) Executing (Some Authorized) = (d3, True)"
    by (simp add: update_stage_eq)
  then show ?thesis
    using cl ne by (simp add: claim_and_advance_def d2)
qed

lemma issued_token_claimable:
  assumes k: "keys_ok d"
    and i: "issue_authorization lib h ttl d t xid nonce tid ag pid bid aud tool ph ms cap = Inr (d1, k)"
    and sig: "\<forall>m. sg_sign lib m \<noteq> [] \<and> sg_verify lib key m (sg_sign lib m) \<and> sg_sha lib m \<noteq> []"
    and rep: "representable (t + seconds ttl)" "representable t'" and ttl: "t' < t + seconds ttl"
    and tr: "get_transition d tid = Some tr" "t_stage tr = Authorized" "tid \<noteq> []"
  shows "\<exists>d2 r. verify_and_claim lib d1 (env_at t' ids') (tk_authorization_id k) (signed_text k) ph proxy key
           = Inr (d2, Some r)"
proof (rule issue_authorization_Inr [OF i], goal_cases)
  case (1 row)
  let ?kvs = "to_canonical_payload k @ [(''signature'', JStr (tk_signature k))]"
  define data where "data = sort_items (map (\<lambda>(f, v). (f, sort_keys v)) ?kvs)"
  define a where "a = authorization_of k (sg_sha lib (signed_text k)) (policy_versions ms)"
  have op: "open_token lib key (signed_text k) = Inr (Some data)"
    unfolding data_def using sig 1(5) by (intro open_signed_text [OF 1(13) policy_versions_distinct]) simp_all
  have get: "map_of data f = map_option sort_keys (map_of ?kvs f)" for f
    unfolding data_def by (subst sort_items_map_of) (simp add: to_canonical_payload_def, rule map_of_sorted_keys)
  have f: "get_or_empty data ''payload_hash'' = JStr ph"
    "map_of data ''authorization_id'' = Some (JStr (tk_authorization_id k))"
    unfolding get_or_empty_def get using 1(9) by (simp_all add: to_canonical_payload_def)
  have g: "get_authorization d1 (tk_authorization_id k) = Some a"
    using issued_row(2) [OF i] 1(6) by (simp add: a_def)
  have a: "a_token_hash a = sg_sha lib (signed_text k)" "a_transition_id a = tid"
    "claim_guard (iso_utc t') (Some (sg_sha lib (signed_text k))) a"
    using 1(7,11) iso_utc_order [OF rep(2,1)] ttl by (simp_all add: a_def authorization_of_def claim_guard_def)
  have "get_transition d1 tid = Some tr" using tr(1) 1(2) by (simp add: get_transition_def)
  then obtain d2 where "claim_and_advance d1 (env_at t' ids') (tk_authorization_id k) (sg_sha lib (signed_text k))
      (ids' 0) = Some (d2, a\<lparr>a_used := True, a_used_at := Some (iso_utc t')\<rparr>)"
    using claim_and_advance_ok [OF issue_authorization_keys [OF i k] g, of "env_at t' ids'"] a tr by fastforce
  then show ?case
    using sig by (simp add: verify_and_claim_def op f g a)
qed

text \<open>The issued token works. Until it expires, presenting the issued text with the payload hash it was
  issued for claims the authorization, when its transition is authorized.\<close>

theorem issued_token_can_be_claimed:
  assumes "keys_ok d"
    and "issue_authorization lib h ttl d t xid nonce tid ag pid bid aud tool ph ms cap = Inr (d1, k)"
    and "\<forall>m. sg_sign lib m \<noteq> [] \<and> sg_verify lib key m (sg_sign lib m) \<and> sg_sha lib m \<noteq> []"
    and "representable (t + seconds ttl)" and "representable t'" and "t' < t + seconds ttl"
    and "get_transition d tid = Some tr" and "t_stage tr = Authorized" and "tid \<noteq> []"
  shows "\<exists>d2 r. verify_and_claim lib d1 (env_at t' ids') (tk_authorization_id k) (signed_text k) ph proxy key
           = Inr (d2, Some r)"
  using assms by (rule issued_token_claimable)

lemma sample_claim:
  obtains d1 k d2 r where
    "issue_authorization sample_auth_libs sample_host 300 (sample_db Authorized) sample_instant
      (\<lambda>_. ''a2'') ''n'' ''t1'' ''ag'' ''p1'' ''b1'' ''proxy'' ''shell.execute'' ''ph'' [] sample_capability
    = Inr (d1, k)"
    and "verify_and_claim sample_auth_libs d1 (env_at (sample_instant + seconds 60) (\<lambda>_. ''x1''))
           (tk_authorization_id k) (signed_text k) ''ph'' ''px'' ''key'' = Inr (d2, Some r)"
    and "keys_ok d1"
proof -
  obtain d1 k where i: "issue_authorization sample_auth_libs sample_host 300 (sample_db Authorized) sample_instant
      (\<lambda>_. ''a2'') ''n'' ''t1'' ''ag'' ''p1'' ''b1'' ''proxy'' ''shell.execute'' ''ph'' [] sample_capability
    = Inr (d1, k)" by (rule sample_issue)
  have "\<exists>d2 r. verify_and_claim sample_auth_libs d1 (env_at (sample_instant + seconds 60) (\<lambda>_. ''x1''))
           (tk_authorization_id k) (signed_text k) ''ph'' ''px'' ''key'' = Inr (d2, Some r)"
    using sample_representable [of 60]
    by (intro issued_token_claimable [OF sample_keys_ok i _ sample_representable _ _ sample_gets(1)])
      (simp_all add: sample_auth_libs_def seconds_def sample_transition_def)
  then show thesis using that i issue_authorization_keys [OF i sample_keys_ok] by blast
qed

theorem issued_token_can_be_claimed_witness:
  "\<exists>d1 k d2 r. verify_and_claim sample_auth_libs d1 (env_at (sample_instant + seconds 60) (\<lambda>_. ''x1''))
           (tk_authorization_id k) (signed_text k) ''ph'' ''px'' ''key'' = Inr (d2, Some r)"
proof -
  obtain d1 k where i: "issue_authorization sample_auth_libs sample_host 300 (sample_db Authorized) sample_instant
      (\<lambda>_. ''a2'') ''n'' ''t1'' ''ag'' ''p1'' ''b1'' ''proxy'' ''shell.execute'' ''ph'' [] sample_capability
    = Inr (d1, k)" by (rule sample_issue)
  have "\<exists>d2 r. verify_and_claim sample_auth_libs d1 (env_at (sample_instant + seconds 60) (\<lambda>_. ''x1''))
           (tk_authorization_id k) (signed_text k) ''ph'' ''px'' ''key'' = Inr (d2, Some r)"
    using sample_representable [of 60]
    by (intro issued_token_can_be_claimed [OF sample_keys_ok i _ sample_representable _ _ sample_gets(1)])
      (simp_all add: sample_auth_libs_def seconds_def sample_transition_def)
  then show ?thesis by blast
qed

theorem claim_is_sound_witness:
  "\<exists>d a t. get_authorization d ''a2'' = Some a \<and> \<not> a_used a \<and> get_transition d (a_transition_id a) = Some t
     \<and> t_stage t = Authorized"
proof (rule sample_claim, goal_cases)
  case (1 d1 k d2 r)
  have "tk_authorization_id k = ''a2''" using 1(1) by (rule issue_authorization_Inr)
  with claim_is_sound [OF 1(3,2)] show ?case by auto
qed

theorem token_claimed_at_most_once_witness:
  "length (filter (\<lambda>j. j = ''a1'') (snd (claim_token.attempts
     [(''a1'', \<lparr>at_libs = sample_auth_libs, at_env = env_at sample_instant (\<lambda>_. ''x''), at_text = ''{}'',
        at_payload_hash = ''ph'', at_proxy = ''px'', at_key = ''key''\<rparr>)] (sample_db Authorized)))) \<le> 1"
  by (rule token_claimed_at_most_once) simp

theorem only_issued_token_claims_witness:
  "\<exists>(k :: token) (r :: claim_result). cl_transition_id r = ''t1'' \<and> tk_transition_id k = ''t1''"
proof (rule sample_claim, goal_cases)
  case (1 d1 k d2 r)
  have "tk_transition_id k = ''t1''" using 1(1) by (rule issue_authorization_Inr)
  moreover have "\<forall>m. sg_sign sample_auth_libs m \<noteq> [] \<and> sg_verify sample_auth_libs ''key'' m (sg_sign sample_auth_libs m)"
    "inj_on (sg_sha sample_auth_libs) {signed_text k, signed_text k}"
    by (simp_all add: sample_auth_libs_def)
  moreover note only_issued_token_claims [OF sample_keys_ok 1(1) _ _ _ 1(2)]
  ultimately have "cl_transition_id r = ''t1'' \<and> tk_transition_id k = ''t1''" by simp
  then show ?case by blast
qed

end
