(* ===== verification/Governance_Spec.thy ===== *)
theory Governance_Spec
  imports Store Json
begin

section \<open>The promise of the system: a specification of governance\<close>

text \<open>
  An abstract machine that says what the whole system promises and leaves out how. Its state is,
  for every transition, the proposing agent and the stage; for every authorization that has been
  claimed, the transition that it executed; and the audit log. Its steps are: a proposal appears;
  a human or service approves one; a transition moves on; a claim starts the execution; events are
  recorded. Nothing here models code: \<open>System\<close> shows that every operation of the code is one of
  these steps, and so inherits the invariants proved here.
\<close>

record gov =
  gv_trans :: "string \<Rightarrow> (string \<times> stage) option"
  gv_spent :: "string \<Rightarrow> string option"
  gv_log :: "event_row list"

text \<open>An event that permits a transition: it names the transition, and it is either the authorization
  of the agent's proposal by policy, or the approval by somebody else.\<close>

definition about :: "event_row \<Rightarrow> string \<Rightarrow> bool" where
  "about ev i \<longleftrightarrow> (\<exists>kvs. ev_event_data ev = JObj kvs \<and> map_of kvs ''transition_id'' = Some (JStr i))"

definition permits :: "event_row \<Rightarrow> string \<Rightarrow> string \<Rightarrow> bool" where
  "permits ev i agent \<longleftrightarrow> about ev i
     \<and> (ev_event_type ev = ''transition.authorized'' \<and> ev_actor_principal_id ev = agent
        \<or> ev_event_type ev = ''transition.approved'' \<and> ev_actor_principal_id ev \<noteq> agent)"

text \<open>Which stage may follow which: \<open>moves\<close> is what a step other than an approval and a claim may do.\<close>

definition moves :: "stage \<Rightarrow> stage \<Rightarrow> bool" where
  "moves a b \<longleftrightarrow> a < b \<and> b \<notin> {Proposed, stage.Pending_Approval, Authorized, Executing}
     \<and> a \<notin> {Succeeded, Failed, Cancelled, Expired, Denied}
     \<and> (b \<in> {Execution_Uncertain, Succeeded, Failed} \<longleftrightarrow> a \<in> {Executing, Execution_Uncertain})"

inductive gov_step :: "gov \<Rightarrow> gov \<Rightarrow> bool" where
  Record: "gov_step s (s\<lparr>gv_log := gv_log s @ es\<rparr>)"
| Propose: "gv_trans s i = None \<Longrightarrow> st \<in> {Denied, stage.Pending_Approval, Authorized}
    \<Longrightarrow> (st = Authorized \<longrightarrow> permits ev i ag)
    \<Longrightarrow> gov_step s (s\<lparr>gv_trans := (gv_trans s)(i \<mapsto> (ag, st)), gv_log := gv_log s @ [ev]\<rparr>)"
| Approve: "gv_trans s i = Some (ag, stage.Pending_Approval) \<Longrightarrow> permits ev i ag
    \<Longrightarrow> gov_step s (s\<lparr>gv_trans := (gv_trans s)(i \<mapsto> (ag, Authorized)), gv_log := gv_log s @ [ev]\<rparr>)"
| Move: "gv_trans s i = Some (ag, a) \<Longrightarrow> moves a b
    \<Longrightarrow> gov_step s (s\<lparr>gv_trans := (gv_trans s)(i \<mapsto> (ag, b)), gv_log := gv_log s @ es\<rparr>)"
| Execute: "gv_trans s i = Some (ag, Authorized) \<Longrightarrow> gv_spent s x = None
    \<Longrightarrow> gov_step s (s\<lparr>gv_trans := (gv_trans s)(i \<mapsto> (ag, Executing)),
                      gv_spent := (gv_spent s)(x \<mapsto> i)\<rparr>)"

inductive_cases gov_stepE: "gov_step s s'"

definition gov_start :: "gov \<Rightarrow> bool" where
  "gov_start s \<longleftrightarrow> gv_trans s = Map.empty \<and> gv_spent s = Map.empty"

definition gov_run :: "gov \<Rightarrow> gov \<Rightarrow> bool" where
  "gov_run = gov_step\<^sup>*\<^sup>*"

text \<open>Stages that only a permitted transition reaches, and those that only an executed one reaches.\<close>

definition permitted_stages :: "stage set" where
  "permitted_stages = {Authorized, Executing, Execution_Uncertain, Succeeded, Failed}"

definition executed_stages :: "stage set" where
  "executed_stages = {Executing, Execution_Uncertain, Succeeded, Failed}"

definition final_stages :: "stage set" where
  "final_stages = {Succeeded, Failed, Cancelled, Expired, Denied}"

lemmas stage_set_defs = permitted_stages_def executed_stages_def final_stages_def

lemma moves_up: "moves a b \<Longrightarrow> stage_rank a < stage_rank b"
  by (simp add: moves_def less_stage_def)

lemma moves_permitted: "moves a b \<Longrightarrow> b \<in> permitted_stages \<Longrightarrow> a \<in> permitted_stages"
  by (auto simp: moves_def stage_set_defs)

lemma moves_executed: "moves a b \<Longrightarrow> b \<in> executed_stages \<longleftrightarrow> a \<in> executed_stages"
  by (cases a; cases b) (simp_all add: moves_def stage_set_defs less_stage_def)

subsection \<open>Invariants\<close>

definition permitted :: "gov \<Rightarrow> bool" where
  "permitted s \<longleftrightarrow> (\<forall>i ag st. gv_trans s i = Some (ag, st) \<longrightarrow> st \<in> permitted_stages
     \<longrightarrow> (\<exists>ev \<in> set (gv_log s). permits ev i ag))"

lemma permitted_step:
  assumes "gov_step s s'" and "permitted s"
  shows "permitted s'"
  using assms
proof (cases rule: gov_step.cases)
  case (Record es)
  then show ?thesis using assms(2) by (fastforce simp: permitted_def)
next
  case (Propose i st ev ag)
  then show ?thesis using assms(2) by (auto simp: permitted_def stage_set_defs split: if_splits)
next
  case (Approve i ag ev)
  then show ?thesis using assms(2) by (auto simp: permitted_def split: if_splits)
next
  case (Move i ag a b es)
  then show ?thesis using assms(2) moves_permitted [of a b] by (fastforce simp: permitted_def split: if_splits)
next
  case (Execute i ag x)
  then have "Authorized \<in> permitted_stages" by (simp add: stage_set_defs)
  with Execute show ?thesis using assms(2) by (fastforce simp: permitted_def split: if_splits)
qed

text \<open>A transition is executed exactly when an authorization was spent on it, and then only one was.\<close>

definition accounted :: "gov \<Rightarrow> bool" where
  "accounted s \<longleftrightarrow>
     (\<forall>i ag st. gv_trans s i = Some (ag, st) \<longrightarrow> (st \<in> executed_stages \<longleftrightarrow> (\<exists>x. gv_spent s x = Some i)))
     \<and> (\<forall>x y i. gv_spent s x = Some i \<longrightarrow> gv_spent s y = Some i \<longrightarrow> x = y)
     \<and> (\<forall>x i. gv_spent s x = Some i \<longrightarrow> gv_trans s i \<noteq> None)"

lemma accounted_iff:
  "accounted s \<Longrightarrow> gv_trans s i = Some (ag, st) \<Longrightarrow> st \<in> executed_stages \<longleftrightarrow> (\<exists>x. gv_spent s x = Some i)"
  by (simp add: accounted_def)

lemma accounted_known: "accounted s \<Longrightarrow> gv_spent s x = Some i \<Longrightarrow> gv_trans s i \<noteq> None"
  unfolding accounted_def by blast

lemma accounted_trans:
  assumes "accounted s" and "st \<in> executed_stages \<longleftrightarrow> (\<exists>x. gv_spent s x = Some i)"
  shows "accounted (s\<lparr>gv_trans := (gv_trans s)(i \<mapsto> (ag, st)), gv_log := es\<rparr>)"
  using assms by (auto simp: accounted_def)

lemma accounted_step:
  assumes "gov_step s s'" and a: "accounted s"
  shows "accounted s'"
  using assms(1)
proof (cases rule: gov_step.cases)
  case (Record es)
  then show ?thesis using a by (simp add: accounted_def)
next
  case (Propose i st ev ag)
  then have "st \<notin> executed_stages" by (auto simp: stage_set_defs)
  moreover have "\<nexists>x. gv_spent s x = Some i" using accounted_known [OF a] Propose(2) by blast
  ultimately have "st \<in> executed_stages \<longleftrightarrow> (\<exists>x. gv_spent s x = Some i)" by blast
  then show ?thesis unfolding Propose using a by (intro accounted_trans) simp_all
next
  case (Approve i ag ev)
  then have "\<nexists>x. gv_spent s x = Some i"
    using accounted_iff [OF a Approve(2)] by (simp add: executed_stages_def)
  then have "Authorized \<in> executed_stages \<longleftrightarrow> (\<exists>x. gv_spent s x = Some i)"
    by (simp add: executed_stages_def)
  then show ?thesis unfolding Approve using a by (intro accounted_trans) simp_all
next
  case (Move i ag a' b es)
  then have "b \<in> executed_stages \<longleftrightarrow> (\<exists>x. gv_spent s x = Some i)"
    using accounted_iff [OF a Move(2)] moves_executed by blast
  then show ?thesis unfolding Move using a by (intro accounted_trans) simp_all
next
  case (Execute i ag x)
  have n: "\<nexists>y. gv_spent s y = Some i"
    using accounted_iff [OF a Execute(2)] by (simp add: executed_stages_def)
  have "Executing \<in> executed_stages" by (simp add: stage_set_defs)
  then show ?thesis
    unfolding Execute(1) using a n Execute(2,3)
    by (auto simp: accounted_def) (metis option.distinct(1))
qed

text \<open>Stages only rise, agents never change, final stages stay, spent stays spent, the log only grows.\<close>

definition grows :: "gov \<Rightarrow> gov \<Rightarrow> bool" where
  "grows s s' \<longleftrightarrow>
     (\<forall>i ag a. gv_trans s i = Some (ag, a) \<longrightarrow>
        (\<exists>b. gv_trans s' i = Some (ag, b) \<and> (b = a \<or> a < b \<and> a \<notin> final_stages)))
     \<and> (\<forall>x i. gv_spent s x = Some i \<longrightarrow> gv_spent s' x = Some i)
     \<and> (\<exists>es. gv_log s' = gv_log s @ es)"

lemma growsD:
  "grows s s' \<Longrightarrow> gv_trans s i = Some (ag, a)
    \<Longrightarrow> \<exists>b. gv_trans s' i = Some (ag, b) \<and> (b = a \<or> a < b \<and> a \<notin> final_stages)"
  unfolding grows_def by blast

lemma grows_refl: "grows s s"
  by (auto simp: grows_def)

lemma grows_trans:
  assumes "grows r s" and "grows s t"
  shows "grows r t"
proof -
  have "\<exists>c. gv_trans t i = Some (ag, c) \<and> (c = a \<or> a < c \<and> a \<notin> final_stages)"
    if h: "gv_trans r i = Some (ag, a)" for i ag a
  proof -
    obtain b where b: "gv_trans s i = Some (ag, b)" "b = a \<or> a < b \<and> a \<notin> final_stages"
      using growsD [OF assms(1) h] by blast
    obtain c where c: "gv_trans t i = Some (ag, c)" "c = b \<or> b < c \<and> b \<notin> final_stages"
      using growsD [OF assms(2) b(1)] by blast
    then show ?thesis using b(2) less_trans [of a b c] by blast
  qed
  moreover have "\<exists>es. gv_log t = gv_log r @ es" using assms by (force simp: grows_def)
  ultimately show ?thesis using assms unfolding grows_def by blast
qed

lemma moves_grows: "moves a b \<Longrightarrow> a < b \<and> a \<notin> final_stages"
  by (simp add: moves_def final_stages_def)

lemma low_stage:
  "stage.Pending_Approval < Authorized" "Authorized < Executing"
  "stage.Pending_Approval \<notin> final_stages" "Authorized \<notin> final_stages"
  by (simp_all add: less_stage_def final_stages_def)

lemma grows_step: "gov_step s s' \<Longrightarrow> grows s s'"
proof (induction rule: gov_step.induct)
  case (Move s i ag a b es)
  then show ?case using moves_grows by (auto simp: grows_def)
qed (auto simp: grows_def low_stage)

lemma gov_run_induct [consumes 1, case_names start step]:
  assumes "gov_run s s'" and "P s" and "\<And>t u. P t \<Longrightarrow> gov_step t u \<Longrightarrow> P u"
  shows "P s'"
  using assms(1) unfolding gov_run_def
  by (induction rule: rtranclp_induct) (use assms(2,3) in blast)+

lemma grows_run: "gov_run s s' \<Longrightarrow> grows s s'"
  by (induction rule: gov_run_induct) (blast intro: grows_refl grows_trans grows_step)+

lemma permitted_run: "gov_run s s' \<Longrightarrow> permitted s \<Longrightarrow> permitted s'"
  by (induction rule: gov_run_induct) (blast intro: permitted_step)+

lemma accounted_run: "gov_run s s' \<Longrightarrow> accounted s \<Longrightarrow> accounted s'"
  by (induction rule: gov_run_induct) (blast intro: accounted_step)+

lemma gov_start_ok: "gov_start s \<Longrightarrow> permitted s" "gov_start s \<Longrightarrow> accounted s"
  by (simp_all add: gov_start_def permitted_def accounted_def)

end
