(* ===== verification/System.thy ===== *)
theory System
  imports Authorizations Governance_Spec
begin

section \<open>The whole system\<close>

text \<open>
  The operations of the engines and of the repositories, interleaved in any order: every call is one atomic step
  (each runs in one transaction), and any principal may make any call with any arguments. An operation
  that raises leaves the database as it was, so only successful calls are steps. \<open>sys_step\<close>
  is the step relation; \<open>governance\<close> abstracts a database to the state of \<open>Governance_Spec\<close>, and
  \<open>system_refines_governance\<close> shows that every step is a step of that specification.

  One operation that writes the database is no step of this relation: the import of a package (\<open>import_as_fork\<close>
  of Packages), which commits several times and may raise in between. It changes no transition, authorization,
  approval or event, but it may break the acyclicity of the graph. The theory Integrity adds it to the runs.
\<close>

text \<open>The administrative operations of the repositories. Roles and their bindings may change at will.\<close>

inductive admin :: "db \<Rightarrow> db \<Rightarrow> bool" where
  Project: "create_project d e a b = Inr (d', r) \<Longrightarrow> admin d d'"
| Lattice: "create_lattice d e a b = Inr (d', r2) \<Longrightarrow> admin d d'"
| Branch: "create_branch d e a b c = Inr (d', r3) \<Longrightarrow> admin d d'"
| Principal: "insert_principal d e a b c f g = Inr (d', r4) \<Longrightarrow> admin d d'"
| Policy: "insert_policy d e p = Inr (d', r5) \<Longrightarrow> admin d d'"
| Policy_Status: "update_policy_status d e a st = (d', ok) \<Longrightarrow> admin d d'"
| Policy_Approval: "approve_policy d e a b c = Inr (d', ok) \<Longrightarrow> admin d d'"
| Quarantine: "mark_quarantined d a = (d', ok) \<Longrightarrow> admin d d'"
| At_Risk: "mark_at_risk d a = (d', ok) \<Longrightarrow> admin d d'"
| Claim: "claim_region_sqlite d e a b c = Inr (d', r6) \<Longrightarrow> admin d d'"
| Release: "release_claim d e a = (d', ok) \<Longrightarrow> admin d d'"
| Roles: "admin d (d\<lparr>roles := rs, role_bindings := bs\<rparr>)"

inductive sys_step :: "(string \<Rightarrow> string) \<Rightarrow> db \<Rightarrow> db \<Rightarrow> bool" for sha where
  Propose: "propose lib svc pe d e ag br tool args key eh ev = Inr (d', t) \<Longrightarrow> sha256 lib = sha
     \<Longrightarrow> sys_step sha d d'"
| Approve: "approve sha svc d e tid by ty reason = Inr (d', t) \<Longrightarrow> sys_step sha d d'"
| Deny: "deny_approval sha svc d e tid by reason = Inr (d', t) \<Longrightarrow> sys_step sha d d'"
| Cancel: "cancel sha svc d e tid by = Inr (d', t) \<Longrightarrow> sys_step sha d d'"
| Result: "record_result sha svc d e tid x m n = Inr (d', t) \<Longrightarrow> sys_step sha d d'"
| Reconcile: "reconcile sha svc d e tid st rs cm bd bt md eh ev l = (d', res) \<Longrightarrow> sys_step sha d d'"
| Commit: "commit sha svc d e tid bid ag desc bt md eh v l = Inr (d', cr) \<Longrightarrow> sys_step sha d d'"
| Issue: "issue_authorization lb h ttl d tm xid nonce tid ag pid bid aud tool ph ms cap = Inr (d', k)
     \<Longrightarrow> sys_step sha d d'"
| Claim: "verify_and_claim lb d e i text ph proxy key = Inr (d', cl) \<Longrightarrow> sys_step sha d d'"
| Event: "write_event sha svc d (now (e :: env)) (ids e 0) l ty data by caller = Inr (d', evt) \<Longrightarrow> sys_step sha d d'"
| Expire: "advance_stage d e tid Expired = Inr (d', t) \<Longrightarrow> sys_step sha d d'"
| Admin: "admin d d' \<Longrightarrow> sys_step sha d d'"

subsection \<open>The abstraction\<close>

definition governance :: "db \<Rightarrow> gov" where
  "governance d = \<lparr> gv_trans = (\<lambda>i. map_option (\<lambda>t. (t_agent_id t, t_stage t)) (get_transition d i)),
     gv_spent = (\<lambda>x. case get_authorization d x of
                        Some a \<Rightarrow> if a_used a then Some (a_transition_id a) else None | None \<Rightarrow> None),
     gv_log = events d \<rparr>"

lemma governance_simps [simp]:
  "gv_trans (governance d) i = map_option (\<lambda>t. (t_agent_id t, t_stage t)) (get_transition d i)"
  "gv_log (governance d) = events d"
  by (simp_all add: governance_def)

lemma governance_record:
  assumes "\<And>i. gv_trans (governance d') i = gv_trans (governance d) i"
    and "gv_spent (governance d') = gv_spent (governance d)" and "events d' = events d @ es"
  shows "gov_step (governance d) (governance d')"
proof -
  have "governance d' = (governance d)\<lparr>gv_log := gv_log (governance d) @ es\<rparr>"
    using assms by (intro gov.equality) (auto simp: governance_def)
  then show ?thesis by (metis gov_step.Record)
qed

text \<open>One transition changes its stage, the authorizations stay.\<close>

lemma governance_one:
  assumes "\<And>j. get_transition d' j = (if j = i then Some t' else get_transition d j)"
    and "authorizations d' = authorizations d" and "events d' = events d @ es"
  shows "governance d' = (governance d)\<lparr>gv_trans := (gv_trans (governance d))(i \<mapsto> (t_agent_id t', t_stage t')),
           gv_log := gv_log (governance d) @ es\<rparr>"
  using assms by (intro gov.equality) (auto simp: governance_def get_authorization_def)

lemma legal_moves_spec:
  "is_legal_transition a b \<Longrightarrow> b \<notin> {stage.Pending_Approval, Authorized, Executing} \<Longrightarrow> moves a b"
  by (auto simp: is_legal_transition_def legal_transitions_def moves_def less_stage_def)

lemma governance_move:
  assumes "get_transition d i = Some t" and "moves (t_stage t) (t_stage t')" and "t_agent_id t' = t_agent_id t"
    and "\<And>j. get_transition d' j = (if j = i then Some t' else get_transition d j)"
    and "authorizations d' = authorizations d" and "events d' = events d @ es"
  shows "gov_step (governance d) (governance d')"
  unfolding governance_one [OF assms(4-6)] assms(3)
  by (rule gov_step.Move) (use assms(1,2) in simp_all)

subsection \<open>Every operation is a step of the specification\<close>

lemma map_of_sorted_obj:
  assumes "distinct (map fst kvs)"
  shows "sort_keys (JObj kvs) = JObj kvs' \<Longrightarrow> map_of kvs' k = map_option sort_keys (map_of kvs k)"
proof -
  assume "sort_keys (JObj kvs) = JObj kvs'"
  then have "kvs' = sort_items (map (\<lambda>(k, v). (k, sort_keys v)) kvs)" by simp
  moreover have "map fst (map (\<lambda>(k, v). (k, sort_keys v)) kvs) = map fst kvs" by (induction kvs) auto
  ultimately show ?thesis using assms by (simp add: sort_items_map_of map_of_sorted_keys del: map_map)
qed

lemma about_event:
  assumes "ev_event_data ev = sort_keys (JObj kvs)" and "distinct (map fst kvs)"
    and "map_of kvs ''transition_id'' = Some (JStr i)"
  shows "about ev i"
  unfolding about_def using assms map_of_sorted_obj [OF assms(2)] by (intro exI conjI) (auto simp del: map_map)

lemma propose_refines:
  assumes k: "keys_ok d" and p: "propose lib svc pe d e ag br tool args key eh ev = Inr (d', t')"
  shows "gov_step (governance d) (governance d')"
proof (cases "replayed d key")
  case True
  then have "d' = d" using propose_replayed [OF True, of lib svc pe e ag br tool args eh ev] p by simp
  then show ?thesis using governance_record [of d d "[]"] by simp
next
  case False
  show ?thesis
  proof (rule propose_Inr [OF k False p], goal_cases)
    case (1 c h v evt hs as aps)
    have id: "t_id t' = ids e 0" "t_agent_id t' = ag" by (simp_all add: 1(4) proposed_row_def)
    have none: "get_transition d (ids e 0) = None"
      using 1(6) by (auto simp: get_transition_def row_get_None)
    have get: "get_transition d' j = (if j = ids e 0 then Some t' else get_transition d j)" for j
      using none by (auto simp: 1(5) id get_transition_def row_get_append split: option.splits)
    have st: "t_stage t' = verdict_stage (v_result v)" by (simp add: 1(4))
    have "permits evt (ids e 0) ag" if "t_stage t' = Authorized"
    proof -
      have "about evt (ids e 0)"
        by (rule about_event [OF 1(10) [unfolded proposal_event_def]]) simp_all
      moreover have "ev_event_type evt = ''transition.authorized''"
        using that st 1(8) by (auto simp: verdict_stage_def verdict_type_def split: if_splits)
      ultimately show ?thesis using 1(9) by (simp add: permits_def)
    qed
    moreover have "t_stage t' \<in> {Denied, stage.Pending_Approval, Authorized}"
      by (simp add: st verdict_stage_def)
    moreover have "governance d' = (governance d)\<lparr>gv_trans := (gv_trans (governance d))(ids e 0 \<mapsto> (ag, t_stage t')),
           gv_log := gv_log (governance d) @ [evt]\<rparr>"
      using governance_one [OF get, of "[evt]"] by (simp add: 1(5) id)
    ultimately show ?case
      using none by (simp only:) (rule gov_step.Propose, simp_all)
  qed
qed

lemma approve_refines:
  assumes k: "keys_ok d" and c: "approve sha svc d e tid by ty reason = Inr (d', t')"
  shows "gov_step (governance d) (governance d')"
proof (rule approve_steps [OF c], goal_cases)
  case (1 t r d1 r')
  note S = 1
  show ?case
  proof (rule decide_and_log [OF k 1(5,6,7,1)], goal_cases)
    case (1 ev hs)
    have get: "get_transition d' j = (if j = tid then Some t' else get_transition d j)" for j
      using S(1) by (simp add: 1(1,3) get_transition_def staged_get)
    have g: "governance d' = (governance d)\<lparr>gv_trans := (gv_trans (governance d))(tid \<mapsto> (t_agent_id t, Authorized)),
           gv_log := gv_log (governance d) @ [ev]\<rparr>"
      using governance_one [OF get, of "[ev]"] by (simp add: 1(1,3))
    have "about ev tid" by (rule about_event [OF 1(6) [unfolded approved_event_def]]) simp_all
    then have "permits ev tid (t_agent_id t)" using 1(4,5) S(3) by (simp add: permits_def)
    then show ?case unfolding g by (intro gov_step.Approve) (use S(1,2) in simp_all)
  qed
qed

lemma deny_refines:
  assumes k: "keys_ok d" and c: "deny_approval sha svc d e tid by reason = Inr (d', t')"
  shows "gov_step (governance d) (governance d')"
proof (rule deny_approval_steps [OF c], goal_cases)
  case (1 t r d1 r')
  note S = 1
  show ?case
  proof (rule decide_and_log [OF k 1(4,5,6,1)], goal_cases)
    case (1 ev hs)
    show ?case
      by (rule governance_move [OF S(1), of t'])
        (use S 1 in \<open>simp_all add: get_transition_def staged_get moves_def less_stage_def\<close>)
  qed
qed

lemma cancel_refines:
  assumes c: "cancel sha svc d e tid by = Inr (d', t')"
  shows "gov_step (governance d) (governance d')"
proof (rule cancel_steps [OF c], elim advance_and_log_Inr, goal_cases)
  case (1 t t2 ev hs)
  then have "moves (t_stage t2) Cancelled" by (intro legal_moves_spec) simp_all
  then show ?case
    by (intro governance_move [OF 1(4), of t'])
      (use 1 in \<open>simp_all add: get_transition_def staged_get\<close>)
qed

lemma expire_refines:
  assumes "advance_stage d e tid Expired = Inr (d', t')"
  shows "gov_step (governance d) (governance d')"
proof (rule advance_stage_Inr [OF assms], goal_cases)
  case (1 t)
  then have "moves (t_stage t) Expired" by (intro legal_moves_spec) simp_all
  then show ?case
    by (intro governance_move [OF 1(1), of t' d' "[]"]) (use 1 in \<open>simp_all add: get_transition_def staged_get\<close>)
qed

lemma record_result_refines:
  assumes "keys_ok d" and "record_result sha svc d e tid x m n = Inr (d', t')"
  shows "gov_step (governance d) (governance d')"
proof (rule record_result_Inr [OF assms], goal_cases)
  case (1 t ev hs ts)
  have "moves (t_stage t) (t_stage t')"
    using 1(2,3) by (simp add: moves_def less_stage_def result_stage_def)
  then show ?case
    by (intro governance_move [OF 1(1), of t'])
      (use 1 in \<open>simp_all add: get_transition_def\<close>)
qed

lemma commit_refines:
  assumes k: "keys_ok d" and c: "commit sha svc d e tid bid ag desc bt md eh ev l = Inr (d', res)"
    and extra: "\<And>j. get_transition d2 j = map_option (\<lambda>t. if j = tid then set_flag x b t else t) (get_transition d' j)
        \<or> get_transition d2 j = get_transition d' j"
      "authorizations d2 = authorizations d'" "events d2 = events d' @ es"
  shows "gov_step (governance d) (governance d2)"
proof (rule commit_Inr [OF k c], goal_cases)
  case (1 t r ns es' evt hs)
  let ?t = "set_stage (now e) Succeeded (set_result (now e) ''success'' desc (Some (ids e 0)) t)"
  have get: "get_transition d' j = (if j = tid then Some ?t else get_transition d j)" for j
    using 1(1) by (simp add: 1(7) get_transition_def commit_transitions_get)
  have mv: "moves (t_stage t) Succeeded" using 1(2) by (auto simp: moves_def less_stage_def committable_def)
  have g: "gv_trans (governance d2) j = (if j = tid then Some (t_agent_id t, Succeeded) else gv_trans (governance d) j)" for j
    using extra(1) [of j] get [of j] by (auto simp: option.map_comp comp_def)
  have "governance d2 = (governance d)\<lparr>gv_trans := (gv_trans (governance d))(tid \<mapsto> (t_agent_id t, Succeeded)),
           gv_log := gv_log (governance d) @ [evt] @ es\<rparr>"
    using g extra(2,3) 1(7)
    by (intro gov.equality ext) (simp_all add: governance_def get_authorization_def)
  then show ?case using gov_step.Move [of "governance d" tid "t_agent_id t" "t_stage t" Succeeded] mv 1(1) by simp
qed

lemma reconcile_refines:
  assumes k: "keys_ok d" and c: "reconcile sha svc d e tid st rs cm bd bt md eh ev l = (d', res)"
  shows "gov_step (governance d) (governance d')"
proof (rule reconcile_cases [OF k c], goal_cases)
  case 1
  then show ?case using governance_record [of d d "[]"] by simp
next
  case (2 t evt hs)
  have "moves (t_stage t) Failed" using 2(3) by (simp add: moves_def less_stage_def)
  then show ?case
    by (intro governance_move [OF 2(2), of "set_flag (now e) False (set_stage (now e) Failed t)"])
      (use 2 in \<open>simp_all add: get_transition_def flagged_get staged_get\<close>)
next
  case (3 t evt hs)
  then show ?case
    by (intro governance_record [of _ _ "[evt]"])
      (simp_all add: get_transition_def flagged_get governance_def get_authorization_def)
next
  case (4 t c desc md' eh' ev' l' dc cr)
  then show ?case by (intro commit_refines [OF k 4(5)]) simp_all
next
  case (5 t c desc md' eh' ev' l' dc cr t' evt hs)
  then show ?case
    by (intro commit_refines [OF k 5(5), of _ "now e" False "[evt]"])
      (simp_all add: get_transition_def flagged_get)
qed

lemma claim_refines:
  assumes k: "keys_ok d" and c: "verify_and_claim lb d e i text ph proxy key = Inr (d', res)"
  shows "gov_step (governance d) (governance d')"
proof (cases res)
  case None
  with c have "d' = d" by (auto dest: verify_and_claim_None)
  then show ?thesis using governance_record [of d d "[]"] by simp
next
  case (Some r)
  show ?thesis
  proof (rule verify_and_claim_Some [OF c [unfolded Some]], rule claim_and_advance_Some [OF k], assumption, goal_cases)
    case (1 data stored a a0 t as ts)
    have t: "gv_trans (governance d) (a_transition_id a0) = Some (t_agent_id t, Authorized)"
      using 1(11,12) by simp
    have x: "gv_spent (governance d) i = None"
      using 1(8,9) by (simp add: governance_def claim_guard_def)
    have "governance d' = (governance d)\<lparr>gv_trans := (gv_trans (governance d))(a_transition_id a0 \<mapsto> (t_agent_id t, Executing)),
             gv_spent := (gv_spent (governance d))(i \<mapsto> a_transition_id a0)\<rparr>"
      using 1(10,13,14,15) 
      by (intro gov.equality ext) (simp_all add: governance_def get_transition_def get_authorization_def)
    then show ?case using gov_step.Execute [OF t x] by simp
  qed
qed

lemma issue_refines:
  assumes "issue_authorization lb h ttl d tm xid nonce tid ag pid bid aud tool ph ms cap = Inr (d', k)"
  shows "gov_step (governance d) (governance d')"
proof (rule issue_authorization_Inr [OF assms], goal_cases)
  case (1 row)
  have "gv_spent (governance d') x = gv_spent (governance d) x" for x
    using issued_row(1,2) [OF assms] issued_row(3) [OF assms, of x] by (cases "x = xid 0") (simp_all add: governance_def authorization_of_def)
  then show ?case
    by (intro governance_record [of _ _ "[]"]) (use 1(2) in \<open>auto simp: get_transition_def\<close>)
qed

lemma write_event_refines:
  assumes "write_event sha svc d tm i l ty data by caller = Inr (d', evt)"
  shows "gov_step (governance d) (governance d')"
  by (rule write_event_frame [OF assms], rule governance_record [of _ _ "[evt]"])
    (simp_all add: governance_def get_transition_def get_authorization_def)

text \<open>What an administrative operation leaves alone.\<close>

lemma admin_frame:
  assumes "admin d d'"
  shows "transitions d' = transitions d \<and> authorizations d' = authorizations d \<and> events d' = events d
    \<and> heads d' = heads d \<and> edges d' = edges d \<and> map n_id (nodes d') = map n_id (nodes d)
    \<and> approvals d' = approvals d"
  using assms
  by (cases rule: admin.cases)
    (auto simp: create_project_def create_lattice_def create_branch_def insert_principal_def insert_policy_def
      update_policy_status_def approve_policy_def mark_quarantined_def mark_at_risk_def claim_region_sqlite_def
      release_claim_def store_simps split: if_splits)

lemma policy_table_keys:
  "(\<And>r. policy_key (f r) = policy_key r)
   \<Longrightarrow> map (\<lambda>r. p_id (pol_policy r)) (fst (row_update policy_key p g f rows)) = map (\<lambda>r. p_id (pol_policy r)) rows"
  using row_update_keys [of policy_key f p g rows] by (simp add: policy_key_def [abs_def])

lemma update_policy_status_keys: "keys_ok d \<Longrightarrow> keys_ok (fst (update_policy_status d e p s))"
  by (simp add: update_policy_status_def keys_ok_def split_beta policy_table_keys policy_key_def)

lemma approve_policy_keys: "approve_policy d e p a b = Inr (d', x) \<Longrightarrow> keys_ok d \<Longrightarrow> keys_ok d'"
  by (auto simp: approve_policy_def keys_ok_def split_beta policy_table_keys policy_key_def)

lemma admin_keys:
  assumes "admin d d'" and k: "keys_ok d"
  shows "keys_ok d'"
  using assms(1)
proof (cases rule: admin.cases)
  case (Policy_Status e a st ok)
  then show ?thesis using update_policy_status_keys [OF k, of e a st] by simp
next
  case (Quarantine a ok)
  then show ?thesis using mark_quarantined_keys [OF k, of a] by simp
next
  case (At_Risk a ok)
  then show ?thesis using mark_at_risk_keys [OF k, of a] by simp
next
  case (Release e a ok)
  then show ?thesis using release_claim_keys [OF k, of e a] by simp
next
  case (Roles rs bs)
  then show ?thesis using k by (simp add: keys_ok_def)
qed (use k in \<open>auto intro: wf_intros approve_policy_keys\<close>)

lemma sys_step_refines:
  assumes "keys_ok d" and "sys_step sha d d'"
  shows "gov_step (governance d) (governance d')"
  using assms(2)
proof (cases rule: sys_step.cases)
  case Admin
  then show ?thesis
    using admin_frame [OF Admin]
    by (intro governance_record [of _ _ "[]"]) (simp_all add: governance_def get_transition_def get_authorization_def)
qed (blast intro: propose_refines approve_refines deny_refines cancel_refines expire_refines record_result_refines
      reconcile_refines commit_refines claim_refines issue_refines write_event_refines assms(1))+

text \<open>The integrity of the database, and the life of its transitions.\<close>

definition intact :: "(string \<Rightarrow> string) \<Rightarrow> db \<Rightarrow> bool" where
  "intact sha d \<longleftrightarrow> keys_ok d \<and> chain_ok sha d \<and> dag_ok d"

text \<open>The same for a graph whose edges in \<open>E\<close> came from somewhere else.\<close>

definition intact_apart :: "(string \<times> string) set \<Rightarrow> (string \<Rightarrow> string) \<Rightarrow> db \<Rightarrow> bool" where
  "intact_apart E sha d \<longleftrightarrow> keys_ok d \<and> chain_ok sha d \<and> dag_apart E d"

lemma intact_apart_none [simp]: "intact_apart {} sha d = intact sha d"
  by (simp add: intact_apart_def intact_def)


lemma intact_cong:
  assumes "keys_ok d'" and "events d' = events d" and "heads d' = heads d" and "edges d' = edges d"
    and "map n_id (nodes d') = map n_id (nodes d)" and "intact_apart E sha d"
  shows "intact_apart E sha d'"
  using assms chain_ok_cong [of d' d sha] dag_apart_cong [of d' d E] by (simp add: intact_apart_def)

lemma intactI:
  assumes "keys_ok d'" and "chain_ok sha d \<Longrightarrow> chain_ok sha d'" and "edges d' = edges d"
    and "map n_id (nodes d') = map n_id (nodes d)" and "intact_apart E sha d"
  shows "intact_apart E sha d'"
  using assms dag_apart_cong [of d' d E] by (simp add: intact_apart_def)

lemma decide_graph:
  "decide d e i by c x = Inr (d', r) \<Longrightarrow> edges d' = edges d \<and> nodes d' = nodes d"
  by (auto simp: decide_def split_beta split: if_splits)

lemma advance_and_log_graph:
  assumes "advance_and_log sha svc d e i s eid br ty actor data = Inr (d', t')"
  shows "edges d' = edges d \<and> nodes d' = nodes d"
  by (rule advance_and_log_Inr [OF assms]) simp

lemma propose_graph:
  assumes "keys_ok d" and p: "propose lib svc pe d e ag br tool args key eh ev = Inr (d', t')"
  shows "edges d' = edges d \<and> nodes d' = nodes d"
proof (cases "replayed d key")
  case True
  then show ?thesis using propose_replayed [OF True, of lib svc pe e ag br tool args eh ev] p by simp
next
  case False
  show ?thesis by (rule propose_Inr [OF assms(1) False p]) simp
qed

lemma reconcile_dag:
  assumes k: "keys_ok d" and g: "dag_apart E d"
    and c: "reconcile sha svc d e tid st rs cm bd bt md eh ev l = (d', res)"
  shows "dag_apart E d'"
proof (rule reconcile_cases [OF k c], goal_cases)
  case (2 t evt hs)
  then show ?case using g dag_apart_cong [of d' d E] by simp
next
  case (3 t evt hs)
  then show ?case using g dag_apart_cong [of d' d E] by simp
next
  case (4 t c desc md' eh' ev' l' dc cr)
  then show ?case using commit_dag_apart [OF k g 4(5)] by simp
next
  case (5 t c desc md' eh' ev' l' dc cr t' evt hs)
  then show ?case using commit_dag_apart [OF k g 5(5)] dag_apart_cong [of d' dc E] by simp
qed (use g in simp)

lemma sys_step_intact_apart:
  assumes i: "intact_apart E sha d" and s: "sys_step sha d d'"
  shows "intact_apart E sha d'"
proof -
  have k: "keys_ok d" and g: "dag_apart E d" and ch: "chain_ok sha d" using i by (simp_all add: intact_apart_def)
  from s show ?thesis
  proof (cases rule: sys_step.cases)
    case (Propose lib svc pe e ag br tool args key eh ev t)
    show ?thesis
      by (rule intactI [OF _ _ _ _ i])
        (use propose_lifecycle(3,4) [OF k Propose(1)] propose_graph [OF k Propose(1)] Propose(2) in auto)
  next
    case (Approve svc e tid who ty reason t)
    show ?thesis
      by (rule intactI [OF approve_lifecycle(3,4) [OF k Approve] _ _ i], assumption)
        (rule approve_steps [OF Approve], drule decide_graph, drule advance_and_log_graph, simp)+
  next
    case (Deny svc e tid who reason t)
    show ?thesis
      by (rule intactI [OF deny_approval_lifecycle(3,4) [OF k Deny] _ _ i], assumption)
        (rule deny_approval_steps [OF Deny], drule decide_graph, drule advance_and_log_graph, simp)+
  next
    case (Cancel svc e tid who t)
    show ?thesis
      by (rule intactI [OF cancel_lifecycle(3,4) [OF k Cancel] _ _ i], assumption)
        (rule cancel_steps [OF Cancel], drule advance_and_log_graph, simp)+
  next
    case (Result svc e tid x m n t)
    show ?thesis
      by (rule intactI [OF record_result_lifecycle(3,4) [OF k Result] _ _ i], assumption)
        (rule record_result_Inr [OF k Result], simp)+
  next
    case (Reconcile svc e tid st rs cm bd bt md eh ev l res)
    then show ?thesis
      using reconcile_lifecycle(3,4) [OF k Reconcile] reconcile_dag [OF k g Reconcile] ch by (simp add: intact_apart_def)
  next
    case (Commit svc e tid bid ag desc bt md eh v l cr)
    have "keys_ok d'" by (rule commit_Inr [OF k Commit])
    then show ?thesis
      using commit_chain_ok [OF Commit ch] commit_dag_apart [OF k g Commit] by (simp add: intact_apart_def)
  next
    case (Issue lb h ttl tm xid nonce tid ag pid bid aud tool ph ms cap kk)
    show ?thesis
      by (rule issue_authorization_Inr [OF Issue], intro intact_cong [OF issue_authorization_keys [OF Issue k] _ _ _ _ i])
        simp_all
  next
    case (Claim lb e i tx ph proxy key cl)
    have gr: "edges d' = edges d \<and> nodes d' = nodes d"
    proof (cases cl)
      case None
      with Claim show ?thesis by (auto dest: verify_and_claim_None)
    next
      case (Some r)
      show ?thesis
        by (rule verify_and_claim_Some [OF Claim [unfolded Some]], rule claim_and_advance_Some [OF k], assumption) simp
    qed
    show ?thesis
      by (rule intactI [OF verify_and_claim_lifecycle(3,4) [OF k Claim] _ _ i], assumption) (use gr in simp_all)
  next
    case (Event svc e l ty data who caller evt)
    show ?thesis
      by (rule intactI [OF write_event_keys [OF Event k] write_event_chain_ok [OF _ Event] _ _ i], assumption)
        (rule write_event_frame [OF Event], simp)+
  next
    case (Expire e tid t)
    show ?thesis
      by (rule advance_stage_Inr [OF Expire], rule intact_cong [OF _ _ _ _ _ i])
        (use k in \<open>simp_all add: keys_ok_transitions\<close>)
  next
    case Admin
    show ?thesis
      using admin_frame [OF Admin] by (intro intact_cong [OF admin_keys [OF Admin k] _ _ _ _ i]) simp_all
  qed
qed

lemma sys_step_intact: "intact sha d \<Longrightarrow> sys_step sha d d' \<Longrightarrow> intact sha d'"
  using sys_step_intact_apart [of "{}"] by simp


subsection \<open>Runs\<close>

definition reach :: "(string \<Rightarrow> string) \<Rightarrow> db \<Rightarrow> db \<Rightarrow> bool" where
  "reach sha = (sys_step sha)\<^sup>*\<^sup>*"

text \<open>A database in which nothing has been proposed yet.\<close>

definition fresh_db :: "(string \<Rightarrow> string) \<Rightarrow> db \<Rightarrow> bool" where
  "fresh_db sha d \<longleftrightarrow> intact sha d \<and> transitions d = [] \<and> authorizations d = []"

lemma reach_induct [consumes 2, case_names start step]:
  assumes "reach sha d d'" and "intact sha d"
    and "P d" and "\<And>d1 d2. intact sha d1 \<Longrightarrow> P d1 \<Longrightarrow> sys_step sha d1 d2 \<Longrightarrow> P d2"
  shows "P d' \<and> intact sha d'"
  using assms(1) unfolding reach_def
  by (induction rule: rtranclp_induct) (use assms(2-4) sys_step_intact in blast)+

lemma reach_gov:
  assumes "reach sha d d'" and "intact sha d"
  shows "gov_run (governance d) (governance d')"
proof -
  have "gov_run (governance d) (governance d') \<and> intact sha d'"
    using assms
  proof (induction rule: reach_induct)
    case (step d1 d2)
    then have "gov_step (governance d1) (governance d2)" using sys_step_refines by (auto simp: intact_def)
    with step(2) show ?case unfolding gov_run_def by (rule rtranclp.rtrancl_into_rtrancl)
  qed (simp add: gov_run_def)
  then show ?thesis ..
qed

lemma fresh_start: "fresh_db sha d \<Longrightarrow> gov_start (governance d)"
  by (simp add: fresh_db_def gov_start_def governance_def get_transition_def get_authorization_def fun_eq_iff)

lemma reach_permitted:
  assumes "fresh_db sha d" and "reach sha d d'"
  shows "permitted (governance d')" and "accounted (governance d')"
  using reach_gov [OF assms(2)] gov_start_ok [OF fresh_start [OF assms(1)]] assms(1) permitted_run accounted_run
  by (auto simp: fresh_db_def)










subsection \<open>A sample run: propose, issue, claim\<close>

definition sample_fresh :: db where
  "sample_fresh = (sample_db Executing)\<lparr>transitions := []\<rparr>"

lemma sample_fresh_ok [simp]: "fresh_db sha sample_fresh" "intact sha sample_fresh" "keys_ok sample_fresh"
proof -
  have k: "keys_ok sample_fresh" by (simp add: sample_fresh_def keys_ok_def sample_simps)
  moreover have "chain_ok sha sample_fresh"
    using sample_chain_ok [of sha Executing] chain_ok_cong [of sample_fresh "sample_db Executing" sha]
    by (simp add: sample_fresh_def)
  ultimately show "intact sha sample_fresh" "fresh_db sha sample_fresh" "keys_ok sample_fresh"
    by (simp_all add: fresh_db_def intact_def dag_ok_def) (simp_all add: sample_fresh_def sample_simps)
qed

lemma sample_fresh_propose:
  obtains d t where "sample_propose (Some sample_allow) sample_fresh ''n'' ''k2'' = Inr (d, t)"
    and "t_stage t = Authorized" and "t_id t = ''n''" and "t_agent_id t = ''ag''"
    and "get_transition d ''n'' = Some t"
    and "principals d = principals sample_fresh" and "projects d = projects sample_fresh"
    and "branches d = branches sample_fresh" and "authorizations d = []"
proof -
  have n: "\<not> replayed sample_fresh ''k2''"
    by (simp add: replayed_def get_by_idempotency_key_def sample_fresh_def sample_simps)
  have vp: "verify_proposal sample_libs (Some sample_allow) sample_fresh (sample_env i) ''ag'' ''b1'' no_classifier
      = verify_proposal sample_libs (Some sample_allow) (sample_db Executing) (sample_env i) ''ag'' ''b1'' no_classifier" for i
  proof -
    have "get_lattice sample_fresh = get_lattice (sample_db Executing)" "branches sample_fresh = branches (sample_db Executing)"
      by (simp_all add: get_lattice_def fun_eq_iff sample_fresh_def)
    then have "project_of_branch sample_fresh b = project_of_branch (sample_db Executing) b" for b
      by (simp only: project_of_branch_def get_branch_def)
    then show ?thesis by (simp only: verify_proposal_def)
  qed
  let ?r = "sample_propose (Some sample_allow) sample_fresh ''n'' ''k2''"
  have "\<exists>p. ?r = Inr p"
    using sample_verdict_allow [of Executing "''n''"] unfolding vp [symmetric]
    by (simp add: sample_propose_def propose_eq [OF n] proposal_def advance_and_log_def sample_classify
        sample_libs_def json_canonical_hash_def sample_run sample_simps sample_fresh_def)
  then obtain d t where r: "?r = Inr (d, t)" by (metis prod.exhaust)
  have v: "v = \<lparr> v_result = ''admissible'', v_versions = [(''p1'', 0)],
           v_set_hash = Some (compute_policy_set_hash sample_sha [(''p1'', 0)]), v_approval_policies = [] \<rparr>"
    if "verify_proposal sample_libs (Some sample_allow) sample_fresh (sample_env ''n'') ''ag'' ''b1'' c = Inr v"
      "classify None ''custom'' [] = Inr c" for v c
    using that vp [of "''n''"] sample_verdict_allow [of Executing "''n''"] sample_classify by simp
  show thesis
  proof (rule propose_Inr [OF sample_fresh_ok(3) n r [unfolded sample_propose_def]], goal_cases)
    case (1 c h v' evt hs as aps)
    have "v_result v' = ''admissible''" using v [OF 1(3)] 1(1) by (simp add: sample_libs_def)
    then have st: "t_stage t = Authorized" "t_id t = ''n''" "t_agent_id t = ''ag''"
      by (simp_all add: 1(4) verdict_stage_def proposed_row_def sample_env_def)
    then show ?case
      by (intro that [OF r]) (simp_all add: 1(5) get_transition_def sample_fresh_def sample_simps row_get_def)
  qed
qed

lemma issue_authorization_ok:
  assumes "capability_admits (sg_fromiso lib) h t cap ag aud tool = Inr ()"
    and "has_transition d tid" and "has_principal d ag" and "has_project d pid" and "has_branch d bid"
    and "xid 0 \<notin> a_id ` set (authorizations d)"
  shows "\<exists>p. issue_authorization lib h ttl d t xid nonce tid ag pid bid aud tool ph ms cap = Inr p"
proof -
  have "insert_authorization d r = Inr (d\<lparr>authorizations := authorizations d @ [r]\<rparr>, r)"
    if "a_id r = xid 0" "a_transition_id r = tid" "a_agent_id r = ag" "a_project_id r = pid" "a_branch_id r = bid"
    for r :: authorization_row
    using that assms(2-6) by (simp add: insert_authorization_def check_fk_def requireE_def someE_def row_insert_def
        row_has_iff)
  then show ?thesis
    using assms(1) by (simp add: issue_authorization_def Let_def to_signed_token_def authorization_of_def)
qed

lemma reach_step: "reach sha d d1 \<Longrightarrow> sys_step sha d1 d2 \<Longrightarrow> reach sha d d2"
  unfolding reach_def by (rule rtranclp.rtrancl_into_rtrancl)

text \<open>A proposal in the fresh sample database and a token that is issued for it.\<close>

lemma sample_issued_run:
  obtains d1 d2 t k where "sys_step sample_sha sample_fresh d1"
    and "issue_authorization sample_auth_libs sample_host 300 d1 sample_instant (\<lambda>_. ''a2'') ''x''
      ''n'' ''ag'' ''p1'' ''b1'' ''proxy'' ''custom'' ph [] sample_capability = Inr (d2, k)"
    and "keys_ok d1" and "get_transition d1 ''n'' = Some t" and "t_stage t = Authorized"
    and "t_agent_id t = ''ag''"
proof -
  obtain d1 t where p: "sample_propose (Some sample_allow) sample_fresh ''n'' ''k2'' = Inr (d1, t)"
    and t: "t_stage t = Authorized" "t_id t = ''n''" "t_agent_id t = ''ag''" "get_transition d1 ''n'' = Some t"
    and f: "principals d1 = principals sample_fresh" "projects d1 = projects sample_fresh"
      "branches d1 = branches sample_fresh" "authorizations d1 = []"
    by (rule sample_fresh_propose)
  have s1: "sys_step sample_sha sample_fresh d1"
    by (rule sys_step.Propose [OF p [unfolded sample_propose_def]]) (simp add: sample_libs_def)
  have k1: "keys_ok d1" using sys_step_intact [OF sample_fresh_ok(2) s1] by (simp add: intact_def)
  have "capability_admits (sg_fromiso sample_auth_libs) sample_host sample_instant sample_capability ''ag''
      ''proxy'' ''custom'' = Inr ()"
    by (simp add: capability_admits_def require_binding_enforcement_def sample_capability_def for_test_def
        sample_auth_libs_def production_mode_def env_flag_def sample_host_def)
  moreover have "has_transition d1 ''n''"
    using row_get_SomeD [OF t(4) [unfolded get_transition_def]] by (force simp: has_transition_def row_has_iff)
  moreover have "has_principal d1 ''ag''" "has_project d1 ''p1''" "has_branch d1 ''b1''"
    using f by (simp_all add: sample_fresh_def sample_simps)
  ultimately have "\<exists>p. issue_authorization sample_auth_libs sample_host 300 d1 sample_instant (\<lambda>_. ''a2'') ''x''
      ''n'' ''ag'' ''p1'' ''b1'' ''proxy'' ''custom'' ph [] sample_capability = Inr p"
    using f(4) by (intro issue_authorization_ok) simp_all
  then show thesis using that [OF s1 _ k1 t(4,1,3)] by (metis prod.exhaust)
qed

lemma sample_run_steps:
  obtains d1 d2 d3 t where "reach sample_sha sample_fresh d3" and "sys_step sample_sha d1 d2"
    and "sys_step sample_sha d2 d3" and "sys_step sample_sha sample_fresh d1"
    and "get_transition d1 ''n'' = Some t" and "t_stage t = Authorized" and "t_agent_id t = ''ag''"
    and "get_transition d3 ''n'' = Some (set_stage (iso_utc (sample_instant + seconds 60)) Executing t)"
proof -
  obtain d1 d2 t k where s1: "sys_step sample_sha sample_fresh d1"
    and i: "issue_authorization sample_auth_libs sample_host 300 d1 sample_instant (\<lambda>_. ''a2'') ''x''
      ''n'' ''ag'' ''p1'' ''b1'' ''proxy'' ''custom'' ''ph'' [] sample_capability = Inr (d2, k)"
    and k1: "keys_ok d1" and t4: "get_transition d1 ''n'' = Some t" and t: "t_stage t = Authorized" "t_agent_id t = ''ag''"
    by (rule sample_issued_run)
  have "\<exists>d3 r. verify_and_claim sample_auth_libs d2 (env_at (sample_instant + seconds 60) (\<lambda>_. ''x1''))
           (tk_authorization_id k) (signed_text k) ''ph'' ''px'' ''key'' = Inr (d3, Some r)"
    using sample_representable [of 60]
    by (intro issued_token_claimable [OF k1 i _ sample_representable _ _ t4])
      (simp_all add: sample_auth_libs_def seconds_def t(1))
  then obtain d3 r where c: "verify_and_claim sample_auth_libs d2 (env_at (sample_instant + seconds 60) (\<lambda>_. ''x1''))
           (tk_authorization_id k) (signed_text k) ''ph'' ''px'' ''key'' = Inr (d3, Some r)" by blast
  have k2: "keys_ok d2" by (rule issue_authorization_keys [OF i k1])
  have kid: "tk_authorization_id k = ''a2''" using i by (rule issue_authorization_Inr)
  have ktr: "tk_transition_id k = ''n''" using i by (rule issue_authorization_Inr)
  have t2: "get_transition d2 ''n'' = Some t"
    by (rule issue_authorization_Inr [OF i]) (use t4 in \<open>simp add: get_transition_def\<close>)
  have "get_transition d3 ''n'' = Some (set_stage (iso_utc (sample_instant + seconds 60)) Executing t)"
  proof (rule verify_and_claim_Some [OF c], rule claim_and_advance_Some [OF k2], assumption, goal_cases)
    case (1 data stored a a0 t' as ts)
    have "a0 = authorization_of k (sg_sha sample_auth_libs (signed_text k)) (policy_versions [])"
      using 1(8) issued_row(2) [OF i] kid by simp
    then have "a_transition_id a0 = ''n''" using ktr by (simp add: authorization_of_def)
    then show ?case using 1(11,13,15) t2 by (simp add: get_transition_def)
  qed
  moreover have "reach sample_sha sample_fresh d1" using s1 by (simp add: reach_def)
  from reach_step [OF reach_step [OF this sys_step.Issue [OF i]] sys_step.Claim [OF c]]
  have "reach sample_sha sample_fresh d3" .
  ultimately show thesis
    using that s1 sys_step.Issue [OF i] sys_step.Claim [OF c] t4 t by blast
qed

subsection \<open>Properties of the whole system\<close>

text \<open>C21: the code refines the specification of governance. Every successful call of any operation, in any
  database that satisfies its keys, is one step of the abstract machine: a new proposal that is authorized
  only together with its permitting event, an approval by somebody else, a move along the life cycle, an
  execution that spends an unspent authorization, or the recording of events.\<close>

theorem system_refines_governance:
  assumes "keys_ok d" and "sys_step sha d d'"
  shows "gov_step (governance d) (governance d')"
  using assms by (rule sys_step_refines)

theorem system_refines_governance_witness:
  "\<exists>d. gov_step (governance sample_fresh) (governance d) \<and> gv_trans (governance d) ''n'' = Some (''ag'', Authorized)"
proof (rule sample_run_steps, goal_cases)
  case (1 d1 d2 d3 t)
  from system_refines_governance [OF sample_fresh_ok(3) 1(4)] 1(5-7) show ?case by (intro exI [of _ d1]) simp
qed

text \<open>C2: nothing runs without a recorded permission. In every reachable state, a transition that is authorized,
  executing, uncertain, succeeded or failed has an event in the audit log that names it, and that is either
  the authorization by policy of its own agent's proposal or an approval by another principal.\<close>

theorem authorized_has_audited_permission:
  assumes "fresh_db sha d" and "reach sha d d'" and "get_transition d' i = Some t"
    and "t_stage t \<in> {Authorized, Executing, Execution_Uncertain, Succeeded, Failed}"
  shows "\<exists>ev \<in> set (events d'). about ev i
    \<and> (ev_event_type ev = ''transition.authorized'' \<and> ev_actor_principal_id ev = t_agent_id t
       \<or> ev_event_type ev = ''transition.approved'' \<and> ev_actor_principal_id ev \<noteq> t_agent_id t)"
  using reach_permitted(1) [OF assms(1,2)] assms(3,4)
  by (auto simp: permitted_def permits_def permitted_stages_def)

theorem authorized_has_audited_permission_witness:
  "\<exists>d t. get_transition d ''n'' = Some t \<and> t_stage t = Executing \<and> (\<exists>ev \<in> set (events d). about ev ''n'')"
proof (rule sample_run_steps, goal_cases)
  case (1 d1 d2 d3 t)
  have "\<exists>ev \<in> set (events d3). about ev ''n''"
    using authorized_has_audited_permission [OF sample_fresh_ok(1) 1(1) 1(8)]
    by auto
  with 1(8) show ?case by (intro exI [of _ d3]) simp
qed

text \<open>C1: every execution is paid for with exactly one authorization. In every reachable state a transition is
  executing or past execution (uncertain, succeeded, failed) if and only if exactly one authorization that
  was issued for it has been claimed: no execution without a claim, no second claim, and no claim
  without an execution.\<close>

theorem executed_iff_one_authorization_spent:
  assumes "fresh_db sha d" and "reach sha d d'" and "get_transition d' i = Some t"
  shows "t_stage t \<in> {Executing, Execution_Uncertain, Succeeded, Failed} \<longleftrightarrow>
    (\<exists>!x. \<exists>a. get_authorization d' x = Some a \<and> a_used a \<and> a_transition_id a = i)"
proof -
  have a: "accounted (governance d')" by (rule reach_permitted(2) [OF assms(1,2)])
  have sp: "(gv_spent (governance d') x = Some i) =
      (\<exists>a. get_authorization d' x = Some a \<and> a_used a \<and> a_transition_id a = i)" for x
    by (auto simp: governance_def split: option.splits)
  have "t_stage t \<in> executed_stages \<longleftrightarrow> (\<exists>x. gv_spent (governance d') x = Some i)"
    by (rule accounted_iff [OF a, of _ "t_agent_id t"]) (simp add: assms(3))
  moreover have "x = y" if "gv_spent (governance d') x = Some i" "gv_spent (governance d') y = Some i" for x y
    using a that unfolding accounted_def by blast
  ultimately show ?thesis unfolding sp executed_stages_def by blast
qed

theorem executed_iff_one_authorization_spent_witness:
  "\<exists>d. \<exists>!x. \<exists>a. get_authorization d x = Some a \<and> a_used a \<and> a_transition_id a = ''n''"
proof (rule sample_run_steps, goal_cases)
  case (1 d1 d2 d3 t)
  from executed_iff_one_authorization_spent [OF sample_fresh_ok(1) 1(1) 1(8)]
  show ?case by (intro exI [of _ d3]) simp
qed

text \<open>What has happened stays. Along every run the agent of a transition does not change, its stage
  never falls back, a final stage (succeeded, failed, cancelled, expired, denied) is never left, a claimed
  authorization stays claimed for the same transition, and the audit log only grows at its end.\<close>

theorem history_is_kept:
  assumes "reach sha d d'" and "intact sha d" and "get_transition d i = Some t"
  shows "(\<exists>t'. get_transition d' i = Some t' \<and> t_agent_id t' = t_agent_id t \<and> t_stage t \<le> t_stage t'
            \<and> (t_stage t \<in> set terminal_stages \<longrightarrow> t_stage t' = t_stage t))
       \<and> (\<exists>es. events d' = events d @ es)"
proof -
  have g: "grows (governance d) (governance d')" by (rule grows_run [OF reach_gov [OF assms(1,2)]])
  from growsD [OF g, of i "t_agent_id t" "t_stage t"] assms(3) obtain t' where
    "get_transition d' i = Some t'" "t_agent_id t' = t_agent_id t"
    "t_stage t' = t_stage t \<or> t_stage t < t_stage t' \<and> t_stage t \<notin> final_stages" by auto
  moreover have "set terminal_stages = final_stages" by (auto simp: terminal_stages_def final_stages_def)
  moreover have "\<exists>es. events d' = events d @ es" using g by (auto simp: grows_def)
  ultimately show ?thesis by auto
qed

theorem history_is_kept_witness:
  "\<exists>d d' t t'. get_transition d ''n'' = Some t \<and> t_stage t = Authorized \<and> get_transition d' ''n'' = Some t'
     \<and> t_stage t \<le> t_stage t' \<and> t_stage t' = Executing"
proof (rule sample_run_steps, goal_cases)
  case (1 d1 d2 d3 t)
  have "intact sample_sha d1" using sys_step_intact [OF sample_fresh_ok(2) 1(4)] .
  moreover have "reach sample_sha d1 d3"
    using reach_step [OF reach_step [OF _ 1(2)] 1(3), of d1] by (simp add: reach_def)
  ultimately show ?case
    using history_is_kept [of sample_sha d1 d3 "''n''" t] 1(5,6,8) by fastforce
qed



end
