(* ===== verification/Proxy.thy ===== *)
theory Proxy
  imports System
begin

section \<open>The governed proxy (proxy/base.py)\<close>

text \<open>
  \<open>GovernedProxy.execute\<close>: verify the capability and the token, bind the token to the actual
  payload, revalidate the policies and claim the authorization, run the adapter, and record the
  outcome. The adapter and its validation are abstract methods of the class, so they are
  arguments here: \<open>adapter\<close> is what running it on this payload would give. \<open>execute\<close> returns the
  database, whether the adapter ran, and the result or the exception that leaves the method. The
  claim commits in its own transaction, and so does the recording: an exception after the claim
  does not undo it. Serialization conflicts do not occur, as steps are atomic.
\<close>

record execution_result =
  x_success :: bool
  x_exit_status :: string
  x_summary :: string
  x_attempt_id :: string
  x_rows :: int
  x_output :: "string option"

datatype adapter_outcome = Returned execution_result | Timed_Out | Raised

text \<open>The collaborators of the proxy: which are configured, and with which identities.\<close>

record proxy =
  px_audience :: string
  px_principal :: string
  px_transition_engine :: bool
  px_committer :: "string option"
  px_policies :: "policy list option"

definition failure :: "string \<Rightarrow> string \<Rightarrow> execution_result" where
  "failure attempt summary =
     \<lparr> x_success = False, x_exit_status = ''failure'', x_summary = summary, x_attempt_id = attempt,
       x_rows = 0, x_output = None \<rparr>"

text \<open>\<open>token.field\<close>, for the arguments that \<open>verify_token\<close> returns.\<close>

definition field :: "(string \<times> json) list \<Rightarrow> string \<Rightarrow> json" where
  "field tok f = (case map_of tok f of None \<Rightarrow> JNull | Some v \<Rightarrow> v)"

text \<open>A row looked up by a value of a token: only a string can be a key.\<close>

fun stage_of_id :: "db \<Rightarrow> json \<Rightarrow> stage option" where
  "stage_of_id d (JStr i) = map_option t_stage (get_transition d i)"
| "stage_of_id d _ = None"

subsection \<open>The checks before the claim\<close>

text \<open>Steps 1b to 4.5; \<open>None\<close> means that all of them pass.\<close>

definition capability_mismatch :: "capability \<Rightarrow> (string \<times> json) list \<Rightarrow> string option" where
  "capability_mismatch cap tok =
     (if \<not> cap_proxy_scoped cap then
        (if JStr (cap_agent_principal_id cap) \<noteq> field tok ''agent_id'' then Some ''agent'' else None)
      else if cap_proxy_audience cap \<noteq> [] \<and> field tok ''proxy_audience'' \<noteq> JStr (cap_proxy_audience cap)
        then Some ''audience''
      else if \<not> (cap_supported_action_types cap = []
                 \<or> field tok ''tool'' \<in> set (map JStr (cap_supported_action_types cap))) then Some ''tool''
      else None)"

definition not_authorized :: "proxy \<Rightarrow> db \<Rightarrow> (string \<times> json) list \<Rightarrow> string option" where
  "not_authorized px d tok =
     (if px_transition_engine px \<and> truthy (field tok ''transition_id'') then
        (case stage_of_id d (field tok ''transition_id'') of
           None \<Rightarrow> Some ''not found''
         | Some s \<Rightarrow> (if s \<noteq> Authorized then Some ''stage'' else None))
      else None)"

definition refusal :: "proxy \<Rightarrow> db \<Rightarrow> (string \<times> json) list \<Rightarrow> string \<Rightarrow> string option" where
  "refusal px d tok payload_hash =
     (if field tok ''payload_hash'' \<noteq> JStr payload_hash then Some ''payload hash''
      else if field tok ''proxy_audience'' \<noteq> JStr (px_audience px) then Some ''token audience''
      else not_authorized px d tok)"

text \<open>Step 5: the policies that are in force now, against the set the token was issued for.\<close>

definition blocked ::
  "libs \<Rightarrow> string \<Rightarrow> policy list option \<Rightarrow> (string \<times> json) list \<Rightarrow> (string \<times> json) list \<Rightarrow> string option" where
  "blocked lib t pe payload tok =
     (case pe of
        None \<Rightarrow> None
      | Some ps \<Rightarrow>
          (case (case field tok ''tool'' of JStr tool \<Rightarrow> classify_tool (sql_parser lib) tool payload | _ \<Rightarrow> None) of
             None \<Rightarrow> Some ''no classifier''
           | Some (Inl err) \<Rightarrow> Some ''classification failed''
           | Some (Inr c) \<Rightarrow>
               let r = evaluate (float_value lib) (cel_eval lib) t ps (action_type c) (canonical_resources c)
                         [(''agent_id'', field tok ''agent_id''), (''project_id'', field tok ''project_id''),
                          (''branch_id'', field tok ''branch_id'')]
               in if r_effect r = Deny \<or> r_effect r = Require_Approval then Some ''blocked by policy''
                  else if JStr (compute_policy_set_hash (sha256 lib) (matched_versions (r_matched r)))
                          \<noteq> field tok ''policy_set_hash'' then Some ''stale authorization''
                  else None))"

text \<open>Step 6: the claim.\<close>

definition attempt_env :: "env \<Rightarrow> env" where
  "attempt_env e = e\<lparr>ids := (\<lambda>n. ids e (n + 1))\<rparr>"

definition claim_of ::
  "auth_libs \<Rightarrow> db \<Rightarrow> env \<Rightarrow> (string \<times> json) list \<Rightarrow> string \<Rightarrow> string \<Rightarrow> string \<Rightarrow> string
   \<Rightarrow> claim_result option op" where
  "claim_of alib d e tok signed_token payload_hash proxy_principal key =
     (case field tok ''authorization_id'' of
        JStr i \<Rightarrow> verify_and_claim alib d e i signed_token payload_hash proxy_principal key
      | _ \<Rightarrow> Inr (d, None))"

subsection \<open>Recording the outcome\<close>

definition record_token_result ::
  "(string \<Rightarrow> string) \<Rightarrow> string \<Rightarrow> db \<Rightarrow> env \<Rightarrow> json \<Rightarrow> string \<Rightarrow> string \<Rightarrow> transition_row op" where
  "record_token_result sha svc d e tid exit_status summary =
     (case tid of JStr i \<Rightarrow> record_result sha svc d e i exit_status summary None
                | _ \<Rightarrow> Inl IllegalTransitionError)"

definition commit_token ::
  "(string \<Rightarrow> string) \<Rightarrow> string \<Rightarrow> db \<Rightarrow> env \<Rightarrow> json \<Rightarrow> string \<Rightarrow> commit_result op" where
  "commit_token sha committer d e tid summary =
     (case tid of
        JStr i \<Rightarrow>
          bindE (someE IllegalTransitionError (get_transition d i)) (\<lambda>t.
          let b = t_branch_id t; head = fst (get_head d b); version = snd (get_head d b) in
            commit sha committer d e i b (t_agent_id t) summary 0 (JObj [])
              (case t_expected_head_id t of Some h \<Rightarrow> Some h | None \<Rightarrow> head)
              (case t_expected_version t of Some v \<Rightarrow> v | None \<Rightarrow> version)
              (event_lattice d b))
      | _ \<Rightarrow> Inl IllegalTransitionError)"

definition record_outcome ::
  "(string \<Rightarrow> string) \<Rightarrow> string \<Rightarrow> proxy \<Rightarrow> db \<Rightarrow> env \<Rightarrow> json \<Rightarrow> string \<Rightarrow> execution_result
   \<Rightarrow> db \<times> (ep_error + execution_result)" where
  "record_outcome sha svc px d e tid attempt r =
     (if \<not> px_transition_engine px then (d, Inr r)
      else if x_exit_status r = ''success'' then
        (case px_committer px of
           None \<Rightarrow> (d, Inl EPError)
         | Some c \<Rightarrow>
             (case commit_token sha c d e tid (x_summary r) of
                Inr (d', _) \<Rightarrow> (d', Inr r)
              | Inl _ \<Rightarrow>
                  (case record_token_result sha svc d e tid ''timeout''
                          (''Governance commitment failed - manual reconciliation required (reference: '' @ attempt @ '')'') of
                     Inr (d', _) \<Rightarrow> d' | Inl _ \<Rightarrow> d,
                   Inr \<lparr> x_success = False, x_exit_status = ''uncertain'',
                         x_summary = ''Execution succeeded but governance commit failed - manual reconciliation required (reference: '' @ attempt @ '')'',
                         x_attempt_id = attempt, x_rows = 0, x_output = None \<rparr>)))
      else
        (case record_token_result sha svc d e tid
                (if x_exit_status r = ''failure'' then ''failure'' else ''timeout'') (x_summary r) of
           Inr (d', _) \<Rightarrow> (d', Inr r) | Inl err \<Rightarrow> (d, Inl err)))"

subsection \<open>Executing\<close>

definition outcome_result :: "string \<Rightarrow> adapter_outcome \<Rightarrow> execution_result" where
  "outcome_result attempt out =
     (case out of
        Returned r \<Rightarrow> r\<lparr>x_attempt_id := attempt\<rparr>
      | Timed_Out \<Rightarrow> \<lparr> x_success = False, x_exit_status = ''uncertain'',
                      x_summary = ''Execution timed out - outcome uncertain'', x_attempt_id = attempt,
                      x_rows = 0, x_output = None \<rparr>
      | Raised \<Rightarrow> failure attempt (''Execution error (reference: '' @ attempt @ '')''))"

text \<open>\<open>e\<close> gives the clock and the identifiers up to the claim, \<open>e2\<close> those of the recording, \<open>t\<close> the
  instant at which the token is verified.\<close>

definition execute ::
  "libs \<Rightarrow> auth_libs \<Rightarrow> host \<Rightarrow> string \<Rightarrow> proxy
   \<Rightarrow> ((string \<times> json) list \<Rightarrow> (string \<times> json) list \<Rightarrow> ep_error + string option)
   \<Rightarrow> ((string \<times> json) list \<Rightarrow> (string \<times> json) list \<Rightarrow> string \<Rightarrow> adapter_outcome)
   \<Rightarrow> db \<Rightarrow> nat \<Rightarrow> env \<Rightarrow> env \<Rightarrow> string \<Rightarrow> (string \<times> json) list \<Rightarrow> string \<Rightarrow> capability
   \<Rightarrow> db \<times> bool \<times> (ep_error + execution_result)" where
  "execute lib alib h svc px validate adapter d t e e2 signed_token payload key cap =
     (let attempt = ids e 0; refuse = (\<lambda>m. (d, False, Inr (failure attempt m))) in
      case require_binding_enforcement (sg_fromiso alib) h t cap of
        Inl _ \<Rightarrow> (d, False, Inr (failure [] ''capability''))
      | Inr _ \<Rightarrow>
     (case verify_token alib t signed_token key of
        Inl err \<Rightarrow> (d, False, Inl err)
      | Inr None \<Rightarrow> refuse ''token''
      | Inr (Some tok) \<Rightarrow>
     (case capability_mismatch cap tok of
        Some m \<Rightarrow> refuse m
      | None \<Rightarrow>
     (case json_canonical_hash (sha256 lib) (JObj payload) of
        Inl err \<Rightarrow> (d, False, Inl err)
      | Inr hash \<Rightarrow>
     let payload_hash = ''sha256:'' @ hash in
     (case refusal px d tok payload_hash of
        Some m \<Rightarrow> refuse m
      | None \<Rightarrow>
     (case blocked lib (now e) (px_policies px) payload tok of
        Some m \<Rightarrow> refuse m
      | None \<Rightarrow>
     (case validate payload tok of
        Inl err \<Rightarrow> (d, False, Inl err)
      | Inr (Some m) \<Rightarrow> refuse m
      | Inr None \<Rightarrow>
     (case claim_of alib d (attempt_env e) tok signed_token payload_hash (px_principal px) key of
        Inl err \<Rightarrow> (d, False, Inl err)
      | Inr (d1, None) \<Rightarrow> (d1, False, Inr (failure attempt ''claim''))
      | Inr (d1, Some claimed) \<Rightarrow>
     (case record_outcome (sha256 lib) svc px d1 e2 (field tok ''transition_id'') attempt
             (outcome_result attempt (adapter payload tok attempt)) of
        (d2, res) \<Rightarrow> (d2, True, res))))))))))"

subsection \<open>What a run of the adapter implies\<close>

lemma execute_ran:
  assumes "execute lib alib h svc px validate adapter d t e e2 text payload key cap = (d', True, res)"
  obtains tok hash d1 cl where "require_binding_enforcement (sg_fromiso alib) h t cap = Inr ()"
    and "verify_token alib t text key = Inr (Some tok)" and "capability_mismatch cap tok = None"
    and "json_canonical_hash (sha256 lib) (JObj payload) = Inr hash"
    and "refusal px d tok (''sha256:'' @ hash) = None" and "blocked lib (now e) (px_policies px) payload tok = None"
    and "validate payload tok = Inr None"
    and "claim_of alib d (attempt_env e) tok text (''sha256:'' @ hash) (px_principal px) key = Inr (d1, Some cl)"
    and "record_outcome (sha256 lib) svc px d1 e2 (field tok ''transition_id'') (ids e 0)
           (outcome_result (ids e 0) (adapter payload tok (ids e 0))) = (d', res)"
  using assms unfolding execute_def Let_def
  by (auto split: sum.splits option.splits prod.splits intro: that)

lemma verify_token_Some:
  assumes "verify_token lib t text key = Inr (Some tok)"
  obtains data x where "open_token lib key text = Inr (Some data)"
    and "get_or_empty data ''expires_at'' = JStr x" and "\<exists>u. strptime_utc x = Some u \<and> t \<le> u"
    and "\<And>f. f \<in> set token_fields \<Longrightarrow> map_of data f = Some (field tok f)"
proof -
  from assms obtain data where d: "open_token lib key text = Inr (Some data)"
    by (auto simp: verify_token_def split: option.splits)
  obtain x where x: "get_or_empty data ''expires_at'' = JStr x"
    using assms by (simp add: verify_token_def d split: json.splits if_splits)
  obtain u where u: "strptime_utc x = Some u" "t \<le> u"
    using assms by (simp add: verify_token_def d x split: option.splits if_splits)
  have all: "list_all (\<lambda>f. map_of data f \<noteq> None) token_fields"
    and tok: "tok = map (\<lambda>f. (f, the (map_of data f))) token_fields
                @ [(''matched_policy_versions'', loaded_versions (sg_frep lib) data),
                   (''signature'', get_or_empty data ''signature'')]"
    using assms u by (simp_all add: verify_token_def d x split: if_splits)
  have "map_of data f = Some (field tok f)" if f: "f \<in> set token_fields" for f
  proof -
    have "map_of tok f = Some (the (map_of data f))"
    proof -
      have "map_of (map (\<lambda>f. (f, the (map_of data f))) token_fields) f = Some (the (map_of data f))"
        using f by (simp add: map_of_map_restrict)
      then show ?thesis unfolding tok map_of_append by (rule map_add_find_right)
    qed
    moreover have "map_of data f \<noteq> None" using all f by (auto simp: list_all_iff)
    ultimately show ?thesis by (auto simp: field_def)
  qed
  then show thesis using that [OF d x] u by blast
qed

lemma claim_of_Some:
  assumes "claim_of alib d e tok text ph proxy_principal key = Inr (d1, Some cl)"
  obtains i where "field tok ''authorization_id'' = JStr i"
    and "verify_and_claim alib d e i text ph proxy_principal key = Inr (d1, Some cl)"
  using assms by (auto simp: claim_of_def split: json.splits intro: that)

lemma record_token_result_step:
  "record_token_result sha svc d e tid x m = Inr (d', r) \<Longrightarrow> sys_step sha d d'"
  by (auto simp: record_token_result_def split: json.splits intro: sys_step.Result)

lemma commit_token_step:
  "commit_token sha svc d e tid m = Inr (d', r) \<Longrightarrow> sys_step sha d d'"
  by (auto simp: commit_token_def Let_def split: json.splits intro: sys_step.Commit)

text \<open>The recording is a run of the system of at most one step, the whole execution of at most two.\<close>

lemma record_outcome_reach:
  assumes "record_outcome sha svc px d e tid attempt r = (d', res)"
  shows "reach sha d d'"
proof -
  have one: "sys_step sha d d' \<Longrightarrow> reach sha d d'" by (simp add: reach_def)
  have "d' = d \<or> sys_step sha d d'"
    using assms record_token_result_step commit_token_step
    by (auto simp: record_outcome_def split: if_splits option.splits sum.splits prod.splits)
  then show ?thesis using one by (auto simp: reach_def)
qed

lemma execute_not_called:
  assumes "execute lib alib h svc px validate adapter d t e e2 text payload key cap = (d', False, res)"
  shows "d' = d"
proof -
  have "claim_of alib d e' tok text ph p key = Inr (d', None) \<Longrightarrow> d' = d" for e' tok ph p
    by (auto simp: claim_of_def dest: verify_and_claim_None split: json.splits)
  then show ?thesis
    using assms unfolding execute_def Let_def
    by (auto split: sum.splits option.splits prod.splits)
qed

lemma execute_reach:
  assumes "execute lib alib h svc px validate adapter d t e e2 text payload key cap = (d', called, res)"
  shows "reach (sha256 lib) d d'"
proof (cases called)
  case True
  with assms have x: "execute lib alib h svc px validate adapter d t e e2 text payload key cap = (d', True, res)"
    by simp
  show ?thesis
  proof (rule execute_ran [OF x], elim claim_of_Some, goal_cases)
    case (1 tok hash d1 cl i)
    have "sys_step (sha256 lib) d d1" using 1(10) by (rule sys_step.Claim)
    moreover have "reach (sha256 lib) d1 d'" using 1(8) by (rule record_outcome_reach)
    ultimately show ?case unfolding reach_def by (rule converse_rtranclp_into_rtranclp)
  qed
next
  case False
  with assms have "d' = d" by (auto dest: execute_not_called)
  then show ?thesis by (simp add: reach_def)
qed

text \<open>The policies of the proxy let the payload pass, with the policy set of the token.\<close>

definition admitted ::
  "libs \<Rightarrow> string \<Rightarrow> policy list option \<Rightarrow> (string \<times> json) list \<Rightarrow> (string \<times> json) list \<Rightarrow> bool" where
  "admitted lib t pe payload tok \<longleftrightarrow>
     (case pe of None \<Rightarrow> True
      | Some ps \<Rightarrow> \<exists>tool c r. field tok ''tool'' = JStr tool
          \<and> classify_tool (sql_parser lib) tool payload = Some (Inr c)
          \<and> r = evaluate (float_value lib) (cel_eval lib) t ps (action_type c) (canonical_resources c)
                 [(''agent_id'', field tok ''agent_id''), (''project_id'', field tok ''project_id''),
                  (''branch_id'', field tok ''branch_id'')]
          \<and> (r_effect r = Allow \<or> r_effect r = Warn)
          \<and> field tok ''policy_set_hash'' = JStr (compute_policy_set_hash (sha256 lib) (matched_versions (r_matched r))))"

lemma blocked_None: "blocked lib t pe payload tok = None \<Longrightarrow> admitted lib t pe payload tok"
  by (cases pe) (auto simp: blocked_def admitted_def Let_def split: option.splits json.splits sum.splits if_splits
      intro: effect.exhaust)

lemma execute_authorized:
  assumes k: "intact (sha256 lib) d"
    and x: "execute lib alib h svc px validate adapter d t e e2 text payload key cap = (d', True, res)"
  shows "require_binding_enforcement (sg_fromiso alib) h t cap = Inr ()
    \<and> (\<exists>data sig hash i a tr a'. json_loads (sg_frep alib) text = Some (JObj data)
        \<and> map_of data ''signature'' = Some (JStr sig)
        \<and> sg_verify alib key (dumps (JObj (filter (\<lambda>(f, _). f \<noteq> ''signature'') data))) sig
        \<and> (\<exists>y u. map_of data ''expires_at'' = Some (JStr y) \<and> strptime_utc y = Some u \<and> t \<le> u)
        \<and> json_canonical_hash (sha256 lib) (JObj payload) = Inr hash
        \<and> map_of data ''payload_hash'' = Some (JStr (''sha256:'' @ hash))
        \<and> map_of data ''proxy_audience'' = Some (JStr (px_audience px))
        \<and> (if cap_proxy_scoped cap then cap_proxy_audience cap \<in> {[], px_audience px}
            else map_of data ''agent_id'' = Some (JStr (cap_agent_principal_id cap)))
        \<and> (\<exists>tok. admitted lib (now e) (px_policies px) payload tok
             \<and> (\<forall>f \<in> set token_fields. map_of data f = Some (field tok f)))
        \<and> map_of data ''authorization_id'' = Some (JStr i)
        \<and> get_authorization d i = Some a \<and> \<not> a_used a \<and> a_token_hash a = sg_sha alib text
        \<and> now e < a_expires_at a
        \<and> get_transition d (a_transition_id a) = Some tr \<and> t_stage tr = Authorized
        \<and> get_authorization d' i = Some a' \<and> a_used a' \<and> a_transition_id a' = a_transition_id a)"
proof (rule execute_ran [OF x], elim claim_of_Some verify_token_Some, goal_cases)
  case (1 tok hash d1 cl i data y)
  note E = 1
  have k0: "keys_ok d" using k by (simp add: intact_def)
  have ad: "admitted lib (now e) (px_policies px) payload tok" by (rule blocked_None [OF E(5)])
  from open_token_Some [OF E(10)] obtain sig where d: "json_loads (sg_frep alib) text = Some (JObj data)"
    "map_of data ''signature'' = Some (JStr sig)"
    "sg_verify alib key (dumps (JObj (filter (\<lambda>(k, _). k \<noteq> ''signature'') data))) sig" by blast
  have f: "f \<in> set token_fields \<Longrightarrow> map_of data f = Some (field tok f)" for f by (rule E(13))
  have mem: "''payload_hash'' \<in> set token_fields" "''proxy_audience'' \<in> set token_fields"
    "''agent_id'' \<in> set token_fields" "''authorization_id'' \<in> set token_fields"
    "''expires_at'' \<in> set token_fields"
    by (simp_all add: token_fields_def)
  have unexpired: "\<exists>y u. map_of data ''expires_at'' = Some (JStr y) \<and> strptime_utc y = Some u \<and> t \<le> u"
    using E(11,12) f [OF mem(5)] by (auto simp: get_or_empty_def)
  have ph: "field tok ''payload_hash'' = JStr (''sha256:'' @ hash)"
    and au: "field tok ''proxy_audience'' = JStr (px_audience px)"
    using E(4) by (auto simp: refusal_def split: if_splits)
  have ag: "if cap_proxy_scoped cap then cap_proxy_audience cap \<in> {[], px_audience px}
      else field tok ''agent_id'' = JStr (cap_agent_principal_id cap)"
    using E(2) au by (auto simp: capability_mismatch_def split: if_splits)
  have k1: "intact (sha256 lib) d1" by (rule sys_step_intact [OF k sys_step.Claim [OF E(9)]])
  show ?case
  proof (rule verify_and_claim_Some [OF E(9)], rule claim_and_advance_Some [OF k0], assumption, goal_cases)
    case (1 data2 stored a a0 tr as ts)
    have "gv_spent (governance d1) i = Some (a_transition_id a0)"
      using 1(10,13,14) by (simp add: governance_def get_authorization_def)
    then have "gv_spent (governance d') i = Some (a_transition_id a0)"
      using grows_run [OF reach_gov [OF record_outcome_reach [OF E(7)] k1]] by (simp add: grows_def)
    then obtain a' where "get_authorization d' i = Some a'" "a_used a'" "a_transition_id a' = a_transition_id a0"
      by (auto simp: governance_def split: option.splits if_splits)
    moreover have "\<not> a_used a0" "a_token_hash a0 = sg_sha alib text" "now e < a_expires_at a0"
      using 1(9) by (simp_all add: claim_guard_def attempt_env_def)
    moreover have "\<exists>tok. admitted lib (now e) (px_policies px) payload tok
             \<and> (\<forall>f \<in> set token_fields. map_of data f = Some (field tok f))" using ad f by blast
    moreover have "map_of data ''payload_hash'' = Some (JStr (''sha256:'' @ hash))"
      "map_of data ''proxy_audience'' = Some (JStr (px_audience px))"
      "map_of data ''authorization_id'' = Some (JStr i)"
      using f mem ph au E(8) by simp_all
    moreover have "if cap_proxy_scoped cap then cap_proxy_audience cap \<in> {[], px_audience px}
            else map_of data ''agent_id'' = Some (JStr (cap_agent_principal_id cap))"
      using ag f [OF mem(3)] by (auto split: if_splits)
    ultimately show ?case using E(1,3) d unexpired 1(8,11,12) by blast
  qed
qed

text \<open>C3: the proxy executes only what was authorized. When the adapter runs, the capability enforces binding now
  and belongs to the token's agent or audience; the token carries a valid signature, has not expired at the time of
  the request, is for this proxy, and names exactly the hash of the payload that runs; when the
  proxy has policies (the deployed service has none), they admit the payload with the policy
  set of the token; and the stored authorization, with the digest of this very token, was unused and unexpired, for an
  authorized transition, and is now claimed.\<close>

theorem proxy_executes_only_authorized:
  assumes k: "intact (sha256 lib) d"
    and x: "execute lib alib h svc px validate adapter d t e e2 text payload key cap = (d', True, res)"
  shows "require_binding_enforcement (sg_fromiso alib) h t cap = Inr ()
    \<and> (\<exists>data sig hash i a tr a'. json_loads (sg_frep alib) text = Some (JObj data)
        \<and> map_of data ''signature'' = Some (JStr sig)
        \<and> sg_verify alib key (dumps (JObj (filter (\<lambda>(f, _). f \<noteq> ''signature'') data))) sig
        \<and> (\<exists>y u. map_of data ''expires_at'' = Some (JStr y) \<and> strptime_utc y = Some u \<and> t \<le> u)
        \<and> json_canonical_hash (sha256 lib) (JObj payload) = Inr hash
        \<and> map_of data ''payload_hash'' = Some (JStr (''sha256:'' @ hash))
        \<and> map_of data ''proxy_audience'' = Some (JStr (px_audience px))
        \<and> (if cap_proxy_scoped cap then cap_proxy_audience cap \<in> {[], px_audience px}
            else map_of data ''agent_id'' = Some (JStr (cap_agent_principal_id cap)))
        \<and> (\<exists>tok. admitted lib (now e) (px_policies px) payload tok
             \<and> (\<forall>f \<in> set token_fields. map_of data f = Some (field tok f)))
        \<and> map_of data ''authorization_id'' = Some (JStr i)
        \<and> get_authorization d i = Some a \<and> \<not> a_used a \<and> a_token_hash a = sg_sha alib text
        \<and> now e < a_expires_at a
        \<and> get_transition d (a_transition_id a) = Some tr \<and> t_stage tr = Authorized
        \<and> get_authorization d' i = Some a' \<and> a_used a' \<and> a_transition_id a' = a_transition_id a)"
  using assms by (rule execute_authorized)

text \<open>C22: a token is executed at most once. After the adapter has run for a token, and whatever else happens in
  the system, no proxy, with any adapter, payload, key or capability, runs its adapter for that token again.\<close>

theorem token_executes_at_most_once:
  assumes k: "intact (sha256 lib) d"
    and x: "execute lib alib h svc px validate adapter d t e e2 text payload key cap = (d1, True, res)"
    and r: "reach (sha256 lib) d1 d2"
  shows "\<not> fst (snd (execute lib alib h' svc' px' validate' adapter' d2 t' e' e2' text payload' key' cap'))"
proof
  assume "fst (snd (execute lib alib h' svc' px' validate' adapter' d2 t' e' e2' text payload' key' cap'))"
  then obtain d3 res' where x2: "execute lib alib h' svc' px' validate' adapter' d2 t' e' e2' text payload' key' cap'
      = (d3, True, res')" by (metis prod.collapse)
  have k1: "intact (sha256 lib) d1" using reach_induct [OF execute_reach [OF x] k, of "\<lambda>_. True"] by blast
  have k2: "intact (sha256 lib) d2" using reach_induct [OF r k1, of "\<lambda>_. True"] by blast
  from execute_authorized [OF k x] obtain data i a a' where
    1: "json_loads (sg_frep alib) text = Some (JObj data)" "map_of data ''authorization_id'' = Some (JStr i)"
      "get_authorization d1 i = Some a'" "a_used a'" by blast
  from execute_authorized [OF k2 x2] obtain data2 i2 a2 where
    2: "json_loads (sg_frep alib) text = Some (JObj data2)" "map_of data2 ''authorization_id'' = Some (JStr i2)"
      "get_authorization d2 i2 = Some a2" "\<not> a_used a2" by blast
  have "gv_spent (governance d1) i = Some (a_transition_id a')" using 1 by (simp add: governance_def)
  then have "gv_spent (governance d2) i = Some (a_transition_id a')"
    using grows_run [OF reach_gov [OF r k1]] by (simp add: grows_def)
  with 1 2 show False by (auto simp: governance_def split: if_splits)
qed

lemma record_token_result_get:
  assumes "keys_ok d" and "record_token_result sha svc d e tid x m = Inr (d', r)"
  obtains i t where "tid = JStr i" and "get_transition d i = Some t" and "t_stage t = Executing"
    and "get_transition d' i = Some r" and "t_stage r = result_stage x"
proof -
  from assms(2) obtain i where i: "tid = JStr i" "record_result sha svc d e i x m None = Inr (d', r)"
    by (auto simp: record_token_result_def split: json.splits)
  show thesis
    by (rule record_result_Inr [OF assms(1) i(2)], rule that [OF i(1)])
      (simp_all add: get_transition_def)
qed

lemma run_outcome_recorded:
  assumes k: "keys_ok d" and eng: "px_transition_engine px"
    and x: "execute lib alib h svc px validate adapter d t e e2 text payload key cap = (d', True, Inr r)"
  shows "\<exists>tok. verify_token alib t text key = Inr (Some tok) \<and>
    (x_exit_status r = ''success'' \<longrightarrow>
       (\<exists>i tr n. field tok ''transition_id'' = JStr i \<and> get_transition d' i = Some tr \<and> t_stage tr = Succeeded
          \<and> t_to_node_id tr = Some n \<and> \<not> has_node d n \<and> has_node d' n
          \<and> fst (get_head d' (t_branch_id tr)) = Some n))
    \<and> (x_exit_status r = ''failure'' \<longrightarrow>
       (\<exists>i tr. field tok ''transition_id'' = JStr i \<and> get_transition d' i = Some tr \<and> t_stage tr = Failed))"
proof (rule execute_ran [OF x], elim claim_of_Some, goal_cases)
  case (1 tok hash d1 cl i)
  note E = 1
  have k1: "keys_ok d1" and n1: "nodes d1 = nodes d"
    by (rule verify_and_claim_Some [OF E(10)], rule claim_and_advance_Some [OF k], assumption, simp)+
  let ?r0 = "outcome_result (ids e 0) (adapter payload tok (ids e 0))" and ?v = "field tok ''transition_id''"
  show ?case
  proof (cases "x_exit_status ?r0 = ''success''")
    case False
    from E(8) eng False obtain rr where rt: "record_token_result (sha256 lib) svc d1 e2 ?v
        (if x_exit_status ?r0 = ''failure'' then ''failure'' else ''timeout'') (x_summary ?r0) = Inr (d', rr)"
      and r: "r = ?r0"
      by (auto simp: record_outcome_def split: sum.splits prod.splits)
    show ?thesis
      by (rule record_token_result_get [OF k1 rt]) (use False r E(2) in \<open>auto simp: result_stage_def\<close>)
  next
    case True
    from E(8) eng True obtain c where c: "px_committer px = Some c"
      by (auto simp: record_outcome_def split: option.splits)
    show ?thesis
    proof (cases "commit_token (sha256 lib) c d1 e2 ?v (x_summary ?r0)")
      case (Inl err)
      then have "x_exit_status r = ''uncertain''"
        using E(8) eng True c by (auto simp: record_outcome_def)
      then show ?thesis using E(2) by simp
    next
      case (Inr p)
      then obtain cr where ct: "commit_token (sha256 lib) c d1 e2 ?v (x_summary ?r0) = Inr (d', cr)" and r: "r = ?r0"
        using E(8) eng True c by (cases p) (auto simp: record_outcome_def)
      obtain j tr eh v l where j: "?v = JStr j" "get_transition d1 j = Some tr"
        and cm: "commit (sha256 lib) c d1 e2 j (t_branch_id tr) (t_agent_id tr) (x_summary ?r0) 0 (JObj []) eh v l
            = Inr (d', cr)"
        using ct by (auto simp: commit_token_def Let_def split: json.splits)
      show ?thesis
        using commit_get_transition(1) [OF k1 cm] commit_new_node [OF k1 cm] j E(2) True r n1
        by (auto simp: has_node_def)
    qed
  qed
qed

lemma refused_reports_failure:
  assumes "execute lib alib h svc px validate adapter d t e e2 text payload key cap = (d', False, Inr r)"
  shows "x_exit_status r = ''failure''"
  using assms unfolding execute_def Let_def
  by (auto simp: failure_def split: sum.splits option.splits prod.splits)

text \<open>C27: what the proxy reports is what the database says. When the adapter ran and the proxy has a transition
  engine, a reported success means that the token's transition has succeeded and links to a node that this execution
  created, now the head of its branch, and a reported failure means that it has failed. When the adapter
  did not run (a refused request), the report is a failure too, and nothing at all is recorded: the transition may then be
  in any stage.\<close>

theorem reported_outcome_is_recorded:
  assumes k: "keys_ok d"
    and x: "execute lib alib h svc px validate adapter d t e e2 text payload key cap = (d', called, Inr r)"
  shows "if called then px_transition_engine px \<longrightarrow> (\<exists>tok. verify_token alib t text key = Inr (Some tok) \<and>
    (x_exit_status r = ''success'' \<longrightarrow>
       (\<exists>i tr n. field tok ''transition_id'' = JStr i \<and> get_transition d' i = Some tr \<and> t_stage tr = Succeeded
          \<and> t_to_node_id tr = Some n \<and> \<not> has_node d n \<and> has_node d' n
          \<and> fst (get_head d' (t_branch_id tr)) = Some n))
    \<and> (x_exit_status r = ''failure'' \<longrightarrow>
       (\<exists>i tr. field tok ''transition_id'' = JStr i \<and> get_transition d' i = Some tr \<and> t_stage tr = Failed)))
    else x_exit_status r = ''failure'' \<and> d' = d"
proof (cases called)
  case True
  with x have "execute lib alib h svc px validate adapter d t e e2 text payload key cap = (d', True, Inr r)" by simp
  with k True show ?thesis by (simp only: if_True) (intro impI run_outcome_recorded)
next
  case False
  then show ?thesis using x by (auto dest: execute_not_called refused_reports_failure)
qed

subsection \<open>A sample execution\<close>

lemma execute_runs:
  assumes "require_binding_enforcement (sg_fromiso alib) h t cap = Inr ()"
    and "verify_token alib t text key = Inr (Some tok)" and "capability_mismatch cap tok = None"
    and "json_canonical_hash (sha256 lib) (JObj payload) = Inr hash"
    and "refusal px d tok (''sha256:'' @ hash) = None" and "blocked lib (now e) (px_policies px) payload tok = None"
    and "validate payload tok = Inr None"
    and "claim_of alib d (attempt_env e) tok text (''sha256:'' @ hash) (px_principal px) key = Inr (d1, Some cl)"
  shows "execute lib alib h svc px validate adapter d t e e2 text payload key cap
    = (let (d2, res) = record_outcome (sha256 lib) svc px d1 e2 (field tok ''transition_id'') (ids e 0)
           (outcome_result (ids e 0) (adapter payload tok (ids e 0))) in (d2, True, res))"
  using assms by (simp add: execute_def Let_def)

text \<open>Until it expires, an issued token gets the payload it was issued for past every check, as long as its
  transition is authorized, the capability is for this agent or for this audience and tool, the policies do not
  block the verified token and the adapter's validation of it passes.\<close>

lemma issued_token_executes:
  assumes k: "keys_ok d"
    and i: "issue_authorization alib h0 ttl d t0 xid nonce tid ag pid bid aud tool (''sha256:'' @ hash) ms cap0 = Inr (d1, k)"
    and sig: "\<forall>m. sg_sign alib m \<noteq> [] \<and> sg_verify alib key m (sg_sign alib m) \<and> sg_sha alib m \<noteq> []"
    and rep: "representable (t0 + seconds ttl)" "representable t" and ttl: "t < t0 + seconds ttl"
    and tr: "get_transition d tid = Some tr" "t_stage tr = Authorized" "tid \<noteq> []"
    and hash: "json_canonical_hash (sha256 lib) (JObj payload) = Inr hash"
    and cap: "require_binding_enforcement (sg_fromiso alib) h t cap = Inr ()"
    and scope: "if cap_proxy_scoped cap then cap_proxy_audience cap \<in> {[], aud} \<and> supports_action_type cap tool
                else cap_agent_principal_id cap = ag"
    and px: "px_audience px = aud"
    and valid: "\<forall>tok. verify_token alib t (signed_text k) key = Inr (Some tok) \<longrightarrow> validate payload tok = Inr None
        \<and> blocked lib (iso_utc t) (px_policies px) payload tok = None"
  shows "\<exists>d2 cl tok. claim_of alib d1 (attempt_env (env_at t ids')) tok (signed_text k) (''sha256:'' @ hash) (px_principal px) key = Inr (d2, Some cl)
    \<and> field tok ''transition_id'' = JStr tid
    \<and> execute lib alib h svc px validate adapter d1 t (env_at t ids') er (signed_text k) payload key cap
      = (let (d3, res) = record_outcome (sha256 lib) svc px d2 er (JStr tid) (ids' 0)
                           (outcome_result (ids' 0) (adapter payload tok (ids' 0))) in (d3, True, res))"
proof -
  have sg: "\<forall>m. sg_sign alib m \<noteq> [] \<and> sg_verify alib key m (sg_sign alib m)" using sig by blast
  obtain tok where vt: "verify_token alib t (signed_text k) key = Inr (Some tok)"
    and tok: "\<forall>f \<in> set token_fields. map_of tok f = map_of (to_canonical_payload k) f"
    using issued_token_verified [OF i sg rep(1), of t] ttl by auto
  have fields: "field tok ''transition_id'' = JStr tid" "field tok ''agent_id'' = JStr ag"
    "field tok ''payload_hash'' = JStr (''sha256:'' @ hash)" "field tok ''proxy_audience'' = JStr aud"
    "field tok ''authorization_id'' = JStr (tk_authorization_id k)" "field tok ''tool'' = JStr tool"
    by (rule issue_authorization_Inr [OF i], use tok in \<open>simp add: field_def token_fields_def to_canonical_payload_def\<close>)+
  obtain d2 cl where vc: "verify_and_claim alib d1 (env_at t (\<lambda>n. ids' (n + 1)))
      (tk_authorization_id k) (signed_text k) (''sha256:'' @ hash) (px_principal px) key = Inr (d2, Some cl)"
    using issued_token_claimable [OF k i sig rep ttl tr, of "\<lambda>n. ids' (n + 1)" "px_principal px"] by blast
  have c: "claim_of alib d1 (attempt_env (env_at t ids')) tok (signed_text k) (''sha256:'' @ hash) (px_principal px) key
      = Inr (d2, Some cl)"
    using vc by (simp add: claim_of_def fields attempt_env_def env_at_def)
  have "get_transition d1 tid = Some tr"
    by (rule issue_authorization_Inr [OF i]) (use tr in \<open>simp add: get_transition_def\<close>)
  then have ref: "refusal px d1 tok (''sha256:'' @ hash) = None"
    by (simp add: refusal_def fields px not_authorized_def tr)
  have "capability_mismatch cap tok = None"
    using scope by (auto simp: capability_mismatch_def fields supports_action_type_def)
  from execute_runs [of alib h t cap "signed_text k" key tok lib payload hash px d1 "env_at t ids'" validate d2 cl svc adapter er,
      OF cap vt this hash ref _ _ c] valid vt
  have "execute lib alib h svc px validate adapter d1 t (env_at t ids') er (signed_text k) payload key cap
      = (let (d3, res) = record_outcome (sha256 lib) svc px d2 er (JStr tid) (ids' 0)
                           (outcome_result (ids' 0) (adapter payload tok (ids' 0))) in (d3, True, res))"
    by (simp add: fields(1))
  then show ?thesis using c fields(1) by blast
qed

definition sample_proxy :: proxy where
  "sample_proxy = \<lparr> px_audience = ''proxy'', px_principal = ''px'', px_transition_engine = True,
     px_committer = Some ''svc'', px_policies = None \<rparr>"

definition sample_adapter :: "(string \<times> json) list \<Rightarrow> (string \<times> json) list \<Rightarrow> string \<Rightarrow> adapter_outcome" where
  "sample_adapter payload tok attempt = Returned \<lparr> x_success = True, x_exit_status = ''success'',
     x_summary = ''done'', x_attempt_id = [], x_rows = 0, x_output = None \<rparr>"

definition sample_execute_on ::
  "((string \<times> json) list \<Rightarrow> (string \<times> json) list \<Rightarrow> ep_error + string option)
   \<Rightarrow> ((string \<times> json) list \<Rightarrow> (string \<times> json) list \<Rightarrow> string \<Rightarrow> adapter_outcome)
   \<Rightarrow> (string \<times> json) list \<Rightarrow> db \<Rightarrow> string \<Rightarrow> db \<times> bool \<times> (ep_error + execution_result)" where
  "sample_execute_on validate adapter payload d text = execute sample_libs sample_auth_libs sample_host ''svc'' sample_proxy validate
     adapter d (sample_instant + seconds 60) (env_at (sample_instant + seconds 60) (\<lambda>n. replicate n CHR ''x''))
     (sample_env ''m'') text payload ''key'' sample_capability"

definition sample_execute_with ::
  "((string \<times> json) list \<Rightarrow> (string \<times> json) list \<Rightarrow> string \<Rightarrow> adapter_outcome) \<Rightarrow> db \<Rightarrow> string
   \<Rightarrow> db \<times> bool \<times> (ep_error + execution_result)" where
  "sample_execute_with adapter = sample_execute_on (\<lambda>_ _. Inr None) adapter []"

definition sample_execute :: "db \<Rightarrow> string \<Rightarrow> db \<times> bool \<times> (ep_error + execution_result)" where
  "sample_execute = sample_execute_with sample_adapter"

lemma sample_executes_on:
  assumes hash: "json_canonical_hash (sha256 sample_libs) (JObj payload) = Inr ''h''"
    and valid: "\<And>tok. validate payload tok = Inr None"
  obtains d d1 d' k tok res where "intact sample_sha d"
    and "sample_execute_on validate adapter payload d (signed_text k) = (d', True, res)"
    and "record_outcome (sha256 sample_libs) ''svc'' sample_proxy d1 (sample_env ''m'') (JStr ''n'') []
           (outcome_result [] (adapter payload tok [])) = (d', res)"
proof -
  obtain d1 d2 t k where s1: "sys_step sample_sha sample_fresh d1"
    and i: "issue_authorization sample_auth_libs sample_host 300 d1 sample_instant (\<lambda>_. ''a2'') ''x''
      ''n'' ''ag'' ''p1'' ''b1'' ''proxy'' ''custom'' (''sha256:'' @ ''h'') [] sample_capability = Inr (d2, k)"
    and k1: "keys_ok d1" and t4: "get_transition d1 ''n'' = Some t" and t: "t_stage t = Authorized" "t_agent_id t = ''ag''"
    by (rule sample_issued_run)
  let ?t = "sample_instant + seconds 60" and ?ids = "\<lambda>n. replicate n CHR ''x''"
  have in2: "intact sample_sha d2"
    by (rule sys_step_intact [OF sys_step_intact [OF sample_fresh_ok(2) s1] sys_step.Issue [OF i]])
  have sig: "\<forall>m. sg_sign sample_auth_libs m \<noteq> [] \<and> sg_verify sample_auth_libs ''key'' m (sg_sign sample_auth_libs m)
      \<and> sg_sha sample_auth_libs m \<noteq> []"
    by (simp add: sample_auth_libs_def)
  have cap: "require_binding_enforcement (sg_fromiso sample_auth_libs) sample_host ?t sample_capability = Inr ()"
    by (simp add: require_binding_enforcement_def sample_capability_def for_test_def sample_auth_libs_def
        production_mode_def env_flag_def sample_host_def seconds_def)
  have "t_id t = ''n''" using row_get_SomeD [OF t4 [unfolded get_transition_def]] by simp
  obtain d3 tok where x: "sample_execute_on validate adapter payload d2 (signed_text k) = (let (d4, res) = record_outcome (sha256 sample_libs) ''svc''
      sample_proxy d3 (sample_env ''m'') (JStr ''n'') (?ids 0)
      (outcome_result (?ids 0) (adapter payload tok (?ids 0))) in (d4, True, res))"
    using issued_token_executes [OF k1 i sig sample_representable sample_representable _ t4 t(1) _ hash cap, where px = sample_proxy
        and validate = validate and ids' = ?ids and svc = "''svc''" and adapter = adapter and er = "sample_env ''m''"]
    by (auto simp: sample_execute_on_def seconds_def valid sample_capability_def for_test_def sample_proxy_def blocked_def)
  obtain d4 res where "record_outcome (sha256 sample_libs) ''svc'' sample_proxy d3 (sample_env ''m'') (JStr ''n'') []
      (outcome_result [] (adapter payload tok [])) = (d4, res)"
    by (cases "record_outcome (sha256 sample_libs) ''svc'' sample_proxy d3 (sample_env ''m'') (JStr ''n'') []
      (outcome_result [] (adapter payload tok []))")
  with x in2 show thesis by (intro that) simp_all
qed

lemma sample_executes_with:
  obtains d d1 d' k tok res where "intact sample_sha d" and "sample_execute_with adapter d (signed_text k) = (d', True, res)"
    and "record_outcome (sha256 sample_libs) ''svc'' sample_proxy d1 (sample_env ''m'') (JStr ''n'') []
           (outcome_result [] (adapter [] tok [])) = (d', res)"
proof -
  have "json_canonical_hash (sha256 sample_libs) (JObj []) = Inr ''h''"
    by (simp add: json_canonical_hash_def json_hash_def sample_libs_def sample_sha_def)
  then show thesis
    by (rule sample_executes_on [of "[]" "\<lambda>_ _. Inr None"]) (simp, rule that, auto simp: sample_execute_with_def)
qed

lemma sample_executes:
  obtains d d' k r where "intact sample_sha d" and "sample_execute d (signed_text k) = (d', True, Inr r)"
proof -
  obtain d d1 d' k tok res where *: "intact sample_sha d" "sample_execute_with sample_adapter d (signed_text k) = (d', True, res)"
    and ro: "record_outcome (sha256 sample_libs) ''svc'' sample_proxy d1 (sample_env ''m'') (JStr ''n'') []
           (outcome_result [] (sample_adapter [] tok [])) = (d', res)" by (rule sample_executes_with)
  have "\<exists>r. res = Inr r"
    using ro by (auto simp: record_outcome_def sample_proxy_def sample_adapter_def outcome_result_def split: sum.splits prod.splits)
  with * that show thesis by (auto simp: sample_execute_def)
qed

theorem proxy_executes_only_authorized_witness:
  "\<exists>d text data i a. json_loads (sg_frep sample_auth_libs) text = Some (JObj data)
     \<and> map_of data ''payload_hash'' = Some (JStr ''sha256:h'') \<and> get_authorization d i = Some a \<and> \<not> a_used a"
proof (rule sample_executes, goal_cases)
  case (1 d d' k r)
  have "intact (sha256 sample_libs) d" using 1(1) by (simp add: sample_libs_def)
  from proxy_executes_only_authorized [OF this 1(2) [unfolded sample_execute_def sample_execute_with_def sample_execute_on_def]] obtain data hash i a where
    "json_loads (sg_frep sample_auth_libs) (signed_text k) = Some (JObj data)"
    "json_canonical_hash (sha256 sample_libs) (JObj []) = Inr hash"
    "map_of data ''payload_hash'' = Some (JStr (''sha256:'' @ hash))"
    "get_authorization d i = Some a" "\<not> a_used a" by blast
  moreover from this have "hash = ''h''"
    by (simp add: json_canonical_hash_def json_hash_def sample_libs_def sample_sha_def)
  ultimately show ?case by (intro exI conjI) auto
qed

theorem token_executes_at_most_once_witness:
  "\<exists>d d' k r. sample_execute d (signed_text k) = (d', True, Inr r) \<and> \<not> fst (snd (sample_execute d' (signed_text k)))"
proof (rule sample_executes, goal_cases)
  case (1 d d' k r)
  have "intact (sha256 sample_libs) d" using 1(1) by (simp add: sample_libs_def)
  from token_executes_at_most_once [OF this 1(2) [unfolded sample_execute_def sample_execute_with_def sample_execute_on_def], of d']
  have "\<not> fst (snd (sample_execute d' (signed_text k)))" by (simp add: sample_execute_def sample_execute_with_def sample_execute_on_def reach_def)
  with 1(2) show ?case by blast
qed

theorem reported_outcome_is_recorded_witness:
  "\<exists>d d' k r. sample_execute d (signed_text k) = (d', True, Inr r)
     \<and> (x_exit_status r = ''success'' \<longrightarrow> (\<exists>i tr. get_transition d' i = Some tr \<and> t_stage tr = Succeeded))"
proof (rule sample_executes, goal_cases)
  case (1 d d' k r)
  have "keys_ok d" "px_transition_engine sample_proxy" using 1(1) by (simp_all add: intact_def sample_proxy_def)
  with reported_outcome_is_recorded [OF this(1) 1(2) [unfolded sample_execute_def sample_execute_with_def sample_execute_on_def]]
  have "x_exit_status r = ''success'' \<longrightarrow> (\<exists>i tr. get_transition d' i = Some tr \<and> t_stage tr = Succeeded)"
    unfolding if_True by blast
  with 1(2) show ?case by blast
qed

text \<open>The proxy reports another attempt identifier than the one it stores: it generates one for the result,
  and the claim generates a second one for the authorization.\<close>

lemma reported_attempt_is_not_stored:
  assumes "keys_ok d" and "ids e 0 \<noteq> ids e 1"
    and "execute lib alib h svc px validate adapter d t e e2 text payload key cap = (d', True, Inr r)"
  shows "\<exists>d1 i a. get_authorization d1 i = Some a \<and> a_execution_attempt_id a = Some (ids e 1)
    \<and> reach (sha256 lib) d1 d' \<and> x_attempt_id r = ids e 0"
proof (rule execute_ran [OF assms(3)], elim claim_of_Some, goal_cases)
  case (1 tok hash d1 cl i)
  note E = 1
  have att: "x_attempt_id (outcome_result a out) = a" for a out
    by (cases out) (simp_all add: outcome_result_def failure_def)
  have "x_attempt_id r = ids e 0"
    using E(8) att by (auto simp: record_outcome_def split: if_splits option.splits sum.splits prod.splits)
  moreover have "reach (sha256 lib) d1 d'" using E(8) by (rule record_outcome_reach)
  moreover have "\<exists>a. get_authorization d1 i = Some a \<and> a_execution_attempt_id a = Some (ids e 1)"
    by (rule verify_and_claim_Some [OF E(10)], rule claim_and_advance_Some [OF assms(1)], assumption)
      (simp add: get_authorization_def attempt_env_def)
  ultimately show ?case by blast
qed

end
