(* ===== verification/Identity.thy ===== *)
theory Identity
  imports Store
begin

section \<open>Roles, permissions and tools (identity.py, tool_catalog.py)\<close>

text \<open>
  The static tables of the package: the permissions of each role with \<open>check_permission\<close>, and the
  catalog of the tools that the server exposes, with the roles that each of them requires.
\<close>

datatype role =
    Observer | Agent_Role | Policy_Author | Policy_Approver | Operator | Auditor | Administrator

fun role_name :: "role \<Rightarrow> string" where
  "role_name Observer = ''observer''"
| "role_name Agent_Role = ''agent''"
| "role_name Policy_Author = ''policy_author''"
| "role_name Policy_Approver = ''policy_approver''"
| "role_name Operator = ''operator''"
| "role_name Auditor = ''auditor''"
| "role_name Administrator = ''administrator''"

definition all_roles :: "role list" where
  "all_roles = [Observer, Agent_Role, Policy_Author, Policy_Approver, Operator, Auditor, Administrator]"

text \<open>\<open>Role(role)\<close>; \<open>None\<close> is its \<open>ValueError\<close>.\<close>

definition role_of :: "string \<Rightarrow> role option" where
  "role_of s = find (\<lambda>r. role_name r = s) all_roles"

fun permissions :: "role \<Rightarrow> string list" where
  "permissions Observer = [''read_policy'', ''read_audit'']"
| "permissions Agent_Role = [''read_policy'', ''read_audit'', ''propose_action'']"
| "permissions Policy_Author = [''read_policy'', ''read_audit'', ''propose_action'', ''create_agent_policy'',
     ''create_global_policy'', ''supersede_policy'', ''retire_policy'']"
| "permissions Policy_Approver = [''read_policy'', ''read_audit'', ''approve_request'']"
| "permissions Operator = [''read_policy'', ''read_audit'', ''propose_action'', ''repair_quarantine'',
     ''manage_branches'']"
| "permissions Auditor = [''read_policy'', ''read_audit'']"
| "permissions Administrator = [''read_policy'', ''propose_action'', ''create_agent_policy'',
     ''create_global_policy'', ''approve_request'', ''retire_policy'', ''supersede_policy'',
     ''repair_quarantine'', ''manage_branches'', ''read_audit'', ''register_agent'',
     ''manage_credentials'', ''create_lattice'']"

fun check_permission :: "string list \<Rightarrow> string \<Rightarrow> bool" where
  "check_permission [] required = False"
| "check_permission (r # rs) required =
     (case role_of r of
        None \<Rightarrow> check_permission rs required
      | Some k \<Rightarrow> (if required \<in> set (permissions k) then True else check_permission rs required))"

definition is_human :: "string \<Rightarrow> bool" where
  "is_human principal_type \<longleftrightarrow> principal_type = ''human''"

subsection \<open>The tool catalog\<close>

definition tool_required_roles :: "(string \<times> role list) list" where
  "tool_required_roles =
     [(''ep_check'', [Agent_Role, Operator, Administrator]),
      (''ep_execute'', [Agent_Role, Operator, Administrator]),
      (''ep_status'', [Observer, Agent_Role, Operator, Administrator]),
      (''ep_log'', [Observer, Agent_Role, Operator, Administrator]),
      (''ep_list_policies'', [Observer, Agent_Role, Operator, Administrator]),
      (''ep_pending_approvals'', [Observer, Agent_Role, Operator, Administrator]),
      (''ep_approve'', [Policy_Approver, Administrator]),
      (''ep_deny'', [Policy_Approver, Administrator]),
      (''ep_audit_verify'', [Auditor, Administrator])]"

text \<open>\<open>ADVISORY_TOOL_DEFS\<close> and \<open>ENFORCED_TOOL_DEFS\<close>: the name, the properties of the input
  schema and the required ones, without the descriptions. All properties are strings but \<open>arguments\<close>.\<close>

record tool_def =
  td_name :: string
  td_properties :: "string list"
  td_required :: "string list"

definition tool_def :: "string \<Rightarrow> string list \<Rightarrow> string list \<Rightarrow> tool_def" where
  "tool_def name properties required = \<lparr> td_name = name, td_properties = properties, td_required = required \<rparr>"

definition advisory_tool_defs :: "tool_def list" where
  "advisory_tool_defs =
     [tool_def ''ep_check'' [''tool'', ''arguments'', ''branch_id''] [''tool'', ''arguments''],
      tool_def ''ep_status'' [''branch_id''] [],
      tool_def ''ep_log'' [''agent_id'', ''branch_id'', ''project_id''] [],
      tool_def ''ep_list_policies'' [''agent_id'', ''branch_id'', ''project_id''] [],
      tool_def ''ep_pending_approvals'' [''branch_id'', ''project_id''] [],
      tool_def ''ep_approve'' [''approval_id'', ''reason''] [''approval_id''],
      tool_def ''ep_deny'' [''approval_id'', ''reason''] [''approval_id''],
      tool_def ''ep_audit_verify'' [''lattice_id''] [''lattice_id'']]"

definition enforced_tool_defs :: "tool_def list" where
  "enforced_tool_defs =
     [tool_def ''ep_execute'' [''tool'', ''arguments'', ''branch_id''] [''tool'', ''arguments'', ''branch_id''],
      tool_def ''ep_status'' [''branch_id''] [],
      tool_def ''ep_list_policies'' [''branch_id'', ''project_id''] [],
      tool_def ''ep_pending_approvals'' [''branch_id'', ''project_id''] [],
      tool_def ''ep_approve'' [''approval_id'', ''reason''] [''approval_id''],
      tool_def ''ep_audit_verify'' [''lattice_id''] [''lattice_id'']]"

definition raw_tool_names :: "string list" where
  "raw_tool_names = [''shell.exec'', ''postgres.execute'', ''docker.exec'', ''ssh.exec'']"

definition get_tool_definitions :: "string \<Rightarrow> tool_def list" where
  "get_tool_definitions mode = (if mode = ''enforced'' then enforced_tool_defs else advisory_tool_defs)"

definition governed_tool_names :: "string list" where
  "governed_tool_names = map td_name enforced_tool_defs"

definition is_governed_tool :: "string \<Rightarrow> bool" where
  "is_governed_tool name \<longleftrightarrow> name \<in> set governed_tool_names"

subsection \<open>Lemmas\<close>

lemma role_of_name [simp]: "role_of (role_name r) = Some r"
  by (cases r) (simp_all add: role_of_def all_roles_def)

lemma role_of_Some: "role_of s = Some r \<longleftrightarrow> s = role_name r"
proof
  assume "role_of s = Some r"
  then have "role_name r = s" unfolding role_of_def by (auto simp: find_Some_iff)
  then show "s = role_name r" by simp
qed simp

lemma check_permission_iff:
  "check_permission rs p \<longleftrightarrow> (\<exists>r. role_name r \<in> set rs \<and> p \<in> set (permissions r))"
proof (induction rs)
  case (Cons r rs)
  show ?case
  proof (cases "role_of r")
    case None
    then have "role_name k \<noteq> r" for k by auto
    then show ?thesis using Cons None by auto
  next
    case (Some k)
    then have "role_name k' = r \<longleftrightarrow> k' = k" for k' by (auto simp: role_of_Some dest: arg_cong [of _ _ role_of])
    then show ?thesis using Cons Some by auto
  qed
qed simp

text \<open>No role but the administrator's both acts and approves: a single other role can never
  propose or write policies and decide requests as well.\<close>

theorem roles_separate_duties:
  assumes "check_permission [r] ''approve_request''"
    and "check_permission [r] ''propose_action'' \<or> check_permission [r] ''create_global_policy''"
  shows "r = role_name Administrator"
proof -
  obtain k where "r = role_name k" "''approve_request'' \<in> set (permissions k)"
    using assms(1) by (auto simp: check_permission_iff)
  with assms(2) show ?thesis by (cases k) (auto simp: role_of_def all_roles_def)
qed

theorem roles_separate_duties_witness: "check_permission [''administrator''] ''approve_request'' \<and> ''administrator'' = role_name Administrator"
  using roles_separate_duties [of "''administrator''"] by (simp add: role_of_def all_roles_def)

text \<open>Every tool of either mode has required roles, and none of them is a raw tool.\<close>

lemma tools_are_guarded:
  "t \<in> set (get_tool_definitions mode) \<Longrightarrow>
     map_of tool_required_roles (td_name t) \<noteq> None \<and> td_name t \<notin> set raw_tool_names
     \<and> set (td_required t) \<subseteq> set (td_properties t)"
  by (auto simp: get_tool_definitions_def advisory_tool_defs_def enforced_tool_defs_def tool_def_def
      tool_required_roles_def raw_tool_names_def split: if_splits)

end
