(* ===== verification/Mcp.thy ===== *)
theory Mcp
  imports Proxy Identity
begin

section \<open>The MCP server (mcp_server.py)\<close>

text \<open>
  The tools through which agents and approvers reach the system. A call names a tool and carries
  arguments (typed by the input schemas of the catalog, each of them possibly absent); the caller is
  the authenticated principal of the session. \<open>handle_tool_call\<close> looks the principal up, checks its
  roles in the project the arguments belong to, and dispatches. Each engine call is a transaction
  of its own, so a call returns the database it leaves together with its answer, or with the exception
  that \<open>call_tool\<close> turns into an error reply.
\<close>

record call_args =
  ca_branch_id :: "string option"
  ca_project_id :: "string option"
  ca_lattice_id :: "string option"
  ca_approval_id :: "string option"
  ca_reason :: "string option"
  ca_tool :: "string option"
  ca_arguments :: "(string \<times> json) list option"
  ca_proxy_audience :: "string option"

text \<open>The dictionaries that the handlers return.\<close>

datatype answer =
    Refused string
  | Checked string stage
  | Not_Executed string stage string
  | No_Project string
  | Token_Issued string string string string
  | Specify_Branch
  | Branch_Status string "string option" int nat
  | Log "transition_row list"
  | Policy_List "policy_row list"
  | Pending_List "approval_row list"
  | Decided string stage
  | Chain_Valid string bool

text \<open>The surroundings of a call: the clock and identifiers of the operation, the instants at which
  the capability is checked and the token issued, the nonce, the environment of the host, the
  libraries, and the lifetime of tokens.\<close>

record world =
  w_libs :: libs
  w_auth_libs :: auth_libs
  w_host :: host
  w_env :: env
  w_checked_at :: nat
  w_issued_at :: nat
  w_nonce :: string
  w_ttl :: nat

subsection \<open>Projects\<close>

text \<open>A Python truth test of an optional string.\<close>

fun given :: "string option \<Rightarrow> string option" where
  "given (Some s) = (if s = [] then None else Some s)"
| "given None = None"

definition lattice_to_project :: "db \<Rightarrow> string \<Rightarrow> string option" where
  "lattice_to_project d l = map_option l_project_id (get_lattice d l)"

definition branch_to_project :: "db \<Rightarrow> string \<Rightarrow> string option" where
  "branch_to_project d b =
     (case given (map_option b_lattice_id (get_branch d b)) of
        None \<Rightarrow> None | Some l \<Rightarrow> lattice_to_project d l)"

definition transition_to_project :: "db \<Rightarrow> string \<Rightarrow> string option" where
  "transition_to_project d t =
     (case given (map_option t_branch_id (get_transition d t)) of
        None \<Rightarrow> None | Some b \<Rightarrow> branch_to_project d b)"

definition approval_to_project :: "db \<Rightarrow> string \<Rightarrow> string option" where
  "approval_to_project d a =
     (case given (map_option r_transition_id (get_request d a)) of
        None \<Rightarrow> None | Some t \<Rightarrow> transition_to_project d t)"

definition resolve_project_id ::
  "db \<Rightarrow> string option \<Rightarrow> string option \<Rightarrow> string option \<Rightarrow> string option \<Rightarrow> string option" where
  "resolve_project_id d branch_id lattice_id transition_id approval_id =
     (case given lattice_id of Some l \<Rightarrow> lattice_to_project d l
      | None \<Rightarrow> (case given branch_id of Some b \<Rightarrow> branch_to_project d b
      | None \<Rightarrow> (case given transition_id of Some t \<Rightarrow> transition_to_project d t
      | None \<Rightarrow> (case given approval_id of Some a \<Rightarrow> approval_to_project d a
      | None \<Rightarrow> None))))"

text \<open>The project in whose context the role of the caller is checked.\<close>

definition context_project :: "db \<Rightarrow> string \<Rightarrow> call_args \<Rightarrow> string option" where
  "context_project d name a =
     (if name \<in> set [''ep_status'', ''ep_log'', ''ep_pending_approvals'', ''ep_check'', ''ep_execute'']
      then resolve_project_id d (ca_branch_id a) None None None
      else if name = ''ep_list_policies''
      then (case given (ca_project_id a) of Some p \<Rightarrow> Some p
            | None \<Rightarrow> resolve_project_id d (ca_branch_id a) None None None)
      else if name = ''ep_audit_verify'' then resolve_project_id d None (ca_lattice_id a) None None
      else if name \<in> set [''ep_approve'', ''ep_deny''] then resolve_project_id d None None None (ca_approval_id a)
      else None)"

subsection \<open>Roles\<close>

definition bootstrap_allowed_tools :: "string list" where
  "bootstrap_allowed_tools = [''ep_list_policies'', ''ep_status'']"

text \<open>The names of the roles bound globally or in the project.\<close>

definition held_roles :: "db \<Rightarrow> string \<Rightarrow> string option \<Rightarrow> string list" where
  "held_roles d principal_id project_id =
     concat (map (\<lambda>rb. map ro_name (filter (\<lambda>r. ro_id r = rb_role_id rb) (roles d)))
       (filter (\<lambda>rb. rb_principal_id rb = principal_id
                  \<and> (rb_project_id rb = None \<or> project_id \<noteq> None \<and> rb_project_id rb = project_id))
          (role_bindings d)))"

definition humans_with_roles :: "db \<Rightarrow> nat" where
  "humans_with_roles d =
     length (filter (\<lambda>rb. list_ex (\<lambda>p. pp_id p = rb_principal_id rb \<and> is_human (pp_type p)) (principals d))
       (role_bindings d))"

definition bootstrap_mode :: "host \<Rightarrow> bool" where
  "bootstrap_mode h = (case getenv h ''EP_BOOTSTRAP_MODE'' of None \<Rightarrow> False | Some s \<Rightarrow> lower s = ''true'')"

text \<open>\<open>None\<close>: authorized.\<close>

definition check_role ::
  "host \<Rightarrow> db \<Rightarrow> string \<Rightarrow> role list \<Rightarrow> string option \<Rightarrow> string \<Rightarrow> string option" where
  "check_role h d principal_id required project_id tool =
     (let held = held_roles d principal_id project_id in
      if held \<noteq> [] then
        (if list_ex (\<lambda>r. role_name r \<in> set held) required then None else Some ''lacks required role'')
      else if bootstrap_mode h
        \<and> (case get_principal d principal_id of None \<Rightarrow> False | Some p \<Rightarrow> is_human (pp_type p))
        \<and> humans_with_roles d = 0
      then (if tool \<in> set bootstrap_allowed_tools then None else Some ''bootstrap mode'')
      else Some ''no role bindings'')"

subsection \<open>The handlers\<close>

text \<open>\<open>_get_ep_service_id\<close>: a missing service principal is inserted on the connection of the handler,
  which is closed without a commit, so the row is rolled back and only its identifier remains.\<close>

definition ep_service_id :: "db \<Rightarrow> env \<Rightarrow> string" where
  "ep_service_id d e =
     (case find (\<lambda>p. pp_type p = ''service'' \<and> pp_name p = ''EP Service'') (principals d) of
        Some p \<Rightarrow> pp_id p | None \<Rightarrow> ids e 0)"

text \<open>The identifiers that are left for the operation, after the service and the idempotency key.\<close>

definition operation_env :: "env \<Rightarrow> env" where
  "operation_env e = e\<lparr>ids := (\<lambda>n. ids e (n + 2))\<rparr>"

fun mapE :: "('a \<Rightarrow> ep_error + 'b) \<Rightarrow> 'a list \<Rightarrow> ep_error + 'b list" where
  "mapE f [] = Inr []"
| "mapE f (x # xs) = bindE (f x) (\<lambda>y. bindE (mapE f xs) (\<lambda>ys. Inr (y # ys)))"

definition build_policy_engine ::
  "db \<Rightarrow> string option \<Rightarrow> string \<Rightarrow> ep_error + policy list" where
  "build_policy_engine d branch_id agent_id =
     (case given branch_id of
        None \<Rightarrow> Inl PolicyIntegrityError
      | Some b \<Rightarrow>
          (case given (branch_to_project d b) of
             None \<Rightarrow> Inl PolicyIntegrityError
           | Some p \<Rightarrow>
               (if agent_id = [] then Inl PolicyIntegrityError
                else mapE (\<lambda>r. case make_policy (pol_policy r) of
                                  Inl _ \<Rightarrow> Inl PolicyIntegrityError | Inr q \<Rightarrow> Inr q)
                       (list_effective_policies d p b agent_id))))"

text \<open>What \<open>ep_check\<close> and \<open>ep_execute\<close> share: the proposal under the policies of the agent's context.\<close>

definition governed_propose ::
  "world \<Rightarrow> db \<Rightarrow> call_args \<Rightarrow> string \<Rightarrow> transition_row op" where
  "governed_propose w d a agent_id =
     bindE (build_policy_engine d (ca_branch_id a) agent_id) (\<lambda>ps.
     bindE (someE KeyError (ca_branch_id a)) (\<lambda>b.
     bindE (someE KeyError (ca_tool a)) (\<lambda>tool.
     bindE (someE KeyError (ca_arguments a)) (\<lambda>args.
       propose (w_libs w) (ep_service_id d (w_env w)) (Some ps) d (operation_env (w_env w)) agent_id b
         tool args (ids (w_env w) 1) None None))))"

definition ep_check :: "world \<Rightarrow> db \<Rightarrow> call_args \<Rightarrow> string \<Rightarrow> db \<times> (ep_error + answer)" where
  "ep_check w d a agent_id =
     (case given (ca_branch_id a) of
        None \<Rightarrow> (d, Inl PolicyIntegrityError)
      | Some b \<Rightarrow> finish d (bindE (governed_propose w d a agent_id) (\<lambda>(d', t).
                               Inr (d', Checked (t_id t) (t_stage t)))))"

definition matched_entries :: "(string \<times> int) list \<Rightarrow> matched_entry list" where
  "matched_entries vs =
     map (\<lambda>(p, v). \<lparr> me_id = Some p, me_policy_id = None, me_activation_version = Some v,
                     me_version = None \<rparr>) vs"

definition default_audience :: "string option \<Rightarrow> string" where
  "default_audience x = orelse x ''postgres-proxy''"

text \<open>The token for an authorized transition.\<close>

definition issue_for ::
  "world \<Rightarrow> db \<Rightarrow> call_args \<Rightarrow> string \<Rightarrow> capability \<Rightarrow> transition_row \<Rightarrow> answer op" where
  "issue_for w d a agent_id cap t =
     bindE (require_binding_enforcement (sg_fromiso (w_auth_libs w)) (w_host w) (w_issued_at w) cap) (\<lambda>_.
     bindE (someE KeyError (ca_branch_id a)) (\<lambda>b.
     case given (resolve_project_id d (Some b) None None None) of
       None \<Rightarrow> Inr (d, No_Project (t_id t))
     | Some p \<Rightarrow>
         bindE (someE KeyError (ca_tool a)) (\<lambda>tool.
         bindE (someE KeyError (ca_arguments a)) (\<lambda>args.
         bindE (json_canonical_hash (sha256 (w_libs w)) (JObj args)) (\<lambda>hash.
         bindE (issue_authorization (w_auth_libs w) (w_host w) (w_ttl w) d (w_issued_at w)
                  (\<lambda>n. ids (operation_env (w_env w)) (n + 3)) (w_nonce w) (t_id t) agent_id p b
                  (default_audience (ca_proxy_audience a)) tool (''sha256:'' @ hash)
                  (matched_entries (t_matched_policy_versions t)) cap) (\<lambda>(d', k).
           Inr (d', Token_Issued (t_id t) (tk_authorization_id k)
                      (snd (to_signed_token (sg_sign (w_auth_libs w)) k)) (tk_expires_at k))))))))"

definition ep_execute ::
  "world \<Rightarrow> db \<Rightarrow> call_args \<Rightarrow> string \<Rightarrow> capability option \<Rightarrow> db \<times> (ep_error + answer)" where
  "ep_execute w d a agent_id cap =
     (case (case ca_branch_id a of None \<Rightarrow> Inl KeyError | Some _ \<Rightarrow> governed_propose w d a agent_id) of
        Inl err \<Rightarrow> (d, Inl err)
      | Inr (d', t) \<Rightarrow>
          (if t_stage t = Denied then (d', Inr (Not_Executed (t_id t) Denied ''action_denied_by_policy''))
           else if t_stage t = stage.Pending_Approval
           then (d', Inr (Not_Executed (t_id t) stage.Pending_Approval ''await_approval''))
           else if t_stage t \<noteq> Authorized
           then (d', Inr (Not_Executed (t_id t) (t_stage t) ''unexpected_stage''))
           else (case cap of
                   None \<Rightarrow> (d', Inr (Not_Executed (t_id t) Authorized ''requires_enforcement_capability''))
                 | Some c \<Rightarrow> finish d' (issue_for w d' a agent_id c t))))"

definition ep_status :: "db \<Rightarrow> call_args \<Rightarrow> answer" where
  "ep_status d a =
     (case given (ca_branch_id a) of
        None \<Rightarrow> Specify_Branch
      | Some b \<Rightarrow>
          Branch_Status b (fst (get_head d b)) (snd (get_head d b))
            (case given (branch_to_project d b) of
               None \<Rightarrow> 0 | Some p \<Rightarrow> length (list_active_policies_for_project d p)))"

text \<open>The project whose rows a listing returns: the branch decides, before the argument.\<close>

definition listed_project :: "db \<Rightarrow> call_args \<Rightarrow> string option" where
  "listed_project d a =
     (case resolve_project_id d (ca_branch_id a) None None None of
        Some p \<Rightarrow> Some p | None \<Rightarrow> given (ca_project_id a))"

text \<open>The joins with branches and lattices: a transition belongs to the project of its branch.\<close>

definition in_project :: "db \<Rightarrow> string \<Rightarrow> transition_row \<Rightarrow> bool" where
  "in_project d p t =
     (case get_branch d (t_branch_id t) of
        None \<Rightarrow> False | Some b \<Rightarrow> lattice_to_project d (b_lattice_id b) = Some p)"

definition ep_log :: "db \<Rightarrow> call_args \<Rightarrow> answer" where
  "ep_log d a =
     (case listed_project d a of
        None \<Rightarrow> Log []
      | Some p \<Rightarrow> Log (take 20 (rev (sort_key t_created_at (filter (in_project d p) (transitions d))))))"

definition ep_list_policies :: "db \<Rightarrow> call_args \<Rightarrow> answer" where
  "ep_list_policies d a =
     (case listed_project d a of
        None \<Rightarrow> Policy_List []
      | Some p \<Rightarrow> Policy_List (list_active_policies_for_project d p))"

definition ep_pending_approvals :: "db \<Rightarrow> call_args \<Rightarrow> answer" where
  "ep_pending_approvals d a =
     (case listed_project d a of
        None \<Rightarrow> Pending_List []
      | Some p \<Rightarrow> Pending_List (sort_key r_created_at
          (filter (\<lambda>r. r_status r = Pending
             \<and> (case get_transition d (r_transition_id r) of None \<Rightarrow> False | Some t \<Rightarrow> in_project d p t))
           (approvals d))))"

definition ep_approve ::
  "world \<Rightarrow> db \<Rightarrow> call_args \<Rightarrow> string \<Rightarrow> string \<Rightarrow> db \<times> (ep_error + answer)" where
  "ep_approve w d a approver_id approver_type =
     (if \<not> is_human approver_type then (d, Inr (Refused ''not a human''))
      else case ca_approval_id a of
        None \<Rightarrow> (d, Inl KeyError)
      | Some i \<Rightarrow>
          (case get_request d i of
             None \<Rightarrow> (d, Inr (Refused ''approval request not found''))
           | Some r \<Rightarrow> finish d
               (bindE (approve (sha256 (w_libs w)) (ep_service_id d (w_env w)) d (operation_env (w_env w))
                         (r_transition_id r) approver_id ''human'' (orelse (ca_reason a) ''Approved'')) (\<lambda>(d', t).
                  Inr (d', Decided (r_transition_id r) (t_stage t))))))"

definition ep_deny ::
  "world \<Rightarrow> db \<Rightarrow> call_args \<Rightarrow> string \<Rightarrow> string \<Rightarrow> db \<times> (ep_error + answer)" where
  "ep_deny w d a approver_id approver_type =
     (if \<not> is_human approver_type then (d, Inr (Refused ''not a human''))
      else case ca_approval_id a of
        None \<Rightarrow> (d, Inl KeyError)
      | Some i \<Rightarrow>
          (case get_request d i of
             None \<Rightarrow> (d, Inr (Refused ''approval request not found''))
           | Some r \<Rightarrow> finish d
               (bindE (deny_approval (sha256 (w_libs w)) (ep_service_id d (w_env w)) d (operation_env (w_env w))
                         (r_transition_id r) approver_id (orelse (ca_reason a) ''Denied'')) (\<lambda>(d', t).
                  Inr (d', Decided (r_transition_id r) (t_stage t))))))"

definition ep_audit_verify :: "world \<Rightarrow> db \<Rightarrow> call_args \<Rightarrow> ep_error + answer" where
  "ep_audit_verify w d a =
     (case ca_lattice_id a of
        None \<Rightarrow> Inl KeyError | Some l \<Rightarrow> Inr (Chain_Valid l (verify (sha256 (w_libs w)) d l)))"

subsection \<open>Dispatch\<close>

definition dispatch ::
  "world \<Rightarrow> db \<Rightarrow> string \<Rightarrow> call_args \<Rightarrow> string \<Rightarrow> string \<Rightarrow> capability option \<Rightarrow> db \<times> (ep_error + answer)" where
  "dispatch w d name a principal_id principal_type cap =
     (if name = ''ep_check'' then ep_check w d a principal_id
      else if name = ''ep_execute'' then
        (case (case cap of None \<Rightarrow> Inr ()
               | Some c \<Rightarrow> require_binding_enforcement (sg_fromiso (w_auth_libs w)) (w_host w) (w_checked_at w) c) of
           Inl err \<Rightarrow> (d, Inl err)
         | Inr _ \<Rightarrow> ep_execute w d a principal_id cap)
      else if name = ''ep_status'' then (d, Inr (ep_status d a))
      else if name = ''ep_log'' then (d, Inr (ep_log d a))
      else if name = ''ep_list_policies'' then (d, Inr (ep_list_policies d a))
      else if name = ''ep_pending_approvals'' then (d, Inr (ep_pending_approvals d a))
      else if name = ''ep_approve'' then ep_approve w d a principal_id principal_type
      else if name = ''ep_deny'' then ep_deny w d a principal_id principal_type
      else if name = ''ep_audit_verify'' then (d, ep_audit_verify w d a)
      else (d, Inr (Refused ''unknown tool'')))"

text \<open>\<open>mode\<close> is passed and never read.\<close>

definition handle_tool_call ::
  "world \<Rightarrow> db \<Rightarrow> string \<Rightarrow> call_args \<Rightarrow> string \<Rightarrow> string \<Rightarrow> capability option \<Rightarrow> db \<times> (ep_error + answer)" where
  "handle_tool_call w d name a mode principal_id cap =
     (case get_principal d principal_id of
        None \<Rightarrow> (d, Inr (Refused ''principal not found''))
      | Some p \<Rightarrow>
          (if pp_status p \<noteq> ''active'' then (d, Inr (Refused ''principal not active''))
           else case (case map_of tool_required_roles name of
                        None \<Rightarrow> None
                      | Some required \<Rightarrow>
                          check_role (w_host w) d principal_id required (context_project d name a) name) of
             Some err \<Rightarrow> (d, Inr (Refused err))
           | None \<Rightarrow> dispatch w d name a principal_id (pp_type p) cap))"

datatype reply = Answer answer | Error_Reply | Internal_Error

definition call_tool ::
  "world \<Rightarrow> db \<Rightarrow> string \<Rightarrow> call_args \<Rightarrow> string \<Rightarrow> string \<Rightarrow> capability option \<Rightarrow> db \<times> reply" where
  "call_tool w d name a mode principal_id cap =
     (case handle_tool_call w d name a mode principal_id cap of
        (d', Inr x) \<Rightarrow> (d', Answer x)
      | (d', Inl err) \<Rightarrow> (d', if caught_by EPError err then Error_Reply else Internal_Error))"

text \<open>Starting the server: the mode it will run in.\<close>

definition create_server ::
  "fromiso_lib \<Rightarrow> host \<Rightarrow> nat \<Rightarrow> string \<Rightarrow> string option \<Rightarrow> capability option \<Rightarrow> ep_error + string" where
  "create_server fromiso h t mode principal_id cap =
     (case given principal_id of
        None \<Rightarrow> Inl EPError
      | Some i \<Rightarrow>
          (case cap of
             Some c \<Rightarrow>
               (if cap_agent_principal_id c \<noteq> i then Inl EPError
                else bindE (if cap_effective_mode c = ''enforced'' then require_binding_enforcement fromiso h t c
                            else Inr ()) (\<lambda>_. Inr (cap_effective_mode c)))
           | None \<Rightarrow> (if mode = ''enforced'' then Inl EPError else Inr mode)))"

end
