(* ===== verification/Mcp_Access.thy ===== *)
theory Mcp_Access
  imports Mcp
begin

section \<open>Who may do what through the server\<close>

text \<open>
  Every call is a run of the system, so all invariants of \<open>System\<close> hold for the databases it
  leaves; a call that is not refused comes from an active principal with a required role in the project
  it concerns; what a call changes lies in that project; and the token that \<open>ep_execute\<close> returns is
  accepted by the proxy.
\<close>

subsection \<open>Roles\<close>

text \<open>The principal has one of the roles, globally or in the project.\<close>

definition holds_role :: "db \<Rightarrow> string \<Rightarrow> role list \<Rightarrow> string option \<Rightarrow> bool" where
  "holds_role d pid required project \<longleftrightarrow>
     (\<exists>rb \<in> set (role_bindings d). \<exists>r \<in> set (roles d). \<exists>k \<in> set required.
        rb_principal_id rb = pid \<and> rb_role_id rb = ro_id r \<and> ro_name r = role_name k
        \<and> (rb_project_id rb = None \<or> project \<noteq> None \<and> rb_project_id rb = project))"

lemma held_roles_iff:
  "n \<in> set (held_roles d pid project) \<longleftrightarrow>
     (\<exists>rb \<in> set (role_bindings d). \<exists>r \<in> set (roles d).
        rb_principal_id rb = pid \<and> rb_role_id rb = ro_id r \<and> ro_name r = n
        \<and> (rb_project_id rb = None \<or> project \<noteq> None \<and> rb_project_id rb = project))"
  unfolding held_roles_def by (auto; metis)

text \<open>Bootstrap mode lets the first human read the set-up, and nothing else.\<close>

definition bootstrapping :: "host \<Rightarrow> db \<Rightarrow> string \<Rightarrow> bool" where
  "bootstrapping h d pid \<longleftrightarrow> bootstrap_mode h \<and> humans_with_roles d = 0
     \<and> (\<exists>p. get_principal d pid = Some p \<and> is_human (pp_type p))"

lemma check_role_None:
  "check_role h d pid required project tool = None \<Longrightarrow>
     holds_role d pid required project \<or> bootstrapping h d pid \<and> tool \<in> set bootstrap_allowed_tools"
  by (auto simp: check_role_def Let_def holds_role_def held_roles_iff list_ex_iff bootstrapping_def
      split: if_splits option.splits)

lemma holds_role_context:
  "holds_role d pid required project \<Longrightarrow> (project = None \<or> project = project') \<Longrightarrow> holds_role d pid required project'"
  by (auto simp: holds_role_def)

subsection \<open>The steps of a call\<close>

lemma given_Some [simp]: "given x = Some s \<longleftrightarrow> x = Some s \<and> s \<noteq> []"
  by (cases x) auto

lemma finish_cases:
  assumes "finish d r = (d', res)"
  obtains e where "r = Inl e" and "d' = d" and "res = Inl e" | x where "r = Inr (d', x)" and "res = Inr x"
  using assms by (cases r) (auto simp: finish_def split: prod.splits)

lemma handle_steps:
  assumes "handle_tool_call w d name a mode pid cap = (d', res)"
  obtains m where "d' = d" and "res = Inr (Refused m)"
  | p where "get_principal d pid = Some p" and "pp_status p = ''active''"
      and "\<And>required. map_of tool_required_roles name = Some required \<Longrightarrow>
             holds_role d pid required (context_project d name a)
             \<or> bootstrapping (w_host w) d pid \<and> name \<in> set bootstrap_allowed_tools"
      and "dispatch w d name a pid (pp_type p) cap = (d', res)"
proof (cases "get_principal d pid")
  case None
  then show thesis using assms that(1) by (auto simp: handle_tool_call_def)
next
  case (Some p)
  show thesis
  proof (cases "pp_status p = ''active''")
    case False
    then show thesis using assms Some that(1) by (auto simp: handle_tool_call_def)
  next
    case True
    let ?c = "\<lambda>required. check_role (w_host w) d pid required (context_project d name a) name"
    show thesis
    proof (cases "case map_of tool_required_roles name of None \<Rightarrow> None | Some required \<Rightarrow> ?c required")
      case None
      then have "dispatch w d name a pid (pp_type p) cap = (d', res)"
        using assms Some True by (simp add: handle_tool_call_def)
      moreover have "map_of tool_required_roles name = Some required \<Longrightarrow> ?c required = None" for required
        using None by simp
      ultimately show thesis using that(2) Some True check_role_None by blast
    qed (use assms Some True that(1) in \<open>auto simp: handle_tool_call_def\<close>)
  qed
qed

lemma build_policy_engine_Inr:
  assumes "build_policy_engine d br ag = Inr ps"
  obtains b p where "br = Some b" and "b \<noteq> []" and "branch_to_project d b = Some p" and "p \<noteq> []"
  using assms by (auto simp: build_policy_engine_def split: option.splits)

lemma governed_propose_Inr:
  assumes "governed_propose w d a ag = Inr (d', t)"
  obtains ps b p tool args where "ca_branch_id a = Some b" and "b \<noteq> []" and "branch_to_project d b = Some p"
    and "p \<noteq> []" and "ca_tool a = Some tool" and "ca_arguments a = Some args"
    and "propose (w_libs w) (ep_service_id d (w_env w)) (Some ps) d (operation_env (w_env w)) ag b tool args
           (ids (w_env w) 1) None None = Inr (d', t)"
  using assms by (auto simp: governed_propose_def someE_def elim!: build_policy_engine_Inr split: option.splits)

lemma ep_check_steps:
  assumes "ep_check w d a ag = (d', res)"
  obtains "d' = d" | t where "governed_propose w d a ag = Inr (d', t)"
  using assms by (auto simp: ep_check_def split: option.splits elim!: finish_cases)

lemma ep_execute_steps:
  assumes "ep_execute w d a ag cap = (d', res)"
  obtains "d' = d" | t where "governed_propose w d a ag = Inr (d', t)"
  | d1 t c x where "governed_propose w d a ag = Inr (d1, t)" and "t_stage t = Authorized" and "cap = Some c"
      and "issue_for w d1 a ag c t = Inr (d', x)" and "res = Inr x"
  using assms by (auto simp: ep_execute_def split: option.splits sum.splits if_splits elim!: finish_cases)

lemma issue_for_Inr:
  assumes "issue_for w d a ag c t = Inr (d', x)"
  obtains "d' = d" and "x = No_Project (t_id t)"
  | b p tool args hash k where "ca_branch_id a = Some b" and "ca_tool a = Some tool" and "ca_arguments a = Some args"
      and "resolve_project_id d (Some b) None None None = Some p"
      and "json_canonical_hash (sha256 (w_libs w)) (JObj args) = Inr hash"
      and "issue_authorization (w_auth_libs w) (w_host w) (w_ttl w) d (w_issued_at w)
             (\<lambda>n. ids (operation_env (w_env w)) (n + 3)) (w_nonce w) (t_id t) ag p b
             (default_audience (ca_proxy_audience a)) tool (''sha256:'' @ hash)
             (matched_entries (t_matched_policy_versions t)) c = Inr (d', k)"
      and "x = Token_Issued (t_id t) (tk_authorization_id k)
             (snd (to_signed_token (sg_sign (w_auth_libs w)) k)) (tk_expires_at k)"
  using assms by (auto simp: issue_for_def someE_def split: option.splits)

lemma ep_approve_steps:
  assumes "ep_approve w d a who ty = (d', res)"
  obtains "d' = d" | i r t where "is_human ty" and "ca_approval_id a = Some i" and "get_request d i = Some r"
    and "approve (sha256 (w_libs w)) (ep_service_id d (w_env w)) d (operation_env (w_env w)) (r_transition_id r)
           who ''human'' (orelse (ca_reason a) ''Approved'') = Inr (d', t)"
    and "res = Inr (Decided (r_transition_id r) (t_stage t))"
  using assms by (auto simp: ep_approve_def split: option.splits if_splits elim!: finish_cases)

lemma ep_deny_steps:
  assumes "ep_deny w d a who ty = (d', res)"
  obtains "d' = d" | i r t where "is_human ty" and "ca_approval_id a = Some i" and "get_request d i = Some r"
    and "deny_approval (sha256 (w_libs w)) (ep_service_id d (w_env w)) d (operation_env (w_env w)) (r_transition_id r)
           who (orelse (ca_reason a) ''Denied'') = Inr (d', t)"
    and "res = Inr (Decided (r_transition_id r) (t_stage t))"
  using assms by (auto simp: ep_deny_def split: option.splits if_splits elim!: finish_cases)

lemma dispatch_steps:
  assumes "dispatch w d name a pid ty cap = (d', res)"
  obtains "d' = d" | "name = ''ep_check''" and "ep_check w d a pid = (d', res)"
  | "name = ''ep_execute''" and "ep_execute w d a pid cap = (d', res)"
  | "name = ''ep_approve''" and "ep_approve w d a pid ty = (d', res)"
  | "name = ''ep_deny''" and "ep_deny w d a pid ty = (d', res)"
  using assms by (auto simp: dispatch_def split: if_splits sum.splits)

subsection \<open>A call is a run of the system\<close>

lemma governed_propose_step:
  "governed_propose w d a ag = Inr (d', t) \<Longrightarrow> sys_step (sha256 (w_libs w)) d d'"
  by (erule governed_propose_Inr, rule sys_step.Propose, assumption, simp)

lemma reach_refl [simp]: "reach sha d d"
  by (simp add: reach_def)

lemma reach_one: "sys_step sha d d' \<Longrightarrow> reach sha d d'"
  by (simp add: reach_def)

lemma dispatch_reach:
  assumes "dispatch w d name a pid ty cap = (d', res)"
  shows "reach (sha256 (w_libs w)) d d'"
proof (rule dispatch_steps [OF assms], goal_cases)
  case 2
  show ?case by (rule ep_check_steps [OF 2(2)]) (auto intro: reach_one governed_propose_step)
next
  case 3
  show ?case
  proof (rule ep_execute_steps [OF 3(2)], goal_cases)
    case (3 d1 t c x)
    have r1: "reach (sha256 (w_libs w)) d d1" using 3(1) by (intro reach_one governed_propose_step)
    show ?case
      by (rule issue_for_Inr [OF 3(4)]) (use r1 in \<open>auto intro: reach_step sys_step.Issue\<close>)
  qed (auto intro: reach_one governed_propose_step)
next
  case 4
  show ?case by (rule ep_approve_steps [OF 4(2)]) (auto intro: reach_one sys_step.Approve)
next
  case 5
  show ?case by (rule ep_deny_steps [OF 5(2)]) (auto intro: reach_one sys_step.Deny)
qed simp

lemma handle_reach:
  assumes "handle_tool_call w d name a mode pid cap = (d', res)"
  shows "reach (sha256 (w_libs w)) d d'"
  by (rule handle_steps [OF assms]) (auto intro: dispatch_reach)

subsection \<open>What a call changes\<close>

lemma branch_to_project_cong:
  "branches d' = branches d \<Longrightarrow> lattices d' = lattices d \<Longrightarrow> branch_to_project d' b = branch_to_project d b"
proof -
  assume "branches d' = branches d" "lattices d' = lattices d"
  moreover from this have "lattice_to_project d' = lattice_to_project d"
    by (simp add: lattice_to_project_def get_lattice_def fun_eq_iff)
  ultimately show ?thesis by (simp only: branch_to_project_def get_branch_def)
qed

text \<open>A proposal adds at most one transition: the caller's own, in the branch that was named.\<close>

lemma governed_propose_effect:
  assumes k: "keys_ok d" and p: "governed_propose w d a ag = Inr (d', t)"
    and new: "get_transition d' i = Some t'" and old: "get_transition d i \<noteq> Some t'"
  shows "get_transition d i = None \<and> t_agent_id t' = ag \<and> t' = t
    \<and> resolve_project_id d (ca_branch_id a) None None None = transition_to_project d' i"
proof (rule governed_propose_Inr [OF p], goal_cases)
  case (1 ps b pr tool args)
  note P = 1
  have n: "\<not> replayed d (ids (w_env w) 1)"
  proof
    assume r: "replayed d (ids (w_env w) 1)"
    then have "d' = d" using propose_replayed [OF r] P(7) by auto
    with new old show False by simp
  qed
  show ?case
  proof (rule propose_Inr [OF k n P(7)], goal_cases)
    case (1 c h v evt hs as aps)
    have id: "t_id t = ids (operation_env (w_env w)) 0" "t_agent_id t = ag" "t_branch_id t = b"
      by (simp_all add: 1(4) proposed_row_def)
    have none: "get_transition d (ids (operation_env (w_env w)) 0) = None"
      using 1(6) by (auto simp: get_transition_def row_get_None)
    have get: "get_transition d' j = (if j = ids (operation_env (w_env w)) 0 then Some t else get_transition d j)" for j
      using none by (auto simp: 1(5) id get_transition_def row_get_append split: option.splits)
    have i: "i = ids (operation_env (w_env w)) 0" "t' = t" using get [of i] new old by (auto split: if_splits)
    have "branch_to_project d' b = branch_to_project d b"
      by (rule branch_to_project_cong) (simp_all add: 1(5))
    then show ?case
      using i none id P(1,2) new by (simp add: transition_to_project_def resolve_project_id_def)
  qed
qed

lemma issue_for_transitions:
  assumes "issue_for w d a ag c t = Inr (d', x)"
  shows "transitions d' = transitions d \<and> branches d' = branches d \<and> lattices d' = lattices d"
  by (rule issue_for_Inr [OF assms]) (auto elim: issue_authorization_Inr)

lemma decide_effect:
  assumes k: "keys_ok d" and p: "find_pending_by_transition d tid = Some r"
    and dec: "decide d e (r_id r) who c x = Inr (d1, Some r')"
    and al: "advance_and_log sha svc d1 e tid s j br ty who data = Inr (d', t2)"
    and t: "get_transition d tid = Some t"
    and new: "get_transition d' i = Some t'" and old: "get_transition d i \<noteq> Some t'"
  shows "i = tid \<and> t_stage t' = s"
proof (rule decide_and_log [OF k p dec al t], goal_cases)
  case (1 ev hs)
  then show ?case using new old t by (auto simp: get_transition_def staged_get split: if_splits)
qed

lemma approval_context:
  assumes "get_request d j = Some r"
  shows "resolve_project_id d None None None (Some j) = None
    \<or> resolve_project_id d None None None (Some j) = transition_to_project d (r_transition_id r)"
  using assms by (auto simp: resolve_project_id_def approval_to_project_def split: option.splits)

text \<open>A decision changes the transition of the request from pending to the decision's stage.\<close>

lemma approve_call_effect:
  assumes k: "keys_ok d" and c: "ep_approve w d a who ty = (d', res)"
    and new: "get_transition d' i = Some t'" and old: "get_transition d i \<noteq> Some t'"
  obtains t j where "get_transition d i = Some t" and "t_stage t = stage.Pending_Approval" and "t_stage t' = Authorized"
    and "is_human ty" and "who \<noteq> t_agent_id t" and "ca_approval_id a = Some j"
    and "resolve_project_id d None None None (Some j) \<in> {None, transition_to_project d i}"
proof (rule ep_approve_steps [OF c])
  assume "d' = d"
  with new old show thesis by simp
next
  fix j r t
  assume h: "is_human ty" and j: "ca_approval_id a = Some j" and r: "get_request d j = Some r"
    and op: "approve (sha256 (w_libs w)) (ep_service_id d (w_env w)) d (operation_env (w_env w)) (r_transition_id r)
           who ''human'' (orelse (ca_reason a) ''Approved'') = Inr (d', t)"
  show thesis
  proof (rule approve_steps [OF op], goal_cases)
    case (1 t0 q d1 r')
    from decide_effect [OF k 1(5,6,7,1) new old] have i: "i = r_transition_id r" "t_stage t' = Authorized" by auto
    show ?case using that [of t0 j] 1(1,2,3) i h j approval_context [OF r] by auto
  qed
qed

lemma deny_call_effect:
  assumes k: "keys_ok d" and c: "ep_deny w d a who ty = (d', res)"
    and new: "get_transition d' i = Some t'" and old: "get_transition d i \<noteq> Some t'"
  obtains t j where "get_transition d i = Some t" and "t_stage t = stage.Pending_Approval" and "t_stage t' = Denied"
    and "is_human ty" and "who \<noteq> t_agent_id t" and "ca_approval_id a = Some j"
    and "resolve_project_id d None None None (Some j) \<in> {None, transition_to_project d i}"
proof (rule ep_deny_steps [OF c])
  assume "d' = d"
  with new old show thesis by simp
next
  fix j r t
  assume h: "is_human ty" and j: "ca_approval_id a = Some j" and r: "get_request d j = Some r"
    and op: "deny_approval (sha256 (w_libs w)) (ep_service_id d (w_env w)) d (operation_env (w_env w)) (r_transition_id r)
           who (orelse (ca_reason a) ''Denied'') = Inr (d', t)"
  show thesis
  proof (rule deny_approval_steps [OF op], goal_cases)
    case (1 t0 q d1 r')
    from decide_effect [OF k 1(4,5,6,1) new old] have i: "i = r_transition_id r" "t_stage t' = Denied" by auto
    show ?case using that [of t0 j] 1(1,2,3) i h j approval_context [OF r] by auto
  qed
qed

text \<open>A call that changes something has passed the role check: the exception for bootstrapping covers
  reading tools only.\<close>

lemma writer_holds_role:
  assumes "\<And>required. map_of tool_required_roles name = Some required \<Longrightarrow>
      holds_role d pid required (context_project d name a)
      \<or> bootstrapping h d pid \<and> name \<in> set bootstrap_allowed_tools"
    and "name \<in> {''ep_check'', ''ep_execute'', ''ep_approve'', ''ep_deny''}"
  shows "holds_role d pid (the (map_of tool_required_roles name)) (context_project d name a)"
proof -
  have t: "map_of tool_required_roles name = Some (the (map_of tool_required_roles name))"
    and b: "name \<notin> set bootstrap_allowed_tools"
    using assms(2) by (auto simp: tool_required_roles_def bootstrap_allowed_tools_def)
  show ?thesis using assms(1) [OF t] b by blast
qed


subsection \<open>Properties of the server\<close>

text \<open>C4: what a tool call changes is authorized. If any transition differs after a call, the caller is an active
  principal, and either the transition is new, the caller's own, and the caller has an agent, operator or
  administrator role, globally or in the project of the transition; or it was pending and is decided now, the
  caller is a human other than its agent, and has an approver or administrator role, globally or in
  the project of the transition.\<close>

theorem mcp_changes_are_authorized:
  assumes k: "keys_ok d" and c: "handle_tool_call w d name a mode pid cap = (d', res)"
    and new: "get_transition d' i = Some t'" and old: "get_transition d i \<noteq> Some t'"
  shows "\<exists>p. get_principal d pid = Some p \<and> pp_status p = ''active'' \<and>
    (name \<in> {''ep_check'', ''ep_execute''} \<and> get_transition d i = None \<and> t_agent_id t' = pid
       \<and> holds_role d pid [Agent_Role, Operator, Administrator] (transition_to_project d' i)
     \<or> name \<in> {''ep_approve'', ''ep_deny''} \<and> pp_type p = ''human''
       \<and> (\<exists>t. get_transition d i = Some t \<and> t_stage t = stage.Pending_Approval \<and> t_agent_id t \<noteq> pid
            \<and> t_stage t' = (if name = ''ep_approve'' then Authorized else Denied))
       \<and> holds_role d pid [Policy_Approver, Administrator] (transition_to_project d i))"
proof (rule handle_steps [OF c])
  fix p
  assume p: "get_principal d pid = Some p" "pp_status p = ''active''"
    and role: "\<And>required. map_of tool_required_roles name = Some required \<Longrightarrow>
             holds_role d pid required (context_project d name a)
             \<or> bootstrapping (w_host w) d pid \<and> name \<in> set bootstrap_allowed_tools"
    and dp: "dispatch w d name a pid (pp_type p) cap = (d', res)"
  note hr = writer_holds_role [OF role]
  have propose: ?thesis if n: "name \<in> {''ep_check'', ''ep_execute''}" and g: "governed_propose w d a pid = Inr (d1, t)"
    and d1: "transitions d1 = transitions d'" "branches d1 = branches d'" "lattices d1 = lattices d'" for d1 t
  proof -
    have "get_transition d1 i = Some t'" using new d1 by (simp add: get_transition_def)
    note e = governed_propose_effect [OF k g this old]
    have "branch_to_project d1 = branch_to_project d'" "get_transition d1 = get_transition d'"
      using d1 branch_to_project_cong [of d1 d'] by (auto simp: get_transition_def)
    then have "transition_to_project d1 i = transition_to_project d' i" by (simp only: transition_to_project_def)
    then show ?thesis
      using e n p hr by (auto simp: context_project_def tool_required_roles_def)
  qed
  show ?thesis
  proof (rule dispatch_steps [OF dp], goal_cases)
    case 1
    with new old show ?case by simp
  next
    case 2
    show ?case by (rule ep_check_steps [OF 2(2)]) (use new old 2(1) propose in auto)
  next
    case 3
    note E = 3
    show ?case
    proof (rule ep_execute_steps [OF E(2)], goal_cases)
      case (3 d1 t c x)
      show ?case using propose [OF _ 3(1)] issue_for_transitions [OF 3(4)] E(1) by auto
    qed (use new old E(1) propose in auto)
  next
    case 4
    obtain t j where t: "get_transition d i = Some t" "t_stage t = stage.Pending_Approval" "t_stage t' = Authorized"
      "is_human (pp_type p)" "pid \<noteq> t_agent_id t" "ca_approval_id a = Some j"
      "resolve_project_id d None None None (Some j) \<in> {None, transition_to_project d i}"
      by (rule approve_call_effect [OF k 4(2) new old])
    have "holds_role d pid [Policy_Approver, Administrator] (transition_to_project d i)"
      using hr 4(1) t(6,7) holds_role_context by (auto simp: context_project_def tool_required_roles_def)
    then show ?case using p t 4(1) by (auto simp: is_human_def)
  next
    case 5
    obtain t j where t: "get_transition d i = Some t" "t_stage t = stage.Pending_Approval" "t_stage t' = Denied"
      "is_human (pp_type p)" "pid \<noteq> t_agent_id t" "ca_approval_id a = Some j"
      "resolve_project_id d None None None (Some j) \<in> {None, transition_to_project d i}"
      by (rule deny_call_effect [OF k 5(2) new old])
    have "holds_role d pid [Policy_Approver, Administrator] (transition_to_project d i)"
      using hr 5(1) t(6,7) holds_role_context by (auto simp: context_project_def tool_required_roles_def)
    then show ?case using p t 5(1) by (auto simp: is_human_def)
  qed
next
  assume "d' = d"
  with new old show ?thesis by simp
qed

lemma propose_stored:
  assumes k: "keys_ok d" and p: "propose lib svc pe d e ag br tool args key eh ev = Inr (d', t)"
  shows "get_transition d' (t_id t) = Some t \<and> keys_ok d'"
proof (cases "replayed d key")
  case True
  then have r: "d' = d" "get_by_idempotency_key d key = Some t"
    using propose_replayed [OF True, of lib svc pe e ag br tool args eh ev] p
    by (auto simp: replayed_def split: option.splits)
  then have "t \<in> set (transitions d)"
    unfolding get_by_idempotency_key_def by (auto dest: row_get_SomeD)
  then show ?thesis using r k row_get_in [OF keys_okD(3) [OF k]] by (simp add: get_transition_def)
next
  case False
  show ?thesis
  proof (rule propose_Inr [OF k False p], goal_cases)
    case (1 c h v evt hs as aps)
    have id: "t_id t = ids e 0" by (simp add: 1(4) proposed_row_def)
    then have "row_get t_id (t_id t) (transitions d) = None" using 1(6) by (simp add: row_get_None)
    moreover have "transitions d' = transitions d @ [t]" by (simp add: 1(5))
    ultimately show ?case using 1(14) by (simp add: get_transition_def row_get_append)
  qed
qed

text \<open>C5: the pipeline works from end to end. The token that \<open>ep_execute\<close> returns makes the proxy run its adapter
  on the arguments of the call: the payload hash, the audience and the identity agree on both sides. This holds
  until the token expires, provided that the proxy has the audience of the call (or the default one), the capability
  of the proxy is active, the validation of the adapter accepts the payload with the token, the policies of the proxy, if it has
  any, do not block it, and the capability is either scoped to the proxy, as that of the service is, with this audience or none, and
  supports the tool of the call, or bound to the agent.\<close>

theorem mcp_token_reaches_adapter:
  assumes k: "keys_ok d"
    and c: "handle_tool_call w d ''ep_execute'' a mode ag (Some cap0) = (d1, Inr (Token_Issued tid aid text ex))"
    and args: "ca_arguments a = Some payload" and tool: "ca_tool a = Some tool" and tid: "tid \<noteq> []"
    and sig: "\<forall>m. sg_sign (w_auth_libs w) m \<noteq> [] \<and> sg_verify (w_auth_libs w) key m (sg_sign (w_auth_libs w) m)
        \<and> sg_sha (w_auth_libs w) m \<noteq> []"
    and rep: "representable (w_issued_at w + seconds (w_ttl w))" "representable t"
    and ttl: "t < w_issued_at w + seconds (w_ttl w)"
    and sha: "sha256 lib = sha256 (w_libs w)"
    and cap: "require_binding_enforcement (sg_fromiso (w_auth_libs w)) h t cap = Inr ()"
    and scope: "if cap_proxy_scoped cap then cap_proxy_audience cap \<in> {[], px_audience px} \<and> supports_action_type cap tool
        else cap_agent_principal_id cap = ag"
    and px: "px_audience px = default_audience (ca_proxy_audience a)"
    and valid: "\<forall>tok. verify_token (w_auth_libs w) t text key = Inr (Some tok) \<longrightarrow> validate payload tok = Inr None
        \<and> blocked lib (iso_utc t) (px_policies px) payload tok = None"
  shows "\<exists>d2 res. execute lib (w_auth_libs w) h svc px validate adapter d1 t (env_at t xids) er text payload key cap
            = (d2, True, res)"
proof -
  have ex: "ep_execute w d a ag (Some cap0) = (d1, Inr (Token_Issued tid aid text ex))"
    by (rule handle_steps [OF c]) (auto simp: dispatch_def split: sum.splits)
  obtain d0 tr where g: "governed_propose w d a ag = Inr (d0, tr)" and st: "t_stage tr = Authorized"
    and i: "issue_for w d0 a ag cap0 tr = Inr (d1, Token_Issued tid aid text ex)"
    using ex by (auto simp: ep_execute_def split: option.splits sum.splits if_splits elim!: finish_cases)
  have t0: "get_transition d0 (t_id tr) = Some tr" and k0: "keys_ok d0"
    using g by (auto elim!: governed_propose_Inr dest: propose_stored [OF k])
  show ?thesis
  proof (rule issue_for_Inr [OF i], goal_cases)
    case (2 b p tool' args hash kk)
    have tx: "text = signed_text kk"
      by (rule issue_authorization_Inr [OF 2(6)]) (use 2(7) in \<open>simp add: to_signed_token_def Let_def signed_text_def\<close>)
    have id: "t_id tr \<noteq> []" using 2(7) tid by simp
    have h: "json_canonical_hash (sha256 lib) (JObj payload) = Inr hash" using 2(3,5) args sha by simp
    have tl: "tool = tool'" using 2(2) tool by simp
    note scope' = scope [unfolded px tl] and valid' = valid [unfolded tx]
    from issued_token_executes [OF k0 2(6) sig rep ttl t0 st id h cap scope' px, where validate = validate and svc = svc
        and adapter = adapter and ids' = xids and er = er, OF valid']
    obtain d2 tok where x: "execute lib (w_auth_libs w) h svc px validate adapter d1 t (env_at t xids) er text payload key cap
      = (let (d3, res) = record_outcome (sha256 lib) svc px d2 er (JStr (t_id tr)) (xids 0)
                           (outcome_result (xids 0) (adapter payload tok (xids 0))) in (d3, True, res))"
      unfolding tx by blast
    show ?case unfolding x by (simp split: prod.split)
  qed simp
qed

subsection \<open>A sample call\<close>

definition sample_xid :: string where
  "sample_xid = replicate 20 CHR ''0''"

definition sample_mcp_policy :: policy where
  "sample_mcp_policy = (sample_policy sample_xid Allow 5)
     \<lparr>p_actions := [''opaque''], p_created_by := sample_xid, p_approved_by := None\<rparr>"

definition sample_mcp_db :: db where
  "sample_mcp_db = sample_fresh
     \<lparr>principals := [(sample_principal ''svc'' ''service'')\<lparr>pp_name := ''EP Service''\<rparr>,
                    sample_principal ''ag'' ''agent'', sample_principal ''hu'' ''human''],
      roles := [\<lparr> ro_id = ''ro1'', ro_name = ''agent'' \<rparr>, \<lparr> ro_id = ''ro2'', ro_name = ''policy_approver'' \<rparr>],
      role_bindings := [\<lparr> rb_id = ''rb1'', rb_principal_id = ''ag'', rb_role_id = ''ro1'', rb_project_id = Some ''p1'' \<rparr>,
                        \<lparr> rb_id = ''rb2'', rb_principal_id = ''hu'', rb_role_id = ''ro2'', rb_project_id = Some ''p1'' \<rparr>],
      policies := [\<lparr> pol_policy = sample_mcp_policy, pol_created_at = [], pol_updated_at = [] \<rparr>]\<rparr>"

definition sample_world :: world where
  "sample_world = \<lparr> w_libs = sample_libs, w_auth_libs = sample_auth_libs, w_host = sample_host,
     w_env = sample_env ''n'', w_checked_at = sample_instant, w_issued_at = sample_instant,
     w_nonce = ''x'', w_ttl = 300 \<rparr>"

definition sample_args :: call_args where
  "sample_args = \<lparr> ca_branch_id = Some ''b1'', ca_project_id = None, ca_lattice_id = None,
     ca_approval_id = None, ca_reason = None, ca_tool = Some ''custom'', ca_arguments = Some [],
     ca_proxy_audience = None \<rparr>"

lemma sample_mcp_ok [simp]: "keys_ok sample_mcp_db"
  by (simp add: sample_mcp_db_def keys_ok_def sample_fresh_def sample_simps)

lemma sample_mcp_gets [simp]:
  "branch_to_project sample_mcp_db ''b1'' = Some ''p1''"
  "project_of_branch sample_mcp_db ''b1'' = Some ''p1''"
  "get_transition sample_mcp_db i = None"
  by (simp_all add: branch_to_project_def lattice_to_project_def project_of_branch_def get_branch_def
      get_lattice_def get_transition_def sample_mcp_db_def sample_fresh_def sample_simps)

lemma sample_engine: "build_policy_engine sample_mcp_db (Some ''b1'') ''ag'' = Inr [sample_mcp_policy]"
proof -
  have "make_policy sample_mcp_policy = Inr sample_mcp_policy" by code_simp
  moreover have "list_effective_policies sample_mcp_db ''p1'' ''b1'' ''ag''
      = [\<lparr> pol_policy = sample_mcp_policy, pol_created_at = [], pol_updated_at = [] \<rparr>]"
    by (simp add: list_effective_policies_def order_policies_def sample_mcp_db_def)
      (simp add: sample_mcp_policy_def sample_policy_def)
  ultimately show ?thesis by (simp add: build_policy_engine_def)
qed

lemma sample_mcp_verdict:
  "verify_proposal sample_libs (Some [sample_mcp_policy]) sample_mcp_db (operation_env (sample_env i)) ''ag'' ''b1'' no_classifier
   = Inr \<lparr> v_result = ''admissible'', v_versions = [(sample_xid, 0)],
           v_set_hash = Some (compute_policy_set_hash sample_sha [(sample_xid, 0)]), v_approval_policies = [] \<rparr>"
proof -
  have "evaluate (\<lambda>_. 0) (\<lambda>_ _. Inl RuntimeError) ''2026-06-01T00:00:00.000000Z'' [sample_mcp_policy]
      ''opaque'' [] [(''agent_id'', JStr ''ag''), (''project_id'', JStr ''p1''), (''branch_id'', JStr ''b1'')]
    = \<lparr> r_effect = Allow,
        r_matched = [\<lparr> m_policy = sample_mcp_policy, m_actions = [''opaque''], m_resources = [''*''] \<rparr>],
        r_conflict = False, r_warnings = [] \<rparr>"
    by code_simp
  then show ?thesis
    by (simp add: verify_proposal_def sample_libs_def sample_env_def operation_env_def no_classifier_def Let_def
        matched_versions_def dict_of_def)
      (simp add: sample_mcp_policy_def sample_policy_def)
qed

lemma sample_mcp_propose:
  obtains d t where "governed_propose sample_world sample_mcp_db sample_args ''ag'' = Inr (d, t)"
    and "t_stage t = Authorized" and "t_id t = ''nxx''" and "t_agent_id t = ''ag''"
    and "t_matched_policy_versions t = [(sample_xid, 0)]" and "keys_ok d"
    and "get_transition d ''nxx'' = Some t" and "has_principal d ''ag''" and "has_project d ''p1''" and "has_branch d ''b1''"
    and "resolve_project_id d (Some ''b1'') None None None = Some ''p1''" and "authorizations d = []"
proof -
  have n: "\<not> replayed sample_mcp_db key" for key
    by (simp add: replayed_def get_by_idempotency_key_def sample_mcp_db_def sample_fresh_def sample_simps)
  let ?p = "propose sample_libs ''svc'' (Some [sample_mcp_policy]) sample_mcp_db (operation_env (sample_env ''n'')) ''ag''
     ''b1'' ''custom'' [] ''nx'' None None"
  have svc: "ep_service_id sample_mcp_db e = ''svc''" for e
    by (simp add: ep_service_id_def sample_mcp_db_def sample_principal_def)
  have e: "ids (sample_env ''n'') (Suc 0) = ''nx''" by (simp add: sample_env_def)
  have gp: "governed_propose sample_world sample_mcp_db sample_args ''ag'' = ?p"
    by (simp add: governed_propose_def sample_args_def sample_engine svc someE_def sample_world_def e)
  have "\<exists>p. ?p = Inr p"
    using sample_mcp_verdict [of "''n''"]
    by (simp add: propose_eq [OF n] proposal_def advance_and_log_def sample_classify operation_env_def
        sample_libs_def json_canonical_hash_def sample_run sample_simps sample_mcp_db_def sample_fresh_def)
  then obtain d t where p: "?p = Inr (d, t)" by (metis prod.exhaust)
  show thesis
  proof (rule propose_Inr [OF sample_mcp_ok n p], goal_cases)
    case (1 c h v evt hs as aps)
    have "v = \<lparr> v_result = ''admissible'', v_versions = [(sample_xid, 0)],
           v_set_hash = Some (compute_policy_set_hash sample_sha [(sample_xid, 0)]), v_approval_policies = [] \<rparr>"
      using 1(1,3) sample_mcp_verdict [of "''n''"] by (simp add: sample_classify sample_libs_def)
    then have st: "t_stage t = Authorized" "t_id t = ''nxx''" "t_agent_id t = ''ag''" "t_matched_policy_versions t = [(sample_xid, 0)]"
      by (simp_all add: 1(4) verdict_stage_def proposed_row_def sample_env_def operation_env_def stored_versions_def
          numeral_2_eq_2 sort_items_def set_stage_def)
    have tr: "transitions d = [t]" by (simp add: 1(5) sample_mcp_db_def sample_fresh_def)
    have "branch_to_project d ''b1'' = Some ''p1''"
      using branch_to_project_cong [of d sample_mcp_db "''b1''"] by (simp add: 1(5))
    then show ?case
      by (intro that [OF _ st])
        (use 1(14) in \<open>simp_all add: gp p tr get_transition_def st resolve_project_id_def,
          simp_all add: 1(5) sample_mcp_db_def sample_fresh_def sample_simps\<close>)
  qed
qed

lemma sample_binding: "require_binding_enforcement (sg_fromiso sample_auth_libs) sample_host (sample_instant + seconds n)
    sample_capability = Inr ()" if "n < 3600"
  using that by (simp add: require_binding_enforcement_def sample_capability_def for_test_def sample_auth_libs_def
      production_mode_def env_flag_def sample_host_def seconds_def)

lemma sample_mcp_call:
  obtains d aid signed ex where "handle_tool_call sample_world sample_mcp_db ''ep_execute'' sample_args mode ''ag''
      (Some sample_capability) = (d, Inr (Token_Issued ''nxx'' aid signed ex))"
    and "get_transition d ''nxx'' \<noteq> None"
proof -
  obtain d t where g: "governed_propose sample_world sample_mcp_db sample_args ''ag'' = Inr (d, t)"
    and st: "t_stage t = Authorized" "t_id t = ''nxx''" and t: "get_transition d ''nxx'' = Some t"
    and f: "has_principal d ''ag''" "has_project d ''p1''" "has_branch d ''b1''"
      "resolve_project_id d (Some ''b1'') None None None = Some ''p1''" "authorizations d = []"
    by (rule sample_mcp_propose)
  have b: "require_binding_enforcement (sg_fromiso sample_auth_libs) sample_host sample_instant sample_capability = Inr ()"
    using sample_binding [of 0] by (simp add: seconds_def)
  have "capability_admits (sg_fromiso sample_auth_libs) sample_host sample_instant sample_capability ''ag'' aud tool = Inr ()"
    for aud tool
    using b by (simp add: capability_admits_def) (simp add: sample_capability_def for_test_def)
  moreover have "has_transition d ''nxx''"
    using row_get_SomeD [OF t [unfolded get_transition_def]] by (force simp: has_transition_def row_has_iff)
  ultimately have "\<exists>p. issue_authorization sample_auth_libs sample_host 300 d sample_instant xid nonce ''nxx'' ''ag'' ''p1'' ''b1''
      aud tool ph ms sample_capability = Inr p" for xid nonce aud tool ph ms
    using f by (intro issue_authorization_ok) simp_all
  then obtain d2 k where i: "issue_authorization sample_auth_libs sample_host 300 d sample_instant
      (\<lambda>n. ids (operation_env (sample_env ''n'')) (n + 3)) ''x'' ''nxx'' ''ag'' ''p1'' ''b1'' ''postgres-proxy'' ''custom''
      (''sha256:'' @ ''h'') (matched_entries (t_matched_policy_versions t)) sample_capability = Inr (d2, k)"
    by (metis prod.exhaust)
  have "\<exists>aid signed ex. issue_for sample_world d sample_args ''ag'' sample_capability t = Inr (d2, Token_Issued ''nxx'' aid signed ex)"
    using b f(4) i st(2) by (simp add: issue_for_def sample_world_def sample_args_def someE_def default_audience_def orelse_def
        json_canonical_hash_def json_hash_def sample_libs_def sample_sha_def)
  then have "\<exists>aid signed ex. ep_execute sample_world sample_mcp_db sample_args ''ag'' (Some sample_capability)
      = (d2, Inr (Token_Issued ''nxx'' aid signed ex))"
    using g st(1) by (auto simp: ep_execute_def) (simp_all add: sample_args_def finish_def)
  moreover have "get_principal sample_mcp_db ''ag'' = Some (sample_principal ''ag'' ''agent'')"
    by (simp add: get_principal_def sample_mcp_db_def sample_principal_def)
  moreover have "context_project sample_mcp_db ''ep_execute'' sample_args = Some ''p1''"
    by (simp add: context_project_def resolve_project_id_def sample_args_def)
  moreover have "check_role sample_host sample_mcp_db ''ag'' [Agent_Role, Operator, Administrator] (Some ''p1'') tool = None" for tool
  proof -
    have "held_roles sample_mcp_db ''ag'' (Some ''p1'') = [''agent'']" by (simp add: held_roles_def sample_mcp_db_def)
    then show ?thesis by (simp add: check_role_def)
  qed
  ultimately have "\<exists>aid signed ex. handle_tool_call sample_world sample_mcp_db ''ep_execute'' sample_args mode ''ag''
      (Some sample_capability) = (d2, Inr (Token_Issued ''nxx'' aid signed ex))"
    using b by (auto simp: handle_tool_call_def dispatch_def tool_required_roles_def sample_principal_def sample_world_def)
  moreover have "get_transition d2 ''nxx'' = Some t"
    by (rule issue_authorization_Inr [OF i]) (use t in \<open>simp add: get_transition_def\<close>)
  ultimately show thesis using that by auto
qed

theorem mcp_changes_are_authorized_witness:
  "\<exists>d res t. handle_tool_call sample_world sample_mcp_db ''ep_execute'' sample_args ''enforced'' ''ag'' (Some sample_capability) = (d, res)
     \<and> get_transition d ''nxx'' = Some t \<and> t_agent_id t = ''ag''"
proof (rule sample_mcp_call [of "''enforced''"], goal_cases)
  case (1 d aid signed ex)
  then obtain t where t: "get_transition d ''nxx'' = Some t" by auto
  from mcp_changes_are_authorized [OF sample_mcp_ok 1(1) t] 1(1) t show ?case by auto
qed

text \<open>A capability like that of the proxy service: scoped to the proxy, with an audience and one supported tool.\<close>

definition sample_proxy_capability :: capability where
  "sample_proxy_capability = sample_capability
     \<lparr>cap_proxy_scoped := True, cap_proxy_audience := ''postgres-proxy'', cap_supported_action_types := [''custom'']\<rparr>"

theorem mcp_token_reaches_adapter_witness:
  "\<exists>d text d2 res. execute sample_libs sample_auth_libs sample_host ''svc'' (sample_proxy\<lparr>px_audience := ''postgres-proxy''\<rparr>)
     (\<lambda>_ _. Inr None) sample_adapter d (sample_instant + seconds 60)
     (env_at (sample_instant + seconds 60) (\<lambda>n. ''x'')) (sample_env ''m'') text [] ''key'' sample_proxy_capability = (d2, True, res)"
proof (rule sample_mcp_call [of "''enforced''"], goal_cases)
  case (1 d aid signed ex)
  have "sample_instant + seconds 60 < w_issued_at sample_world + seconds (w_ttl sample_world)"
    by (simp add: sample_world_def seconds_def)
  moreover have "require_binding_enforcement (sg_fromiso sample_auth_libs) sample_host (sample_instant + seconds 60)
      sample_proxy_capability = Inr ()"
    by (simp add: require_binding_enforcement_def sample_proxy_capability_def sample_capability_def for_test_def
        sample_auth_libs_def production_mode_def env_flag_def sample_host_def seconds_def)
  ultimately show ?case
    using mcp_token_reaches_adapter [OF sample_mcp_ok 1(1), of "[]" "''custom''" "''key''" "sample_instant + seconds 60" sample_libs
      sample_host sample_proxy_capability "sample_proxy\<lparr>px_audience := ''postgres-proxy''\<rparr>" "\<lambda>_ _. Inr None" "''svc''"
      sample_adapter "\<lambda>n. ''x''" "sample_env ''m''"]
    by (auto simp: sample_args_def sample_world_def sample_auth_libs_def sample_proxy_capability_def sample_capability_def
        for_test_def sample_proxy_def default_audience_def orelse_def blocked_def supports_action_type_def)
qed

subsection \<open>What the server does not check\<close>

text \<open>\<open>mode\<close> plays no part: a tool that a mode does not list can still be called.\<close>

lemma mode_is_ignored: "handle_tool_call w d name a mode pid cap = handle_tool_call w d name a mode' pid cap"
  by (simp add: handle_tool_call_def)

text \<open>The role for \<open>ep_list_policies\<close> is checked in the project named by \<open>project_id\<close>, the listing is that of
  the branch: with both arguments a role in one project reads the policies of another.\<close>

lemma policies_of_another_project:
  assumes "get_principal d pid = Some p" and "pp_status p = ''active''"
    and "check_role (w_host w) d pid [Observer, Agent_Role, Operator, Administrator] (Some mine) ''ep_list_policies'' = None"
    and "ca_project_id a = Some mine" and "mine \<noteq> []"
    and "ca_branch_id a = Some b" and "b \<noteq> []" and "branch_to_project d b = Some other"
  shows "handle_tool_call w d ''ep_list_policies'' a mode pid cap
    = (d, Inr (Policy_List (list_active_policies_for_project d other)))"
  using assms by (simp add: handle_tool_call_def context_project_def tool_required_roles_def dispatch_def
      ep_list_policies_def listed_project_def resolve_project_id_def)

text \<open>Without a stored service principal no proposal can be made through the server: the row that
  \<open>_get_ep_service_id\<close> inserts is never committed, and the audit event refers to it.\<close>

lemma propose_needs_service:
  assumes n: "\<not> replayed d key" and p: "propose lib svc pe d e ag br tool args key eh ev = Inr (d', t')"
  shows "has_principal d svc"
proof (rule propose_steps [OF n p], goal_cases)
  case (1 c h v row)
  show ?case
  proof (cases "v_result v = ''pending_approval''")
    case True
    show ?thesis
      by (rule proposal_pending [OF True 1(6)], elim write_event_Inr advance_stage_Inr add_policies_Inr)
        (auto simp: create_request_def store_simps has_principal_def)
  next
    case False
    then show ?thesis
      using 1(6) unfolding proposal_decided [OF False] advance_and_log_def write_audit_event_def
      by (auto elim!: write_event_Inr advance_stage_Inr simp: has_principal_def)
  qed
qed

lemma service_is_never_stored:
  assumes "\<not> (\<exists>p \<in> set (principals d). pp_type p = ''service'' \<and> pp_name p = ''EP Service'')"
    and "\<not> has_principal d (ids (w_env w) 0)" and "\<not> replayed d (ids (w_env w) 1)"
  shows "\<exists>err. governed_propose w d a ag = Inl err"
proof (cases "governed_propose w d a ag")
  case (Inr r)
  have "ep_service_id d (w_env w) = ids (w_env w) 0"
    using assms(1) by (auto simp: ep_service_id_def find_None_iff find_Some_iff split: option.split)
  then show ?thesis
    using Inr assms(2,3) by (cases r) (auto elim!: governed_propose_Inr dest: propose_needs_service)
qed simp

end
