(* ===== verification/Resources.thy ===== *)
theory Resources
  imports Classification Json_Parse
begin

section \<open>Resource canonicalization (resources.py)\<close>

text \<open>
  \<open>canonicalize_resource\<close> and its helpers, with what they use of \<open>urllib.parse\<close>: the scheme, the host, the port
  and the path of a URL, and percent-encoding. Texts are byte strings; escapes of bytes above 127 are taken to
  spell UTF-8. Two library functions are arguments: \<open>ip\<close> is \<open>str(ipaddress.ip_address(host))\<close>, \<open>None\<close> where it
  raises, and \<open>brackets\<close> tells whether \<open>urlsplit\<close> accepts a network location with a bracketed host.
  \<open>match_glob\<close> is in \<open>Glob\<close>.
\<close>

record canonical_resource =
  re_scheme :: string
  re_path :: string
  re_raw :: string
  re_canonical :: string

subsection \<open>Text\<close>

definition is_letter :: "char \<Rightarrow> bool" where
  "is_letter c \<longleftrightarrow> (let n = (of_char c :: nat) in (65 \<le> n \<and> n \<le> 90) \<or> (97 \<le> n \<and> n \<le> 122))"

definition domain_char :: "char \<Rightarrow> bool" where
  "domain_char c \<longleftrightarrow> is_letter c \<or> is_digit c \<or> c = CHR ''.'' \<or> c = CHR ''-''"

text \<open>The parts of a text before and after the first occurrence of a character, and after the last.\<close>

definition before_first :: "char \<Rightarrow> string \<Rightarrow> string" where
  "before_first c s = takeWhile (\<lambda>x. x \<noteq> c) s"

definition after_first :: "char \<Rightarrow> string \<Rightarrow> string" where
  "after_first c s = drop (Suc (length (before_first c s))) s"

definition after_last :: "char \<Rightarrow> string \<Rightarrow> string" where
  "after_last c s = rev (takeWhile (\<lambda>x. x \<noteq> c) (rev s))"

definition last_part :: "string \<Rightarrow> string" where
  "last_part s = after_last (CHR ''.'') s"

fun split_on :: "char \<Rightarrow> string \<Rightarrow> string list" where
  "split_on c [] = [[]]"
| "split_on c (x # s) =
     (if x = c then [] # split_on c s
      else (case split_on c s of [] \<Rightarrow> [[x]] | w # ws \<Rightarrow> (x # w) # ws))"

text \<open>A match with \<open>$\<close> at the end allows one newline there.\<close>

definition but_newline :: "string \<Rightarrow> string" where
  "but_newline s = (if s \<noteq> [] \<and> last s = CHR 0x0A then butlast s else s)"

text \<open>The address expression: the domain ends in its last dot and at least two letters.\<close>

definition email_address :: "string \<Rightarrow> bool" where
  "email_address a \<longleftrightarrow>
     (let local = before_first (CHR ''@'') a; domain = after_first (CHR ''@'') a; tld = last_part domain;
          host = take (length domain - Suc (length tld)) domain in
      local \<noteq> [] \<and> list_all (\<lambda>c. domain_char c \<or> c \<in> set ''_%+'') local \<and> CHR ''@'' \<in> set a
      \<and> CHR ''.'' \<in> set domain \<and> host \<noteq> [] \<and> list_all domain_char host
      \<and> 2 \<le> length tld \<and> list_all is_letter tld)"

subsection \<open>Percent-encoding\<close>

definition hex_value :: "char \<Rightarrow> nat option" where
  "hex_value c =
     (let n = (of_char c :: nat) in
      if 48 \<le> n \<and> n \<le> 57 then Some (n - 48)
      else if 65 \<le> n \<and> n \<le> 70 then Some (n - 55)
      else if 97 \<le> n \<and> n \<le> 102 then Some (n - 87) else None)"

fun unquote :: "string \<Rightarrow> string" where
  "unquote [] = []"
| "unquote [c] = [c]"
| "unquote [c, d] = [c, d]"
| "unquote (c # d # e # s) =
     (if c = CHR ''%'' then
        (case (hex_value d, hex_value e) of
           (Some a, Some b) \<Rightarrow> char_of (16 * a + b) # unquote s
         | _ \<Rightarrow> c # unquote (d # e # s))
      else c # unquote (d # e # s))"

definition hex_char :: "nat \<Rightarrow> char" where
  "hex_char n = (if n < 10 then char_of (48 + n) else char_of (55 + n))"

definition unreserved :: "char \<Rightarrow> bool" where
  "unreserved c \<longleftrightarrow> is_letter c \<or> is_digit c \<or> c \<in> set ''_.-~''"

definition quote_byte :: "char \<Rightarrow> string" where
  "quote_byte c = (if unreserved c then [c]
     else (let n = (of_char c :: nat) in [CHR ''%'', hex_char (n div 16), hex_char (n mod 16)]))"

definition quote :: "string \<Rightarrow> string" where
  "quote s = concat (map quote_byte s)"

subsection \<open>URLs\<close>

record url =
  u_scheme :: string
  u_netloc :: string
  u_path :: string

definition scheme_char :: "char \<Rightarrow> bool" where
  "scheme_char c \<longleftrightarrow> is_letter c \<or> is_digit c \<or> c \<in> set ''+-.''"

definition clean_url :: "string \<Rightarrow> string" where
  "clean_url s = filter (\<lambda>c. c \<notin> {CHR 0x09, CHR 0x0A, CHR 0x0D}) (dropWhile (\<lambda>c. (of_char c :: nat) \<le> 32) s)"

definition split_scheme :: "string \<Rightarrow> string \<times> string" where
  "split_scheme s =
     (let p = before_first (CHR '':'') s in
      if CHR '':'' \<in> set s \<and> p \<noteq> [] \<and> is_letter (hd p) \<and> list_all scheme_char p
      then (lower p, after_first (CHR '':'') s) else ([], s))"

definition split_netloc :: "string \<Rightarrow> string \<times> string" where
  "split_netloc s =
     (if starts_with ''//'' s
      then (let n = takeWhile (\<lambda>c. c \<notin> set ''/?#'') (drop 2 s) in (n, drop (length n + 2) s))
      else ([], s))"

text \<open>\<open>urlparse\<close>: it raises for unbalanced or unacceptable brackets.\<close>

definition urlparse :: "(string \<Rightarrow> bool) \<Rightarrow> string \<Rightarrow> ep_error + url" where
  "urlparse brackets raw =
     (let (scheme, rest) = split_scheme (clean_url raw); (netloc, tail) = split_netloc rest;
          opened = CHR ''['' \<in> set netloc; closed = CHR '']'' \<in> set netloc in
      if opened \<noteq> closed \<or> (opened \<and> \<not> brackets netloc) then Inl ValueError
      else Inr \<lparr> u_scheme = scheme, u_netloc = netloc, u_path = takeWhile (\<lambda>c. c \<notin> set ''?#'') tail \<rparr>)"

text \<open>The host and the text of the port.\<close>

definition hostinfo :: "string \<Rightarrow> string \<times> string" where
  "hostinfo netloc =
     (let h = after_last (CHR ''@'') netloc in
      if CHR ''['' \<in> set h
      then (let b = after_first (CHR ''['') h in
            (before_first (CHR '']'') b, after_first (CHR '':'') (after_first (CHR '']'') b)))
      else (before_first (CHR '':'') h, after_first (CHR '':'') h))"

definition hostname :: "string \<Rightarrow> string" where
  "hostname h = lower (before_first (CHR ''%'') h) @ drop (length (before_first (CHR ''%'') h)) h"

definition port_number :: "string \<Rightarrow> ep_error + nat option" where
  "port_number p =
     (if p = [] then Inr None
      else if list_all is_digit p \<and> nat_of_digits p \<le> 65535 then Inr (Some (nat_of_digits p))
      else Inl ValueError)"

definition supported_schemes :: "string list" where
  "supported_schemes = [''postgres'', ''postgresql'', ''host'', ''container'', ''file'', ''email'', ''git'']"

record parsed_uri =
  pu_scheme :: string
  pu_host :: string
  pu_port :: "nat option"
  pu_path :: string

definition parse_generic_uri :: "(string \<Rightarrow> bool) \<Rightarrow> string \<Rightarrow> ep_error + parsed_uri" where
  "parse_generic_uri brackets raw =
     bindE (urlparse brackets raw) (\<lambda>u.
     bindE (requireE (u_scheme u \<in> set supported_schemes) ResourceCanonicalizationError) (\<lambda>_.
     case hostinfo (u_netloc u) of (h, p) \<Rightarrow>
     bindE (port_number p) (\<lambda>port.
       Inr \<lparr> pu_scheme = u_scheme u, pu_host = hostname h, pu_port = port, pu_path = u_path u \<rparr>)))"

subsection \<open>Hosts and paths\<close>

definition label_char :: "char \<Rightarrow> bool" where
  "label_char c \<longleftrightarrow> (let n = (of_char c :: nat) in 97 \<le> n \<and> n \<le> 122) \<or> is_digit c \<or> c = CHR ''-''"

definition valid_label :: "string \<Rightarrow> bool" where
  "valid_label l \<longleftrightarrow> 1 \<le> length l \<and> length l \<le> 63 \<and> list_all label_char l
     \<and> hd l \<noteq> CHR ''-'' \<and> last l \<noteq> CHR ''-''"

text \<open>The table of host aliases is empty.\<close>

definition normalize_hostname :: "(string \<Rightarrow> string option) \<Rightarrow> string \<Rightarrow> ep_error + string" where
  "normalize_hostname ip raw =
     (let host = rstrip_by (\<lambda>c. c = CHR ''.'') (lower (strip raw)) in
      if host = [] then Inl ResourceCanonicalizationError
      else (case ip host of
              Some addr \<Rightarrow> Inr addr
            | None \<Rightarrow> bindE (requireE (list_all valid_label (split_on (CHR ''.'') host)) ResourceCanonicalizationError) (\<lambda>_.
                       Inr host)))"

definition normalize_port :: "nat option \<Rightarrow> nat" where
  "normalize_port p = (case p of None \<Rightarrow> 5432 | Some n \<Rightarrow> if n = 0 then 5432 else n)"

definition segments :: "string \<Rightarrow> string list" where
  "segments path = filter (\<lambda>s. s \<noteq> []) (split_on (CHR ''/'') path)"

definition normalize_path :: "string \<Rightarrow> ep_error + string" where
  "normalize_path path =
     (let decoded = unquote path in
      bindE (requireE (\<forall>s \<in> set (split_on (CHR ''/'') decoded). s \<noteq> ''.'' \<and> s \<noteq> ''..'') ResourceCanonicalizationError) (\<lambda>_.
        Inr (CHR ''/'' # join ''/'' (segments decoded))))"

definition percent_encode_path :: "string \<Rightarrow> string" where
  "percent_encode_path path = join ''/'' (map quote (split_on (CHR ''/'') path))"

definition port_suffix :: "nat \<Rightarrow> nat \<Rightarrow> string" where
  "port_suffix hidden p = (if p = hidden then [] else CHR '':'' # show_nat p)"

subsection \<open>The schemes\<close>

abbreviation re_error :: "ep_error + 'a" where "re_error \<equiv> Inl ResourceCanonicalizationError"

abbreviation re_require :: "bool \<Rightarrow> ep_error + unit" where "re_require c \<equiv> requireE c ResourceCanonicalizationError"

definition resource :: "string \<Rightarrow> string \<Rightarrow> string \<Rightarrow> string \<Rightarrow> canonical_resource" where
  "resource scheme path raw canonical =
     \<lparr> re_scheme = scheme, re_path = path, re_raw = raw, re_canonical = canonical \<rparr>"

definition canonicalize_postgres ::
  "(string \<Rightarrow> string option) \<Rightarrow> string \<Rightarrow> parsed_uri \<Rightarrow> ep_error + canonical_resource" where
  "canonicalize_postgres ip raw u =
     bindE (normalize_hostname ip (pu_host u)) (\<lambda>host.
     bindE (normalize_path (pu_path u)) (\<lambda>path.
     let segs = segments path in
     bindE (re_require (1 \<le> length segs \<and> length segs \<le> 3)) (\<lambda>_.
     let p = CHR ''/'' # join ''/'' (map lower segs) in
       Inr (resource ''postgres'' p raw (''postgres://'' @ host @ port_suffix 5432 (normalize_port (pu_port u)) @ p)))))"

definition canonicalize_host ::
  "(string \<Rightarrow> string option) \<Rightarrow> string \<Rightarrow> parsed_uri \<Rightarrow> ep_error + canonical_resource" where
  "canonicalize_host ip raw u =
     bindE (normalize_hostname ip (pu_host u)) (\<lambda>host.
     bindE (re_require (pu_path u = [] \<or> pu_path u = ''/'')) (\<lambda>_.
       Inr (resource ''host'' [] raw
              (''host://'' @ host @ (case pu_port u of None \<Rightarrow> [] | Some n \<Rightarrow> port_suffix 0 n)))))"

definition container_char :: "char \<Rightarrow> bool" where
  "container_char c \<longleftrightarrow> label_char c \<or> c = CHR ''.'' \<or> c = CHR ''_''"

definition container_name :: "string \<Rightarrow> bool" where
  "container_name s \<longleftrightarrow> (let b = but_newline s in
     b \<noteq> [] \<and> label_char (hd b) \<and> hd b \<noteq> CHR ''-'' \<and> list_all container_char b)"

definition canonicalize_container ::
  "(string \<Rightarrow> string option) \<Rightarrow> string \<Rightarrow> parsed_uri \<Rightarrow> ep_error + canonical_resource" where
  "canonicalize_container ip raw u =
     bindE (normalize_hostname ip (pu_host u)) (\<lambda>host.
     bindE (normalize_path (pu_path u)) (\<lambda>path.
     case segments path of
       [s] \<Rightarrow> (let p = CHR ''/'' # lower s in
               bindE (re_require (container_name (lower s))) (\<lambda>_.
                 Inr (resource ''container'' p raw (''container://'' @ host @ p))))
     | _ \<Rightarrow> re_error))"

definition canonicalize_file ::
  "(string \<Rightarrow> string option) \<Rightarrow> string \<Rightarrow> parsed_uri \<Rightarrow> ep_error + canonical_resource" where
  "canonicalize_file ip raw u =
     bindE (if pu_host u \<noteq> [] then normalize_hostname ip (pu_host u) else Inr ''localhost'') (\<lambda>host.
     bindE (normalize_path (pu_path u)) (\<lambda>path.
     bindE (re_require (path \<noteq> ''/'')) (\<lambda>_.
       Inr (resource ''file'' path raw (''file://'' @ host @ percent_encode_path path)))))"

text \<open>The text after the first \<open>://\<close>.\<close>

definition remainder :: "string \<Rightarrow> string" where
  "remainder raw = (case after ''://'' raw of None \<Rightarrow> [] | Some r \<Rightarrow> r)"

definition canonicalize_email :: "string \<Rightarrow> parsed_uri \<Rightarrow> ep_error + canonical_resource" where
  "canonicalize_email raw u =
     (let rest = remainder raw; ty = lower (before_first (CHR ''/'') rest);
          address = lower (strip (after_first (CHR ''/'') rest)); p = ty @ CHR ''/'' # address in
      bindE (re_require (CHR ''/'' \<in> set rest \<and> ty \<noteq> [] \<and> email_address address)) (\<lambda>_.
        Inr (resource ''email'' (CHR ''/'' # p) raw (''email://'' @ p))))"

definition branch_name :: "string \<Rightarrow> bool" where
  "branch_name s \<longleftrightarrow> (let b = but_newline s in
     b \<noteq> [] \<and> list_all (\<lambda>c. domain_char c \<or> c = CHR ''_'' \<or> c = CHR ''/'') b)"

definition canonicalize_git ::
  "(string \<Rightarrow> string option) \<Rightarrow> string \<Rightarrow> parsed_uri \<Rightarrow> ep_error + canonical_resource" where
  "canonicalize_git ip raw u =
     bindE (normalize_hostname ip (pu_host u)) (\<lambda>host.
     bindE (normalize_path (pu_path u)) (\<lambda>path.
     let segs = segments path in
     bindE (re_require (3 \<le> length segs \<and> segs ! (length segs - 2) = ''branch'' \<and> branch_name (last segs))) (\<lambda>_.
     let p = CHR ''/'' # join ''/'' segs in
       Inr (resource ''git'' p raw (''git://'' @ host @ p)))))"

definition canonicalizer ::
  "(string \<Rightarrow> string option) \<Rightarrow> string \<Rightarrow> string \<Rightarrow> parsed_uri \<Rightarrow> ep_error + canonical_resource" where
  "canonicalizer ip scheme =
     (if scheme = ''postgres'' \<or> scheme = ''postgresql'' then canonicalize_postgres ip
      else if scheme = ''host'' then canonicalize_host ip
      else if scheme = ''container'' then canonicalize_container ip
      else if scheme = ''file'' then canonicalize_file ip
      else if scheme = ''email'' then canonicalize_email
      else if scheme = ''git'' then canonicalize_git ip
      else (\<lambda>_ _. re_error))"

text \<open>The raw text with the hinted scheme, when it has none.\<close>

definition with_scheme :: "string \<Rightarrow> string option \<Rightarrow> ep_error + string" where
  "with_scheme raw hint =
     (if contains ''://'' raw then Inr raw
      else (case hint of
              None \<Rightarrow> re_error
            | Some h \<Rightarrow> (if lower h \<in> set supported_schemes then Inr (lower h @ ''://'' @ raw) else re_error)))"

definition canonicalize_resource ::
  "(string \<Rightarrow> string option) \<Rightarrow> (string \<Rightarrow> bool) \<Rightarrow> string \<Rightarrow> string option \<Rightarrow> ep_error + canonical_resource" where
  "canonicalize_resource ip brackets raw hint =
     (if strip raw = [] then re_error
      else bindE (with_scheme (strip raw) hint) (\<lambda>raw'.
           bindE (parse_generic_uri brackets raw') (\<lambda>u.
             canonicalizer ip (pu_scheme u) raw' u)))"

subsection \<open>Splitting and joining\<close>

lemma split_on_not_Nil [simp]: "split_on c s \<noteq> []"
  by (induction s) (auto split: list.split)

lemma split_on_plain: "c \<notin> set s \<Longrightarrow> split_on c s = [s]"
  by (induction s) auto

lemma split_on_append: "c \<notin> set w \<Longrightarrow> split_on c (w @ c # s) = w # split_on c s"
  by (induction w) auto

lemma split_on_parts: "w \<in> set (split_on c s) \<Longrightarrow> c \<notin> set w \<and> set w \<subseteq> set s"
  by (induction s arbitrary: w) (fastforce split: list.splits if_splits)+

lemma split_on_join: "ws \<noteq> [] \<Longrightarrow> \<forall>w \<in> set ws. c \<notin> set w \<Longrightarrow> split_on c (join [c] ws) = ws"
proof (induction ws rule: induct_list012)
  case (3 w v ws)
  then show ?case by (simp add: split_on_append)
qed (simp_all add: split_on_plain)

text \<open>The non-empty parts of a path, put together again.\<close>

definition path_of :: "string list \<Rightarrow> string" where
  "path_of segs = CHR ''/'' # join ''/'' segs"

definition clean_segments :: "string list \<Rightarrow> bool" where
  "clean_segments segs \<longleftrightarrow> (\<forall>s \<in> set segs. CHR ''/'' \<notin> set s \<and> s \<noteq> [] \<and> s \<noteq> ''.'' \<and> s \<noteq> ''..'')"

lemma split_path_of: "clean_segments segs \<Longrightarrow> segs \<noteq> [] \<Longrightarrow> split_on (CHR ''/'') (path_of segs) = [] # segs"
  by (simp add: path_of_def split_on_join clean_segments_def)

lemma segments_path_of: "clean_segments segs \<Longrightarrow> segments (path_of segs) = segs"
proof (cases "segs = []")
  case False
  assume c: "clean_segments segs"
  then have "filter (\<lambda>s. s \<noteq> []) segs = segs" by (intro filter_True) (auto simp: clean_segments_def)
  then show ?thesis by (simp add: segments_def split_path_of [OF c False])
qed (simp add: segments_def path_of_def)

lemma normalize_path_Inr:
  assumes "normalize_path p = Inr path"
  obtains segs where "path = path_of segs" and "clean_segments segs" and "segments (unquote p) = segs"
proof -
  from assms have "path = path_of (segments (unquote p))"
    and "\<forall>s \<in> set (split_on (CHR ''/'') (unquote p)). s \<noteq> ''.'' \<and> s \<noteq> ''..''"
    by (simp_all add: normalize_path_def Let_def path_of_def)
  moreover from this(2) have "clean_segments (segments (unquote p))"
    by (auto simp: clean_segments_def segments_def dest: split_on_parts)
  ultimately show thesis using that by blast
qed

lemma segments_normal: "normalize_path p = Inr path \<Longrightarrow> clean_segments (segments path)"
  by (elim normalize_path_Inr) (simp add: segments_path_of)

lemma normalize_path_fixed:
  assumes "clean_segments segs" and "unquote p = path_of segs"
  shows "normalize_path p = Inr (path_of segs)"
proof -
  have "\<forall>s \<in> set (split_on (CHR ''/'') (path_of segs)). s \<noteq> ''.'' \<and> s \<noteq> ''..''"
    using assms(1) split_path_of [OF assms(1)] by (cases "segs = []") (auto simp: clean_segments_def path_of_def)
  then show ?thesis using segments_path_of [OF assms(1)] by (simp add: normalize_path_def assms(2) path_of_def)
qed

subsection \<open>Percent-encoding is undone\<close>

lemma unquote_Cons: "c \<noteq> CHR ''%'' \<Longrightarrow> unquote (c # s) = c # unquote s"
  by (cases s rule: unquote.cases) simp_all

lemma hex_value_char: "k < 16 \<Longrightarrow> hex_value (hex_char k) = Some k"
  by (auto simp: hex_value_def hex_char_def Let_def)

lemma unquote_quote_byte: "unquote (quote_byte c @ s) = c # unquote s"
proof (cases "unreserved c")
  case True
  then have "c \<noteq> CHR ''%''" by (auto simp: unreserved_def is_letter_def is_digit_def)
  with True show ?thesis by (simp add: quote_byte_def unquote_Cons)
next
  case False
  have "(of_char c :: nat) div 16 < 16" using nat_of_char_less_256 [of c] by linarith
  with False show ?thesis by (simp add: quote_byte_def Let_def hex_value_char)
qed

definition encode_byte :: "char \<Rightarrow> string" where
  "encode_byte c = (if c = CHR ''/'' then [c] else quote_byte c)"

lemma percent_encode_path_bytes: "percent_encode_path s = concat (map encode_byte s)"
proof (induction s)
  case Nil
  then show ?case by (simp add: percent_encode_path_def quote_def)
next
  case (Cons c s)
  obtain w ws where w: "split_on (CHR ''/'') s = w # ws" by (cases "split_on (CHR ''/'') s") auto
  with Cons show ?case
    by (cases ws) (auto simp: percent_encode_path_def encode_byte_def quote_def)
qed

lemma unquote_percent_encode_path: "unquote (percent_encode_path s) = s"
  unfolding percent_encode_path_bytes
  by (induction s) (simp_all add: encode_byte_def unquote_quote_byte unquote_Cons)

definition url_safe :: "char \<Rightarrow> bool" where
  "url_safe c \<longleftrightarrow> unreserved c \<or> c = CHR ''%'' \<or> c = CHR ''/''"

lemma hex_char_unreserved: "k < 16 \<Longrightarrow> unreserved (hex_char k)"
  by (auto simp: hex_char_def unreserved_def is_letter_def is_digit_def Let_def)

lemma quote_byte_safe: "x \<in> set (quote_byte c) \<Longrightarrow> url_safe x"
proof -
  assume x: "x \<in> set (quote_byte c)"
  have "(of_char c :: nat) div 16 < 16" using nat_of_char_less_256 [of c] by linarith
  with x show ?thesis
    by (auto simp: quote_byte_def url_safe_def Let_def hex_char_unreserved split: if_splits)
qed

lemma percent_encode_path_safe: "list_all url_safe (percent_encode_path s)"
  unfolding percent_encode_path_bytes list_all_iff
  by (auto simp: encode_byte_def url_safe_def split: if_splits dest!: quote_byte_safe)

lemma url_safe_chars: "url_safe c \<Longrightarrow> \<not> py_space c \<and> c \<notin> {CHR '':'', CHR ''?'', CHR ''#'', CHR 0x09, CHR 0x0A, CHR 0x0D}"
  by (auto simp: url_safe_def unreserved_def is_letter_def is_digit_def py_space_def Let_def)

subsection \<open>Canonical hosts\<close>

text \<open>What the model relies on of \<open>ipaddress\<close>: the name localhost is no address, and the text of an IPv4 address
  consists of digits and dots and denotes itself.\<close>

definition ip_library :: "(string \<Rightarrow> string option) \<Rightarrow> bool" where
  "ip_library ip \<longleftrightarrow> ip ''localhost'' = None
     \<and> (\<forall>s a. ip s = Some a \<longrightarrow> CHR '':'' \<notin> set a \<longrightarrow>
          ip a = Some a \<and> a \<noteq> [] \<and> list_all (\<lambda>c. is_digit c \<or> c = CHR ''.'') a \<and> last a \<noteq> CHR ''.'')"

definition host_char :: "char \<Rightarrow> bool" where
  "host_char c \<longleftrightarrow> label_char c \<or> c = CHR ''.''"

definition host_ok :: "(string \<Rightarrow> string option) \<Rightarrow> string \<Rightarrow> bool" where
  "host_ok ip h \<longleftrightarrow> h \<noteq> [] \<and> list_all host_char h \<and> last h \<noteq> CHR ''.''
     \<and> (ip h = Some h \<or> ip h = None \<and> list_all valid_label (split_on (CHR ''.'') h))"

lemma split_on_cover: "x \<in> set s \<Longrightarrow> x = c \<or> (\<exists>w \<in> set (split_on c s). x \<in> set w)"
  by (induction s) (auto split: list.splits)

lemma rstrip_by_last: "rstrip_by p s \<noteq> [] \<Longrightarrow> \<not> p (last (rstrip_by p s))"
  by (simp add: rstrip_by_def last_rev hd_dropWhile)

lemma rstrip_by_id: "s = [] \<or> \<not> p (last s) \<Longrightarrow> rstrip_by p s = s"
  by (cases s rule: rev_cases) (simp_all add: rstrip_by_def)

lemma strip_id: "s = [] \<or> \<not> py_space (hd s) \<and> \<not> py_space (last s) \<Longrightarrow> strip s = s"
  by (cases s) (simp_all add: strip_def lstrip_def rstrip_by_id)

lemma normalize_hostname_ok:
  assumes lib: "ip_library ip" and n: "normalize_hostname ip x = Inr h" and v4: "CHR '':'' \<notin> set h"
  shows "host_ok ip h"
proof -
  let ?h = "rstrip_by (\<lambda>c. c = CHR ''.'') (lower (strip x))"
  show ?thesis
  proof (cases "ip ?h")
    case None
    with n have h: "h = ?h" "h \<noteq> []" "list_all valid_label (split_on (CHR ''.'') h)"
      by (auto simp: normalize_hostname_def Let_def split: if_splits)
    have "list_all host_char h"
      using split_on_cover [of _ h "CHR ''.''"] h(3) by (fastforce simp: list_all_iff host_char_def valid_label_def)
    moreover have "last h \<noteq> CHR ''.''" using rstrip_by_last [of "\<lambda>c. c = CHR ''.''" "lower (strip x)"] h by simp
    ultimately show ?thesis using h None by (simp add: host_ok_def)
  next
    case (Some a)
    with n have "a = h" by (auto simp: normalize_hostname_def Let_def split: if_splits)
    with Some lib v4 show ?thesis
      by (auto simp: ip_library_def host_ok_def host_char_def label_char_def list_all_iff)
  qed
qed

lemma host_char_facts: "host_char c \<Longrightarrow> \<not> py_space c \<and> lower_char c = c \<and> c \<notin> set ''/?#@[]:%'' \<and> 32 < (of_char c :: nat)"
  by (auto simp: host_char_def label_char_def is_digit_def py_space_def lower_char_def Let_def)

lemma url_safe_facts: "url_safe c \<Longrightarrow> \<not> py_space c \<and> c \<notin> set '':?#'' \<and> 32 < (of_char c :: nat)"
  by (auto simp: url_safe_def unreserved_def is_letter_def is_digit_def py_space_def Let_def)

lemma host_ok_normalizes: "host_ok ip h \<Longrightarrow> normalize_hostname ip h = Inr h"
proof -
  assume h: "host_ok ip h"
  then have c: "\<forall>c \<in> set h. \<not> py_space c \<and> lower_char c = c" and ne: "h \<noteq> []" "last h \<noteq> CHR ''.''"
    by (auto simp: host_ok_def list_all_iff dest: host_char_facts)
  have "strip h = h" using c ne(1) by (intro strip_id) auto
  moreover have "lower h = h" unfolding lower_def by (rule map_idI) (use c in simp)
  moreover have "rstrip_by (\<lambda>c. c = CHR ''.'') h = h" by (rule rstrip_by_id) (use ne in simp)
  ultimately show ?thesis using h by (auto simp: normalize_hostname_def host_ok_def)
qed

lemma host_ok_localhost: "ip_library ip \<Longrightarrow> host_ok ip ''localhost''"
  by (simp add: host_ok_def ip_library_def host_char_def label_char_def valid_label_def)

subsection \<open>Parsing a canonical file URI\<close>

lemma takeWhile_stop: "\<forall>x \<in> set xs. P x \<Longrightarrow> ys = [] \<or> \<not> P (hd ys) \<Longrightarrow> takeWhile P (xs @ ys) = xs"
  by (cases ys) (simp_all add: takeWhile_append2)

lemma clean_url_id: "\<forall>c \<in> set s. 32 < (of_char c :: nat) \<Longrightarrow> clean_url s = s"
  by (cases s) (auto simp: clean_url_def intro!: filter_True)

lemma parse_file_uri:
  assumes h: "h \<noteq> []" "list_all host_char h" and p: "list_all url_safe p" "p = [] \<or> hd p = CHR ''/''"
  shows "parse_generic_uri brackets (''file://'' @ h @ p)
    = Inr \<lparr> pu_scheme = ''file'', pu_host = h, pu_port = None, pu_path = p \<rparr>"
proof -
  have hc: "\<forall>c \<in> set h. lower_char c = c \<and> c \<notin> set ''/?#@[]:%'' \<and> 32 < (of_char c :: nat)"
    using h(2) host_char_facts by (auto simp: list_all_iff)
  have pc: "\<forall>c \<in> set p. c \<notin> set '':?#'' \<and> 32 < (of_char c :: nat)"
    using p(1) url_safe_facts by (auto simp: list_all_iff)
  have "\<forall>c \<in> set (''file://'' @ h @ p). 32 < (of_char c :: nat)" using hc pc by auto
  then have c: "clean_url (''file://'' @ h @ p) = ''file://'' @ h @ p" by (rule clean_url_id)
  have s: "split_scheme (''file://'' @ h @ p) = (''file'', ''//'' @ h @ p)"
    by (simp add: split_scheme_def before_first_def after_first_def is_letter_def scheme_char_def lower_def lower_char_def)
  have t: "takeWhile (\<lambda>c. c \<notin> set ''/?#'') (h @ p) = h"
    by (rule takeWhile_stop) (use hc p(2) in auto)
  have n: "split_netloc (''//'' @ h @ p) = (h, p)"
    using t by (simp add: split_netloc_def Let_def)
  have tp: "takeWhile (\<lambda>c. c \<notin> set ''?#'') p = p"
    by (rule takeWhile_eq_all_conv [THEN iffD2]) (use pc in auto)
  have br: "CHR ''['' \<notin> set h" "CHR '']'' \<notin> set h" using hc by auto
  have u: "urlparse brackets (''file://'' @ h @ p) = Inr \<lparr> u_scheme = ''file'', u_netloc = h, u_path = p \<rparr>"
    using br unfolding urlparse_def c s prod.case Let_def n tp by simp
  have whole: "takeWhile (\<lambda>x. x \<noteq> c) h = h" "takeWhile (\<lambda>x. x \<noteq> c) (rev h) = rev h" if "c \<notin> set h" for c
    by (rule takeWhile_eq_all_conv [THEN iffD2], use that in auto)+
  have m: "CHR ''@'' \<notin> set h" "CHR ''['' \<notin> set h" "CHR '':'' \<notin> set h" "CHR ''%'' \<notin> set h" using hc by auto
  have i: "hostinfo h = (h, [])"
    by (simp add: hostinfo_def after_last_def before_first_def after_first_def whole m Let_def)
  have "lower h = h" unfolding lower_def by (rule map_idI) (use hc in simp)
  then have hn: "hostname h = h"
    by (simp add: hostname_def before_first_def whole(1) [OF m(4)])
  show ?thesis
    unfolding parse_generic_uri_def u by (simp add: i hn port_number_def supported_schemes_def)
qed

subsection \<open>Properties\<close>

lemma canonicalize_file_parts:
  assumes "canonicalize_file ip raw u = Inr r"
  obtains host segs where "r = resource ''file'' (path_of segs) raw (''file://'' @ host @ percent_encode_path (path_of segs))"
    and "clean_segments segs" and "segs \<noteq> []"
    and "host = ''localhost'' \<or> normalize_hostname ip (pu_host u) = Inr host"
proof -
  let ?host = "if pu_host u \<noteq> [] then normalize_hostname ip (pu_host u) else Inr ''localhost''"
  from assms obtain host where host: "?host = Inr host"
    and rest: "bindE (normalize_path (pu_path u)) (\<lambda>path. bindE (re_require (path \<noteq> ''/'')) (\<lambda>_.
       Inr (resource ''file'' path raw (''file://'' @ host @ percent_encode_path path)))) = Inr r"
    unfolding canonicalize_file_def by (cases ?host) (simp_all only: bindE_Inl bindE_Inr sum.simps)
  from rest obtain path where p: "normalize_path (pu_path u) = Inr path" "path \<noteq> ''/''"
    and r: "resource ''file'' path raw (''file://'' @ host @ percent_encode_path path) = r"
    by (cases "normalize_path (pu_path u)") (auto split: if_splits)
  obtain segs where g: "path = path_of segs" "clean_segments segs" by (rule normalize_path_Inr [OF p(1)])
  have "segs \<noteq> []" using p(2) g(1) by (auto simp: path_of_def)
  moreover have "host = ''localhost'' \<or> normalize_hostname ip (pu_host u) = Inr host"
    using host by (simp split: if_splits)
  ultimately show thesis using that g r by blast
qed

lemma canonical_file_parses:
  assumes h: "host_ok ip host" and s: "clean_segments segs" "segs \<noteq> []"
  shows "canonicalize_resource ip brackets (''file://'' @ host @ percent_encode_path (path_of segs)) hint
    = Inr (resource ''file'' (path_of segs) (''file://'' @ host @ percent_encode_path (path_of segs))
             (''file://'' @ host @ percent_encode_path (path_of segs)))"
proof -
  let ?p = "percent_encode_path (path_of segs)" and ?c = "''file://'' @ host @ percent_encode_path (path_of segs)"
  have hd: "?p \<noteq> []" "hd ?p = CHR ''/''" by (simp_all add: percent_encode_path_bytes path_of_def encode_byte_def)
  have safe: "list_all url_safe ?p" by (rule percent_encode_path_safe)
  have hh: "host \<noteq> []" "list_all host_char host" using h by (simp_all add: host_ok_def)
  have "\<not> py_space (last ?p)" using safe hd(1) url_safe_facts by (auto simp: list_all_iff)
  then have st: "strip ?c = ?c" using hd(1) by (intro strip_id) (simp add: py_space_def)
  have ws: "with_scheme ?c hint = Inr ?c" by (simp add: with_scheme_def)
  have np: "normalize_path ?p = Inr (path_of segs)"
    by (rule normalize_path_fixed [OF s(1) unquote_percent_encode_path])
  have "segments ''/'' = []" by (simp add: segments_def)
  then have "path_of segs \<noteq> ''/''" using segments_path_of [OF s(1)] s(2) by metis
  then have f: "canonicalize_file ip ?c \<lparr> pu_scheme = ''file'', pu_host = host, pu_port = None, pu_path = ?p \<rparr>
      = Inr (resource ''file'' (path_of segs) ?c ?c)"
    using hh(1) by (simp add: canonicalize_file_def host_ok_normalizes [OF h] np)
  have pg: "parse_generic_uri brackets ?c = Inr \<lparr> pu_scheme = ''file'', pu_host = host, pu_port = None, pu_path = ?p \<rparr>"
    by (rule parse_file_uri [OF hh safe]) (use hd in simp)
  have cz: "canonicalizer ip ''file'' = canonicalize_file ip" by (simp add: canonicalizer_def)
  show ?thesis unfolding canonicalize_resource_def st ws pg bindE_Inr parsed_uri.simps cz f by simp
qed

lemma canonical_schemes:
  "canonicalize_postgres ip raw u = Inr r \<Longrightarrow> re_scheme r = ''postgres''"
  "canonicalize_host ip raw u = Inr r \<Longrightarrow> re_scheme r = ''host''"
  "canonicalize_file ip raw u = Inr r \<Longrightarrow> re_scheme r = ''file''"
  "canonicalize_email raw u = Inr r \<Longrightarrow> re_scheme r = ''email''"
  "canonicalize_git ip raw u = Inr r \<Longrightarrow> re_scheme r = ''git''"
  by (auto simp: canonicalize_postgres_def canonicalize_host_def canonicalize_file_def
      canonicalize_email_def canonicalize_git_def resource_def Let_def split: if_splits)

lemma canonical_container:
  assumes "canonicalize_container ip raw u = Inr r"
  obtains host path s where "normalize_path (pu_path u) = Inr path" and "segments path = [s]"
    and "r = resource ''container'' (CHR ''/'' # lower s) raw (''container://'' @ host @ CHR ''/'' # lower s)"
proof -
  from assms obtain host path where p: "normalize_path (pu_path u) = Inr path"
    and r: "(case segments path of
       [s] \<Rightarrow> (let p = CHR ''/'' # lower s in
               bindE (re_require (container_name (lower s))) (\<lambda>_.
                 Inr (resource ''container'' p raw (''container://'' @ host @ p))))
     | _ \<Rightarrow> re_error) = Inr r"
    unfolding canonicalize_container_def bindE_eq_Inr by blast
  from r obtain s where "segments path = [s]"
    and "resource ''container'' (CHR ''/'' # lower s) raw (''container://'' @ host @ CHR ''/'' # lower s) = r"
    by (cases "segments path"; cases "tl (segments path)") (simp_all add: Let_def)
  with p that show thesis by blast
qed

lemma canonical_container_scheme: "canonicalize_container ip raw u = Inr r \<Longrightarrow> re_scheme r = ''container''"
  by (erule canonical_container) (simp add: resource_def)

lemma canonicalize_resource_file:
  assumes "canonicalize_resource ip brackets raw hint = Inr r" and "re_scheme r = ''file''"
  obtains raw' u where "canonicalize_file ip raw' u = Inr r"
proof -
  from assms(1) obtain raw' u where "canonicalizer ip (pu_scheme u) raw' u = Inr r"
    unfolding canonicalize_resource_def by (auto split: if_splits)
  then have "canonicalize_file ip raw' u = Inr r"
    using assms(2) unfolding canonicalizer_def by (auto split: if_splits dest!: canonical_schemes canonical_container_scheme)
  then show thesis by (rule that)
qed

text \<open>Canonicalizing a canonical file resource changes nothing: the canonical URI is read back, without any
  hint, as the same path and the same canonical URI, for any name or IPv4 host.\<close>

theorem canonical_file_is_fixed:
  assumes lib: "ip_library ip" and c: "canonicalize_resource ip brackets raw hint = Inr r" and f: "re_scheme r = ''file''"
    and v4: "CHR '':'' \<notin> set (drop 7 (re_canonical r))"
  shows "canonicalize_resource ip brackets' (re_canonical r) hint' = Inr (r\<lparr>re_raw := re_canonical r\<rparr>)"
proof -
  obtain raw' u where cf: "canonicalize_file ip raw' u = Inr r" by (rule canonicalize_resource_file [OF c f])
  show ?thesis
  proof (rule canonicalize_file_parts [OF cf], goal_cases)
    case (1 host segs)
    then have "CHR '':'' \<notin> set host" using v4 by (auto simp: resource_def)
    then have "host_ok ip host"
      using 1(4) normalize_hostname_ok [OF lib] host_ok_localhost [OF lib] by blast
    then show ?thesis using canonical_file_parses [of ip host segs brackets' hint'] 1(1-3) by (simp add: resource_def)
  qed
qed

definition sample_ip :: "string \<Rightarrow> string option" where
  "sample_ip s = (if s = ''127.0.0.1'' \<or> s = ''::1'' then Some s else None)"

lemma sample_ip_library: "ip_library sample_ip"
  by (auto simp: ip_library_def sample_ip_def is_digit_def)

lemma sample_file: "canonicalize_resource sample_ip (\<lambda>_. False) ''FILE:///srv//a%20b/ '' None
  = Inr (resource ''file'' ''/srv/a b'' ''FILE:///srv//a%20b/'' ''file://localhost/srv/a%20b'')"
  by code_simp

theorem canonical_file_is_fixed_witness:
  "canonicalize_resource sample_ip (\<lambda>_. False) ''file://localhost/srv/a%20b'' (Some ''git'')
   = Inr (resource ''file'' ''/srv/a b'' ''file://localhost/srv/a%20b'' ''file://localhost/srv/a%20b'')"
  using canonical_file_is_fixed [OF sample_ip_library sample_file, of "\<lambda>_. False" "Some ''git''"]
  by (simp add: resource_def)

text \<open>Lower-casing makes no dot and no slash.\<close>

lemma lower_char_code:
  assumes "c = CHR ''.'' \<or> c = CHR ''/''"
  shows "lower_char x = c \<longleftrightarrow> x = c"
proof (cases "65 \<le> (of_char x :: nat) \<and> (of_char x :: nat) \<le> 90")
  case True
  then have "(of_char (lower_char x) :: nat) = of_char x + 32" by (simp add: lower_char_def Let_def)
  moreover have "(of_char c :: nat) = 46 \<or> (of_char c :: nat) = 47" using assms by auto
  ultimately have "lower_char x \<noteq> c" and "x \<noteq> c" using True by auto
  then show ?thesis by simp
qed (auto simp: lower_char_def Let_def)

lemma lower_dots: "lower s = ''.'' \<longleftrightarrow> s = ''.''" "lower s = ''..'' \<longleftrightarrow> s = ''..''"
  by (auto simp: lower_def map_eq_Cons_conv lower_char_code)

lemma lower_slash: "CHR ''/'' \<in> set (lower s) \<longleftrightarrow> CHR ''/'' \<in> set s"
  using lower_char_code [of "CHR ''/''"] by (auto simp: lower_def image_iff eq_commute [of "CHR ''/''"])

lemma clean_segments_lower: "clean_segments segs \<Longrightarrow> clean_segments (map lower segs)"
  by (simp add: clean_segments_def lower_dots lower_slash) (simp add: lower_def)

definition no_dot_segment :: "string \<Rightarrow> bool" where
  "no_dot_segment path \<longleftrightarrow> (\<forall>s \<in> set (split_on (CHR ''/'') path). s \<noteq> ''.'' \<and> s \<noteq> ''..'')"

lemma no_dot_path_of: "clean_segments segs \<Longrightarrow> no_dot_segment (path_of segs)"
proof (cases "segs = []")
  case True
  then show ?thesis by (simp add: no_dot_segment_def path_of_def)
next
  case False
  assume c: "clean_segments segs"
  then show ?thesis
    unfolding no_dot_segment_def split_path_of [OF c False] by (simp add: clean_segments_def)
qed

text \<open>The path as it is written in the URI, before any decoding.\<close>

definition written_path :: "(string \<Rightarrow> bool) \<Rightarrow> string \<Rightarrow> string option \<Rightarrow> ep_error + string" where
  "written_path brackets raw hint =
     bindE (with_scheme (strip raw) hint) (\<lambda>raw'. bindE (parse_generic_uri brackets raw') (\<lambda>u. Inr (pu_path u)))"

lemma lower_lower: "lower (lower s) = lower s"
proof -
  have "lower_char (lower_char c) = lower_char c" for c
  proof (cases "65 \<le> (of_char c :: nat) \<and> (of_char c :: nat) \<le> 90")
    case True
    then have "(of_char (lower_char c) :: nat) = of_char c + 32" by (simp add: lower_char_def Let_def)
    with True show ?thesis by (simp add: lower_char_def [of "lower_char c"] Let_def)
  next
    case False
    then have "lower_char c = c" unfolding lower_char_def Let_def by (rule if_not_P)
    then show ?thesis by simp
  qed
  then show ?thesis by (simp add: lower_def)
qed

lemma normalized_path:
  assumes "normalize_path p = Inr path"
  shows "no_dot_segment (unquote p)" and "segments path = segments (unquote p)" and "clean_segments (segments path)"
proof -
  show "no_dot_segment (unquote p)" using assms by (simp add: normalize_path_def Let_def no_dot_segment_def)
  show "segments path = segments (unquote p)" "clean_segments (segments path)"
    by (rule normalize_path_Inr [OF assms], simp add: segments_path_of)+
qed

text \<open>What every canonicalizer with a path does to it: its segments are those of the decoded path, of some
  schemes in lower case.\<close>

definition path_canonical :: "string \<Rightarrow> canonical_resource \<Rightarrow> bool" where
  "path_canonical p r \<longleftrightarrow> no_dot_segment (unquote p) \<and> no_dot_segment (re_path r)
     \<and> map lower (segments (re_path r)) = map lower (segments (unquote p))"

lemma path_canonical_segments:
  assumes "normalize_path p = Inr path" and "f = lower \<or> f = id" and "re_path r = path_of (map f (segments path))"
  shows "path_canonical p r"
proof -
  note n = normalized_path [OF assms(1)]
  have c: "clean_segments (map f (segments path))" using n(3) assms(2) clean_segments_lower by auto
  then have "segments (re_path r) = map f (segments path)" using assms(3) segments_path_of by simp
  then have "map lower (segments (re_path r)) = map lower (segments path)" using assms(2) by (auto simp: lower_lower)
  then show ?thesis using n(1,2) no_dot_path_of [OF c] assms(3) by (simp add: path_canonical_def)
qed

lemma canonicalizer_path:
  assumes c: "canonicalizer ip scheme raw u = Inr r" and e: "re_scheme r \<noteq> ''email''"
  shows "path_canonical (pu_path u) r"
proof -
  have "path_canonical (pu_path u) r" if "canonicalize_postgres ip raw u = Inr r"
  proof -
    from that obtain path where p: "normalize_path (pu_path u) = Inr path"
      and r: "r = resource ''postgres'' (CHR ''/'' # join ''/'' (map lower (segments path))) raw (re_canonical r)"
      by (auto simp: canonicalize_postgres_def resource_def Let_def)
    show ?thesis
      by (rule path_canonical_segments [OF p, of lower]) (simp, subst r, simp add: resource_def path_of_def)
  qed
  moreover have "path_canonical (pu_path u) r" if "canonicalize_host ip raw u = Inr r"
    using that by (auto simp: canonicalize_host_def resource_def no_dot_segment_def path_canonical_def segments_def)
  moreover have "path_canonical (pu_path u) r" if "canonicalize_container ip raw u = Inr r"
    using that
  proof (rule canonical_container, goal_cases)
    case (1 host path s)
    show ?case
      by (rule path_canonical_segments [OF 1(1), of lower]) (simp_all add: 1(2,3) resource_def path_of_def)
  qed
  moreover have "path_canonical (pu_path u) r" if f: "canonicalize_file ip raw u = Inr r"
  proof -
    from f obtain path where p: "normalize_path (pu_path u) = Inr path" and r: "re_path r = path"
      by (auto simp: canonicalize_file_def resource_def)
    obtain segs where "path = path_of segs" "clean_segments segs" by (rule normalize_path_Inr [OF p])
    with r show ?thesis by (intro path_canonical_segments [OF p, of id]) (simp_all add: segments_path_of)
  qed
  moreover have "path_canonical (pu_path u) r" if "canonicalize_git ip raw u = Inr r"
  proof -
    from that obtain path where p: "normalize_path (pu_path u) = Inr path"
      and r: "re_path r = CHR ''/'' # join ''/'' (segments path)"
      by (auto simp: canonicalize_git_def resource_def Let_def)
    show ?thesis by (rule path_canonical_segments [OF p, of id]) (simp_all add: r path_of_def)
  qed
  ultimately show ?thesis
    using c e canonical_schemes(4) unfolding canonicalizer_def by (auto split: if_splits dest: canonical_schemes)
qed

text \<open>C20: a resource of a database, host, container, file or branch whose path has a \<open>.\<close> or \<open>..\<close> segment, written
  literally or with percent escapes, is refused: when a resource is canonicalized, its written path, decoded
  once, has no such segment; its canonical path has none either, and has exactly the segments of
  the decoded path, up to their case. The decoding is done once: a twice escaped segment is not
  refused (\<open>twice_escaped_dots_survive\<close>).\<close>

theorem canonical_path_has_no_dot_segment:
  assumes "canonicalize_resource ip brackets raw hint = Inr r" and "re_scheme r \<noteq> ''email''"
  shows "\<exists>p. written_path brackets raw hint = Inr p \<and> no_dot_segment (unquote p) \<and> no_dot_segment (re_path r)
    \<and> map lower (segments (re_path r)) = map lower (segments (unquote p))"
proof -
  from assms(1) obtain raw' u where "with_scheme (strip raw) hint = Inr raw'" "parse_generic_uri brackets raw' = Inr u"
    and c: "canonicalizer ip (pu_scheme u) raw' u = Inr r"
    unfolding canonicalize_resource_def by (auto split: if_splits)
  then have "written_path brackets raw hint = Inr (pu_path u)" by (simp add: written_path_def)
  with canonicalizer_path [OF c assms(2)] show ?thesis by (simp add: path_canonical_def)
qed

theorem canonical_path_has_no_dot_segment_witness:
  "\<exists>p. written_path (\<lambda>_. False) ''FILE:///srv//a%20b/ '' None = Inr p \<and> no_dot_segment (unquote p)
     \<and> map lower (segments ''/srv/a b'') = map lower (segments (unquote p))"
  using canonical_path_has_no_dot_segment [OF sample_file] by (auto simp: resource_def)

text \<open>A dot segment that is escaped once is refused; escaped twice, it is canonicalized to a segment that is
  still escaped once.\<close>

lemma twice_escaped_dots_survive:
  "canonicalize_resource sample_ip (\<lambda>_. True) ''postgres://db.corp/db/%2e%2e/x'' None = Inl ResourceCanonicalizationError"
  "bindE (canonicalize_resource sample_ip (\<lambda>_. True) ''postgres://db.corp/db/%252e%252e/x'' None) (\<lambda>r. Inr (re_path r))
     = Inr ''/db/%2e%2e/x''"
  by code_simp+

text \<open>An escaped path is dangerous twice: the canonical URI of a database is not escaped again.\<close>

lemma canonical_database_is_not_fixed:
  "bindE (canonicalize_resource sample_ip (\<lambda>_. True) ''postgres://db.corp/a%252Fb'' None) (\<lambda>r. Inr (re_canonical r))
     = Inr ''postgres://db.corp/a%2fb''"
  "bindE (canonicalize_resource sample_ip (\<lambda>_. True) ''postgres://db.corp/a%2fb'' None) (\<lambda>r. Inr (re_canonical r))
     = Inr ''postgres://db.corp/a/b''"
  by code_simp+

text \<open>The canonical URI of an IPv6 host has lost its brackets and is refused.\<close>

lemma canonical_ipv6_is_refused:
  "bindE (canonicalize_resource sample_ip (\<lambda>_. True) ''postgres://[::1]/db'' None) (\<lambda>r. Inr (re_canonical r))
     = Inr ''postgres://::1/db''"
  "canonicalize_resource sample_ip (\<lambda>_. True) ''postgres://::1/db'' None = Inl ValueError"
  by code_simp+

text \<open>A port that is no number escapes as the exception of the library.\<close>

lemma bad_port_raises: "canonicalize_resource sample_ip (\<lambda>_. True) ''host://db.corp:80a'' None = Inl ValueError"
  by code_simp

text \<open>A name may end in a newline, and an email type is not validated.\<close>

lemma newline_and_dots_pass:
  "bindE (canonicalize_resource sample_ip (\<lambda>_. True) ''container://h/app%0A'' None) (\<lambda>r. Inr (re_path r))
     = Inr (''/app'' @ [CHR 0x0A])"
  "bindE (canonicalize_resource sample_ip (\<lambda>_. True) ''email://../a@b.co'' None) (\<lambda>r. Inr (re_path r))
     = Inr ''/../a@b.co''"
  by code_simp+

end
