(* ===== verification/Config.thy ===== *)
theory Config
  imports Classification
begin

section \<open>Configuration (config.py) and database URLs (db/postgres.py)\<close>

text \<open>
  \<open>load_config\<close> reads the environment, a map from names to values, and either raises or returns the
  configuration that the services start with. \<open>py_int\<close> is \<open>int(text)\<close> for ASCII text.
\<close>

record config =
  cf_mode :: string
  cf_db_url :: string
  cf_db_schema :: string
  cf_embedding_provider :: string
  cf_embedding_model :: string
  cf_embedding_host :: string
  cf_embedding_api_key :: string
  cf_mcp_transport :: string
  cf_mcp_port :: int
  cf_mcp_tls_cert :: string
  cf_mcp_tls_key :: string
  cf_mcp_allowed_hosts :: string
  cf_notify_backend :: string
  cf_nats_url :: string
  cf_token_ttl_seconds :: int
  cf_dev :: bool
  cf_bootstrap_token_hash :: "string option"
  cf_signing_key_file :: "string option"
  cf_allow_advisory_execution :: bool
  cf_require_signed_authorization :: bool
  cf_fail_closed :: bool

subsection \<open>Integers as text\<close>

text \<open>Digits with single underscores between them; the state is whether an underscore may come next.\<close>

fun py_digits :: "int \<Rightarrow> bool \<Rightarrow> string \<Rightarrow> int option" where
  "py_digits n after_digit [] = (if after_digit then Some n else None)"
| "py_digits n after_digit (c # s) =
     (let k = (of_char c :: nat) in
      if 48 \<le> k \<and> k \<le> 57 then py_digits (10 * n + int (k - 48)) True s
      else if c = CHR ''_'' \<and> after_digit then py_digits n False s
      else None)"

definition py_int :: "string \<Rightarrow> ep_error + int" where
  "py_int text =
     someE ValueError
       (case strip text of
          [] \<Rightarrow> None
        | c # s \<Rightarrow> (if c = CHR ''-'' then map_option uminus (py_digits 0 False s)
                    else if c = CHR ''+'' then py_digits 0 False s
                    else py_digits 0 False (c # s)))"

subsection \<open>Loading\<close>

definition get_or :: "(string \<Rightarrow> string option) \<Rightarrow> string \<Rightarrow> string \<Rightarrow> string" where
  "get_or e k fallback = (case e k of None \<Rightarrow> fallback | Some v \<Rightarrow> v)"

definition flag_in :: "(string \<Rightarrow> string option) \<Rightarrow> string \<Rightarrow> string \<Rightarrow> bool" where
  "flag_in e k fallback \<longleftrightarrow> lower (get_or e k fallback) \<in> set [''true'', ''1'', ''yes'']"

text \<open>\<open>e.get(k) or None\<close>.\<close>

definition get_nonempty :: "(string \<Rightarrow> string option) \<Rightarrow> string \<Rightarrow> string option" where
  "get_nonempty e k = (case e k of None \<Rightarrow> None | Some v \<Rightarrow> if v = [] then None else Some v)"

definition config_int :: "(string \<Rightarrow> string option) \<Rightarrow> string \<Rightarrow> string \<Rightarrow> ep_error + int" where
  "config_int e k fallback = (case py_int (get_or e k fallback) of Inl _ \<Rightarrow> Inl ConfigError | Inr i \<Rightarrow> Inr i)"

definition operating_modes :: "string list" where
  "operating_modes = [''enforced'', ''advisory'']"

definition embedding_providers :: "string list" where
  "embedding_providers = [''ollama'', ''openai'', ''cohere'', ''none'']"

definition notify_backends :: "string list" where
  "notify_backends = [''native'', ''nats'', ''none'']"

definition load_config :: "(string \<Rightarrow> string option) \<Rightarrow> ep_error + config" where
  "load_config e =
     (let mode = get_or e ''EP_MODE'' ''enforced''; db_url = get_or e ''EP_DB_URL'' [];
          provider = get_or e ''EP_EMBEDDING_PROVIDER'' ''none''; notify = get_or e ''EP_NOTIFY'' ''native'';
          dev = flag_in e ''EP_DEV'' []; allow_advisory = flag_in e ''EP_ALLOW_ADVISORY_EXECUTION'' ''false'' in
      bindE (requireE (mode \<in> set operating_modes) ConfigError) (\<lambda>_.
      bindE (requireE (db_url \<noteq> []) ConfigError) (\<lambda>_.
      bindE (requireE (provider \<in> set embedding_providers) ConfigError) (\<lambda>_.
      bindE (requireE (notify \<in> set notify_backends) ConfigError) (\<lambda>_.
      bindE (config_int e ''EP_TOKEN_TTL_SECONDS'' ''300'') (\<lambda>token_ttl.
      bindE (config_int e ''EP_MCP_PORT'' ''8200'') (\<lambda>mcp_port.
      bindE (requireE (\<not> (mode = ''advisory'' \<and> \<not> dev)) ConfigError) (\<lambda>_.
      bindE (requireE (\<not> (mode = ''advisory'' \<and> dev \<and> \<not> allow_advisory)) ConfigError) (\<lambda>_.
        Inr \<lparr> cf_mode = mode, cf_db_url = db_url, cf_db_schema = get_or e ''EP_DB_SCHEMA'' [],
              cf_embedding_provider = provider, cf_embedding_model = get_or e ''EP_EMBEDDING_MODEL'' [],
              cf_embedding_host = get_or e ''EP_EMBEDDING_HOST'' [],
              cf_embedding_api_key = get_or e ''EP_EMBEDDING_API_KEY'' [],
              cf_mcp_transport = get_or e ''EP_MCP_TRANSPORT'' ''stdio'', cf_mcp_port = mcp_port,
              cf_mcp_tls_cert = get_or e ''EP_MCP_TLS_CERT'' [], cf_mcp_tls_key = get_or e ''EP_MCP_TLS_KEY'' [],
              cf_mcp_allowed_hosts = get_or e ''EP_MCP_ALLOWED_HOSTS'' [], cf_notify_backend = notify,
              cf_nats_url = get_or e ''EP_NATS_URL'' [], cf_token_ttl_seconds = token_ttl, cf_dev = dev,
              cf_bootstrap_token_hash = get_nonempty e ''EP_BOOTSTRAP_TOKEN_HASH'',
              cf_signing_key_file = get_nonempty e ''EP_SIGNING_KEY_FILE'',
              cf_allow_advisory_execution = allow_advisory,
              cf_require_signed_authorization = flag_in e ''EP_REQUIRE_SIGNED_AUTHORIZATION'' ''true'',
              cf_fail_closed = flag_in e ''EP_FAIL_CLOSED'' ''true'' \<rparr>)))))))))"

subsection \<open>Database URLs\<close>

datatype dialect = Postgresql | Sqlite

text \<open>\<open>create_engine\<close>: the URL that SQLAlchemy gets, with the psycopg driver named.\<close>

definition create_engine :: "string \<Rightarrow> ep_error + dialect \<times> string" where
  "create_engine url =
     (if starts_with ''postgresql+psycopg://'' url then Inr (Postgresql, url)
      else if starts_with ''postgresql://'' url then Inr (Postgresql, ''postgresql+psycopg://'' @ drop 13 url)
      else if starts_with ''sqlite://'' url then Inr (Sqlite, url)
      else Inl DatabaseError)"

text \<open>The statements that a connection runs before anything else.\<close>

definition connect_statements :: "dialect \<Rightarrow> string \<Rightarrow> string list" where
  "connect_statements dl schema =
     (case dl of
        Postgresql \<Rightarrow> (if schema = [] then [] else [''SET search_path TO '' @ schema])
      | Sqlite \<Rightarrow> [''PRAGMA foreign_keys = ON'', ''PRAGMA journal_mode = WAL''])"

subsection \<open>Properties\<close>

lemma config_int_Inr: "config_int e k fallback = Inr i \<Longrightarrow> py_int (get_or e k fallback) = Inr i"
  by (auto simp: config_int_def split: sum.splits)

lemma load_config_mode:
  "load_config e = Inr c \<Longrightarrow> cf_mode c = ''enforced'' \<or> (cf_dev c \<and> cf_allow_advisory_execution c)"
  unfolding load_config_def Let_def by (clarsimp simp: operating_modes_def)

text \<open>C16: every configuration that loads is well formed: it has a database, its mode, embedding provider and
  notification backend are among those that exist, its numbers are the integers that the variables
  spell, and the mode is enforced unless a development flag and an explicit permission are both set.\<close>

theorem loaded_config_well_formed:
  assumes "load_config e = Inr c"
  shows "cf_db_url c \<noteq> [] \<and> cf_mode c \<in> set operating_modes
    \<and> cf_embedding_provider c \<in> set embedding_providers
    \<and> cf_notify_backend c \<in> set notify_backends
    \<and> py_int (get_or e ''EP_TOKEN_TTL_SECONDS'' ''300'') = Inr (cf_token_ttl_seconds c)
    \<and> py_int (get_or e ''EP_MCP_PORT'' ''8200'') = Inr (cf_mcp_port c)
    \<and> (flag_in e ''EP_DEV'' [] \<and> flag_in e ''EP_ALLOW_ADVISORY_EXECUTION'' ''false'' \<or> cf_mode c = ''enforced'')"
proof -
  have m: "cf_mode c \<in> set operating_modes \<Longrightarrow> cf_mode c \<noteq> ''advisory'' \<Longrightarrow> cf_mode c = ''enforced''"
    by (auto simp: operating_modes_def)
  from assms have "\<not> (cf_mode c = ''advisory'' \<and> \<not> (flag_in e ''EP_DEV'' [] \<and> flag_in e ''EP_ALLOW_ADVISORY_EXECUTION'' ''false''))"
    unfolding load_config_def Let_def by clarsimp
  then have a: "flag_in e ''EP_DEV'' [] \<and> flag_in e ''EP_ALLOW_ADVISORY_EXECUTION'' ''false'' \<or> cf_mode c \<noteq> ''advisory''" by blast
  from assms have "cf_db_url c \<noteq> [] \<and> cf_mode c \<in> set operating_modes \<and> cf_embedding_provider c \<in> set embedding_providers
    \<and> cf_notify_backend c \<in> set notify_backends
    \<and> config_int e ''EP_TOKEN_TTL_SECONDS'' ''300'' = Inr (cf_token_ttl_seconds c)
    \<and> config_int e ''EP_MCP_PORT'' ''8200'' = Inr (cf_mcp_port c)"
    unfolding load_config_def Let_def by clarsimp
  with a m config_int_Inr show ?thesis by blast
qed

definition sample_environ :: "string \<Rightarrow> string option" where
  "sample_environ = (\<lambda>_. None)(''EP_DB_URL'' \<mapsto> ''sqlite://'', ''EP_TOKEN_TTL_SECONDS'' \<mapsto> '' 1_000'')"

lemma sample_config: obtains c where "load_config sample_environ = Inr c"
proof -
  have "map_sum (\<lambda>_. ()) (\<lambda>_. ()) (load_config sample_environ) = Inr ()" by code_simp
  then show thesis using that by (cases "load_config sample_environ") auto
qed

theorem loaded_config_well_formed_witness:
  "\<exists>c. load_config sample_environ = Inr c \<and> py_int '' 1_000'' = Inr (cf_token_ttl_seconds c)"
proof -
  obtain c where c: "load_config sample_environ = Inr c" by (rule sample_config)
  have "get_or sample_environ ''EP_TOKEN_TTL_SECONDS'' ''300'' = '' 1_000''"
    by (simp add: get_or_def sample_environ_def)
  with c loaded_config_well_formed [OF c] show ?thesis by auto
qed

text \<open>The two flags that should harden the enforced mode change only their own fields.\<close>

lemma hardening_flags_decide_nothing:
  assumes "\<forall>k. k \<notin> {''EP_FAIL_CLOSED'', ''EP_REQUIRE_SIGNED_AUTHORIZATION''} \<longrightarrow> e k = e' k"
  shows "map_sum id (\<lambda>c. c\<lparr>cf_fail_closed := False, cf_require_signed_authorization := False\<rparr>) (load_config e)
    = map_sum id (\<lambda>c. c\<lparr>cf_fail_closed := False, cf_require_signed_authorization := False\<rparr>) (load_config e')"
proof -
  have g: "get_or e k d = get_or e' k d" "get_nonempty e k = get_nonempty e' k"
    if "k \<notin> {''EP_FAIL_CLOSED'', ''EP_REQUIRE_SIGNED_AUTHORIZATION''}" for k d
    using assms that by (simp_all add: get_or_def get_nonempty_def)
  have f: "flag_in e k d = flag_in e' k d" "config_int e k d = config_int e' k d"
    if "k \<notin> {''EP_FAIL_CLOSED'', ''EP_REQUIRE_SIGNED_AUTHORIZATION''}" for k d
    using g [OF that] by (simp_all add: flag_in_def config_int_def)
  show ?thesis by (auto simp: load_config_def Let_def g f bindE_def requireE_def split: sum.splits)
qed

end
