(* ===== verification/Command_Line.thy ===== *)
theory Command_Line
  imports Mcp_Access Resources Config
begin

section \<open>The command line (cli.py)\<close>

text \<open>
  The commands of operators and administrators. A command opens a connection, for most commands finds or
  stores the EP service principal and commits it, and runs one operation of the engines or of the
  repositories. An \<open>EPError\<close> ends the program with exit code one (\<open>Exited\<close>), any other exception with a
  traceback (\<open>Crashed\<close>); in both cases the transaction of the operation is rolled back, the service
  principal stays. What a command prints is the value of \<open>Shown\<close>. Typer's parsing, the settings and the
  connection are not modelled; \<open>serve\<close>, which starts the MCP server and writes nothing itself, is in the theory Launch.
  That no command does anything but its own operation is shown in the theory Governed_Commands.
\<close>

datatype 'a outcome = Shown 'a | Exited | Crashed ep_error

definition raised :: "ep_error \<Rightarrow> 'a outcome" where
  "raised err = (if caught_by EPError err then Exited else Crashed err)"

definition outcome :: "db \<Rightarrow> 'a op \<Rightarrow> db \<times> 'a outcome" where
  "outcome d m = (case m of Inl err \<Rightarrow> (d, raised err) | Inr (d', x) \<Rightarrow> (d', Shown x))"

subsection \<open>The service principal\<close>

definition ensure_service :: "db \<Rightarrow> env \<Rightarrow> string op" where
  "ensure_service d e =
     (case find (\<lambda>p. pp_type p = ''service'' \<and> pp_name p = ''EP Service'') (principals d) of
        Some p \<Rightarrow> Inr (d, pp_id p)
      | None \<Rightarrow> bindE (insert_principal d e (ids e 0) ''EP Service'' ''service'' None (Some ''Trusted EP service principal''))
                  (\<lambda>(d', p). Inr (d', pp_id p)))"

definition as_service :: "db \<Rightarrow> env \<Rightarrow> (db \<Rightarrow> env \<Rightarrow> string \<Rightarrow> db \<times> 'a outcome) \<Rightarrow> db \<times> 'a outcome" where
  "as_service d e command =
     (case ensure_service d e of
        Inl err \<Rightarrow> (d, raised err)
      | Inr (d', svc) \<Rightarrow> command d' (env_from 1 e) svc)"

text \<open>\<open>init\<close> runs the migrations (theory Migrations; they create tables and insert no rows) and stores the service
  principal. \<open>migrated\<close> is the outcome of the migrations.\<close>

definition cli_init :: "ep_error + unit \<Rightarrow> db \<Rightarrow> env \<Rightarrow> db \<times> string outcome" where
  "cli_init migrated d e =
     (case migrated of
        Inl err \<Rightarrow> (d, raised err)
      | Inr _ \<Rightarrow> as_service d e (\<lambda>d e svc. (d, Shown svc)))"

subsection \<open>Principals and projects\<close>

definition cli_register :: "db \<Rightarrow> env \<Rightarrow> string \<Rightarrow> string \<Rightarrow> db \<times> string outcome" where
  "cli_register d e name type =
     outcome d (bindE (insert_principal d e (ids e 0) name type None (Some (''Registered via CLI ('' @ type @ '')'')))
       (\<lambda>(d', p). Inr (d', pp_id p)))"

definition cli_create_project :: "db \<Rightarrow> env \<Rightarrow> string \<Rightarrow> string \<Rightarrow> db \<times> (string \<times> string \<times> string) outcome" where
  "cli_create_project d e name description =
     outcome d
       (bindE (create_project d e name description) (\<lambda>(d1, p).
        bindE (create_lattice d1 (env_from 1 e) (pr_id p) ''main'') (\<lambda>(d2, l).
        bindE (create_branch d2 (env_from 2 e) (l_id l) ''main'' None) (\<lambda>(d3, b).
          Inr (d3, pr_id p, l_id l, b_id b)))))"

definition get_by_project :: "db \<Rightarrow> string \<Rightarrow> lattice_row option" where
  "get_by_project d project_id =
     (case sort_key l_created_at (filter (\<lambda>l. l_project_id l = project_id) (lattices d)) of
        [] \<Rightarrow> None | l # _ \<Rightarrow> Some l)"

definition parent_head :: "db \<Rightarrow> string \<Rightarrow> string option \<Rightarrow> string option" where
  "parent_head d lattice_id from_branch =
     (case from_branch of
        None \<Rightarrow> None
      | Some name \<Rightarrow>
          (if name = [] then None
           else (case find (\<lambda>b. b_lattice_id b = lattice_id \<and> b_name b = name \<and> b_status b = Active_Branch) (branches d) of
                   None \<Rightarrow> None | Some b \<Rightarrow> b_head_node_id b)))"

definition cli_create_branch ::
  "db \<Rightarrow> env \<Rightarrow> string \<Rightarrow> string \<Rightarrow> string option \<Rightarrow> db \<times> (string \<times> string option) outcome" where
  "cli_create_branch d e project name from_branch =
     (case get_by_project d project of
        None \<Rightarrow> (d, Exited)
      | Some l \<Rightarrow>
          (let head = parent_head d (l_id l) from_branch in
           outcome d (bindE (create_branch d e (l_id l) name head) (\<lambda>(d', b). Inr (d', b_id b, head)))))"

definition cli_list_projects :: "db \<Rightarrow> project_row list outcome" where
  "cli_list_projects d = Shown (sort_key pr_created_at (projects d))"

subsection \<open>Policies\<close>

text \<open>The lists of actions and resources are given as parsed from the JSON of the options.\<close>

definition cli_add_policy ::
  "db \<Rightarrow> env \<Rightarrow> string \<Rightarrow> string list \<Rightarrow> string list \<Rightarrow> string \<Rightarrow> int \<Rightarrow> string \<Rightarrow> db \<times> string outcome" where
  "cli_add_policy d e effect actions resources scope priority description =
     as_service d e (\<lambda>d e svc. outcome d
       (bindE (someE IntegrityError (effect_of_text effect)) (\<lambda>eff.
        bindE (someE IntegrityError (scope_of_text scope)) (\<lambda>sc.
        bindE (insert_policy d e
                 \<lparr> p_id = ids e 0, p_effect = eff, p_actions = actions, p_resources = resources, p_conditions = [],
                   p_priority = priority, p_scope = sc, p_agent_scope = None, p_project_id = None, p_branch_id = None,
                   p_description = description, p_status = Draft, p_created_by = svc, p_approved_by = None,
                   p_approved_at = None, p_activation_version = None, p_exception_to = [], p_valid_from = None,
                   p_valid_until = None, p_justification = None \<rparr>) (\<lambda>(d', r).
          Inr (d', policy_key r))))))"

text \<open>The row counts of these three are ignored: the status is printed for any identifier.\<close>

definition cli_set_policy_status :: "db \<Rightarrow> env \<Rightarrow> string \<Rightarrow> policy_status \<Rightarrow> db \<times> policy_status outcome" where
  "cli_set_policy_status d e policy_id status = (fst (update_policy_status d e policy_id status), Shown status)"

definition cli_submit_policy :: "db \<Rightarrow> env \<Rightarrow> string \<Rightarrow> db \<times> policy_status outcome" where
  "cli_submit_policy d e policy_id = cli_set_policy_status d e policy_id policy_status.Pending_Approval"

definition cli_approve_policy :: "db \<Rightarrow> env \<Rightarrow> string \<Rightarrow> string \<Rightarrow> db \<times> policy_status outcome" where
  "cli_approve_policy d e policy_id approver =
     outcome d (bindE (approve_policy d e policy_id approver (now e)) (\<lambda>(d', _). Inr (d', Active)))"

definition cli_retire_policy :: "db \<Rightarrow> env \<Rightarrow> string \<Rightarrow> db \<times> policy_status outcome" where
  "cli_retire_policy d e policy_id = cli_set_policy_status d e policy_id Retired"

definition cli_list_policies :: "db \<Rightarrow> policy_row list outcome" where
  "cli_list_policies d = Shown (list_active_policies d)"

subsection \<open>Proposals\<close>

text \<open>\<open>check\<close> and \<open>execute\<close> run the same proposal, under the policies of the branch and the agent.\<close>

definition cli_check ::
  "libs \<Rightarrow> db \<Rightarrow> env \<Rightarrow> string \<Rightarrow> (string \<times> json) list \<Rightarrow> string \<Rightarrow> string \<Rightarrow> db \<times> transition_row outcome" where
  "cli_check lib d e tool arguments branch agent =
     as_service d e (\<lambda>d e svc. outcome d
       (bindE (build_policy_engine d (Some branch) agent) (\<lambda>ps.
          propose lib svc (Some ps) d (env_from 1 e) agent branch tool arguments (ids e 0) None None)))"

definition cli_execute ::
  "libs \<Rightarrow> db \<Rightarrow> env \<Rightarrow> string \<Rightarrow> (string \<times> json) list \<Rightarrow> string \<Rightarrow> string \<Rightarrow> db \<times> (string \<times> stage) outcome" where
  "cli_execute lib d e tool arguments branch agent =
     as_service d e (\<lambda>d e svc. outcome d
       (bindE (build_policy_engine d (Some branch) agent) (\<lambda>ps.
        bindE (propose lib svc (Some ps) d (env_from 1 e) agent branch tool arguments (ids e 0) None None) (\<lambda>(d', t).
          Inr (d', t_id t, t_stage t)))))"

subsection \<open>Status and audit\<close>

text \<open>Without a branch only a hint is printed.\<close>

definition cli_status :: "db \<Rightarrow> string option \<Rightarrow> (string \<times> string option \<times> int \<times> nat) option outcome" where
  "cli_status d branch =
     Shown (case given branch of
        None \<Rightarrow> None
      | Some b \<Rightarrow>
          (case get_head d b of (head, version) \<Rightarrow>
             Some (b, head, version,
               (case branch_to_project d b of None \<Rightarrow> 0
                | Some p \<Rightarrow> length (list_active_policies_for_project d p)))))"

text \<open>The options that filter the log are not used.\<close>

definition cli_log :: "db \<Rightarrow> string option \<Rightarrow> bool \<Rightarrow> transition_row list outcome" where
  "cli_log d agent violations = Shown (take 20 (rev (sort_key t_created_at (transitions d))))"

definition cli_audit_verify :: "(string \<Rightarrow> string) \<Rightarrow> db \<Rightarrow> string \<Rightarrow> bool outcome" where
  "cli_audit_verify sha d lattice = Shown (verify sha d lattice)"

definition cli_audit_list :: "db \<Rightarrow> string \<Rightarrow> event_row list outcome" where
  "cli_audit_list d lattice = Shown (lattice_events d lattice)"

definition cli_pending_approvals :: "db \<Rightarrow> approval_row list outcome" where
  "cli_pending_approvals d = Shown (sort_key r_created_at (filter (\<lambda>r. r_status r = Pending) (approvals d)))"

subsection \<open>Decisions\<close>

text \<open>The approver is whoever the option names.\<close>

definition cli_approve ::
  "(string \<Rightarrow> string) \<Rightarrow> db \<Rightarrow> env \<Rightarrow> string \<Rightarrow> string \<Rightarrow> string \<Rightarrow> db \<times> stage outcome" where
  "cli_approve sha d e approval_id reason approver =
     as_service d e (\<lambda>d e svc.
       case get_request d approval_id of
         None \<Rightarrow> (d, Exited)
       | Some r \<Rightarrow> outcome d (bindE (approve sha svc d e (r_transition_id r) approver ''human'' reason)
                       (\<lambda>(d', t). Inr (d', t_stage t))))"

definition cli_deny ::
  "(string \<Rightarrow> string) \<Rightarrow> db \<Rightarrow> env \<Rightarrow> string \<Rightarrow> string \<Rightarrow> string \<Rightarrow> db \<times> stage outcome" where
  "cli_deny sha d e approval_id reason approver =
     as_service d e (\<lambda>d e svc.
       case get_request d approval_id of
         None \<Rightarrow> (d, Exited)
       | Some r \<Rightarrow> outcome d (bindE (deny_approval sha svc d e (r_transition_id r) approver reason)
                       (\<lambda>(d', t). Inr (d', t_stage t))))"

subsection \<open>Operator overrides\<close>

definition cli_mark_uncertain :: "(string \<Rightarrow> string) \<Rightarrow> db \<Rightarrow> env \<Rightarrow> string \<Rightarrow> string \<Rightarrow> db \<times> stage outcome" where
  "cli_mark_uncertain sha d e transition reason =
     as_service d e (\<lambda>d e svc. outcome d
       (bindE (record_result sha svc d e transition ''timeout'' reason None) (\<lambda>(d', t). Inr (d', t_stage t))))"

text \<open>\<open>reconcile\<close> of the engine may change the database and raise, so it returns both.\<close>

definition shown :: "db \<times> (ep_error + transition_row) \<Rightarrow> db \<times> stage outcome" where
  "shown r = (fst r, case snd r of Inl err \<Rightarrow> raised err | Inr t \<Rightarrow> Shown (t_stage t))"

definition cli_reconcile ::
  "(string \<Rightarrow> string) \<Rightarrow> db \<Rightarrow> env \<Rightarrow> string \<Rightarrow> string \<Rightarrow> string \<Rightarrow> string option \<Rightarrow> db \<times> stage outcome" where
  "cli_reconcile sha d e transition result reason branch =
     as_service d e (\<lambda>d e svc.
       if result = ''succeeded'' then
         (case given branch of
            None \<Rightarrow> (d, Exited)
          | Some b \<Rightarrow>
              (case get_head d b of (head, version) \<Rightarrow>
                 shown (reconcile sha svc d e transition ''succeeded'' reason (Some svc) None 0 None head (Some version)
                          (Some (case get_branch d b of None \<Rightarrow> b | Some r \<Rightarrow> b_lattice_id r)))))
       else shown (reconcile sha svc d e transition ''failed'' reason None None 0 None None None None))"

text \<open>The reason is only printed: nothing records an expiry but the stage.\<close>

definition cli_expire :: "db \<Rightarrow> env \<Rightarrow> string \<Rightarrow> string \<Rightarrow> db \<times> stage outcome" where
  "cli_expire d e transition reason =
     as_service d e (\<lambda>d e svc. outcome d
       (bindE (advance_stage d e transition Expired) (\<lambda>(d', t). Inr (d', t_stage t))))"

definition cli_cancel :: "(string \<Rightarrow> string) \<Rightarrow> db \<Rightarrow> env \<Rightarrow> string \<Rightarrow> db \<times> stage outcome" where
  "cli_cancel sha d e transition =
     as_service d e (\<lambda>d e svc. outcome d
       (bindE (cancel sha svc d e transition svc) (\<lambda>(d', t). Inr (d', t_stage t))))"

subsection \<open>Enrolling agents and the administrator\<close>

definition has_role_name :: "string \<Rightarrow> db \<Rightarrow> role_row option" where
  "has_role_name name d = find (\<lambda>r. ro_name r = name) (roles d)"

text \<open>\<open>register_agent\<close> is written for PostgreSQL. \<open>adapts\<close> tells whether the driver accepts the SQL expression that
  the insertion of a missing role passes as the value of a parameter; \<open>ON CONFLICT DO NOTHING\<close> keeps a
  row with the same key.\<close>

definition agent_role :: "bool \<Rightarrow> db \<Rightarrow> string \<Rightarrow> string op" where
  "agent_role adapts d i =
     (case has_role_name ''agent'' d of
        Some r \<Rightarrow> Inr (d, ro_id r)
      | None \<Rightarrow> bindE (requireE adapts OtherException) (\<lambda>_.
          Inr (case row_insert ro_id \<lparr> ro_id = i, ro_name = ''agent'' \<rparr> (roles d) of
                 None \<Rightarrow> d | Some t \<Rightarrow> d\<lparr>roles := t\<rparr>, i)))"

definition bind_role :: "db \<Rightarrow> role_binding_row \<Rightarrow> db" where
  "bind_role d b = (case row_insert rb_id b (role_bindings d) of None \<Rightarrow> d | Some t \<Rightarrow> d\<lparr>role_bindings := t\<rparr>)"

definition agent_policy :: "env \<Rightarrow> string \<Rightarrow> string \<Rightarrow> string \<Rightarrow> string list \<Rightarrow> policy" where
  "agent_policy e svc agent name action_list =
     \<lparr> p_id = ids e 3, p_effect = Allow, p_actions = action_list, p_resources = [''*''], p_conditions = [],
       p_priority = 10, p_scope = Agent, p_agent_scope = Some agent, p_project_id = None, p_branch_id = None,
       p_description = ''Allow '' @ name @ '' to run '' @ join '', '' action_list @ '' through governed proxy'',
       p_status = Active, p_created_by = svc, p_approved_by = Some svc, p_approved_at = Some (now e),
       p_activation_version = Some 1, p_exception_to = [], p_valid_from = None, p_valid_until = None,
       p_justification = None \<rparr>"

definition register_agent :: "bool \<Rightarrow> dialect \<Rightarrow> db \<Rightarrow> env \<Rightarrow> string \<Rightarrow> string \<Rightarrow> string list \<Rightarrow> (string \<times> string \<times> string) op" where
  "register_agent adapts dl d e svc name action_list =
     bindE (insert_principal d e (ids e 0) name ''agent'' None (Some ''Registered via CLI register-agent'')) (\<lambda>(d1, p).
     bindE (agent_role adapts d1 (ids e 1)) (\<lambda>(d2, role).
     bindE (requireE (dl \<noteq> Sqlite) OperationalError) (\<lambda>_.
     bindE (insert_policy
              (bind_role d2 \<lparr> rb_id = ids e 2, rb_principal_id = pp_id p, rb_role_id = role, rb_project_id = None \<rparr>)
              e (agent_policy e svc (pp_id p) name action_list)) (\<lambda>(d4, r).
       Inr (d4, pp_id p, ids e 2, policy_key r)))))"

definition cli_register_agent ::
  "bool \<Rightarrow> dialect \<Rightarrow> db \<Rightarrow> env \<Rightarrow> string \<Rightarrow> string \<Rightarrow> db \<times> (string \<times> string \<times> string) outcome" where
  "cli_register_agent adapts dl d e name actions =
     as_service d e (\<lambda>d e svc. outcome d
       (register_agent adapts dl d e svc name (filter (\<lambda>a. a \<noteq> []) (map strip (split_on (CHR '','') actions)))))"

text \<open>
  The row of \<open>ep_bootstrap_state\<close> is beside the database: \<open>None\<close> without a row, otherwise its column
  \<open>completed\<close>. All of \<open>enroll\<close> runs in one serializable transaction.
\<close>

definition administrator_role :: "db \<Rightarrow> string \<Rightarrow> string op" where
  "administrator_role d i =
     (case has_role_name ''administrator'' d of
        Some r \<Rightarrow> Inr (d, ro_id r)
      | None \<Rightarrow> bindE (someE IntegrityError (row_insert ro_id \<lparr> ro_id = i, ro_name = ''administrator'' \<rparr> (roles d)))
                  (\<lambda>t. Inr (d\<lparr>roles := t\<rparr>, i)))"

definition has_administrator :: "db \<Rightarrow> bool" where
  "has_administrator d =
     list_ex (\<lambda>rb. list_ex (\<lambda>r. ro_id r = rb_role_id rb \<and> ro_name r = ''administrator'') (roles d)) (role_bindings d)"

definition enrolled_event :: "string \<Rightarrow> string \<Rightarrow> json" where
  "enrolled_event who binding = JObj [(''principal_id'', JStr who), (''role'', JStr ''administrator''),
     (''binding_id'', JStr binding)]"

definition bind_administrator :: "(string \<Rightarrow> string) \<Rightarrow> db \<Rightarrow> env \<Rightarrow> string \<Rightarrow> string op" where
  "bind_administrator sha d e who =
     bindE (ensure_service d e) (\<lambda>(d1, svc).
     bindE (administrator_role d1 (ids e 1)) (\<lambda>(d2, role).
     bindE (someE IntegrityError (row_insert rb_id
              \<lparr> rb_id = ids e 2, rb_principal_id = who, rb_role_id = role, rb_project_id = None \<rparr>
              (role_bindings d2))) (\<lambda>bs.
     let d3 = d2\<lparr>role_bindings := bs\<rparr> in
     case lattices d3 of
       [] \<Rightarrow> Inr (d3, ids e 2)
     | l # _ \<Rightarrow> bindE (write_event sha svc d3 (now e) (ids e 3) (l_id l) ''bootstrap.admin_enrolled''
                         (enrolled_event who (ids e 2)) who who) (\<lambda>(d4, _). Inr (d4, ids e 2)))))"

definition enroll ::
  "(string \<Rightarrow> string) \<Rightarrow> db \<times> bool option \<Rightarrow> env \<Rightarrow> string \<Rightarrow> string \<Rightarrow> string \<Rightarrow> (db \<times> bool option) \<times> string outcome" where
  "enroll sha st e token configured who =
     (if snd st = Some True \<or> has_administrator (fst st) then (st, Exited)
      else (case get_principal (fst st) who of
              None \<Rightarrow> (st, Exited)
            | Some p \<Rightarrow>
                (if pp_type p \<noteq> ''human'' \<or> sha token \<noteq> configured then (st, Exited)
                 else (case bind_administrator sha (fst st) e who of
                         Inl err \<Rightarrow> (st, raised err)
                       | Inr (d', b) \<Rightarrow> ((d', Some True), Shown b)))))"

definition bootstrap_token :: "string option \<Rightarrow> string \<Rightarrow> string" where
  "bootstrap_token option env = (case given option of None \<Rightarrow> env | Some t \<Rightarrow> t)"

definition cli_bootstrap_admin ::
  "(string \<Rightarrow> string) \<Rightarrow> db \<times> bool option \<Rightarrow> env \<Rightarrow> string option \<Rightarrow> string \<Rightarrow> string option \<Rightarrow> string
   \<Rightarrow> (db \<times> bool option) \<times> string outcome" where
  "cli_bootstrap_admin sha st e option env_token configured who =
     (if bootstrap_token option env_token = [] then (st, Exited)
      else (case given configured of
              None \<Rightarrow> (st, Exited)
            | Some h \<Rightarrow> enroll sha st e (bootstrap_token option env_token) h who))"

subsection \<open>Every command is a run of the system\<close>

text \<open>The commands that may change the database, with their arguments; for \<open>init\<close> the outcome of the migrations,
  for \<open>bootstrap-admin\<close> also the token of the environment and the configured hash.\<close>

datatype command =
    Cli_Init "ep_error + unit"
  | Cli_Bootstrap_Admin "string option" string "string option" string
  | Cli_Register string string
  | Cli_Register_Agent string string
  | Cli_Create_Project string string
  | Cli_Create_Branch string string "string option"
  | Cli_Add_Policy string "string list" "string list" string int string
  | Cli_Submit_Policy string
  | Cli_Approve_Policy string string
  | Cli_Retire_Policy string
  | Cli_Check string "(string \<times> json) list" string string
  | Cli_Execute string "(string \<times> json) list" string string
  | Cli_Approve string string string
  | Cli_Deny string string string
  | Cli_Mark_Uncertain string string
  | Cli_Reconcile string string string "string option"
  | Cli_Expire string string
  | Cli_Cancel string

text \<open>The database and the row of \<open>ep_bootstrap_state\<close>, which only \<open>bootstrap-admin\<close> writes.\<close>

definition run_command ::
  "libs \<Rightarrow> bool \<Rightarrow> dialect \<Rightarrow> db \<times> bool option \<Rightarrow> env \<Rightarrow> command \<Rightarrow> db \<times> bool option" where
  "run_command lib adapts dl st e c =
     (let d = fst st; b = snd st in
      case c of
        Cli_Init migrated \<Rightarrow> (fst (cli_init migrated d e), b)
      | Cli_Bootstrap_Admin option token configured who \<Rightarrow>
          fst (cli_bootstrap_admin (sha256 lib) st e option token configured who)
      | Cli_Register name ty \<Rightarrow> (fst (cli_register d e name ty), b)
      | Cli_Register_Agent name actions \<Rightarrow> (fst (cli_register_agent adapts dl d e name actions), b)
      | Cli_Create_Project name descr \<Rightarrow> (fst (cli_create_project d e name descr), b)
      | Cli_Create_Branch project name parent \<Rightarrow> (fst (cli_create_branch d e project name parent), b)
      | Cli_Add_Policy eff actions resources sc priority descr \<Rightarrow>
          (fst (cli_add_policy d e eff actions resources sc priority descr), b)
      | Cli_Submit_Policy i \<Rightarrow> (fst (cli_submit_policy d e i), b)
      | Cli_Approve_Policy i approver \<Rightarrow> (fst (cli_approve_policy d e i approver), b)
      | Cli_Retire_Policy i \<Rightarrow> (fst (cli_retire_policy d e i), b)
      | Cli_Check tool args branch agent \<Rightarrow> (fst (cli_check lib d e tool args branch agent), b)
      | Cli_Execute tool args branch agent \<Rightarrow> (fst (cli_execute lib d e tool args branch agent), b)
      | Cli_Approve i reason approver \<Rightarrow> (fst (cli_approve (sha256 lib) d e i reason approver), b)
      | Cli_Deny i reason approver \<Rightarrow> (fst (cli_deny (sha256 lib) d e i reason approver), b)
      | Cli_Mark_Uncertain i reason \<Rightarrow> (fst (cli_mark_uncertain (sha256 lib) d e i reason), b)
      | Cli_Reconcile i res reason branch \<Rightarrow> (fst (cli_reconcile (sha256 lib) d e i res reason branch), b)
      | Cli_Expire i reason \<Rightarrow> (fst (cli_expire d e i reason), b)
      | Cli_Cancel i \<Rightarrow> (fst (cli_cancel (sha256 lib) d e i), b))"

lemma reach_trans: "reach sha a b \<Longrightarrow> reach sha b c \<Longrightarrow> reach sha a c"
  unfolding reach_def by (rule rtranclp_trans)

lemma admin_run: "admin d d' \<Longrightarrow> reach sha d d'"
  by (rule reach_one, rule sys_step.Admin)

lemma outcome_run: "(\<And>d' x. m = Inr (d', x) \<Longrightarrow> reach sha d d') \<Longrightarrow> reach sha d (fst (outcome d m))"
  by (auto simp: outcome_def split: sum.split)

lemma ensure_service_run: "ensure_service d e = Inr (d', svc) \<Longrightarrow> reach sha d d'"
  by (auto simp: ensure_service_def split: option.splits intro!: admin_run intro: admin.Principal)

lemma as_service_run:
  assumes "\<And>d' svc. reach sha d' (fst (command d' (env_from 1 e) svc))"
  shows "reach sha d (fst (as_service d e command))"
  using assms reach_trans ensure_service_run
  by (fastforce simp: as_service_def split: sum.split prod.split)

lemma service_outcome_run:
  assumes "\<And>d' svc d2 x. m d' (env_from 1 e) svc = Inr (d2, x) \<Longrightarrow> reach sha d' d2"
  shows "reach sha d (fst (as_service d e (\<lambda>d e svc. outcome d (m d e svc))))"
  by (rule as_service_run, rule outcome_run, rule assms)

lemma roles_run: "reach sha d (d\<lparr>roles := rs\<rparr>)"
  using admin_run [OF admin.Roles [where d = d and rs = rs and bs = "role_bindings d"]] by simp

lemma bindings_run: "reach sha d (d\<lparr>role_bindings := bs\<rparr>)"
  using admin_run [OF admin.Roles [where d = d and rs = "roles d" and bs = bs]] by simp

lemma bind_role_run: "reach sha d (bind_role d b)"
  by (auto simp: bind_role_def bindings_run split: option.split)

lemma agent_role_run: "agent_role adapts d i = Inr (d', r) \<Longrightarrow> reach sha d d'"
  by (auto simp: agent_role_def roles_run split: option.splits)

lemma register_agent_run:
  assumes "register_agent adapts dl d e svc name action_list = Inr (d', x)"
  shows "reach sha d d'"
proof -
  from assms obtain d1 p d2 role b r where 1: "insert_principal d e (ids e 0) name ''agent'' None
        (Some ''Registered via CLI register-agent'') = Inr (d1, p)"
    and 2: "agent_role adapts d1 (ids e 1) = Inr (d2, role)"
    and 3: "insert_policy (bind_role d2 b) e (agent_policy e svc (pp_id p) name action_list) = Inr (d', r)"
    by (auto simp: register_agent_def)
  show ?thesis
    by (rule reach_trans [OF admin_run [OF admin.Principal [OF 1]] reach_trans [OF agent_role_run [OF 2]
          reach_trans [OF bind_role_run admin_run [OF admin.Policy [OF 3]]]]])
qed

lemma create_project_run:
  assumes "create_project d e name descr = Inr (d1, p)" and "create_lattice d1 e1 a b = Inr (d2, l)"
    and "create_branch d2 e2 c f g = Inr (d3, r)"
  shows "reach sha d d3"
  using reach_trans [OF admin_run [OF admin.Project [OF assms(1)]] reach_trans [OF admin_run [OF admin.Lattice [OF assms(2)]]
      admin_run [OF admin.Branch [OF assms(3)]]]] .

lemma reconcile_run: "reach sha d (fst (shown (reconcile sha svc d e tid st rs cm bd bt md eh ev l)))"
  by (cases "reconcile sha svc d e tid st rs cm bd bt md eh ev l")
    (simp add: shown_def reach_one [OF sys_step.Reconcile])

lemma cli_reconcile_run: "reach sha d (fst (cli_reconcile sha d e tid res reason branch))"
  unfolding cli_reconcile_def
  by (rule as_service_run) (auto simp: reconcile_run split: option.split prod.split)

lemmas step_runs =
  reach_one [OF sys_step.Approve] reach_one [OF sys_step.Deny] reach_one [OF sys_step.Result]
  reach_one [OF sys_step.Expire] reach_one [OF sys_step.Cancel] admin_run [OF admin.Principal]
  admin_run [OF admin.Branch] admin_run [OF admin.Policy] admin_run [OF admin.Policy_Approval]
  create_project_run register_agent_run

lemma cli_decisions_run:
  "reach sha d (fst (cli_approve sha d e i reason who))" "reach sha d (fst (cli_deny sha d e i reason who))"
  unfolding cli_approve_def cli_deny_def
  by (rule as_service_run, auto split: option.split intro!: outcome_run dest: step_runs)+

lemma cli_overrides_run:
  "reach sha d (fst (cli_mark_uncertain sha d e i reason))" "reach sha d (fst (cli_expire d e i reason))"
  "reach sha d (fst (cli_cancel sha d e i))"
  unfolding cli_mark_uncertain_def cli_expire_def cli_cancel_def
  by (rule service_outcome_run, auto dest: step_runs)+

lemma cli_proposals_run:
  "reach (sha256 lib) d (fst (cli_check lib d e tool args branch agent))"
  "reach (sha256 lib) d (fst (cli_execute lib d e tool args branch agent))"
  unfolding cli_check_def cli_execute_def
  by (rule service_outcome_run, auto dest!: reach_one [OF sys_step.Propose])+

lemma policy_status_run: "reach sha d (fst (update_policy_status d e i st))"
  by (cases "update_policy_status d e i st") (simp add: admin_run [OF admin.Policy_Status])

lemma cli_administration_run:
  "reach sha d (fst (cli_register d e name ty))" "reach sha d (fst (cli_create_project d e name descr))"
  "reach sha d (fst (cli_create_branch d e project name parent))"
  "reach sha d (fst (cli_submit_policy d e i))" "reach sha d (fst (cli_retire_policy d e i))"
  "reach sha d (fst (cli_approve_policy d e i approver))"
  unfolding cli_register_def cli_create_project_def cli_create_branch_def cli_submit_policy_def cli_retire_policy_def
    cli_set_policy_status_def cli_approve_policy_def Let_def
  by (auto simp del: append.simps simp: policy_status_run split: option.split intro!: outcome_run dest: step_runs)

lemma cli_added_run:
  "reach sha d (fst (cli_add_policy d e eff actions resources sc priority descr))"
  "reach sha d (fst (cli_register_agent adapts dl d e name listed))"
  unfolding cli_add_policy_def cli_register_agent_def
  by (rule service_outcome_run, auto dest: step_runs)+

lemma cli_init_run: "reach sha d (fst (cli_init migrated d e))"
  by (auto simp: cli_init_def split: sum.split intro!: as_service_run)

lemma administrator_role_run: "administrator_role d i = Inr (d', r) \<Longrightarrow> reach sha d d'"
  by (auto simp: administrator_role_def roles_run split: option.splits)

text \<open>The steps of the enrolment.\<close>

lemma bind_administrator_steps:
  assumes "bind_administrator sha d e who = Inr (d', b)"
  obtains d1 svc d2 role bs d3 where "ensure_service d e = Inr (d1, svc)"
    and "administrator_role d1 (ids e 1) = Inr (d2, role)"
    and "row_insert rb_id \<lparr> rb_id = ids e 2, rb_principal_id = who, rb_role_id = role, rb_project_id = None \<rparr>
              (role_bindings d2) = Some bs"
    and "d3 = d2\<lparr>role_bindings := bs\<rparr>"
    and "(case lattices d3 of [] \<Rightarrow> Inr (d3, ids e 2)
      | l # _ \<Rightarrow> bindE (write_event sha svc d3 (now e) (ids e 3) (l_id l) ''bootstrap.admin_enrolled''
                         (enrolled_event who (ids e 2)) who who) (\<lambda>(d4, _). Inr (d4, ids e 2))) = Inr (d', b)"
  using assms by (auto simp: bind_administrator_def Let_def)

lemma bind_administrator_run:
  assumes "bind_administrator sha d e who = Inr (d', b)"
  shows "reach sha d d'"
proof (rule bind_administrator_steps [OF assms])
  fix d1 svc d2 role bs d3
  assume 1: "ensure_service d e = Inr (d1, svc)" and 2: "administrator_role d1 (ids e 1) = Inr (d2, role)"
    and d3: "d3 = d2\<lparr>role_bindings := bs\<rparr>"
    and 4: "(case lattices d3 of [] \<Rightarrow> Inr (d3, ids e 2)
      | l # _ \<Rightarrow> bindE (write_event sha svc d3 (now e) (ids e 3) (l_id l) ''bootstrap.admin_enrolled''
                         (enrolled_event who (ids e 2)) who who) (\<lambda>(d4, _). Inr (d4, ids e 2))) = Inr (d', b)"
  have "reach sha d3 d'"
  proof (cases "lattices d3")
    case Nil
    with 4 show ?thesis by (simp add: reach_def)
  next
    case (Cons l ls)
    with 4 obtain evt where "write_event sha svc d3 (now (e\<lparr>ids := (\<lambda>_. ids e 3)\<rparr>)) (ids (e\<lparr>ids := (\<lambda>_. ids e 3)\<rparr>) 0) (l_id l)
        ''bootstrap.admin_enrolled'' (enrolled_event who (ids e 2)) who who = Inr (d', evt)"
      by (auto split: prod.splits)
    then show ?thesis by (rule reach_one [OF sys_step.Event])
  qed
  with reach_trans [OF ensure_service_run [OF 1] reach_trans [OF administrator_role_run [OF 2] bindings_run [of sha d2 bs]]] d3
  show ?thesis by (blast intro: reach_trans)
qed

lemma cli_bootstrap_admin_run:
  "reach sha (fst st) (fst (fst (cli_bootstrap_admin sha st e option token configured who)))"
  by (auto simp: cli_bootstrap_admin_def enroll_def reach_def [symmetric] dest: bind_administrator_run
      split: option.split sum.split)

lemma run_command_reach: "reach (sha256 lib) (fst st) (fst (run_command lib adapts dl st e c))"
  by (cases c) (simp_all add: run_command_def Let_def cli_added_run cli_administration_run cli_proposals_run cli_overrides_run
      cli_decisions_run cli_reconcile_run cli_init_run cli_bootstrap_admin_run)

end
