(* ===== verification/Bootstrap.thy ===== *)
theory Bootstrap
  imports Command_Line
begin

section \<open>Enrolling the administrator, and what the commands do not check\<close>

text \<open>
  The one-time enrolment of \<open>bootstrap_admin\<close> and the behaviour of single commands.
\<close>

subsection \<open>Who is administrator afterwards\<close>

lemma ensure_service_roles:
  "ensure_service d e = Inr (d', svc) \<Longrightarrow> roles d' = roles d \<and> role_bindings d' = role_bindings d"
  by (auto simp: ensure_service_def insert_principal_def Let_def row_insert_Some split: option.splits)

lemma administrator_role_Inr:
  assumes "administrator_role d i = Inr (d', role)"
  shows "role_bindings d' = role_bindings d
    \<and> (\<exists>r \<in> set (roles d'). ro_id r = role \<and> ro_name r = ''administrator'')
    \<and> (\<forall>r \<in> set (roles d'). r \<in> set (roles d) \<or> ro_id r = role \<and> \<not> row_has ro_id role (roles d))"
  using assms
  by (auto simp: administrator_role_def has_role_name_def row_insert_Some row_has_iff find_Some_iff
      dest: nth_mem split: option.splits)

lemma bind_administrator_Inr:
  assumes "bind_administrator sha d e who = Inr (d', b)"
  obtains role d1 where "role_bindings d' = role_bindings d @
      [\<lparr> rb_id = ids e 2, rb_principal_id = who, rb_role_id = role, rb_project_id = None \<rparr>]"
    and "\<exists>r \<in> set (roles d'). ro_id r = role \<and> ro_name r = ''administrator''"
    and "\<forall>r \<in> set (roles d'). r \<in> set (roles d) \<or> ro_id r = role \<and> \<not> row_has ro_id role (roles d)"
proof -
  from assms obtain d1 svc d2 role bs d3 where 1: "ensure_service d e = Inr (d1, svc)"
    and 2: "administrator_role d1 (ids e 1) = Inr (d2, role)"
    and 3: "row_insert rb_id \<lparr> rb_id = ids e 2, rb_principal_id = who, rb_role_id = role, rb_project_id = None \<rparr>
              (role_bindings d2) = Some bs"
    and d3: "d3 = d2\<lparr>role_bindings := bs\<rparr>"
    and 4: "(case lattices d3 of [] \<Rightarrow> Inr (d3, ids e 2)
      | l # _ \<Rightarrow> bindE (write_event sha svc d3 (now e) (ids e 3) (l_id l) ''bootstrap.admin_enrolled''
                         (enrolled_event who (ids e 2)) who who) (\<lambda>(d4, _). Inr (d4, ids e 2))) = Inr (d', b)"
    by (rule bind_administrator_steps)
  have "roles d' = roles d3 \<and> role_bindings d' = role_bindings d3"
    using 4 by (auto split: list.splits elim: write_event_frame)
  then show thesis
    using that ensure_service_roles [OF 1] administrator_role_Inr [OF 2] 3 d3 by (simp add: row_insert_Some)
qed

lemma has_administrator_iff:
  "has_administrator d \<longleftrightarrow> (\<exists>rb \<in> set (role_bindings d). \<exists>r \<in> set (roles d). ro_id r = rb_role_id rb \<and> ro_name r = ''administrator'')"
  by (auto simp: has_administrator_def list_ex_iff)

lemma is_administrator_iff:
  "is_administrator d p \<longleftrightarrow> (\<exists>rb \<in> set (role_bindings d). rb_principal_id rb = p
     \<and> (\<exists>r \<in> set (roles d). ro_id r = rb_role_id rb \<and> ro_name r = ''administrator''))"
  by (auto simp: is_administrator_def list_ex_iff)

lemma bound_administrator:
  assumes b: "bind_administrator sha d e who = Inr (d', x)" and none: "\<not> has_administrator d"
    and fk: "list_all (\<lambda>rb. row_has ro_id (rb_role_id rb) (roles d)) (role_bindings d)"
  shows "is_administrator d' p \<longleftrightarrow> p = who"
proof (rule bind_administrator_Inr [OF b])
  fix role
  let ?new = "\<lparr> rb_id = ids e 2, rb_principal_id = who, rb_role_id = role, rb_project_id = None \<rparr>"
  assume rb: "role_bindings d' = role_bindings d @ [?new]"
    and adm: "\<exists>r \<in> set (roles d'). ro_id r = role \<and> ro_name r = ''administrator''"
    and rs: "\<forall>r \<in> set (roles d'). r \<in> set (roles d) \<or> ro_id r = role \<and> \<not> row_has ro_id role (roles d)"
  have old: "\<not> (ro_id r = rb_role_id b \<and> ro_name r = ''administrator'')"
    if "b \<in> set (role_bindings d)" and "r \<in> set (roles d')" for b r
    using that rs fk none unfolding has_administrator_iff list_all_iff by metis
  show ?thesis unfolding is_administrator_iff rb using old adm by auto
qed

lemma enrolled:
  assumes "cli_bootstrap_admin sha st e option env_token configured who = (st', Shown b)"
  obtains d' p where "st' = (d', Some True)" and "bind_administrator sha (fst st) e who = Inr (d', b)"
    and "\<not> has_administrator (fst st)" and "get_principal (fst st) who = Some p" and "pp_type p = ''human''"
    and "bootstrap_token option env_token \<noteq> []" and "configured = Some (sha (bootstrap_token option env_token))"
  using assms
  by (auto simp: cli_bootstrap_admin_def enroll_def raised_def given_Some split: if_splits option.splits sum.splits
      intro: that)

text \<open>C10: the enrolment of the administrator happens once. It succeeds only for a human, with the token
  whose hash is configured and without an administrator; afterwards this principal and nobody else is
  administrator, and every later attempt, whatever happened to the database in between, is refused.\<close>

theorem bootstrap_is_one_time:
  assumes b: "cli_bootstrap_admin sha st e option env_token configured who = (st', Shown b)"
    and fk: "list_all (\<lambda>rb. row_has ro_id (rb_role_id rb) (roles (fst st))) (role_bindings (fst st))"
  shows "(\<exists>p. get_principal (fst st) who = Some p \<and> pp_type p = ''human'')
    \<and> configured = Some (sha (bootstrap_token option env_token))
    \<and> is_administrator (fst st') p = (p = who)
    \<and> cli_bootstrap_admin sha (d2, snd st') e2 option2 env_token2 configured2 who2 = ((d2, snd st'), Exited)"
  by (rule enrolled [OF b])
    (use bound_administrator [OF _ _ fk] in
      \<open>auto simp: cli_bootstrap_admin_def enroll_def split: option.split\<close>)

definition sample_enrolment :: "(db \<times> bool option) \<times> string outcome" where
  "sample_enrolment = cli_bootstrap_admin sample_sha (sample_fresh, None) (sample_env ''i'') None ''secret'' (Some ''h'') ''hu''"

lemma sample_enrolled: "\<exists>d. sample_enrolment = ((d, Some True), Shown ''ixx'')"
  by (simp add: sample_enrolment_def cli_bootstrap_admin_def bootstrap_token_def enroll_def has_administrator_def
      get_principal_def bind_administrator_def ensure_service_def insert_principal_def administrator_role_def
      has_role_name_def write_event_def enrolled_event_def sample_fresh_def sample_sha_def sample_simps
      numeral_2_eq_2)

theorem bootstrap_is_one_time_witness:
  "\<exists>d. fst sample_enrolment = (d, Some True) \<and> is_administrator d ''hu'' \<and> \<not> is_administrator d ''ag''
     \<and> cli_bootstrap_admin sample_sha (d, Some True) (sample_env ''j'') None ''secret'' (Some ''h'') ''hu''
       = ((d, Some True), Exited)"
proof -
  obtain d where d: "sample_enrolment = ((d, Some True), Shown ''ixx'')" using sample_enrolled by blast
  note r = bootstrap_is_one_time [OF d [unfolded sample_enrolment_def]]
  have fk: "list_all (\<lambda>rb. row_has ro_id (rb_role_id rb) (roles (fst (sample_fresh, None :: bool option))))
      (role_bindings (fst (sample_fresh, None :: bool option)))"
    by (simp add: sample_fresh_def sample_simps)
  note u = r [OF fk, of _ d "sample_env ''j''" None "''secret''" "Some ''h''" "''hu''"]
  have "is_administrator d ''hu''" using u [of "''hu''"] by simp
  moreover have "\<not> is_administrator d ''ag''" using u [of "''ag''"] by simp
  moreover have "cli_bootstrap_admin sample_sha (d, Some True) (sample_env ''j'') None ''secret'' (Some ''h'') ''hu''
      = ((d, Some True), Exited)" using u [of "''hu''", unfolded fst_conv snd_conv] by (elim conjE)
  moreover have "fst sample_enrolment = (d, Some True)" unfolding d by simp
  ultimately show ?thesis by blast
qed

subsection \<open>What the commands do not check\<close>

text \<open>\<open>execute\<close> requests no authorization and starts nothing: it leaves the database that \<open>check\<close> leaves.\<close>

lemma execute_only_proposes:
  "fst (cli_execute lib d e tool args branch agent) = fst (cli_check lib d e tool args branch agent)"
  by (auto simp: cli_execute_def cli_check_def as_service_def outcome_def bindE_def split: sum.split prod.split)

text \<open>\<open>cancel\<close> acts as the service principal, which no command makes an administrator.\<close>

lemma cancel_needs_enrolled_service:
  assumes "find (\<lambda>p. pp_type p = ''service'' \<and> pp_name p = ''EP Service'') (principals d) = Some p"
    and "get_transition d i = Some t" and "pp_id p \<noteq> t_agent_id t" and "\<not> is_administrator d (pp_id p)"
  shows "cli_cancel sha d e i = (d, Exited)"
  using assms
  by (auto simp: cli_cancel_def as_service_def ensure_service_def outcome_def cancel_def raised_def caught_by_def
      bindE_def requireE_def someE_def)

text \<open>Any outcome but \<open>succeeded\<close> is recorded as failed.\<close>

lemma misspelt_outcome_fails:
  "result \<noteq> ''succeeded'' \<Longrightarrow> cli_reconcile sha d e i result reason b = cli_reconcile sha d e i ''failed'' reason b"
  by (simp add: cli_reconcile_def)

text \<open>A policy for one agent, project or branch cannot be added: the command sets no scope column.\<close>

lemma scoped_policy_is_refused:
  "sc \<noteq> ''global'' \<Longrightarrow> snd (cli_add_policy d e eff actions resources sc priority descr) \<noteq> Shown x"
  by (auto simp: cli_add_policy_def as_service_def outcome_def raised_def insert_policy_def scope_of_text_def Let_def
      scope_consistent_def split: sum.splits prod.splits if_splits)

text \<open>A policy of any status is activated, by anybody: its creator as well, and also after it was retired.\<close>

lemma policy_approval_ignores_status:
  assumes k: "keys_ok d" and p: "get_policy d i = Some r" and h: "has_principal d who"
  shows "\<exists>d' r'. cli_approve_policy d e i who = (d', Shown Active) \<and> get_policy d' i = Some r'
    \<and> p_status (pol_policy r') = Active \<and> p_approved_by (pol_policy r') = Some who"
proof -
  let ?f = "\<lambda>r. r\<lparr>pol_policy := (pol_policy r)\<lparr>p_approved_by := Some who, p_approved_at := Some (now e), p_status := Active\<rparr>,
                 pol_updated_at := now e\<rparr>"
  have key: "policy_key (?f x) = policy_key x" for x by (simp add: policy_key_def)
  have g: "get_policy (d\<lparr>policies := fst (row_update policy_key i (\<lambda>_. True) ?f (policies d))\<rparr>) i = Some (?f r)"
    using p row_get_update_same [where key = policy_key and f = ?f and k = i and guard = "\<lambda>_. True" and rows = "policies d"] key
    by (simp add: get_policy_def policy_key_def [abs_def])
  show ?thesis
    by (intro exI [of _ "d\<lparr>policies := fst (row_update policy_key i (\<lambda>_. True) ?f (policies d))\<rparr>"] exI [of _ "?f r"])
      (use h g in \<open>simp add: cli_approve_policy_def approve_policy_def outcome_def split_beta check_fk_def\<close>)
qed

end
