(* ===== verification/Launch.thy ===== *)
theory Launch
  imports Bootstrap
begin

section \<open>Starting the MCP server (cli.py \<open>serve\<close>, deployment.py \<open>verify_file_ownership\<close>)\<close>

text \<open>
  \<open>serve\<close> decides in which mode, as which principal and with which capability the server of \<open>Mcp\<close>
  runs. The environment is \<open>getenv\<close> of the host; what the operating system answers about a path and the TOML
  parser are arguments. Reports and messages are not modelled.
\<close>

subsection \<open>Ownership of files\<close>

text \<open>
  The answers about one path: whether it exists, the error number of \<open>os.open\<close> with \<open>O_NOFOLLOW\<close> (\<open>None\<close> when it
  opens), owner and mode from \<open>os.fstat\<close> (\<open>None\<close> when it raises), and the text that opening the path
  again and reading it gives (\<open>None\<close> for \<open>FileNotFoundError\<close>). The descriptor that was checked is closed
  before the file is read, so the text may be that of another file.
\<close>

record path_facts =
  pf_exists :: bool
  pf_open_errno :: "int option"
  pf_stat :: "(int \<times> int) option"
  pf_text :: "string option"

text \<open>\<open>S_IWGRP\<close> and \<open>S_IWOTH\<close>.\<close>

definition group_writable :: "int \<Rightarrow> bool" where
  "group_writable mode \<longleftrightarrow> bit mode 4"

definition world_writable :: "int \<Rightarrow> bool" where
  "world_writable mode \<longleftrightarrow> bit mode 1"

definition file_safe :: "path_facts \<Rightarrow> int \<Rightarrow> bool \<Rightarrow> bool \<Rightarrow> bool \<Rightarrow> bool" where
  "file_safe pf require_uid reject_symlinks reject_group_writable reject_world_writable =
     (if \<not> pf_exists pf then False
      else (case pf_open_errno pf of
              Some errno \<Rightarrow> False
            | None \<Rightarrow>
                (case pf_stat pf of
                   None \<Rightarrow> False
                 | Some (uid, mode) \<Rightarrow>
                     (if uid \<noteq> require_uid then False
                      else if reject_group_writable \<and> group_writable mode then False
                      else if reject_world_writable \<and> world_writable mode then False
                      else True))))"

definition verify_file_ownership :: "(string \<Rightarrow> path_facts) \<Rightarrow> string \<Rightarrow> int \<Rightarrow> bool \<Rightarrow> bool \<Rightarrow> bool \<Rightarrow> isolation_check" where
  "verify_file_ownership os path require_uid reject_symlinks reject_group_writable reject_world_writable =
     required_check (''file_ownership:'' @ path)
       (file_safe (os path) require_uid reject_symlinks reject_group_writable reject_world_writable)"

text \<open>With its defaults: root-owned, and writable for the owner only.\<close>

definition owned_by_root :: "(string \<Rightarrow> path_facts) \<Rightarrow> string \<Rightarrow> bool" where
  "owned_by_root os path = c_passed (verify_file_ownership os path 0 True True True)"

subsection \<open>The tool manifest and the configuration of the agent\<close>

text \<open>Text files are read with universal newlines.\<close>

fun universal_newlines :: "string \<Rightarrow> string" where
  "universal_newlines [] = []"
| "universal_newlines (c # s) =
     (if c = CHR 0x0D then CHR 0x0A # universal_newlines (if s \<noteq> [] \<and> hd s = CHR 0x0A then tl s else s)
      else c # universal_newlines s)"

definition manifest_lines :: "string \<Rightarrow> string list" where
  "manifest_lines content =
     map strip (filter (\<lambda>l. strip l \<noteq> [] \<and> \<not> starts_with ''#'' l) (split_on (CHR 0x0A) (universal_newlines content)))"

text \<open>\<open>None\<close>: the command exits.\<close>

definition load_agent_tools :: "(string \<Rightarrow> path_facts) \<Rightarrow> string \<Rightarrow> string list option option" where
  "load_agent_tools os path =
     (if path = [] then Some None
      else if \<not> owned_by_root os path then None
      else (case pf_text (os path) of None \<Rightarrow> None | Some content \<Rightarrow> Some (Some (manifest_lines content))))"

type_synonym toml_lib = "string \<Rightarrow> (string \<times> json) list option"

text \<open>A name that is set must be that of the principal; a value that is no text is another name unless it is falsy.\<close>

definition name_agrees :: "json option \<Rightarrow> string \<Rightarrow> bool" where
  "name_agrees v name =
     (case v of
        None \<Rightarrow> True
      | Some (JStr s) \<Rightarrow> s = [] \<or> s = name
      | Some w \<Rightarrow> w \<in> set [JNull, JBool False, JInt 0, JFloat ''0.0'', JFloat ''-0.0'', JArr [], JObj []])"

text \<open>An identifier that is no text names no principal of the database.\<close>

definition agent_identity :: "(string \<Rightarrow> path_facts) \<Rightarrow> toml_lib \<Rightarrow> db \<Rightarrow> string \<Rightarrow> string option" where
  "agent_identity os toml d path =
     (if \<not> owned_by_root os path then None
      else (case pf_text (os path) of
              None \<Rightarrow> None
            | Some content \<Rightarrow>
                (case toml content of
                   None \<Rightarrow> None
                 | Some cfg \<Rightarrow>
                     (case map_of cfg ''principal_id'' of
                        Some (JStr i) \<Rightarrow>
                          (if i = [] then None
                           else (case get_principal d i of
                                   None \<Rightarrow> None
                                 | Some p \<Rightarrow>
                                     (if pp_type p \<noteq> ''agent'' then None
                                      else if \<not> name_agrees (map_of cfg ''name'') (pp_name p) then None
                                      else Some i)))
                      | _ \<Rightarrow> None))))"

definition service_identity :: "db \<Rightarrow> string option" where
  "service_identity d =
     given (map_option pp_id (find (\<lambda>p. pp_type p = ''service'' \<and> pp_name p = ''EP Service'') (principals d)))"

subsection \<open>\<open>serve\<close>\<close>

record serve_options =
  so_http :: bool
  so_proxy_url :: string
  so_agent_config :: string
  so_agent_tools_file :: string
  so_unsafe_dev_service_identity :: bool

datatype launch = Not_Started | Start_Raises ep_error | Started string string capability

text \<open>The principal the server acts as, for the effective mode.\<close>

definition serve_identity ::
  "(string \<Rightarrow> path_facts) \<Rightarrow> toml_lib \<Rightarrow> db \<Rightarrow> serve_options \<Rightarrow> string \<Rightarrow> string option" where
  "serve_identity os toml d opts effective_mode =
     (if so_agent_config opts \<noteq> [] then agent_identity os toml d (so_agent_config opts)
      else if so_unsafe_dev_service_identity opts then
        (if effective_mode = ''enforced'' then None else service_identity d)
      else None)"

text \<open>Without a schema the URL goes to SQLAlchemy directly: \<open>sqlalchemy_accepts\<close>.\<close>

definition serve_engine :: "(string \<Rightarrow> bool) \<Rightarrow> config \<Rightarrow> ep_error + unit" where
  "serve_engine sqlalchemy_accepts cfg =
     (if cf_db_schema cfg = [] then requireE (sqlalchemy_accepts (cf_db_url cfg)) OtherException
      else bindE (create_engine (cf_db_url cfg)) (\<lambda>_. Inr ()))"

definition serve ::
  "(string \<Rightarrow> bool) \<Rightarrow> host \<Rightarrow> (string \<Rightarrow> path_facts) \<Rightarrow> toml_lib \<Rightarrow> (string \<Rightarrow> bool) \<Rightarrow> db \<Rightarrow> serve_options \<Rightarrow> nat \<Rightarrow> launch" where
  "serve sqlalchemy_accepts h os toml health d opts t =
     (case load_config (getenv h) of
        Inl err \<Rightarrow> Start_Raises err
      | Inr cfg \<Rightarrow>
     (case load_agent_tools os (so_agent_tools_file opts) of
        None \<Rightarrow> Not_Started
      | Some tools \<Rightarrow>
     (case bindE (verify_deployment h health (cf_mode cfg) tools None (given (Some (so_proxy_url opts)))) (\<lambda>st.
           bindE (serve_engine sqlalchemy_accepts cfg) (\<lambda>_. Inr st)) of
        Inl err \<Rightarrow> Start_Raises err
      | Inr st \<Rightarrow>
     (case serve_identity os toml d opts (s_effective st) of
        None \<Rightarrow> Not_Started
      | Some i \<Rightarrow>
          (if so_http opts then Not_Started
           else Started (s_effective st) i (from_status st i t))))))"

subsection \<open>What a started server is\<close>

text \<open>A file that opens, belongs to root and has neither of the bits for writing by the group or by others.\<close>

definition root_owned :: "path_facts \<Rightarrow> bool" where
  "root_owned pf \<longleftrightarrow> pf_exists pf \<and> pf_open_errno pf = None
     \<and> (\<exists>mode. pf_stat pf = Some (0, mode) \<and> \<not> bit mode 4 \<and> \<not> bit mode 1)"

lemma owned_by_root_iff: "owned_by_root os path \<longleftrightarrow> root_owned (os path)"
  by (auto simp: root_owned_def group_writable_def world_writable_def owned_by_root_def verify_file_ownership_def required_check_def file_safe_def split: option.split)

lemma load_agent_tools_Some:
  "load_agent_tools os path = Some (Some ts) \<Longrightarrow> root_owned (os path) \<and> map_option manifest_lines (pf_text (os path)) = Some ts"
  by (auto simp: load_agent_tools_def owned_by_root_iff split: if_splits option.splits)

lemma agent_identity_Some:
  assumes "agent_identity os toml d path = Some i"
  shows "root_owned (os path) \<and> (\<exists>content cfg. pf_text (os path) = Some content \<and> toml content = Some cfg
      \<and> map_of cfg ''principal_id'' = Some (JStr i))
    \<and> (\<exists>p. get_principal d i = Some p \<and> pp_type p = ''agent'')"
  using assms by (auto simp: agent_identity_def owned_by_root_iff split: if_splits option.splits json.splits)

lemma service_identity_Some:
  "service_identity d = Some i \<Longrightarrow> \<exists>p \<in> set (principals d). pp_id p = i \<and> pp_type p = ''service''"
  by (cases "find (\<lambda>p. pp_type p = ''service'' \<and> pp_name p = ''EP Service'') (principals d)")
    (auto simp: service_identity_def find_Some_iff split: if_splits)

text \<open>The files of an agent that the launcher relies on: owned by root and not writable for others when they were checked.\<close>

definition bound_to_agent :: "(string \<Rightarrow> path_facts) \<Rightarrow> toml_lib \<Rightarrow> db \<Rightarrow> string \<Rightarrow> string \<Rightarrow> bool" where
  "bound_to_agent os toml d path i \<longleftrightarrow>
     root_owned (os path)
     \<and> (\<exists>content cfg. pf_text (os path) = Some content \<and> toml content = Some cfg
          \<and> map_of cfg ''principal_id'' = Some (JStr i))
     \<and> (\<exists>p. get_principal d i = Some p \<and> pp_type p = ''agent'')"

lemma serve_Started:
  assumes "serve accepts h os toml health d opts t = Started mode i cap"
  obtains cfg tools st where "load_config (getenv h) = Inr cfg"
    and "load_agent_tools os (so_agent_tools_file opts) = Some tools"
    and "verify_deployment h health (cf_mode cfg) tools None (given (Some (so_proxy_url opts))) = Inr st"
    and "serve_identity os toml d opts mode = Some i" and "\<not> so_http opts"
    and "mode = s_effective st" and "cap = from_status st i t"
  using assms by (auto simp: serve_def split: sum.splits option.splits if_splits)

lemma serve_enforced:
  assumes v: "verify_deployment h health mode tools None url = Inr st" and m: "s_effective st = ''enforced''"
  shows "binding_enforcement_active st \<and> mode = ''enforced'' \<and> clean_host h
    \<and> (\<exists>ts. tools = Some ts \<and> set ts \<subseteq> set governed_tools) \<and> fully_attested (load_attestation_from_env h)
    \<and> (\<exists>u. url = Some u \<and> health u)"
  using verified_deployment [OF v] m by auto

text \<open>C8: The MCP server starts only as an agent principal of the database that a root-owned configuration file names, or,
  with the flag for development and only in advisory mode, as a service principal. It starts in enforced
  mode only when that was configured, the host shows none of the known bypasses, a root-owned tool manifest lists governed
  tools only, the attestation of the environment is complete and the proxy answered. Its capability
  is for that principal, binding exactly in enforced mode, and lives five minutes.\<close>

theorem server_bound_to_agent:
  assumes "serve accepts h os toml health d opts t = Started mode i cap"
  shows "(bound_to_agent os toml d (so_agent_config opts) i
        \<or> mode = ''advisory'' \<and> so_unsafe_dev_service_identity opts
          \<and> (\<exists>p \<in> set (principals d). pp_id p = i \<and> pp_type p = ''service''))
    \<and> (mode = ''enforced'' \<longrightarrow> clean_host h \<and> fully_attested (load_attestation_from_env h)
        \<and> root_owned (os (so_agent_tools_file opts))
        \<and> (\<exists>content. pf_text (os (so_agent_tools_file opts)) = Some content
             \<and> set (manifest_lines content) \<subseteq> set governed_tools)
        \<and> health (so_proxy_url opts))
    \<and> cap_agent_principal_id cap = i \<and> cap_effective_mode cap = mode
    \<and> (cap_binding_active cap \<longleftrightarrow> mode = ''enforced'') \<and> cap_expires_at cap = isoformat (t + seconds 300)"
  using assms
proof (cases rule: serve_Started)
  case (1 cfg tools st)
  have a: "mode \<noteq> ''enforced'' \<Longrightarrow> mode = ''advisory''" and b: "binding_enforcement_active st \<longleftrightarrow> mode = ''enforced''"
  proof -
    have n: "\<not> binding_enforcement_active st \<longrightarrow> s_effective st = ''advisory''"
      by (rule conjunct2 [OF verified_deployment [OF 1(3)]])
    have p: "binding_enforcement_active st \<Longrightarrow> s_effective st = ''enforced''"
      by (simp add: binding_enforcement_active_def)
    show "mode \<noteq> ''enforced'' \<Longrightarrow> mode = ''advisory''" and "binding_enforcement_active st \<longleftrightarrow> mode = ''enforced''"
      using n p 1(6) by (cases "binding_enforcement_active st"; simp)+
  qed
  have i: "bound_to_agent os toml d (so_agent_config opts) i
        \<or> mode = ''advisory'' \<and> so_unsafe_dev_service_identity opts
          \<and> (\<exists>p \<in> set (principals d). pp_id p = i \<and> pp_type p = ''service'')"
  proof (cases "so_agent_config opts = []")
    case True
    then have "so_unsafe_dev_service_identity opts" and "mode \<noteq> ''enforced''" and "service_identity d = Some i"
      using 1(4) by (simp_all add: serve_identity_def split: if_splits)
    then show ?thesis using a service_identity_Some [of d i] by blast
  next
    case False
    then have "agent_identity os toml d (so_agent_config opts) = Some i" using 1(4) by (simp add: serve_identity_def)
    from agent_identity_Some [OF this] show ?thesis unfolding bound_to_agent_def by blast
  qed
  have e: "clean_host h \<and> fully_attested (load_attestation_from_env h) \<and> root_owned (os (so_agent_tools_file opts))
        \<and> (\<exists>content. pf_text (os (so_agent_tools_file opts)) = Some content
             \<and> set (manifest_lines content) \<subseteq> set governed_tools)
        \<and> health (so_proxy_url opts)" if en: "mode = ''enforced''"
  proof -
    note s = serve_enforced [OF 1(3)]
    obtain ts where ts: "tools = Some ts" "set ts \<subseteq> set governed_tools" using s en 1(6) by auto
    show ?thesis using s en 1(6) ts load_agent_tools_Some [of os "so_agent_tools_file opts" ts] 1(2)
      by (auto split: if_splits)
  qed
  show ?thesis using i e b 1(6,7) by (simp add: from_status_def)
qed

definition sample_facts :: "string \<Rightarrow> path_facts" where
  "sample_facts path = \<lparr> pf_exists = True, pf_open_errno = None, pf_stat = Some (0, 420),
     pf_text = Some (if path = ''tools'' then ''# tools'' @ [CHR 0x0A] @ '' ep_execute'' else [])  \<rparr>"

definition governed_host :: host where
  "governed_host = \<lparr> getenv = (\<lambda>k. if k = ''EP_DB_URL'' then Some ''sqlite://''
       else if take 10 k = ''EP_ASSERT_'' then Some ''true'' else None),
     path_exists = (\<lambda>_. False), home = ''/root'' \<rparr>"

definition sample_options :: serve_options where
  "sample_options = \<lparr> so_http = False, so_proxy_url = ''http'', so_agent_config = ''agent'',
     so_agent_tools_file = ''tools'', so_unsafe_dev_service_identity = False \<rparr>"

definition sample_launch :: launch where
  "sample_launch = serve (\<lambda>_. True) governed_host sample_facts (\<lambda>_. Some [(''principal_id'', JStr ''ag'')]) (\<lambda>_. True)
     (sample_db Authorized) sample_options 0"

lemma sample_config_loaded:
  "map_sum id (\<lambda>c. (cf_mode c, cf_db_schema c)) (load_config (getenv governed_host)) = Inr (''enforced'', [])"
  by code_simp

lemma sample_owned: "owned_by_root sample_facts path"
  by (simp add: owned_by_root_iff root_owned_def sample_facts_def bit_iff_odd)

lemma sample_manifest: "manifest_lines (''# tools'' @ [CHR 0x0A] @ '' ep_execute'') = [''ep_execute'']"
  by code_simp

lemma sample_tools: "load_agent_tools sample_facts ''tools'' = Some (Some [''ep_execute''])"
  using sample_owned [of "''tools''"] sample_manifest by (simp add: load_agent_tools_def sample_facts_def)

lemma sample_agent:
  "agent_identity sample_facts (\<lambda>_. Some [(''principal_id'', JStr ''ag'')]) (sample_db Authorized) ''agent'' = Some ''ag''"
  using sample_owned [of "''agent''"]
  by (simp add: agent_identity_def name_agrees_def get_principal_def sample_facts_def sample_simps)

lemma sample_verified:
  "map_sum id s_effective (verify_deployment governed_host health ''enforced'' (Some [''ep_execute'']) None (Some ''http''))
   = Inr (if health ''http'' then ''enforced'' else ''advisory'')"
  by code_simp simp

lemma sample_serve:
  "\<exists>cap. serve (\<lambda>_. True) governed_host sample_facts (\<lambda>_. Some [(''principal_id'', JStr ''ag'')]) health
      (sample_db Authorized) sample_options t
    = Started (if health ''http'' then ''enforced'' else ''advisory'') ''ag'' cap"
proof -
  obtain cfg where cfg: "load_config (getenv governed_host) = Inr cfg" "cf_mode cfg = ''enforced''" "cf_db_schema cfg = []"
    using sample_config_loaded by (cases "load_config (getenv governed_host)") auto
  obtain st where st: "verify_deployment governed_host health ''enforced'' (Some [''ep_execute'']) None (Some ''http'') = Inr st"
    "s_effective st = (if health ''http'' then ''enforced'' else ''advisory'')"
    using sample_verified [of health]
    by (cases "verify_deployment governed_host health ''enforced'' (Some [''ep_execute'']) None (Some ''http'')") auto
  show ?thesis
    using sample_tools sample_agent
    by (simp add: serve_def cfg st sample_options_def serve_engine_def serve_identity_def)
qed

lemma sample_started: "\<exists>cap. sample_launch = Started ''enforced'' ''ag'' cap"
  using sample_serve [of "\<lambda>_. True" 0] by (simp add: sample_launch_def)

theorem server_bound_to_agent_witness:
  "\<exists>cap. sample_launch = Started ''enforced'' ''ag'' cap \<and> cap_binding_active cap
     \<and> clean_host governed_host \<and> root_owned (sample_facts ''tools'')"
proof -
  obtain cap where c: "sample_launch = Started ''enforced'' ''ag'' cap" using sample_started by blast
  note s = server_bound_to_agent [OF c [unfolded sample_launch_def]]
  have "so_agent_tools_file sample_options = ''tools''" by (simp add: sample_options_def)
  then have "cap_binding_active cap \<and> clean_host governed_host \<and> root_owned (sample_facts ''tools'')" using s by simp
  then show ?thesis using c by blast
qed

subsection \<open>What the launch does not do\<close>

text \<open>The flag for symbolic links has no effect: they are always refused.\<close>

lemma symlink_flag_unused:
  "verify_file_ownership os path uid a g w = verify_file_ownership os path uid b g w"
  by (simp add: verify_file_ownership_def file_safe_def)

text \<open>
  In production mode a capability must come from a signed attestation. The one of \<open>serve\<close> never does, so a server
  that the command line started refuses every execution.
\<close>

lemma served_capability_refused_in_production:
  assumes "serve accepts h os toml health d opts t = Started mode i cap" and "production_mode h"
  shows "require_binding_enforcement fromiso h u cap \<noteq> Inr ()"
  using assms by (auto simp: from_status_def require_binding_enforcement_def elim!: serve_Started)

text \<open>A failed check does not stop the server: it starts in advisory mode although enforced mode was configured.\<close>

lemma failed_checks_start_advisory:
  "\<exists>cap. serve (\<lambda>_. True) governed_host sample_facts (\<lambda>_. Some [(''principal_id'', JStr ''ag'')]) (\<lambda>_. False)
      (sample_db Authorized) sample_options t = Started ''advisory'' ''ag'' cap"
  using sample_serve [of "\<lambda>_. False" t] by simp

end
