(* ===== verification/Packages.thy ===== *)
theory Packages
  imports Branches Json_Parse Classification
begin

section \<open>Transfer packages (transfer.py)\<close>

text \<open>
  Export of a lattice as a package, its JSON form, and import of a package as a fork: a new project with
  copies of the branches, nodes, edges and policies. The values of a package are JSON; the query that
  collects the rows of a lattice is an argument (\<open>collect\<close>), and so are SHA-256 and the signature. Fields
  of the imported entries are read at the types that the exporter writes, a value of another type
  is \<open>OtherException\<close>. The import commits after each group of rows: it returns the database as last
  committed, also when it raises.
\<close>

record transfer_package =
  tp_schema_version :: json
  tp_package_version :: json
  tp_source_lattice_id :: json
  tp_source_project_id :: json
  tp_snapshot_sequence :: json
  tp_created_at :: json
  tp_content_hash :: json
  tp_signature :: json
  tp_signer_id :: json
  tp_trust_status :: json
  tp_lattice_state :: json

subsection \<open>The JSON form\<close>

definition package_fields :: "string list" where
  "package_fields = [''schema_version'', ''package_version'', ''source_lattice_id'', ''source_project_id'',
     ''snapshot_sequence'', ''created_at'', ''content_hash'', ''signature'', ''signer_id'', ''trust_status'',
     ''lattice_state'']"

definition package_values :: "transfer_package \<Rightarrow> json list" where
  "package_values p = [tp_schema_version p, tp_package_version p, tp_source_lattice_id p, tp_source_project_id p,
     tp_snapshot_sequence p, tp_created_at p, tp_content_hash p, tp_signature p, tp_signer_id p, tp_trust_status p,
     tp_lattice_state p]"

definition to_dict :: "transfer_package \<Rightarrow> (string \<times> json) list" where
  "to_dict p = zip package_fields (package_values p)"

definition to_json :: "transfer_package \<Rightarrow> ep_error + string" where
  "to_json p = bindE (requireE (finite_json (JObj (to_dict p))) ValueError) (\<lambda>_. Inr (dumps (JObj (to_dict p))))"

definition entry :: "(string \<times> json) list \<Rightarrow> string \<Rightarrow> json" where
  "entry kvs k = (case map_of kvs k of None \<Rightarrow> JNull | Some v \<Rightarrow> v)"

definition from_dict :: "(string \<times> json) list \<Rightarrow> ep_error + transfer_package" where
  "from_dict kvs =
     bindE (requireE (list_all (\<lambda>k. map_of kvs k \<noteq> None) package_fields) TransferImportError) (\<lambda>_.
       Inr \<lparr> tp_schema_version = entry kvs ''schema_version'', tp_package_version = entry kvs ''package_version'',
             tp_source_lattice_id = entry kvs ''source_lattice_id'',
             tp_source_project_id = entry kvs ''source_project_id'',
             tp_snapshot_sequence = entry kvs ''snapshot_sequence'', tp_created_at = entry kvs ''created_at'',
             tp_content_hash = entry kvs ''content_hash'', tp_signature = entry kvs ''signature'',
             tp_signer_id = entry kvs ''signer_id'', tp_trust_status = entry kvs ''trust_status'',
             tp_lattice_state = entry kvs ''lattice_state'' \<rparr>)"

text \<open>\<open>field in data\<close> searches a list or a text, which then cannot be indexed, and raises for the other values.\<close>

definition from_json :: "(string \<Rightarrow> string) \<Rightarrow> string \<Rightarrow> ep_error + transfer_package" where
  "from_json frep s =
     (case json_loads frep s of
        None \<Rightarrow> Inl ValueError
      | Some (JObj kvs) \<Rightarrow> from_dict kvs
      | Some (JArr vs) \<Rightarrow> Inl (if list_all (\<lambda>k. JStr k \<in> set vs) package_fields then TypeError else TransferImportError)
      | Some (JStr t) \<Rightarrow> Inl (if list_all (\<lambda>k. contains k t) package_fields then TypeError else TransferImportError)
      | Some _ \<Rightarrow> Inl TypeError)"

definition verify_content_hash :: "(string \<Rightarrow> string) \<Rightarrow> transfer_package \<Rightarrow> ep_error + bool" where
  "verify_content_hash sha p =
     bindE (json_canonical_hash sha (tp_lattice_state p)) (\<lambda>h. Inr (JStr h = tp_content_hash p))"

subsection \<open>Tables of packages and mappings\<close>

record package_row =
  pk_id :: string
  pk_lattice_id :: string
  pk_schema_version :: string
  pk_package_version :: string
  pk_source_lattice_id :: string
  pk_project_id :: string
  pk_snapshot_sequence :: int
  pk_content_hash :: string
  pk_signature :: string
  pk_signer_id :: string
  pk_trust_status :: string
  pk_lattice_state :: json
  pk_created_at :: string

record mapping_row =
  mp_id :: string
  mp_source_entity_id :: string
  mp_imported_entity_id :: string
  mp_source_lattice_id :: string
  mp_source_package_id :: string
  mp_entity_type :: string
  mp_created_at :: string

record transfer_db =
  td_db :: db
  td_packages :: "package_row list"
  td_mappings :: "mapping_row list"

subsection \<open>Export\<close>

text \<open>A package whose signer is no principal violates the foreign key of its record.\<close>

definition insert_package :: "transfer_db \<Rightarrow> package_row \<Rightarrow> ep_error + transfer_db" where
  "insert_package st r =
     bindE (check_fk (has_lattice (td_db st) (pk_lattice_id r) \<and> has_project (td_db st) (pk_project_id r)
                      \<and> has_principal (td_db st) (pk_signer_id r))) (\<lambda>_.
     bindE (someE IntegrityError (row_insert pk_id r (td_packages st))) (\<lambda>t. Inr (st\<lparr>td_packages := t\<rparr>)))"

definition get_project :: "db \<Rightarrow> string \<Rightarrow> project_row option" where
  "get_project d i = row_get pr_id i (projects d)"

text \<open>\<open>sign\<close> is the signature of a text in hexadecimal under the given key, \<open>None\<close> where signing raises.\<close>

definition export_lattice ::
  "(string \<Rightarrow> string) \<Rightarrow> (db \<Rightarrow> string \<Rightarrow> json) \<Rightarrow> (string \<Rightarrow> string option) option \<Rightarrow> transfer_db \<Rightarrow> env \<Rightarrow> string \<Rightarrow> string
   \<Rightarrow> ep_error + transfer_db \<times> transfer_package" where
  "export_lattice sha collect sign st e lattice_id signer_id =
     bindE (someE TransferError (get_lattice (td_db st) lattice_id)) (\<lambda>l.
     bindE (someE TransferError (get_project (td_db st) (l_project_id l))) (\<lambda>p.
     let state = collect (td_db st) lattice_id in
     bindE (json_canonical_hash sha state) (\<lambda>h.
     bindE (case sign of None \<Rightarrow> Inr [] | Some f \<Rightarrow> someE TransferSignatureError (f h)) (\<lambda>signature.
     let seq = int (length (filter (\<lambda>r. pk_lattice_id r = lattice_id) (td_packages st))) + 1 in
     bindE (insert_package st \<lparr> pk_id = ids e 0, pk_lattice_id = lattice_id, pk_schema_version = ''1.0'',
              pk_package_version = ''1.0'', pk_source_lattice_id = lattice_id, pk_project_id = pr_id p,
              pk_snapshot_sequence = seq, pk_content_hash = h, pk_signature = signature, pk_signer_id = signer_id,
              pk_trust_status = ''trusted'', pk_lattice_state = sort_keys state, pk_created_at = now e \<rparr>) (\<lambda>st'.
       Inr (st', \<lparr> tp_schema_version = JStr ''1.0'', tp_package_version = JStr ''1.0'',
                   tp_source_lattice_id = JStr lattice_id, tp_source_project_id = JStr (pr_id p),
                   tp_snapshot_sequence = JInt seq, tp_created_at = JStr (now e), tp_content_hash = JStr h,
                   tp_signature = JStr signature, tp_signer_id = JStr signer_id, tp_trust_status = JStr ''trusted'',
                   tp_lattice_state = state \<rparr>))))))"

subsection \<open>Import: reading the entries\<close>

definition as_entry :: "json \<Rightarrow> ep_error + (string \<times> json) list" where
  "as_entry v = (case v of JObj kvs \<Rightarrow> Inr kvs | _ \<Rightarrow> Inl OtherException)"

definition entries :: "(string \<times> json) list \<Rightarrow> string \<Rightarrow> ep_error + json list" where
  "entries kvs k = (case map_of kvs k of None \<Rightarrow> Inr [] | Some (JArr vs) \<Rightarrow> Inr vs | _ \<Rightarrow> Inl OtherException)"

definition text_item :: "(string \<times> json) list \<Rightarrow> string \<Rightarrow> ep_error + string" where
  "text_item kvs k = (case map_of kvs k of None \<Rightarrow> Inl KeyError | Some (JStr s) \<Rightarrow> Inr s | _ \<Rightarrow> Inl OtherException)"

definition text_or :: "string \<Rightarrow> (string \<times> json) list \<Rightarrow> string \<Rightarrow> ep_error + string" where
  "text_or missing kvs k = (case map_of kvs k of None \<Rightarrow> Inr missing | Some (JStr s) \<Rightarrow> Inr s | _ \<Rightarrow> Inl OtherException)"

definition text_opt :: "(string \<times> json) list \<Rightarrow> string \<Rightarrow> ep_error + string option" where
  "text_opt kvs k = (case entry kvs k of JNull \<Rightarrow> Inr None | JStr s \<Rightarrow> Inr (Some s) | _ \<Rightarrow> Inl OtherException)"

fun texts :: "json list \<Rightarrow> string list option" where
  "texts [] = Some []"
| "texts (JStr s # vs) = map_option (Cons s) (texts vs)"
| "texts _ = None"

definition text_list :: "(string \<times> json) list \<Rightarrow> string \<Rightarrow> ep_error + string list" where
  "text_list kvs k = bindE (entries kvs k) (\<lambda>vs. someE OtherException (texts vs))"

definition number_or :: "(string \<Rightarrow> rat) \<Rightarrow> rat \<Rightarrow> (string \<times> json) list \<Rightarrow> string \<Rightarrow> ep_error + rat" where
  "number_or fval missing kvs k =
     (case map_of kvs k of
        None \<Rightarrow> Inr missing | Some (JInt i) \<Rightarrow> Inr (of_int i) | Some (JFloat t) \<Rightarrow> Inr (fval t) | _ \<Rightarrow> Inl OtherException)"

text \<open>\<open>mapping.get(key)\<close>: a list or an object is no key.\<close>

definition mapped :: "(string \<times> string) list \<Rightarrow> json \<Rightarrow> ep_error + string option" where
  "mapped m v = (case v of JStr s \<Rightarrow> Inr (map_of m s) | JArr _ \<Rightarrow> Inl TypeError | JObj _ \<Rightarrow> Inl TypeError | _ \<Rightarrow> Inr None)"

subsection \<open>Import: the groups of rows\<close>

text \<open>Branches are committed one by one: \<open>com\<close> is the database as last committed.\<close>

fun import_branches ::
  "env \<Rightarrow> string \<Rightarrow> db \<Rightarrow> db \<Rightarrow> nat \<Rightarrow> (string \<times> string) list \<Rightarrow> json list
   \<Rightarrow> db \<times> (ep_error + db \<times> nat \<times> (string \<times> string) list)" where
  "import_branches e lattice com d n m [] = (com, Inr (d, n, m))"
| "import_branches e lattice com d n m (v # vs) =
     (case bindE (as_entry v) (\<lambda>b. bindE (text_item b ''id'') (\<lambda>old. bindE (text_item b ''name'') (\<lambda>name.
           bindE (create_branch d (env_from n e) lattice name None) (\<lambda>(d', r). Inr (d', old, b_id r))))) of
        Inl err \<Rightarrow> (com, Inl err)
      | Inr (d', old, new) \<Rightarrow> import_branches e lattice d' d' (Suc n) (dict_put old new m) vs)"

definition import_node ::
  "(string \<Rightarrow> rat) \<Rightarrow> env \<Rightarrow> string option \<Rightarrow> (string \<times> string) list \<Rightarrow> db \<Rightarrow> string \<Rightarrow> (string \<times> json) list \<Rightarrow> ep_error + db" where
  "import_node fval e svc bm d new v =
     bindE (text_or [] v ''branch_id'') (\<lambda>bid.
     case map_of bm bid of
       None \<Rightarrow> Inr d
     | Some b \<Rightarrow>
         bindE (case svc of Some s \<Rightarrow> if s \<noteq> [] then Inr s else text_or ''imported'' v ''agent_id''
                | None \<Rightarrow> text_or ''imported'' v ''agent_id'') (\<lambda>agent.
         bindE (text_or ''Imported node'' v ''description'') (\<lambda>descr.
         bindE (number_or fval 100 v ''bt_planning_budget'') (\<lambda>bt.
         bindE (insert_node d e new b agent descr bt (JObj []) Committed) (\<lambda>(d', _). Inr d')))))"

fun import_nodes ::
  "(string \<Rightarrow> rat) \<Rightarrow> env \<Rightarrow> string option \<Rightarrow> (string \<times> string) list \<Rightarrow> db \<Rightarrow> nat \<Rightarrow> (string \<times> string) list
   \<Rightarrow> (string \<times> string) list \<Rightarrow> json list \<Rightarrow> ep_error + db \<times> nat \<times> (string \<times> string) list \<times> (string \<times> string) list" where
  "import_nodes fval e svc bm d n nm m [] = Inr (d, n, nm, m)"
| "import_nodes fval e svc bm d n nm m (v # vs) =
     bindE (as_entry v) (\<lambda>kvs. bindE (text_item kvs ''id'') (\<lambda>old.
     bindE (import_node fval e svc bm d (ids e n) kvs) (\<lambda>d'.
       import_nodes fval e svc bm d' (Suc n) (dict_put old (ids e n) nm) (dict_put old (ids e n) m) vs)))"

definition edge_types :: "string list" where
  "edge_types = [''dependency'', ''establishes'', ''requires'', ''conflicts_with'']"

fun import_edges :: "env \<Rightarrow> (string \<times> string) list \<Rightarrow> db \<Rightarrow> nat \<Rightarrow> json list \<Rightarrow> ep_error + db \<times> nat" where
  "import_edges e nm d n [] = Inr (d, n)"
| "import_edges e nm d n (v # vs) =
     bindE (as_entry v) (\<lambda>kvs.
     bindE (mapped nm (entry kvs ''upstream_node_id'')) (\<lambda>up.
     bindE (mapped nm (entry kvs ''downstream_node_id'')) (\<lambda>down.
     case (up, down) of
       (Some a, Some b) \<Rightarrow>
         bindE (text_or ''dependency'' kvs ''edge_type'') (\<lambda>ty.
         bindE (requireE (ty \<in> set edge_types) IntegrityError) (\<lambda>_.
         bindE (insert_edge d e (ids e n) a b) (\<lambda>(d', _). import_edges e nm d' (Suc n) vs)))
     | _ \<Rightarrow> import_edges e nm d n vs)))"

definition policy_of_entry ::
  "string \<Rightarrow> string \<Rightarrow> policy_status \<Rightarrow> (string \<times> json) list \<Rightarrow> ep_error + policy" where
  "policy_of_entry i svc status kvs =
     bindE (bindE (text_or ''deny'' kvs ''effect'') (\<lambda>s. someE IntegrityError (effect_of_text s))) (\<lambda>eff.
     bindE (text_list kvs ''actions'') (\<lambda>actions.
     bindE (text_list kvs ''resources'') (\<lambda>resources.
     bindE (case map_of kvs ''conditions'' of None \<Rightarrow> Inr [] | Some v \<Rightarrow> as_entry v) (\<lambda>conditions.
     bindE (case map_of kvs ''priority'' of None \<Rightarrow> Inr 0 | Some (JInt i) \<Rightarrow> Inr i | _ \<Rightarrow> Inl OtherException) (\<lambda>priority.
     bindE (text_or ''global'' kvs ''scope'') (\<lambda>sc.
     bindE (someE IntegrityError (scope_of_text (if sc = ''agent'' then ''global'' else sc))) (\<lambda>sc.
     bindE (text_or ''Imported policy'' kvs ''description'') (\<lambda>descr.
     bindE (text_list kvs ''exception_to'') (\<lambda>exceptions.
     bindE (text_opt kvs ''valid_from'') (\<lambda>vf.
     bindE (text_opt kvs ''valid_until'') (\<lambda>vu.
       Inr \<lparr> p_id = i, p_effect = eff, p_actions = actions, p_resources = resources, p_conditions = conditions,
             p_priority = priority, p_scope = sc, p_agent_scope = None, p_project_id = None, p_branch_id = None,
             p_description = descr, p_status = status, p_created_by = svc, p_approved_by = None, p_approved_at = None,
             p_activation_version = None, p_exception_to = exceptions, p_valid_from = vf, p_valid_until = vu,
             p_justification = Some ''Imported from transfer package'' \<rparr>)))))))))))"

fun import_policies ::
  "env \<Rightarrow> string option \<Rightarrow> policy_status \<Rightarrow> db \<Rightarrow> nat \<Rightarrow> (string \<times> string) list \<Rightarrow> json list
   \<Rightarrow> ep_error + db \<times> nat \<times> (string \<times> string) list" where
  "import_policies e svc status d n m [] = Inr (d, n, m)"
| "import_policies e svc status d n m (v # vs) =
     bindE (as_entry v) (\<lambda>kvs. bindE (text_item kvs ''id'') (\<lambda>old.
     bindE (someE IntegrityError svc) (\<lambda>creator.
     bindE (policy_of_entry (ids e n) creator status kvs) (\<lambda>p.
     bindE (insert_policy d e p) (\<lambda>(d', _).
       import_policies e svc status d' (Suc n) (dict_put old (ids e n) m) vs)))))"

fun import_mappings ::
  "env \<Rightarrow> string \<Rightarrow> string \<Rightarrow> nat \<Rightarrow> mapping_row list \<Rightarrow> (string \<times> string) list \<Rightarrow> ep_error + mapping_row list" where
  "import_mappings e source package n t [] = Inr t"
| "import_mappings e source package n t ((old, new) # m) =
     bindE (someE IntegrityError (row_insert mp_id \<lparr> mp_id = ids e n, mp_source_entity_id = old,
              mp_imported_entity_id = new, mp_source_lattice_id = source, mp_source_package_id = package,
              mp_entity_type = ''entity'', mp_created_at = now e \<rparr> t)) (\<lambda>t'.
       import_mappings e source package (Suc n) t' m)"

subsection \<open>Import\<close>

definition prohibited_imports :: "string list" where
  "prohibited_imports = [''active_authorization_tokens'', ''operational_credentials'', ''private_signing_keys'',
     ''live_sessions'', ''unexpired_approvals'', ''runtime_sockets'', ''environment_configuration'']"

definition check_prohibited :: "json \<Rightarrow> ep_error + unit" where
  "check_prohibited state =
     (case state of
        JObj kvs \<Rightarrow> requireE (list_all (\<lambda>k. map_of kvs k = None) prohibited_imports) TransferImportError
      | JArr vs \<Rightarrow> requireE (list_all (\<lambda>k. JStr k \<notin> set vs) prohibited_imports) TransferImportError
      | JStr t \<Rightarrow> requireE (list_all (\<lambda>k. \<not> contains k t) prohibited_imports) TransferImportError
      | _ \<Rightarrow> Inl TypeError)"

definition state_entries :: "json \<Rightarrow> ep_error + (string \<times> json) list" where
  "state_entries v = (case v of JObj kvs \<Rightarrow> Inr kvs | _ \<Rightarrow> Inl AttributeError)"

definition text_field :: "json \<Rightarrow> ep_error + string" where
  "text_field v = (case v of JStr s \<Rightarrow> Inr s | _ \<Rightarrow> Inl OtherException)"

definition text_or_empty :: "json \<Rightarrow> ep_error + string" where
  "text_or_empty v = (case v of JNull \<Rightarrow> Inr [] | _ \<Rightarrow> text_field v)"

text \<open>The checks, the new project and its lattice: nothing is committed yet.\<close>

definition open_fork ::
  "(string \<Rightarrow> string) \<Rightarrow> db \<Rightarrow> env \<Rightarrow> transfer_package \<Rightarrow> string
   \<Rightarrow> ep_error + db \<times> string \<times> string \<times> (string \<times> json) list \<times> json list" where
  "open_fork sha d e package project_name =
     bindE (verify_content_hash sha package) (\<lambda>ok.
     bindE (requireE ok TransferImportError) (\<lambda>_.
     bindE (check_prohibited (tp_lattice_state package)) (\<lambda>_.
     bindE (text_field (tp_source_project_id package)) (\<lambda>source.
     bindE (create_project d e project_name (''Forked from '' @ source)) (\<lambda>(d1, p).
     bindE (create_lattice d1 (env_from 1 e) (pr_id p) ''main'') (\<lambda>(d2, l).
     bindE (state_entries (tp_lattice_state package)) (\<lambda>state.
     bindE (entries state ''branches'') (\<lambda>bs.
       Inr (d2, pr_id p, l_id l, state, bs)))))))))"

text \<open>The record of the package, as the import stores it.\<close>

definition import_record ::
  "env \<Rightarrow> string \<Rightarrow> string \<Rightarrow> string \<Rightarrow> transfer_package \<Rightarrow> bool \<Rightarrow> ep_error + package_row" where
  "import_record e i project lattice package trusted_signer =
     bindE (text_field (tp_schema_version package)) (\<lambda>sv.
     bindE (text_field (tp_package_version package)) (\<lambda>pv.
     bindE (text_field (tp_source_lattice_id package)) (\<lambda>slid.
     bindE (text_field (tp_content_hash package)) (\<lambda>h.
     bindE (text_or_empty (tp_signature package)) (\<lambda>sig.
     bindE (text_or_empty (tp_signer_id package)) (\<lambda>signer.
       Inr \<lparr> pk_id = i, pk_lattice_id = lattice, pk_schema_version = sv, pk_package_version = pv,
             pk_source_lattice_id = slid, pk_project_id = project, pk_snapshot_sequence = 0, pk_content_hash = h,
             pk_signature = sig, pk_signer_id = signer,
             pk_trust_status = (if trusted_signer then ''trusted'' else ''untrusted''),
             pk_lattice_state = tp_lattice_state package, pk_created_at = now e \<rparr>))))))"

record fork =
  fk_project_id :: string
  fk_lattice_id :: string
  fk_id_mappings :: "(string \<times> string) list"
  fk_policies_imported :: nat
  fk_policies_active :: nat

text \<open>\<open>attempt com m k\<close>: when \<open>m\<close> raises, what was committed before (\<open>com\<close>) is what remains.\<close>

definition attempt :: "'s \<Rightarrow> ep_error + 'a \<Rightarrow> ('a \<Rightarrow> 's \<times> (ep_error + 'b)) \<Rightarrow> 's \<times> (ep_error + 'b)" where
  "attempt com m k = (case m of Inl err \<Rightarrow> (com, Inl err) | Inr x \<Rightarrow> k x)"

definition imported_status :: "bool \<Rightarrow> bool \<Rightarrow> policy_status" where
  "imported_status trusted_signer trusted_source =
     (if trusted_signer \<and> trusted_source then Active else Draft)"

definition import_as_fork ::
  "(string \<Rightarrow> string) \<Rightarrow> (string \<Rightarrow> rat) \<Rightarrow> transfer_db \<Rightarrow> env \<Rightarrow> transfer_package \<Rightarrow> string \<Rightarrow> bool \<Rightarrow> bool
   \<Rightarrow> string option \<Rightarrow> transfer_db \<times> (ep_error + fork)" where
  "import_as_fork sha fval st e package project_name trusted_signer trusted_source svc =
     attempt st (open_fork sha (td_db st) e package project_name) (\<lambda>(d, project, lattice, state, bs).
     case import_branches e lattice (td_db st) d 2 [] bs of
       (com, Inl err) \<Rightarrow> (st\<lparr>td_db := com\<rparr>, Inl err)
     | (com, Inr (d, n, bm)) \<Rightarrow>
         attempt (st\<lparr>td_db := com\<rparr>)
           (bindE (entries state ''nodes'') (\<lambda>ns. import_nodes fval e svc bm d n [] bm ns)) (\<lambda>(d, n, nm, m).
         attempt (st\<lparr>td_db := d\<rparr>)
           (bindE (entries state ''edges'') (\<lambda>es. import_edges e nm d n es)) (\<lambda>(d, n).
         attempt (st\<lparr>td_db := d\<rparr>)
           (bindE (entries state ''policies'') (\<lambda>ps.
            bindE (import_policies e svc (imported_status trusted_signer trusted_source) d n m ps)
              (\<lambda>(d, n, m). Inr (d, n, m, length ps)))) (\<lambda>(d, n, m, k).
         attempt (st\<lparr>td_db := d\<rparr>)
           (bindE (import_record e (ids e n) project lattice package trusted_signer) (\<lambda>r.
            bindE (insert_package (st\<lparr>td_db := d\<rparr>) r) (\<lambda>st. Inr (st, r)))) (\<lambda>(st, r).
         attempt st (import_mappings e (pk_source_lattice_id r) (pk_id r) (Suc n) (td_mappings st) m) (\<lambda>t.
           (st\<lparr>td_mappings := t\<rparr>,
            Inr \<lparr> fk_project_id = project, fk_lattice_id = lattice, fk_id_mappings = m, fk_policies_imported = k,
                  fk_policies_active = (if trusted_signer \<and> trusted_source then k else 0) \<rparr>)))))))"

end
