(* ===== verification/Fork.thy ===== *)
theory Fork
  imports Packages
begin

section \<open>What transfer keeps\<close>

text \<open>
  A package survives its JSON form, and an import only appends: what the importing database held stays, the
  copies belong to the new lattice, and policies of an untrusted package do not act.
\<close>

subsection \<open>The JSON form of a package\<close>

lemma map_of_sort_items:
  assumes "distinct (map fst kvs)"
  shows "map_of (sort_items kvs) = map_of kvs"
  using map_of_inject_set [of "sort_items kvs" kvs] assms by simp

lemma to_dict_keys: "map fst (to_dict p) = package_fields"
  by (simp add: to_dict_def package_fields_def package_values_def)

lemma package_fields_distinct: "distinct package_fields"
  by (simp add: package_fields_def)

lemma map_of_map_snd: "map_of (map (\<lambda>(k, v). (k, f v)) kvs) = map_option f \<circ> map_of kvs"
  by (induction kvs) auto

lemma from_dict_cong: "map_of a = map_of b \<Longrightarrow> from_dict a = from_dict b"
  by (simp add: from_dict_def entry_def)

lemma from_dict_fields:
  assumes "length vs = length package_fields"
  shows "\<exists>q. from_dict (zip package_fields vs) = Inr q \<and> package_values q = vs"
  using assms
  by (auto simp: package_fields_def from_dict_def entry_def package_values_def length_Suc_conv numeral_eq_Suc)

lemma finite_sort_keys [simp]: "finite_json (sort_keys v) = finite_json v"
  by (induction v rule: sort_keys.induct) (force simp: list_all_iff)+

lemma sort_keys_str [simp]: "JStr h = sort_keys v \<longleftrightarrow> JStr h = v"
  by (cases v) auto

lemma verify_sorted:
  assumes "tp_lattice_state q = sort_keys (tp_lattice_state p)" and "tp_content_hash q = sort_keys (tp_content_hash p)"
  shows "verify_content_hash sha q = verify_content_hash sha p"
  using assms by (simp add: verify_content_hash_def json_canonical_hash_def json_hash_def)

text \<open>C18: Reading the text that \<open>to_json\<close> writes for a package gives the package back, the keys of its objects
  in sorted order, and the check of its content hash has the same outcome before and after.\<close>

theorem package_round_trip:
  assumes "to_json p = Inr t" and "list_all (wf_json frep) (package_values p)"
  shows "\<exists>q. from_json frep t = Inr q \<and> package_values q = map sort_keys (package_values p)
    \<and> verify_content_hash sha q = verify_content_hash sha p"
proof -
  let ?s = "map (\<lambda>(k, v). (k, sort_keys v)) (to_dict p)"
  have t: "t = dumps (JObj (to_dict p))" using assms(1) by (auto simp: to_json_def)
  have "wf_json frep (JObj (to_dict p))"
    using assms(2) package_fields_distinct
    by (simp add: to_dict_keys) (simp add: to_dict_def package_fields_def package_values_def)
  then have l: "json_loads frep t = Some (JObj (sort_items ?s))" unfolding t by (simp add: json_loads_canonical)
  have s: "?s = zip package_fields (map sort_keys (package_values p))"
    by (simp add: to_dict_def package_fields_def package_values_def)
  have "distinct (map fst ?s)" using package_fields_distinct unfolding s by (simp add: package_values_def package_fields_def)
  then have "from_dict (sort_items ?s) = from_dict ?s" by (intro from_dict_cong map_of_sort_items)
  moreover obtain q where q: "from_dict ?s = Inr q" "package_values q = map sort_keys (package_values p)"
    using from_dict_fields [of "map sort_keys (package_values p)"] unfolding s
    by (auto simp: package_fields_def package_values_def)
  ultimately have "from_json frep t = Inr q" using l by (simp add: from_json_def)
  moreover have "verify_content_hash sha q = verify_content_hash sha p"
    using q(2) by (intro verify_sorted) (simp_all add: package_values_def)
  ultimately show ?thesis using q(2) by blast
qed

text \<open>Export only adds the record of the package, and the package that it returns has a matching hash.\<close>

lemma export_lattice_Inr:
  assumes "export_lattice sha collect sign st e lattice signer = Inr (st', p)"
  shows "td_db st' = td_db st \<and> td_mappings st' = td_mappings st \<and> (\<exists>r. td_packages st' = td_packages st @ [r])
    \<and> tp_lattice_state p = collect (td_db st) lattice \<and> verify_content_hash sha p = Inr True"
  using assms
  by (auto simp: export_lattice_def insert_package_def row_insert_Some verify_content_hash_def Let_def)

text \<open>Successive snapshots of a lattice are numbered: the next one counts those that are stored.\<close>

lemma snapshot_sequence_counts:
  assumes "export_lattice sha collect sign st e lattice signer = Inr (st', p)"
  shows "tp_snapshot_sequence p = JInt (int (length (filter (\<lambda>r. pk_lattice_id r = lattice) (td_packages st'))))"
  using assms by (auto simp: export_lattice_def insert_package_def row_insert_Some Let_def)

definition sample_package :: transfer_package where
  "sample_package =
     \<lparr> tp_schema_version = JStr ''1.0'', tp_package_version = JStr ''1.0'', tp_source_lattice_id = JStr ''l'',
       tp_source_project_id = JStr ''p'', tp_snapshot_sequence = JInt 1, tp_created_at = JStr ''2025'',
       tp_content_hash = JStr ''h'', tp_signature = JStr [], tp_signer_id = JStr ''svc'', tp_trust_status = JStr ''trusted'',
       tp_lattice_state = JObj [(''policies'', JArr [JObj [(''id'', JStr ''x''), (''effect'', JStr ''allow'')]]),
         (''branches'', JArr [JObj [(''name'', JStr ''main''), (''id'', JStr ''b'')]])] \<rparr>"

theorem package_round_trip_witness:
  "\<exists>t q. to_json sample_package = Inr t \<and> from_json (\<lambda>s. s) t = Inr q
     \<and> package_values q = map sort_keys (package_values sample_package)"
proof -
  have "finite_json (JObj (to_dict sample_package))" by code_simp
  then obtain t where t: "to_json sample_package = Inr t" by (auto simp: to_json_def)
  have "list_all (wf_json (\<lambda>s. s)) (package_values sample_package)" by code_simp
  then show ?thesis using package_round_trip [OF t, of "\<lambda>s. s" "\<lambda>s. s"] t by blast
qed

subsection \<open>Rows that an import appends\<close>

definition kept :: "('s \<Rightarrow> 'r list) \<Rightarrow> 's \<Rightarrow> 's \<Rightarrow> bool" where
  "kept tbl d0 d \<longleftrightarrow> (\<exists>rs. tbl d = tbl d0 @ rs)"

definition added :: "('s \<Rightarrow> 'r list) \<Rightarrow> 's \<Rightarrow> 's \<Rightarrow> 'r list" where
  "added tbl d0 d = drop (length (tbl d0)) (tbl d)"

lemma kept_same: "tbl d' = tbl d \<Longrightarrow> kept tbl d0 d' = kept tbl d0 d"
  by (simp add: kept_def)

lemma added_same: "tbl d' = tbl d \<Longrightarrow> added tbl d0 d' = added tbl d0 d"
  by (simp add: added_def)

lemma kept_more: "kept tbl d0 d \<Longrightarrow> tbl d' = tbl d @ [r] \<Longrightarrow> kept tbl d0 d'"
  by (auto simp: kept_def)

lemma added_more: "kept tbl d0 d \<Longrightarrow> tbl d' = tbl d @ [r] \<Longrightarrow> added tbl d0 d' = added tbl d0 d @ [r]"
  by (auto simp: kept_def added_def)

lemma kept_refl [simp]: "kept tbl d d" "added tbl d d = []"
  by (auto simp: kept_def added_def)

text \<open>
  The database is the one before with new rows: new lattices belong to new projects, new branches
  to new lattices, new nodes to new branches, and new policies have the given status.
\<close>

definition forked :: "policy_status \<Rightarrow> db \<Rightarrow> db \<Rightarrow> bool" where
  "forked status d0 d \<longleftrightarrow>
     kept projects d0 d \<and> kept lattices d0 d \<and> kept branches d0 d \<and> kept nodes d0 d \<and> kept edges d0 d
     \<and> kept policies d0 d
     \<and> d\<lparr>projects := projects d0, lattices := lattices d0, branches := branches d0, nodes := nodes d0,
         edges := edges d0, policies := policies d0\<rparr> = d0
     \<and> (\<forall>l \<in> set (added lattices d0 d). l_project_id l \<in> pr_id ` set (added projects d0 d))
     \<and> (\<forall>b \<in> set (added branches d0 d). b_lattice_id b \<in> l_id ` set (added lattices d0 d))
     \<and> (\<forall>n \<in> set (added nodes d0 d). n_branch_id n \<in> b_id ` set (added branches d0 d))
     \<and> (\<forall>q \<in> set (added policies d0 d). p_status (pol_policy q) = status)"

lemma forked_refl [simp]: "forked status d d"
  by (simp add: forked_def)

lemmas tables = kept_same added_same kept_more added_more

lemma open_fork_forked:
  assumes "open_fork sha d e package name = Inr (d', project, lattice, state, bs)"
  shows "forked status d d' \<and> lattice \<in> l_id ` set (added lattices d d')
    \<and> verify_content_hash sha package = Inr True \<and> check_prohibited (tp_lattice_state package) = Inr ()
    \<and> (\<exists>p \<in> set (added projects d d'). pr_id p = project \<and> pr_name p = name)"
  using assms
  by (auto simp: open_fork_def create_project_def create_lattice_def Let_def row_insert_Some forked_def kept_def added_def
      dest!: sym [of _ "Inr _"] split: prod.splits)

lemma create_branch_forked:
  assumes "forked status d0 d" and "create_branch d e lattice name h = Inr (d', r)"
    and "lattice \<in> l_id ` set (added lattices d0 d)"
  shows "forked status d0 d' \<and> lattice \<in> l_id ` set (added lattices d0 d')
    \<and> set (added branches d0 d') = insert r (set (added branches d0 d))"
  using assms by (auto simp: create_branch_def Let_def row_insert_Some forked_def kept_def added_def)

lemma insert_node_forked:
  assumes "forked status d0 d" and "insert_node d e i b agent descr bt md st = Inr (d', r)"
    and "b \<in> b_id ` set (added branches d0 d)"
  shows "forked status d0 d' \<and> added branches d0 d' = added branches d0 d"
  using assms by (auto simp: insert_node_def Let_def row_insert_Some forked_def kept_def added_def)

lemma insert_edge_forked:
  assumes "forked status d0 d" and "insert_edge d e i a b = Inr (d', r)"
  shows "forked status d0 d'"
  using assms by (auto simp: insert_edge_def Let_def row_insert_Some forked_def kept_def added_def)

lemma insert_policy_forked:
  assumes "forked status d0 d" and "insert_policy d e p = Inr (d', r)" and "p_status p = status"
  shows "forked status d0 d'"
  using assms by (auto simp: insert_policy_def Let_def row_insert_Some forked_def kept_def added_def)

subsection \<open>The groups of rows\<close>

definition maps_to_new :: "db \<Rightarrow> db \<Rightarrow> (string \<times> string) list \<Rightarrow> bool" where
  "maps_to_new d0 d m \<longleftrightarrow> snd ` set m \<subseteq> b_id ` set (added branches d0 d)"

lemma dict_put_values: "x \<in> set (dict_put k v m) \<Longrightarrow> snd x = v \<or> snd x \<in> snd ` set m"
  by (induction m) (auto split: if_splits)

lemma dict_put_subset:
  assumes "snd ` set m \<subseteq> B" and "v \<in> B"
  shows "snd ` set (dict_put k v m) \<subseteq> B"
  using assms dict_put_values [of _ k v m] by blast

lemma map_of_value: "map_of m k = Some v \<Longrightarrow> v \<in> snd ` set m"
  by (metis imageI map_of_SomeD snd_conv)

lemma import_branches_forked:
  assumes "import_branches e lattice com d n m vs = (com', r)"
    and "forked status d0 com" and "forked status d0 d"
    and "lattice \<in> l_id ` set (added lattices d0 d)" and "maps_to_new d0 d m"
  shows "forked status d0 com' \<and> (\<forall>d' n' m'. r = Inr (d', n', m') \<longrightarrow> forked status d0 d' \<and> maps_to_new d0 d' m')"
  using assms
proof (induction vs arbitrary: com d n m)
  case Nil
  then show ?case by auto
next
  case (Cons v vs)
  show ?case
  proof (cases "bindE (as_entry v) (\<lambda>b. bindE (text_item b ''id'') (\<lambda>old. bindE (text_item b ''name'') (\<lambda>name.
           bindE (create_branch d (env_from n e) lattice name None) (\<lambda>(d', r). Inr (d', old, b_id r)))))")
    case (Inl err)
    with Cons.prems show ?thesis by (auto simp del: bindE_eq_Inr)
  next
    case (Inr x)
    then obtain d1 old name row where x: "x = (d1, old, b_id row)"
      and 1: "create_branch d (env_from n e) lattice name None = Inr (d1, row)"
      by (auto split: prod.splits)
    note f = create_branch_forked [OF Cons.prems(3) 1 Cons.prems(4)]
    have "maps_to_new d0 d1 (dict_put old (b_id row) m)"
      using Cons.prems(5) f unfolding maps_to_new_def by (intro dict_put_subset) auto
    moreover have "import_branches e lattice d1 d1 (Suc n) (dict_put old (b_id row) m) vs = (com', r)"
      using Cons.prems(1) Inr x by (simp del: bindE_eq_Inr)
    ultimately show ?thesis using Cons.IH f by blast
  qed
qed

lemma import_node_cases:
  assumes "import_node fval e svc bm d new kvs = Inr d'"
  obtains "d' = d"
  | b agent descr bt r where "b \<in> snd ` set bm"
    and "insert_node d e new b agent descr bt (JObj []) Committed = Inr (d', r)"
proof -
  from assms obtain bid where *: "(case map_of bm bid of None \<Rightarrow> Inr d | Some b \<Rightarrow>
         bindE (case svc of Some s \<Rightarrow> if s \<noteq> [] then Inr s else text_or ''imported'' kvs ''agent_id''
                | None \<Rightarrow> text_or ''imported'' kvs ''agent_id'') (\<lambda>agent.
         bindE (text_or ''Imported node'' kvs ''description'') (\<lambda>descr.
         bindE (number_or fval 100 kvs ''bt_planning_budget'') (\<lambda>bt.
         bindE (insert_node d e new b agent descr bt (JObj []) Committed) (\<lambda>(d', _). Inr d'))))) = Inr d'"
    unfolding import_node_def bindE_eq_Inr by blast
  then show thesis
  proof (cases "map_of bm bid")
    case (Some b)
    with * obtain agent descr bt r where "insert_node d e new b agent descr bt (JObj []) Committed = Inr (d', r)"
      by (auto split: prod.splits)
    then show thesis by (rule that(2) [OF map_of_value [OF Some]])
  qed (use that(1) in simp)
qed

lemma import_node_forked:
  assumes "import_node fval e svc bm d new kvs = Inr d'" and "forked status d0 d" and "maps_to_new d0 d bm"
  shows "forked status d0 d' \<and> maps_to_new d0 d' bm"
  using assms(1)
proof (cases rule: import_node_cases)
  case (2 b agent descr bt r)
  then have "b \<in> b_id ` set (added branches d0 d)" using assms(3) unfolding maps_to_new_def by blast
  from insert_node_forked [OF assms(2) 2(2) this] assms(3) show ?thesis by (simp add: maps_to_new_def)
qed (use assms in simp)

lemma import_nodes_forked:
  assumes "import_nodes fval e svc bm d n nm m vs = Inr (d', n', nm', m')"
    and "forked status d0 d" and "maps_to_new d0 d bm"
  shows "forked status d0 d'"
  using assms
proof (induction vs arbitrary: d n nm m)
  case (Cons v vs)
  then obtain kvs old d1 where "import_node fval e svc bm d (ids e n) kvs = Inr d1"
    and "import_nodes fval e svc bm d1 (Suc n) (dict_put old (ids e n) nm) (dict_put old (ids e n) m) vs
         = Inr (d', n', nm', m')" by auto
  then show ?case using Cons.IH import_node_forked Cons.prems(2,3) by blast
qed simp

lemma import_edges_forked:
  assumes "import_edges e nm d n vs = Inr (d', n')" and "forked status d0 d"
  shows "forked status d0 d'"
  using assms
proof (induction vs arbitrary: d n)
  case (Cons v vs)
  then show ?case
    by (auto split: option.splits prod.splits) (metis insert_edge_forked)
qed simp

lemma policy_of_entry_status: "policy_of_entry i svc status kvs = Inr p \<Longrightarrow> p_status p = status"
  by (auto simp: policy_of_entry_def)

lemma import_policies_forked:
  assumes "import_policies e svc status d n m vs = Inr (d', n', m')" and "forked status d0 d"
  shows "forked status d0 d'"
  using assms
proof (induction vs arbitrary: d n m)
  case (Cons v vs)
  then show ?case
    by (auto split: prod.splits) (metis insert_policy_forked policy_of_entry_status)
qed simp

lemma insert_package_Inr:
  "insert_package st r = Inr st' \<Longrightarrow> td_db st' = td_db st \<and> td_mappings st' = td_mappings st
     \<and> td_packages st' = td_packages st @ [r]"
  by (auto simp: insert_package_def row_insert_Some)

lemma import_mappings_keeps: "import_mappings e source package n t m = Inr t' \<Longrightarrow> \<exists>rs. t' = t @ rs"
proof (induction m arbitrary: n t)
  case (Cons x m)
  then show ?case by (cases x) (fastforce simp: row_insert_Some)
qed simp

lemma attempt_cases:
  assumes "attempt com m k = (st, r)"
  obtains err where "m = Inl err" and "st = com" and "r = Inl err"
  | x where "m = Inr x" and "k x = (st, r)"
  using assms by (cases m) (auto simp: attempt_def)

subsection \<open>The properties\<close>

text \<open>The whole state: a forked database, packages and mappings only appended.\<close>

definition import_safe :: "policy_status \<Rightarrow> transfer_db \<Rightarrow> transfer_db \<Rightarrow> bool" where
  "import_safe status st0 st \<longleftrightarrow>
     forked status (td_db st0) (td_db st) \<and> kept td_packages st0 st \<and> kept td_mappings st0 st"

lemma import_safe_db:
  "forked status (td_db st0) d \<Longrightarrow> import_safe status st0 (st0\<lparr>td_db := d\<rparr>)"
  by (simp add: import_safe_def kept_def)

lemma open_fork_unfold:
  assumes "open_fork sha (td_db st) e package name = Inr (d, project, lattice, state, bs)"
  shows "forked status (td_db st) d" and "lattice \<in> l_id ` set (added lattices (td_db st) d)"
    and "verify_content_hash sha package = Inr True" and "check_prohibited (tp_lattice_state package) = Inr ()"
  using open_fork_forked [OF assms] by (auto simp: forked_def)

text \<open>The part after the branches.\<close>

lemma import_rest_safe:
  assumes f: "forked status (td_db st) com" "forked status (td_db st) d" "maps_to_new (td_db st) d bm"
    and status: "status = imported_status trusted_signer trusted_source"
    and run: "attempt (st\<lparr>td_db := com\<rparr>)
           (bindE (entries state ''nodes'') (\<lambda>ns. import_nodes fval e svc bm d n [] bm ns)) (\<lambda>(d, n, nm, m).
         attempt (st\<lparr>td_db := d\<rparr>)
           (bindE (entries state ''edges'') (\<lambda>es. import_edges e nm d n es)) (\<lambda>(d, n).
         attempt (st\<lparr>td_db := d\<rparr>)
           (bindE (entries state ''policies'') (\<lambda>ps.
            bindE (import_policies e svc (imported_status trusted_signer trusted_source) d n m ps)
              (\<lambda>(d, n, m). Inr (d, n, m, length ps)))) (\<lambda>(d, n, m, k).
         attempt (st\<lparr>td_db := d\<rparr>)
           (bindE (import_record e (ids e n) project lattice package trusted_signer) (\<lambda>r.
            bindE (insert_package (st\<lparr>td_db := d\<rparr>) r) (\<lambda>st. Inr (st, r)))) (\<lambda>(st, r).
         attempt st (import_mappings e (pk_source_lattice_id r) (pk_id r) (Suc n) (td_mappings st) m) (\<lambda>t.
           (st\<lparr>td_mappings := t\<rparr>,
            Inr \<lparr> fk_project_id = project, fk_lattice_id = lattice, fk_id_mappings = m, fk_policies_imported = k,
                  fk_policies_active = (if trusted_signer \<and> trusted_source then k else 0) \<rparr>)))))) = (st', r)"
  shows "import_safe status st st'"
  using run
proof (cases rule: attempt_cases)
  case 1
  then show ?thesis using import_safe_db [OF f(1)] by simp
next
  case (2 x)
  then obtain d1 n1 nm m ns where x: "x = (d1, n1, nm, m)"
    and "import_nodes fval e svc bm d n [] bm ns = Inr (d1, n1, nm, m)" by (cases x) auto
  then have f1: "forked status (td_db st) d1" using import_nodes_forked f(2,3) by blast
  from 2(2) [unfolded x prod.case] show ?thesis
  proof (cases rule: attempt_cases)
    case 1
    then show ?thesis using import_safe_db [OF f1] by simp
  next
    case (2 y)
    then obtain d2 n2 es where y: "y = (d2, n2)" and "import_edges e nm d1 n1 es = Inr (d2, n2)" by (cases y) auto
    then have f2: "forked status (td_db st) d2" using import_edges_forked f1 by blast
    from 2(2) [unfolded y prod.case] show ?thesis
    proof (cases rule: attempt_cases)
      case 1
      then show ?thesis using import_safe_db [OF f2] by simp
    next
      case (2 z)
      then obtain d3 n3 m3 k ps where z: "z = (d3, n3, m3, k)"
        and "import_policies e svc status d2 n2 m ps = Inr (d3, n3, m3)" unfolding status by (cases z) auto
      then have f3: "forked status (td_db st) d3" using import_policies_forked f2 by blast
      from 2(2) [unfolded z prod.case] show ?thesis
      proof (cases rule: attempt_cases)
        case 1
        then show ?thesis using import_safe_db [OF f3] by simp
      next
        case (2 w)
        then obtain st4 row where w: "w = (st4, row)" and "insert_package (st\<lparr>td_db := d3\<rparr>) row = Inr st4"
          by (cases w) auto
        note p = insert_package_Inr [OF this(2)]
        then have "import_safe status st st4" using f3 by (simp add: import_safe_def kept_def)
        with 2(2) [unfolded w prod.case] p
          import_mappings_keeps [of e "pk_source_lattice_id row" "pk_id row" "Suc n3" "td_mappings st4" m3]
        show ?thesis
          by (auto simp: import_safe_def kept_def elim!: attempt_cases)
      qed
    qed
  qed
qed

lemma import_as_fork_safe:
  assumes "import_as_fork sha fval st e package name trusted_signer trusted_source svc = (st', r)"
  shows "import_safe (imported_status trusted_signer trusted_source) st st'
    \<and> (st' \<noteq> st \<or> (\<exists>x. r = Inr x) \<longrightarrow>
         verify_content_hash sha package = Inr True \<and> check_prohibited (tp_lattice_state package) = Inr ())"
  using assms unfolding import_as_fork_def
proof (cases rule: attempt_cases)
  case 1
  then show ?thesis by (simp add: import_safe_def)
next
  case (2 x)
  obtain d project lattice state bs where x: "x = (d, project, lattice, state, bs)" by (cases x)
  note o = open_fork_unfold [OF 2(1) [unfolded x]]
  obtain com r1 where b: "import_branches e lattice (td_db st) d 2 [] bs = (com, r1)"
    by (cases "import_branches e lattice (td_db st) d 2 [] bs")
  note f = import_branches_forked [OF b forked_refl o(1,2)]
  show ?thesis
  proof (cases r1)
    case (Inl err)
    with 2(2) x b f o(3,4) show ?thesis by (auto simp: maps_to_new_def intro: import_safe_db)
  next
    case (Inr y)
    then obtain d1 n bm where y: "y = (d1, n, bm)" by (cases y)
    have "forked (imported_status trusted_signer trusted_source) (td_db st) com"
      and "forked (imported_status trusted_signer trusted_source) (td_db st) d1"
      and "maps_to_new (td_db st) d1 bm"
      using f Inr y by (auto simp: maps_to_new_def)
    from import_rest_safe [OF this refl] 2(2) [unfolded x b Inr y prod.case sum.case] o(3,4)
    show ?thesis by blast
  qed
qed

lemma drafts_do_not_act:
  assumes "forked Draft d d'"
  shows "list_active_policies d' = list_active_policies d"
  using assms by (auto simp: forked_def kept_def added_def list_active_policies_def filter_empty_conv)

lemma forked_keeps:
  assumes "forked status d d'"
  shows "set (projects d) \<subseteq> set (projects d')" and "set (lattices d) \<subseteq> set (lattices d')"
    and "set (branches d) \<subseteq> set (branches d')" and "set (nodes d) \<subseteq> set (nodes d')"
    and "set (edges d) \<subseteq> set (edges d')" and "set (policies d) \<subseteq> set (policies d')"
  using assms by (auto simp: forked_def kept_def)

text \<open>C17: An import, also one that raises halfway, only appends: every table of the governance database keeps
  its rows and their order, the tables other than projects, lattices, branches, nodes, edges and policies are as
  before, and every new branch or node belongs to a new lattice. It does so only for a package whose content
  hash matches and which holds none of the prohibited parts. Unless both the signer and the source are
  trusted, the active policies are those from before.\<close>

theorem import_is_a_fork:
  assumes "import_as_fork sha fval st e package name trusted_signer trusted_source svc = (st', r)"
  shows "forked (imported_status trusted_signer trusted_source) (td_db st) (td_db st')
    \<and> kept td_packages st st' \<and> kept td_mappings st st'
    \<and> (st' \<noteq> st \<or> (\<exists>x. r = Inr x) \<longrightarrow>
         verify_content_hash sha package = Inr True \<and> check_prohibited (tp_lattice_state package) = Inr ())
    \<and> (\<not> (trusted_signer \<and> trusted_source) \<longrightarrow>
         list_active_policies (td_db st') = list_active_policies (td_db st))"
  using import_as_fork_safe [OF assms] drafts_do_not_act [of "td_db st" "td_db st'"]
  by (auto simp: import_safe_def imported_status_def split: if_splits)

definition sample_target :: transfer_db where
  "sample_target = \<lparr> td_db = empty_db\<lparr>principals := [\<lparr> pp_id = ''svc'', pp_name = ''service'', pp_type = ''service'',
     pp_machine = None, pp_description = None, pp_status = ''active'', pp_created_at = ''2025'' \<rparr>]\<rparr>,
     td_packages = [], td_mappings = [] \<rparr>"

definition sample_ids :: env where
  "sample_ids = \<lparr> now = ''2025'', ids = (\<lambda>k. ''i'' @ show_nat k) \<rparr>"

definition sample_import :: "transfer_package \<Rightarrow> transfer_db \<times> (ep_error + fork)" where
  "sample_import p = import_as_fork (\<lambda>_. ''h'') (\<lambda>_. 0) sample_target sample_ids p ''fork'' False False (Some ''svc'')"

lemma sample_import_ok:
  "(case sample_import sample_package of (st, r) \<Rightarrow>
      map pr_name (projects (td_db st)) = [''fork''] \<and> map b_lattice_id (branches (td_db st)) = [''i1'']
      \<and> map (\<lambda>q. p_status (pol_policy q)) (policies (td_db st)) = [Draft]
      \<and> r = Inr \<lparr> fk_project_id = ''i0'', fk_lattice_id = ''i1'', fk_id_mappings = [(''b'', ''i2''), (''x'', ''i3'')],
                    fk_policies_imported = 1, fk_policies_active = 0 \<rparr>)"
  by code_simp

theorem import_is_a_fork_witness:
  "\<exists>st. fst (sample_import sample_package) = st \<and> projects (td_db st) \<noteq> [] \<and> policies (td_db st) \<noteq> []
     \<and> forked Draft (td_db sample_target) (td_db st)
     \<and> list_active_policies (td_db st) = list_active_policies (td_db sample_target)"
proof -
  obtain st r where s: "sample_import sample_package = (st, r)" by (cases "sample_import sample_package")
  from import_is_a_fork [OF s [unfolded sample_import_def]] sample_import_ok s show ?thesis
    by (auto simp: imported_status_def)
qed

subsection \<open>What an import does not check\<close>

text \<open>The signature is not part of any check.\<close>

lemma signature_not_checked:
  "open_fork sha d e (package\<lparr>tp_signature := s\<rparr>) name = open_fork sha d e package name"
  by (simp add: open_fork_def verify_content_hash_def)

text \<open>
  A signer that is no principal of the importing database, as the signer of a package from another instance,
  violates the foreign key of the package record: the import raises, with the fork already committed.
\<close>

lemma foreign_signer_leaves_a_fork:
  "(case sample_import (sample_package\<lparr>tp_signer_id := JStr ''other''\<rparr>) of (st, r) \<Rightarrow>
      map pr_name (projects (td_db st)) = [''fork''] \<and> length (policies (td_db st)) = 1
      \<and> td_packages st = [] \<and> td_mappings st = [] \<and> r = Inl IntegrityError)"
  by code_simp

text \<open>The same without the identifier of the service principal, when the package has policies.\<close>

lemma missing_service_principal_leaves_a_fork:
  "(case import_as_fork (\<lambda>_. ''h'') (\<lambda>_. 0) sample_target sample_ids sample_package ''fork'' False False None of (st, r) \<Rightarrow>
      map pr_name (projects (td_db st)) = [''fork''] \<and> policies (td_db st) = [] \<and> r = Inl IntegrityError)"
  by code_simp

text \<open>A policy of scope \<open>project\<close> or \<open>branch\<close> keeps its scope but not the identifier, which the schema refuses.\<close>

lemma scoped_policy_not_imported:
  assumes "policy_of_entry i svc status kvs = Inr p" and "p_scope p \<noteq> Global"
  shows "insert_policy d e p = Inl IntegrityError"
  using assms
  by (cases "p_scope p")
    (auto simp: policy_of_entry_def insert_policy_def scope_consistent_def check_fk_def Let_def requireE_def)

end
