(* ===== verification/Integrity.thy ===== *)
theory Integrity
  imports System Fork
begin

section \<open>The integrity of the database, imports included\<close>

text \<open>
  The runs of the system (\<open>sys_step\<close> of System) together with imports of packages (\<open>import_as_fork\<close> of
  Packages), which commit several times and whose committed rows stay when they raise. An import changes nothing
  that governance rests on, but it inserts the edges of the package without any check: they may form a cycle. The set
  \<open>E\<close> of a run holds the edges that its imports have inserted.
\<close>

inductive db_run :: "(string \<Rightarrow> string) \<Rightarrow> db \<Rightarrow> (string \<times> string) set \<Rightarrow> db \<Rightarrow> bool" for sha where
  Start: "db_run sha d {} d"
| Operation: "db_run sha d E d1 \<Longrightarrow> sys_step sha d1 d2 \<Longrightarrow> db_run sha d E d2"
| Import: "db_run sha d E (td_db st)
     \<Longrightarrow> import_as_fork sha fval st e package name trusted_signer trusted_source svc = (st', r)
     \<Longrightarrow> db_run sha d (E \<union> (edge_rel (td_db st') - edge_rel (td_db st))) (td_db st')"

lemma reach_db_run:
  assumes "reach sha d d'"
  shows "db_run sha d {} d'"
  using assms unfolding reach_def
  by (induction rule: rtranclp_induct) (auto intro: db_run.intros)

subsection \<open>An import is a sequence of insertions\<close>

inductive repo_insert :: "db \<Rightarrow> db \<Rightarrow> bool" where
  Project: "create_project d e a b = Inr (d', r) \<Longrightarrow> repo_insert d d'"
| Lattice: "create_lattice d e a b = Inr (d', r2) \<Longrightarrow> repo_insert d d'"
| Branch: "create_branch d e a b c = Inr (d', r3) \<Longrightarrow> repo_insert d d'"
| Node: "insert_node d e i b ag descr bt md st = Inr (d', r4) \<Longrightarrow> repo_insert d d'"
| Edge: "insert_edge d e i a b = Inr (d', r5) \<Longrightarrow> repo_insert d d'"
| Policy: "insert_policy d e p = Inr (d', r6) \<Longrightarrow> repo_insert d d'"

definition inserts :: "db \<Rightarrow> db \<Rightarrow> bool" where
  "inserts = repo_insert\<^sup>*\<^sup>*"

lemma inserts_refl [simp]: "inserts d d"
  by (simp add: inserts_def)

lemma inserts_one: "repo_insert d d' \<Longrightarrow> inserts d d'"
  by (simp add: inserts_def)

lemma inserts_trans: "inserts d1 d2 \<Longrightarrow> inserts d2 d3 \<Longrightarrow> inserts d1 d3"
  unfolding inserts_def by (rule rtranclp_trans)

lemmas inserts_more = inserts_trans [OF _ inserts_one]

lemma repo_insert_keys:
  assumes "repo_insert d d'" and "keys_ok d"
  shows "keys_ok d'"
  using assms(1)
proof (cases rule: repo_insert.cases)
  case (Edge e i a b r5)
  then show ?thesis using assms(2) by (auto simp: insert_edge_def keys_ok_def Let_def row_insert_Some)
qed (use assms(2) in \<open>auto intro: wf_intros\<close>)

lemma inserts_keys: "inserts d d' \<Longrightarrow> keys_ok d \<Longrightarrow> keys_ok d'"
  unfolding inserts_def by (induction rule: rtranclp_induct) (auto intro: repo_insert_keys)

lemma open_fork_inserts:
  assumes "open_fork sha d e package name = Inr (d', project, lattice, state, bs)"
  shows "inserts d d'"
proof -
  from assms obtain source d1 p l where 1: "create_project d e name (''Forked from '' @ source) = Inr (d1, p)"
    and 2: "create_lattice d1 (env_from 1 e) (pr_id p) ''main'' = Inr (d', l)"
    by (auto simp: open_fork_def split: prod.splits)
  show ?thesis
    by (rule inserts_more [OF inserts_one [OF repo_insert.Project [OF 1]] repo_insert.Lattice [OF 2]])
qed

lemma import_branches_inserts:
  assumes "import_branches e lattice com d n m vs = (com', r)" and "inserts d0 com" and "inserts d0 d"
  shows "inserts d0 com' \<and> (\<forall>d' n' m'. r = Inr (d', n', m') \<longrightarrow> inserts d0 d')"
  using assms
proof (induction vs arbitrary: com d n m)
  case (Cons v vs)
  show ?case
  proof (cases "bindE (as_entry v) (\<lambda>b. bindE (text_item b ''id'') (\<lambda>old. bindE (text_item b ''name'') (\<lambda>name.
           bindE (create_branch d (env_from n e) lattice name None) (\<lambda>(d', r). Inr (d', old, b_id r)))))")
    case (Inl err)
    with Cons.prems show ?thesis by (auto simp del: bindE_eq_Inr)
  next
    case (Inr x)
    then obtain d1 old name row where x: "x = (d1, old, b_id row)"
      and 1: "create_branch d (env_from n e) lattice name None = Inr (d1, row)"
      by (auto split: prod.splits)
    have "inserts d0 d1" by (rule inserts_more [OF Cons.prems(3) repo_insert.Branch [OF 1]])
    moreover have "import_branches e lattice d1 d1 (Suc n) (dict_put old (b_id row) m) vs = (com', r)"
      using Cons.prems(1) Inr x by (simp del: bindE_eq_Inr)
    ultimately show ?thesis using Cons.IH by blast
  qed
qed auto

lemma import_node_inserts: "import_node fval e svc bm d new kvs = Inr d' \<Longrightarrow> inserts d d'"
  by (erule import_node_cases) (auto intro: inserts_one repo_insert.Node)

lemma import_nodes_inserts:
  "import_nodes fval e svc bm d n nm m vs = Inr (d', n', nm', m') \<Longrightarrow> inserts d d'"
proof (induction vs arbitrary: d n nm m)
  case (Cons v vs)
  then obtain kvs old d1 where 1: "import_node fval e svc bm d (ids e n) kvs = Inr d1"
    and "import_nodes fval e svc bm d1 (Suc n) (dict_put old (ids e n) nm) (dict_put old (ids e n) m) vs
         = Inr (d', n', nm', m')" by auto
  then show ?case using Cons.IH inserts_trans [OF import_node_inserts [OF 1]] by blast
qed simp

lemma import_edges_inserts: "import_edges e nm d n vs = Inr (d', n') \<Longrightarrow> inserts d d'"
proof (induction vs arbitrary: d n)
  case (Cons v vs)
  then show ?case
    by (auto split: option.splits prod.splits)
      (metis inserts_trans inserts_one repo_insert.Edge)
qed simp

lemma import_policies_inserts: "import_policies e svc status d n m vs = Inr (d', n', m') \<Longrightarrow> inserts d d'"
proof (induction vs arbitrary: d n m)
  case (Cons v vs)
  then show ?case
    by (auto split: prod.splits) (metis inserts_trans inserts_one repo_insert.Policy)
qed simp

text \<open>The part after the branches.\<close>

lemma import_rest_inserts:
  assumes com: "inserts d0 com" and d: "inserts d0 d"
    and run: "attempt (st\<lparr>td_db := com\<rparr>)
           (bindE (entries state ''nodes'') (\<lambda>ns. import_nodes fval e svc bm d n [] bm ns)) (\<lambda>(d, n, nm, m).
         attempt (st\<lparr>td_db := d\<rparr>)
           (bindE (entries state ''edges'') (\<lambda>es. import_edges e nm d n es)) (\<lambda>(d, n).
         attempt (st\<lparr>td_db := d\<rparr>)
           (bindE (entries state ''policies'') (\<lambda>ps.
            bindE (import_policies e svc (imported_status trusted_signer trusted_source) d n m ps)
              (\<lambda>(d, n, m). Inr (d, n, m, length ps)))) (\<lambda>(d, n, m, k).
         attempt (st\<lparr>td_db := d\<rparr>)
           (bindE (import_record e (ids e n) project lattice package trusted_signer) (\<lambda>r.
            bindE (insert_package (st\<lparr>td_db := d\<rparr>) r) (\<lambda>st. Inr (st, r)))) (\<lambda>(st, r).
         attempt st (import_mappings e (pk_source_lattice_id r) (pk_id r) (Suc n) (td_mappings st) m) (\<lambda>t.
           (st\<lparr>td_mappings := t\<rparr>,
            Inr \<lparr> fk_project_id = project, fk_lattice_id = lattice, fk_id_mappings = m, fk_policies_imported = k,
                  fk_policies_active = (if trusted_signer \<and> trusted_source then k else 0) \<rparr>)))))) = (st', r)"
  shows "inserts d0 (td_db st')"
  using run
proof (cases rule: attempt_cases)
  case (2 x)
  then obtain d1 n1 nm m ns where x: "x = (d1, n1, nm, m)"
    and "import_nodes fval e svc bm d n [] bm ns = Inr (d1, n1, nm, m)" by (cases x) auto
  then have i1: "inserts d0 d1" using import_nodes_inserts inserts_trans [OF d] by blast
  from 2(2) [unfolded x prod.case] show ?thesis
  proof (cases rule: attempt_cases)
    case (2 y)
    then obtain d2 n2 es where y: "y = (d2, n2)" and "import_edges e nm d1 n1 es = Inr (d2, n2)" by (cases y) auto
    then have i2: "inserts d0 d2" using import_edges_inserts inserts_trans [OF i1] by blast
    from 2(2) [unfolded y prod.case] show ?thesis
    proof (cases rule: attempt_cases)
      case (2 z)
      then obtain d3 n3 m3 k ps where z: "z = (d3, n3, m3, k)"
        and "import_policies e svc (imported_status trusted_signer trusted_source) d2 n2 m ps = Inr (d3, n3, m3)"
        by (cases z) auto
      then have i3: "inserts d0 d3" using import_policies_inserts inserts_trans [OF i2] by blast
      from 2(2) [unfolded z prod.case] show ?thesis
      proof (cases rule: attempt_cases)
        case (2 w)
        then obtain st4 row where w: "w = (st4, row)" and "insert_package (st\<lparr>td_db := d3\<rparr>) row = Inr st4"
          by (cases w) auto
        then have "inserts d0 (td_db st4)" using insert_package_Inr i3 by fastforce
        with 2(2) [unfolded w prod.case] show ?thesis by (auto elim!: attempt_cases)
      qed (use i3 in simp)
    qed (use i2 in simp)
  qed (use i1 in simp)
qed (use com in simp)

lemma import_as_fork_inserts:
  assumes "import_as_fork sha fval st e package name trusted_signer trusted_source svc = (st', r)"
  shows "inserts (td_db st) (td_db st')"
  using assms unfolding import_as_fork_def
proof (cases rule: attempt_cases)
  case (2 x)
  obtain d project lattice state bs where x: "x = (d, project, lattice, state, bs)" by (cases x)
  have o: "inserts (td_db st) d" using 2(1) unfolding x by (rule open_fork_inserts)
  obtain com r1 where b: "import_branches e lattice (td_db st) d 2 [] bs = (com, r1)"
    by (cases "import_branches e lattice (td_db st) d 2 [] bs")
  note f = import_branches_inserts [OF b inserts_refl o]
  show ?thesis
  proof (cases r1)
    case (Inl err)
    with 2(2) x b f show ?thesis by auto
  next
    case (Inr y)
    then obtain d1 n bm where y: "y = (d1, n, bm)" by (cases y)
    have "inserts (td_db st) com" "inserts (td_db st) d1" using f Inr y by simp_all
    from import_rest_inserts [OF this 2(2) [unfolded x b Inr y prod.case sum.case]] show ?thesis .
  qed
qed simp

subsection \<open>What an import keeps\<close>

lemma import_frame:
  assumes "import_as_fork sha fval st e package name trusted_signer trusted_source svc = (st', r)"
  shows "transitions (td_db st') = transitions (td_db st)" and "authorizations (td_db st') = authorizations (td_db st)"
    and "approvals (td_db st') = approvals (td_db st)"
    and "events (td_db st') = events (td_db st)" and "heads (td_db st') = heads (td_db st)"
    and "\<exists>ns. nodes (td_db st') = nodes (td_db st) @ ns"
proof -
  let ?old = "td_db st" and ?new = "td_db st'"
  have f: "forked (imported_status trusted_signer trusted_source) ?old ?new"
    using import_as_fork_safe [OF assms] by (simp add: import_safe_def)
  then have eq: "?new\<lparr>projects := projects ?old, lattices := lattices ?old, branches := branches ?old, nodes := nodes ?old,
         edges := edges ?old, policies := policies ?old\<rparr> = ?old" by (simp add: forked_def)
  show "transitions ?new = transitions ?old" using arg_cong [OF eq, of transitions] by simp
  show "authorizations ?new = authorizations ?old" using arg_cong [OF eq, of authorizations] by simp
  show "approvals ?new = approvals ?old" using arg_cong [OF eq, of approvals] by simp
  show "events ?new = events ?old" using arg_cong [OF eq, of events] by simp
  show "heads ?new = heads ?old" using arg_cong [OF eq, of heads] by simp
  show "\<exists>ns. nodes ?new = nodes ?old @ ns" using f by (simp add: forked_def kept_def)
qed

text \<open>Governance does not see an import: the theorems about \<open>sys_step\<close> and \<open>governance\<close> hold with imports in between.\<close>

lemma import_keeps_governance:
  assumes "import_as_fork sha fval st e package name trusted_signer trusted_source svc = (st', r)"
  shows "governance (td_db st') = governance (td_db st)"
  using import_frame [OF assms] by (simp add: governance_def get_transition_def get_authorization_def)

lemma import_intact:
  assumes i: "import_as_fork sha fval st e package name trusted_signer trusted_source svc = (st', r)"
    and d: "intact_apart E sha' (td_db st)"
  shows "intact_apart (E \<union> (edge_rel (td_db st') - edge_rel (td_db st))) sha' (td_db st')"
proof -
  note f = import_frame [OF i]
  obtain ns where ns: "nodes (td_db st') = nodes (td_db st) @ ns" using f(6) by blast
  have "before (map n_id (nodes (td_db st'))) (e_upstream x) (e_downstream x)"
    if "x \<in> set (edges (td_db st'))" "(e_upstream x, e_downstream x) \<in> edge_rel (td_db st)"
      "(e_upstream x, e_downstream x) \<notin> E" for x
  proof -
    from that(2) obtain y where y: "y \<in> set (edges (td_db st))" "e_upstream y = e_upstream x" "e_downstream y = e_downstream x"
      by (auto simp: edge_rel_def)
    have "before (map n_id (nodes (td_db st))) (e_upstream y) (e_downstream y)"
      using d y that(3) by (auto simp: intact_apart_def dag_apart_def)
    then show ?thesis unfolding ns y(2,3) by (simp add: before_append)
  qed
  then have "dag_apart (E \<union> (edge_rel (td_db st') - edge_rel (td_db st))) (td_db st')"
    by (auto simp: dag_apart_def edge_rel_def)
  moreover have "keys_ok (td_db st')"
    using inserts_keys [OF import_as_fork_inserts [OF i]] d by (simp add: intact_apart_def)
  moreover have "chain_ok sha' (td_db st')"
    using d chain_ok_cong [OF f(4,5), of sha'] by (simp add: intact_apart_def)
  ultimately show ?thesis by (simp add: intact_apart_def)
qed

lemma db_run_intact:
  assumes "db_run sha d E d'" and "intact sha d"
  shows "intact_apart E sha d'"
  using assms
  by (induction rule: db_run.induct) (simp_all add: sys_step_intact_apart import_intact)

lemma db_run_gov:
  assumes "db_run sha d E d'" and "intact sha d"
  shows "gov_run (governance d) (governance d')"
  using assms
proof (induction rule: db_run.induct)
  case (Operation d E d1 d2)
  have "keys_ok d1" using db_run_intact [OF Operation(1,4)] by (simp add: intact_apart_def)
  then have "gov_step (governance d1) (governance d2)" using Operation(2) by (rule sys_step_refines)
  with Operation(3,4) show ?case by (simp add: gov_run_def)
next
  case (Import d E st fval e package name trusted_signer trusted_source svc st' r)
  then show ?case by (simp add: import_keeps_governance)
qed (simp add: gov_run_def)

text \<open>C25: the integrity of the database survives every run. From an intact database, whatever operations
  are called, by whom and in whatever order, and whatever packages are imported in between, also when an import raises halfway, the
  primary keys and unique indexes hold, every audit chain verifies, and the graph of realized states has no cycle apart
  from the edges \<open>E\<close> that imports have inserted: without imports (\<open>E = {}\<close>) it is acyclic. With an import it may have a
  cycle (\<open>imported_graph_may_be_cyclic\<close>).\<close>

theorem integrity_is_invariant:
  assumes "db_run sha d E d'" and "intact sha d"
  shows "keys_ok d' \<and> chain_ok sha d' \<and> acyclic (edge_rel d' - E)"
  using db_run_intact [OF assms] dag_apart_acyclic [of E d'] keys_okD(5) by (simp add: intact_apart_def)

theorem integrity_is_invariant_witness:
  "\<exists>d t. get_transition d ''n'' = Some t \<and> t_stage t = Executing \<and> chain_ok sample_sha d \<and> acyclic (edge_rel d)"
proof (rule sample_run_steps, goal_cases)
  case (1 d1 d2 d3 t)
  from integrity_is_invariant [OF reach_db_run [OF 1(1)] sample_fresh_ok(2)] 1(8)
  show ?case by (intro exI [of _ d3]) simp
qed

text \<open>The edges of a package are not checked: this one has an edge in each direction between its two nodes.\<close>

definition cyclic_package :: transfer_package where
  "cyclic_package = sample_package
     \<lparr>tp_lattice_state := JObj [(''branches'', JArr [JObj [(''name'', JStr ''main''), (''id'', JStr ''b'')]]),
        (''nodes'', JArr [JObj [(''id'', JStr ''n1''), (''branch_id'', JStr ''b'')],
                          JObj [(''id'', JStr ''n2''), (''branch_id'', JStr ''b'')]]),
        (''edges'', JArr [JObj [(''upstream_node_id'', JStr ''n1''), (''downstream_node_id'', JStr ''n2'')],
                          JObj [(''upstream_node_id'', JStr ''n2''), (''downstream_node_id'', JStr ''n1'')]])]\<rparr>"

lemma cyclic_package_edges:
  "(case sample_import cyclic_package of (st, r) \<Rightarrow>
      map (\<lambda>x. (e_upstream x, e_downstream x)) (edges (td_db st)) = [(''i3'', ''i4''), (''i4'', ''i3'')] \<and> \<not> isl r)"
  by code_simp

lemma imported_graph_may_be_cyclic:
  "\<exists>st x. sample_import cyclic_package = (st, Inr x) \<and> \<not> acyclic (edge_rel (td_db st))"
proof -
  obtain st r where s: "sample_import cyclic_package = (st, r)" by (cases "sample_import cyclic_package")
  with cyclic_package_edges have e: "map (\<lambda>x. (e_upstream x, e_downstream x)) (edges (td_db st)) = [(''i3'', ''i4''), (''i4'', ''i3'')]"
    and "\<not> isl r" by simp_all
  then obtain x where r: "r = Inr x" by (cases r) simp_all
  have rel: "edge_rel (td_db st) = {(''i3'', ''i4''), (''i4'', ''i3'')}"
    using arg_cong [OF e, of set] by (simp add: edge_rel_def)
  have "(''i3'', ''i3'') \<in> (edge_rel (td_db st))\<^sup>+"
    by (rule trancl_into_trancl [OF r_into_trancl]) (simp_all add: rel)
  then have "\<not> acyclic (edge_rel (td_db st))" by (auto simp: acyclic_def)
  with s r show ?thesis by blast
qed

end
