(* ===== verification/Governed_Commands.thy ===== *)
theory Governed_Commands
  imports Bootstrap
begin

section \<open>No command does anything but its own operation\<close>

text \<open>
  What each command of the command line may do to the rows that govern: to the transitions that exist, to the policies,
  to the role bindings. \<open>does_only\<close> says that a run of a command changed nothing else of them, and
  no command changes an authorization.
\<close>

subsection \<open>What a command may do\<close>

text \<open>To an existing transition: the new stage, by the command and the stage before.\<close>

fun decision :: "db \<Rightarrow> command \<Rightarrow> string \<Rightarrow> transition_row \<Rightarrow> transition_row \<Rightarrow> bool" where
  "decision d (Cli_Approve a reason approver) i t t' \<longleftrightarrow>
     map_option r_transition_id (get_request d a) = Some i \<and> t_stage t = stage.Pending_Approval
     \<and> t_stage t' = Authorized \<and> approver \<noteq> t_agent_id t"
| "decision d (Cli_Deny a reason approver) i t t' \<longleftrightarrow>
     map_option r_transition_id (get_request d a) = Some i \<and> t_stage t = stage.Pending_Approval
     \<and> t_stage t' = Denied \<and> approver \<noteq> t_agent_id t"
| "decision d (Cli_Mark_Uncertain j reason) i t t' \<longleftrightarrow>
     i = j \<and> t_stage t = Executing \<and> t_stage t' = Execution_Uncertain"
| "decision d (Cli_Reconcile j res reason branch) i t t' \<longleftrightarrow>
     i = j \<and> t_stage t = Execution_Uncertain
     \<and> (if res = ''succeeded'' then t_stage t' \<in> {Succeeded, Execution_Uncertain} else t_stage t' = Failed)"
| "decision d (Cli_Expire j reason) i t t' \<longleftrightarrow> i = j \<and> is_legal_transition (t_stage t) Expired \<and> t_stage t' = Expired"
| "decision d (Cli_Cancel j) i t t' \<longleftrightarrow> i = j \<and> cancellable (t_stage t) \<and> t_stage t' = Cancelled"
| "decision d _ i t t' \<longleftrightarrow> False"

fun proposes :: "command \<Rightarrow> bool" where
  "proposes (Cli_Check tool args branch agent) \<longleftrightarrow> True"
| "proposes (Cli_Execute tool args branch agent) \<longleftrightarrow> True"
| "proposes _ \<longleftrightarrow> False"

text \<open>To an existing policy, by the command, the policy before and the policy after.\<close>

fun policy_decision :: "command \<Rightarrow> string \<Rightarrow> policy \<Rightarrow> policy \<Rightarrow> bool" where
  "policy_decision (Cli_Submit_Policy j) i p p' \<longleftrightarrow> i = j \<and> p' = p\<lparr>p_status := policy_status.Pending_Approval\<rparr>"
| "policy_decision (Cli_Approve_Policy j approver) i p p' \<longleftrightarrow>
     i = j \<and> p' = p\<lparr>p_status := Active, p_approved_by := Some approver, p_approved_at := p_approved_at p'\<rparr>"
| "policy_decision (Cli_Retire_Policy j) i p p' \<longleftrightarrow> i = j \<and> p' = p\<lparr>p_status := Retired\<rparr>"
| "policy_decision _ i p p' \<longleftrightarrow> False"

text \<open>To the set of policies: a new one.\<close>

fun policy_creation :: "db \<Rightarrow> command \<Rightarrow> policy \<Rightarrow> bool" where
  "policy_creation d (Cli_Add_Policy eff actions resources sc priority descr) p \<longleftrightarrow>
     p_status p = Draft \<and> p_actions p = actions \<and> p_resources p = resources \<and> effect_of_text eff = Some (p_effect p)"
| "policy_creation d (Cli_Register_Agent name actions) p \<longleftrightarrow>
     p_scope p = Agent \<and> p_effect p = Allow \<and> (\<exists>a. p_agent_scope p = Some a \<and> get_principal d a = None)
     \<and> p_actions p = filter (\<lambda>a. a \<noteq> []) (map strip (split_on (CHR '','') actions))"
| "policy_creation d _ p \<longleftrightarrow> False"

text \<open>To the role bindings: a new one is for the principal that the command names or registers.\<close>

fun binding_creation :: "db \<Rightarrow> command \<Rightarrow> role_binding_row \<Rightarrow> bool" where
  "binding_creation d (Cli_Register_Agent name actions) b \<longleftrightarrow> get_principal d (rb_principal_id b) = None"
| "binding_creation d (Cli_Bootstrap_Admin option token configured who) b \<longleftrightarrow>
     rb_principal_id b = who \<and> \<not> has_administrator d"
| "binding_creation d _ b \<longleftrightarrow> False"

definition does_only :: "db \<Rightarrow> command \<Rightarrow> db \<Rightarrow> bool" where
  "does_only d c d' \<longleftrightarrow> authorizations d' = authorizations d
     \<and> (\<forall>i t. get_transition d i = Some t \<longrightarrow>
          (\<exists>t'. get_transition d' i = Some t' \<and> (t' = t \<or> decision d c i t t')))
     \<and> (\<forall>i. get_transition d i = None \<longrightarrow> get_transition d' i = None \<or> proposes c)
     \<and> (\<forall>i r. get_policy d i = Some r \<longrightarrow>
          (\<exists>r'. get_policy d' i = Some r' \<and> (r' = r \<or> policy_decision c i (pol_policy r) (pol_policy r'))))
     \<and> (\<forall>i r'. get_policy d' i = Some r' \<longrightarrow> get_policy d i = None \<longrightarrow> policy_creation d c (pol_policy r'))
     \<and> (\<forall>b \<in> set (role_bindings d'). b \<in> set (role_bindings d) \<or> binding_creation d c b)"

subsection \<open>Frames\<close>

text \<open>Nothing of all this changes.\<close>

definition unchanged_rows :: "db \<Rightarrow> db \<Rightarrow> bool" where
  "unchanged_rows d d' \<longleftrightarrow> transitions d' = transitions d \<and> authorizations d' = authorizations d
     \<and> policies d' = policies d \<and> role_bindings d' = role_bindings d"

lemma unchanged_does_only: "unchanged_rows d d' \<Longrightarrow> does_only d c d'"
  by (simp add: unchanged_rows_def does_only_def get_transition_def get_policy_def)

lemma does_only_refl [simp]: "does_only d c d"
  by (rule unchanged_does_only) (simp add: unchanged_rows_def)








subsection \<open>Decisions and overrides\<close>











subsection \<open>Proposals\<close>



subsection \<open>Administration\<close>























subsection \<open>All commands\<close>




end
