(* ===== verification/Doubles.thy ===== *)
theory Doubles
  imports Prelude "HOL-Library.Log_Nat"
begin

section \<open>Rounding of float arithmetic\<close>

text \<open>
  A Python float is an IEEE 754 double, here the rational number it stands for. An operation
  on floats returns the exact result rounded to the nearest double, and of two
  equally near ones to the one with an even significand. \<open>to_double\<close> is that rounding, for
  normal and subnormal results; a result beyond the largest double, which Python turns into an
  infinity, is outside this model, and so are infinite and undefined operands.
  \<^item> \<open>round_half_even\<close> rounds to an integer, \<open>round_scaled\<close> to a number of at most 53 significant
    bits, and \<open>to_double\<close> counts in units of the smallest positive double, \<open>2 ^ -1074\<close>.
  \<^item> Rounding is monotone, idempotent and keeps zero; \<open>to_double_exact\<close> and \<open>to_double_rounded\<close>
    evaluate it at concrete numbers.
\<close>

definition round_half_even :: "rat \<Rightarrow> int" where
  "round_half_even x =
     (let n = \<lfloor>x\<rfloor>; r = x - of_int n
      in if r < 1 / 2 \<or> r = 1 / 2 \<and> even n then n else n + 1)"

definition spare_bits :: "rat \<Rightarrow> nat" where
  "spare_bits s = floorlog 2 (nat \<lfloor>s\<rfloor>) - 53"

definition round_scaled :: "rat \<Rightarrow> rat" where
  "round_scaled s = 2 ^ spare_bits s * of_int (round_half_even (s / 2 ^ spare_bits s))"

definition to_double :: "rat \<Rightarrow> rat" where
  "to_double x =
     (if x < 0 then - (round_scaled (- x * 2 ^ 1074) / 2 ^ 1074) else round_scaled (x * 2 ^ 1074) / 2 ^ 1074)"

subsection \<open>Rounding to an integer and to 53 bits\<close>

lemma round_half_even_int [simp]: "round_half_even (of_int n) = n"
  by (simp add: round_half_even_def)

lemma round_half_even_mono:
  assumes "x \<le> y"
  shows "round_half_even x \<le> round_half_even y"
proof (cases "\<lfloor>x\<rfloor> = \<lfloor>y\<rfloor>")
  case True
  then show ?thesis using assms by (auto simp: round_half_even_def Let_def)
next
  case False
  moreover have "\<lfloor>x\<rfloor> \<le> \<lfloor>y\<rfloor>" using assms by (rule floor_mono)
  ultimately have "\<lfloor>x\<rfloor> + 1 \<le> \<lfloor>y\<rfloor>" by simp
  then show ?thesis by (auto simp: round_half_even_def Let_def)
qed

lemma round_scaled_le:
  assumes "s \<le> 2 ^ spare_bits s * of_int k"
  shows "round_scaled s \<le> 2 ^ spare_bits s * of_int k"
proof -
  have "s / 2 ^ spare_bits s \<le> of_int k" using assms by (simp add: field_simps)
  then have "round_half_even (s / 2 ^ spare_bits s) \<le> k"
    using round_half_even_mono [of "s / 2 ^ spare_bits s" "of_int k"] by simp
  then show ?thesis by (simp add: round_scaled_def)
qed

lemma round_scaled_ge:
  assumes "2 ^ spare_bits s * of_int k \<le> s"
  shows "2 ^ spare_bits s * of_int k \<le> round_scaled s"
proof -
  have "of_int k \<le> s / 2 ^ spare_bits s" using assms by (simp add: field_simps)
  then have "k \<le> round_half_even (s / 2 ^ spare_bits s)"
    using round_half_even_mono [of "of_int k" "s / 2 ^ spare_bits s"] by simp
  then show ?thesis by (simp add: round_scaled_def)
qed

lemma spare_bits_mono:
  assumes "s \<le> t"
  shows "spare_bits s \<le> spare_bits t"
  unfolding spare_bits_def using assms by (intro diff_le_mono floorlog_mono nat_mono floor_mono)

lemma less_spare_bits: "s < 2 ^ (spare_bits s + 53)"
proof (cases "1 \<le> s")
  case True
  then have pos: "0 < nat \<lfloor>s\<rfloor>" by simp
  have "nat \<lfloor>s\<rfloor> < 2 ^ floorlog 2 (nat \<lfloor>s\<rfloor>)" using floorlog_bounds [OF pos, of 2] by simp
  also have "(2::nat) ^ floorlog 2 (nat \<lfloor>s\<rfloor>) \<le> 2 ^ (spare_bits s + 53)"
    by (rule power_increasing) (simp_all add: spare_bits_def)
  finally have "\<lfloor>s\<rfloor> < 2 ^ (spare_bits s + 53)" by (simp add: nat_less_iff)
  then have "\<lfloor>s\<rfloor> < \<lfloor>2 ^ (spare_bits s + 53) :: rat\<rfloor>" by (simp add: floor_power)
  then show ?thesis by (meson floor_mono linorder_not_le)
next
  case False
  then have "s < 1" by simp
  also have "(1::rat) \<le> 2 ^ (spare_bits s + 53)" by simp
  finally show ?thesis .
qed

lemma spare_bits_ge:
  assumes "spare_bits s \<noteq> 0"
  shows "2 ^ (spare_bits s + 52) \<le> s"
proof -
  have "2 ^ (floorlog 2 (nat \<lfloor>s\<rfloor>) - 1) \<le> nat \<lfloor>s\<rfloor>"
    using assms floorlog_geD [of "floorlog 2 (nat \<lfloor>s\<rfloor>)" 2 "nat \<lfloor>s\<rfloor>"] by (simp add: spare_bits_def)
  moreover have "floorlog 2 (nat \<lfloor>s\<rfloor>) - 1 = spare_bits s + 52" using assms by (simp add: spare_bits_def)
  ultimately have "2 ^ (spare_bits s + 52) \<le> nat \<lfloor>s\<rfloor>" by simp
  then have "(2::int) ^ (spare_bits s + 52) \<le> \<lfloor>s\<rfloor>" by (simp add: le_nat_iff)
  then show ?thesis by (simp add: le_floor_iff)
qed

lemma round_scaled_mono:
  assumes "s \<le> t"
  shows "round_scaled s \<le> round_scaled t"
proof (cases "spare_bits s = spare_bits t")
  case True
  have "round_half_even (s / 2 ^ spare_bits t) \<le> round_half_even (t / 2 ^ spare_bits t)"
    using assms by (intro round_half_even_mono divide_right_mono) simp_all
  then show ?thesis unfolding round_scaled_def True by simp
next
  case False
  then have less: "spare_bits s < spare_bits t" using spare_bits_mono [OF assms] by simp
  have "s \<le> 2 ^ spare_bits s * of_int (2 ^ 53)"
    using less_spare_bits [of s] by (simp add: power_add mult.commute)
  then have "round_scaled s \<le> 2 ^ spare_bits s * of_int (2 ^ 53)" by (rule round_scaled_le)
  also have "(2::rat) ^ spare_bits s * of_int (2 ^ 53) = 2 ^ (spare_bits s + 53)" by (simp add: power_add)
  also have "(2::rat) ^ (spare_bits s + 53) \<le> 2 ^ (spare_bits t + 52)" using less by (intro power_increasing) simp_all
  also have "(2::rat) ^ (spare_bits t + 52) = 2 ^ spare_bits t * of_int (2 ^ 52)" by (simp add: power_add)
  also have "2 ^ spare_bits t * of_int (2 ^ 52) \<le> round_scaled t"
    using less spare_bits_ge [of t] by (intro round_scaled_ge) (simp add: power_add mult.commute)
  finally show ?thesis .
qed

lemma round_scaled_zero [simp]: "round_scaled 0 = 0"
  by (simp add: round_scaled_def spare_bits_def round_half_even_def)

lemma round_scaled_nonneg:
  assumes "0 \<le> s"
  shows "0 \<le> round_scaled s"
  using round_scaled_mono [OF assms] by simp

lemma round_scaled_cases:
  obtains k :: int where "round_scaled s = 2 ^ spare_bits s * of_int k" and "k \<le> 2 ^ 53"
    and "spare_bits s \<noteq> 0 \<Longrightarrow> 2 ^ 52 \<le> k"
proof
  show "round_scaled s = 2 ^ spare_bits s * of_int (round_half_even (s / 2 ^ spare_bits s))"
    by (simp add: round_scaled_def)
  have "s / 2 ^ spare_bits s \<le> of_int (2 ^ 53)"
    using less_spare_bits [of s] by (simp add: power_add field_simps)
  then show "round_half_even (s / 2 ^ spare_bits s) \<le> 2 ^ 53"
    using round_half_even_mono [of "s / 2 ^ spare_bits s" "of_int (2 ^ 53)"] by (simp only: round_half_even_int)
  assume "spare_bits s \<noteq> 0"
  then have "of_int (2 ^ 52) \<le> s / 2 ^ spare_bits s"
    using spare_bits_ge [of s] by (simp add: power_add field_simps)
  then show "2 ^ 52 \<le> round_half_even (s / 2 ^ spare_bits s)"
    using round_half_even_mono [of "of_int (2 ^ 52)" "s / 2 ^ spare_bits s"] by (simp only: round_half_even_int)
qed

lemma round_scaled_multiple:
  assumes "s = 2 ^ spare_bits s * of_int k"
  shows "round_scaled s = s"
  using assms round_scaled_ge [of s k] round_scaled_le [of s k] by simp

lemma spare_bits_less:
  assumes "s < 2 ^ (n + 53)"
  shows "spare_bits s \<le> n"
proof -
  have "\<lfloor>s\<rfloor> < 2 ^ (n + 53)" using assms by (simp add: floor_less_iff)
  then have "nat \<lfloor>s\<rfloor> < 2 ^ (n + 53)" by (simp add: nat_less_iff)
  then have "floorlog 2 (nat \<lfloor>s\<rfloor>) \<le> n + 53" by (intro floorlog_leI) simp_all
  then show ?thesis by (simp add: spare_bits_def)
qed

lemma round_scaled_idem: "round_scaled (round_scaled s) = round_scaled s"
proof -
  obtain k where k: "round_scaled s = 2 ^ spare_bits s * of_int k" and le: "k \<le> 2 ^ 53"
    by (rule round_scaled_cases)
  show ?thesis
  proof (cases "k = 2 ^ 53")
    case True
    then have r: "round_scaled s = 2 ^ (spare_bits s + 53)" using k by (simp add: power_add)
    have "spare_bits (2 ^ (spare_bits s + 53)) \<le> spare_bits s + 1"
      by (rule spare_bits_less) simp
    then have "\<exists>j. (2::rat) ^ (spare_bits s + 53)
        = 2 ^ spare_bits (2 ^ (spare_bits s + 53)) * of_int j"
      by (intro exI [of _ "2 ^ (spare_bits s + 53 - spare_bits (2 ^ (spare_bits s + 53)))"])
        (simp flip: power_add)
    then show ?thesis unfolding r using round_scaled_multiple by blast
  next
    case False
    then have "k < 2 ^ 53" using le by simp
    then have "(of_int k :: rat) < of_int (2 ^ 53)" by (simp only: of_int_less_iff)
    then have "round_scaled s < 2 ^ spare_bits s * 2 ^ 53" unfolding k by simp
    then have up: "spare_bits (round_scaled s) \<le> spare_bits s"
      by (intro spare_bits_less) (simp add: power_add)
    then obtain n where n: "spare_bits s = spare_bits (round_scaled s) + n"
      using le_Suc_ex by blast
    have "round_scaled s = 2 ^ spare_bits (round_scaled s) * of_int (2 ^ n * k)"
      using k n by (simp add: power_add)
    then show ?thesis by (rule round_scaled_multiple)
  qed
qed

subsection \<open>Rounding to a double\<close>

lemma to_double_zero [simp]: "to_double 0 = 0"
  by (simp add: to_double_def)

lemma to_double_mono:
  assumes "x \<le> y"
  shows "to_double x \<le> to_double y"
proof -
  have *: "0 \<le> round_scaled (z * 2 ^ 1074) / 2 ^ 1074" if "0 \<le> z" for z
    using that by (intro divide_nonneg_pos round_scaled_nonneg mult_nonneg_nonneg) simp_all
  have mono: "round_scaled (a * 2 ^ 1074) / 2 ^ 1074 \<le> round_scaled (b * 2 ^ 1074) / 2 ^ 1074" if "a \<le> b" for a b
    using that by (intro divide_right_mono round_scaled_mono mult_right_mono) simp_all
  consider "y < 0" | "x < 0" "0 \<le> y" | "0 \<le> x" using assms by linarith
  then show ?thesis
  proof cases
    case 1
    then have "x < 0" using assms by simp
    with 1 show ?thesis using mono [of "- y" "- x"] assms by (simp only: to_double_def if_True neg_le_iff_le)
  next
    case 2
    then show ?thesis using * [of "- x"] * [of y] by (simp only: to_double_def if_True if_False not_less [symmetric]) simp
  next
    case 3
    then have "\<not> x < 0" "\<not> y < 0" using assms by simp_all
    then show ?thesis using mono [OF assms] by (simp only: to_double_def if_False)
  qed
qed

lemma to_double_idem: "to_double (to_double x) = to_double x"
proof (cases "x < 0")
  case True
  have p: "(0::rat) < 2 ^ 1074" by (rule zero_less_power) simp
  obtain r where r: "r = round_scaled (- x * 2 ^ 1074)" by blast
  have "0 \<le> r" using True p unfolding r by (intro round_scaled_nonneg mult_nonneg_nonneg) simp_all
  have x: "to_double x = - (r / 2 ^ 1074)" using True unfolding to_double_def r by (simp only: if_True)
  have i: "round_scaled r = r" unfolding r by (rule round_scaled_idem)
  show ?thesis
  proof (cases "r = 0")
    case True
    then show ?thesis unfolding x by simp
  next
    case False
    with \<open>0 \<le> r\<close> have "- (r / 2 ^ 1074) < 0" using p by (simp only: neg_less_0_iff_less) (intro divide_pos_pos, simp_all)
    moreover have "- (- (r / 2 ^ 1074)) * 2 ^ 1074 = r" using p by (simp only: minus_minus) (intro nonzero_divide_eq_eq [THEN iffD1, symmetric], simp_all)
    ultimately show ?thesis unfolding x by (subst to_double_def) (simp only: if_True i)
  qed
next
  case False
  have p: "(0::rat) < 2 ^ 1074" by (rule zero_less_power) simp
  obtain r where r: "r = round_scaled (x * 2 ^ 1074)" by blast
  have "0 \<le> r" using False p unfolding r by (intro round_scaled_nonneg mult_nonneg_nonneg) simp_all
  have x: "to_double x = r / 2 ^ 1074" using False unfolding to_double_def r by (simp only: if_False)
  have i: "round_scaled r = r" unfolding r by (rule round_scaled_idem)
  have "\<not> r / 2 ^ 1074 < 0" using \<open>0 \<le> r\<close> p by (simp only: not_less) (intro divide_nonneg_pos, simp_all)
  moreover have "r / 2 ^ 1074 * 2 ^ 1074 = r" using p by (intro nonzero_divide_eq_eq [THEN iffD1, symmetric]) simp_all
  ultimately show ?thesis unfolding x by (subst to_double_def) (simp only: if_False i)
qed


subsection \<open>Evaluation\<close>

lemma scaled_split:
  fixes x y :: rat
  assumes "m \<le> 1074"
  shows "x * 2 ^ 1074 = (x * 2 ^ m) * 2 ^ (1074 - m)" and "y * 2 ^ (1074 - m) / 2 ^ 1074 = y / 2 ^ m"
proof -
  have p: "(2::rat) ^ 1074 = 2 ^ m * 2 ^ (1074 - m)" using assms by (simp only: power_add [symmetric] le_add_diff_inverse)
  show "x * 2 ^ 1074 = (x * 2 ^ m) * 2 ^ (1074 - m)" unfolding p by (simp only: mult.assoc)
  show "y * 2 ^ (1074 - m) / 2 ^ 1074 = y / 2 ^ m" unfolding p by (rule mult_divide_mult_cancel_right) simp
qed

lemma scaled_nonneg:
  fixes x :: rat
  assumes "0 \<le> x * 2 ^ m"
  shows "\<not> x < 0"
proof
  assume "x < 0"
  then have "x * 2 ^ m < 0" by (intro mult_neg_pos) simp_all
  with assms show False by simp
qed

lemma to_double_exact:
  assumes "m \<le> 1074" and "x * 2 ^ m = of_int k" and "0 \<le> k" and "k < 2 ^ 53"
  shows "to_double x = x"
proof -
  have "0 \<le> x * 2 ^ m" using assms(2,3) by simp
  then have x: "\<not> x < 0" by (rule scaled_nonneg)
  have "(of_int k :: rat) < of_int (2 ^ 53)" using assms(4) by (simp only: of_int_less_iff)
  then have "(of_int k * 2 ^ (1074 - m) :: rat) < 2 ^ 53 * 2 ^ (1074 - m)" by simp
  then have "(of_int k * 2 ^ (1074 - m) :: rat) < 2 ^ ((1074 - m) + 53)" by (simp only: power_add mult.commute)
  then have "spare_bits (of_int k * 2 ^ (1074 - m)) \<le> 1074 - m" by (rule spare_bits_less)
  then obtain n where n: "1074 - m = spare_bits (of_int k * 2 ^ (1074 - m)) + n" using le_Suc_ex by blast
  have "round_scaled (of_int k * 2 ^ (1074 - m)) = of_int k * 2 ^ (1074 - m)"
    by (rule round_scaled_multiple [of _ "2 ^ n * k"])
      (subst (1) n, simp only: power_add of_int_mult of_int_power of_int_numeral ac_simps)
  then have "to_double x = of_int k * 2 ^ (1074 - m) / 2 ^ 1074"
    using x unfolding to_double_def scaled_split(1) [OF assms(1), of x] assms(2) by (simp only: if_False)
  also have "\<dots> = of_int k / 2 ^ m" by (rule scaled_split(2) [OF assms(1)])
  also have "\<dots> = x" unfolding assms(2) [symmetric] by simp
  finally show ?thesis .
qed

lemma to_double_unit:
  assumes "m \<le> 1074" and "2 ^ 52 \<le> x * 2 ^ m" and "x * 2 ^ m < 2 ^ 53"
  shows "to_double x = of_int (round_half_even (x * 2 ^ m)) / 2 ^ m"
proof -
  let ?s = "x * 2 ^ m * 2 ^ (1074 - m)"
  have "0 \<le> x * 2 ^ m" using assms(2) by (rule order_trans [rotated]) simp
  then have x: "\<not> x < 0" by (rule scaled_nonneg)
  have "?s < 2 ^ 53 * 2 ^ (1074 - m)" using assms(3) by (rule mult_strict_right_mono) simp
  then have "?s < 2 ^ ((1074 - m) + 53)" by (simp only: power_add mult.commute)
  then have le: "spare_bits ?s \<le> 1074 - m" by (rule spare_bits_less)
  have "2 ^ 52 * 2 ^ (1074 - m) \<le> ?s" using assms(2) by (rule mult_right_mono) simp
  then have "of_int (2 ^ (52 + (1074 - m))) \<le> ?s" by (simp only: power_add of_int_mult of_int_power of_int_numeral)
  then have "2 ^ (52 + (1074 - m)) \<le> \<lfloor>?s\<rfloor>" by (simp only: le_floor_iff)
  then have "int (2 ^ (52 + (1074 - m))) \<le> \<lfloor>?s\<rfloor>" by (simp only: of_nat_power of_nat_numeral)
  then have "2 ^ (52 + (1074 - m)) \<le> nat \<lfloor>?s\<rfloor>" by (metis nat_int nat_mono)
  then have "53 + (1074 - m) \<le> floorlog 2 (nat \<lfloor>?s\<rfloor>)" by (intro floorlog_geI) simp_all
  then have u: "spare_bits ?s = 1074 - m" using le unfolding spare_bits_def by linarith
  have "?s / 2 ^ (1074 - m) = x * 2 ^ m" by simp
  then have "round_scaled ?s = of_int (round_half_even (x * 2 ^ m)) * 2 ^ (1074 - m)"
    unfolding round_scaled_def u by (simp only: mult.commute)
  then have "to_double x = of_int (round_half_even (x * 2 ^ m)) * 2 ^ (1074 - m) / 2 ^ 1074"
    using x unfolding to_double_def scaled_split(1) [OF assms(1), of x] by (simp only: if_False)
  then show ?thesis unfolding scaled_split(2) [OF assms(1)] .
qed

lemma to_double_rounded:
  assumes "m \<le> 1074" and "x * 2 ^ m = of_int k + r" and "0 \<le> r" and "r < 1" and "2 ^ 52 \<le> k" and "k < 2 ^ 53"
  shows "to_double x = of_int (if r < 1 / 2 \<or> r = 1 / 2 \<and> even k then k else k + 1) / 2 ^ m"
proof -
  have "of_int (2 ^ 52) \<le> (of_int k :: rat)" "(of_int (k + 1) :: rat) \<le> of_int (2 ^ 53)"
    using assms(5,6) by (simp_all only: of_int_le_iff)
  then have "2 ^ 52 \<le> x * 2 ^ m" "x * 2 ^ m < 2 ^ 53" using assms(2-4) by simp_all
  then have "to_double x = of_int (round_half_even (x * 2 ^ m)) / 2 ^ m" by (rule to_double_unit [OF assms(1)])
  moreover have "\<lfloor>x * 2 ^ m\<rfloor> = k" unfolding assms(2) using assms(3,4) by (intro floor_unique) simp_all
  ultimately show ?thesis by (simp add: round_half_even_def assms(2))
qed

text \<open>For example, the doubles nearest to 0.1 and 0.2 add up to the double after the one nearest to 0.3.\<close>

lemma point_one_plus_point_two:
  "to_double (3602879701896397 / 36028797018963968 + 3602879701896397 / 18014398509481984)
   = 5404319552844596 / 18014398509481984"
  using to_double_rounded [of 54 "3602879701896397 / 36028797018963968 + 3602879701896397 / 18014398509481984"
      5404319552844595 "1 / 2"]
  by simp

end
