(* ===== verification/Risk.thy ===== *)
theory Risk
  imports Policies Doubles "HOL-Library.Sublist"
begin

section \<open>Risk assessment (risk.py)\<close>

text \<open>
  The residual risk of an action and the decision derived from it. Risks, credits and
  thresholds are floats: each stands for the rational number it is, and every addition, subtraction
  and multiplication of the code rounds its result (\<open>to_double\<close> of Doubles).
\<close>

datatype risk_domain = Production_Database | External_Communications | Deployment_Domain | Data_Privacy | Security

datatype risk_decision = Deny_Risk | Approve_Risk | Warn_Risk | Allow_Risk

record mitigation =
  mit_evidence_type :: string
  mit_evidence_uri :: string
  mit_evidence_hash :: string
  mit_verified_by :: string
  mit_verified_at :: string
  mit_expires_at :: "string option"
  mit_scope :: string
  mit_credit :: rat

record risk_assessment =
  ra_domain :: risk_domain
  ra_risk_increment :: rat
  ra_inherent_risk :: rat
  ra_mitigation_credit :: rat
  ra_residual_risk :: rat
  ra_threshold :: rat
  ra_decision :: risk_decision
  ra_accepted_by :: "string option"
  ra_accepted_at :: "string option"
  ra_expiration :: "string option"

text \<open>The validation of \<open>Mitigation\<close>: a negative credit is refused.\<close>

definition make_mitigation :: "mitigation \<Rightarrow> ep_error + mitigation" where
  "make_mitigation m = bindE (requireE (0 \<le> mit_credit m) ValueError) (\<lambda>_. Inr m)"

text \<open>\<open>clock\<close> is what \<open>_now_iso\<close> returns; it is used for a missing or an empty \<open>now\<close>.\<close>

definition is_expired :: "string \<Rightarrow> string option \<Rightarrow> string option \<Rightarrow> bool" where
  "is_expired clock now expires_at =
     (case expires_at of
        None \<Rightarrow> False
      | Some x \<Rightarrow>
          rstrip_char (CHR ''Z'') x
          < rstrip_char (CHR ''Z'') (case now of None \<Rightarrow> clock | Some n \<Rightarrow> if n = [] then clock else n))"

fun add_credits :: "string \<Rightarrow> string option \<Rightarrow> rat \<Rightarrow> mitigation list \<Rightarrow> rat" where
  "add_credits clock now credit [] = credit"
| "add_credits clock now credit (m # ms) =
     add_credits clock now (if is_expired clock now (mit_expires_at m) then credit else to_double (credit + mit_credit m)) ms"

text \<open>\<open>warn_bound threshold\<close> is \<open>threshold * 0.8\<close>, with the double nearest to 0.8.\<close>

definition warn_bound :: "rat \<Rightarrow> rat" where
  "warn_bound threshold = to_double (threshold * (3602879701896397 / 4503599627370496))"

definition risk_decision_of :: "rat \<Rightarrow> rat \<Rightarrow> rat \<Rightarrow> risk_decision" where
  "risk_decision_of inherent_risk threshold residual =
     (if 90 \<le> inherent_risk \<and> 80 \<le> residual then Deny_Risk
      else if threshold < residual then Approve_Risk
      else if warn_bound threshold < residual then Warn_Risk
      else Allow_Risk)"

definition assess_risk ::
  "string \<Rightarrow> risk_domain \<Rightarrow> rat \<Rightarrow> rat \<Rightarrow> mitigation list \<Rightarrow> rat \<Rightarrow> string option \<Rightarrow> risk_assessment" where
  "assess_risk clock domain inherent_risk threshold mitigations risk_increment now =
     (let credit = add_credits clock now 0 mitigations;
          residual = max 0 (to_double (to_double (inherent_risk + risk_increment) - credit))
      in \<lparr> ra_domain = domain, ra_risk_increment = risk_increment, ra_inherent_risk = inherent_risk,
           ra_mitigation_credit = credit, ra_residual_risk = residual, ra_threshold = threshold,
           ra_decision = risk_decision_of inherent_risk threshold residual,
           ra_accepted_by = None, ra_accepted_at = None, ra_expiration = None \<rparr>)"

subsection \<open>Decisions in order of severity\<close>

fun risk_severity :: "risk_decision \<Rightarrow> nat" where
  "risk_severity Deny_Risk = 3"
| "risk_severity Approve_Risk = 2"
| "risk_severity Warn_Risk = 1"
| "risk_severity Allow_Risk = 0"

instantiation risk_decision :: linorder
begin

definition less_eq_risk_decision :: "risk_decision \<Rightarrow> risk_decision \<Rightarrow> bool" where
  "less_eq_risk_decision a b \<longleftrightarrow> risk_severity a \<le> risk_severity b"

definition less_risk_decision :: "risk_decision \<Rightarrow> risk_decision \<Rightarrow> bool" where
  "less_risk_decision a b \<longleftrightarrow> risk_severity a < risk_severity b"

instance
proof
  fix a b :: risk_decision
  show "a \<le> b \<Longrightarrow> b \<le> a \<Longrightarrow> a = b"
    unfolding less_eq_risk_decision_def by (cases a; cases b) simp_all
qed (auto simp: less_eq_risk_decision_def less_risk_decision_def)

end

lemma risk_decision_of_mono:
  assumes "r \<le> r'"
  shows "risk_decision_of i t r \<le> risk_decision_of i t r'"
  using assms by (auto simp: risk_decision_of_def less_eq_risk_decision_def)

lemma add_credits_mono:
  assumes "c \<le> c'"
  shows "add_credits clock now c ms \<le> add_credits clock now c' ms"
  using assms by (induction ms arbitrary: c c') (simp_all add: to_double_mono)

text \<open>An additional credit never lowers the total: a sum that starts from a double stays above it.\<close>

lemma add_credits_subseq:
  assumes "subseq ms ms'" and "\<forall>m \<in> set ms'. make_mitigation m = Inr m" and "c \<le> c'" and "to_double c' = c'"
  shows "add_credits clock now c ms \<le> add_credits clock now c' ms'"
  using assms
proof (induction arbitrary: c c')
  case (list_emb_Nil ys)
  then show ?case
  proof (induction ys arbitrary: c')
    case (Cons y ys)
    have "0 \<le> mit_credit y" using Cons.prems(1) by (simp add: make_mitigation_def)
    then have "c' \<le> to_double (c' + mit_credit y)"
      using to_double_mono [of c' "c' + mit_credit y"] Cons.prems(3) by simp
    then have "c \<le> to_double (c' + mit_credit y)" using Cons.prems(2) by simp
    then show ?case using Cons by (simp add: to_double_idem)
  qed simp
next
  case (list_emb_Cons xs ys y)
  have "0 \<le> mit_credit y" using list_emb_Cons.prems(1) by (simp add: make_mitigation_def)
  then have "c' \<le> to_double (c' + mit_credit y)"
    using to_double_mono [of c' "c' + mit_credit y"] list_emb_Cons.prems(3) by simp
  then have "c \<le> to_double (c' + mit_credit y)" using list_emb_Cons.prems(2) by simp
  then show ?case using list_emb_Cons by (simp add: to_double_idem)
next
  case (list_emb_Cons2 x y xs ys)
  have "to_double (c + mit_credit x) \<le> to_double (c' + mit_credit x)"
    using list_emb_Cons2.prems(2) by (intro to_double_mono) simp
  then show ?case using list_emb_Cons2 by (simp add: to_double_idem)
qed

text \<open>C19: More mitigations, with the order of the others kept, never lower the credit, never raise the
  residual risk and never make the decision more severe; expired mitigations change nothing; and
  an action whose residual risk exceeds the threshold is never just allowed: it needs an
  approval or, for a high inherent risk, is denied. All sums are those of the code, with every
  operation rounded to a double.\<close>

theorem mitigation_never_escalates:
  assumes "subseq ms ms'" and "\<forall>m \<in> set ms'. make_mitigation m = Inr m"
  shows "ra_mitigation_credit (assess_risk clock area i t ms inc now) \<le> ra_mitigation_credit (assess_risk clock area i t ms' inc now)
    \<and> ra_residual_risk (assess_risk clock area i t ms' inc now) \<le> ra_residual_risk (assess_risk clock area i t ms inc now)
    \<and> ra_decision (assess_risk clock area i t ms' inc now) \<le> ra_decision (assess_risk clock area i t ms inc now)
    \<and> assess_risk clock area i t ms inc now
      = assess_risk clock area i t (filter (\<lambda>m. \<not> is_expired clock now (mit_expires_at m)) ms) inc now
    \<and> (t < ra_residual_risk (assess_risk clock area i t ms inc now)
       \<longrightarrow> Approve_Risk \<le> ra_decision (assess_risk clock area i t ms inc now))"
proof -
  have expired: "add_credits clock now c (filter (\<lambda>m. \<not> is_expired clock now (mit_expires_at m)) ms)
        = add_credits clock now c ms" for c
    by (induction ms arbitrary: c) simp_all
  have credit: "add_credits clock now 0 ms \<le> add_credits clock now 0 ms'"
    using assms by (rule add_credits_subseq) simp_all
  then have residual: "max 0 (to_double (to_double (i + inc) - add_credits clock now 0 ms'))
      \<le> max 0 (to_double (to_double (i + inc) - add_credits clock now 0 ms))"
    by (intro max.mono to_double_mono) simp_all
  show ?thesis
    using credit residual risk_decision_of_mono [OF residual, of i t] expired
    by (auto simp: assess_risk_def Let_def risk_decision_of_def less_eq_risk_decision_def)
qed

definition sample_mitigation :: "string option \<Rightarrow> rat \<Rightarrow> mitigation" where
  "sample_mitigation expires credit =
     \<lparr> mit_evidence_type = ''test_result'', mit_evidence_uri = ''u'', mit_evidence_hash = ''h'', mit_verified_by = ''v'',
       mit_verified_at = ''2025-01-01T00:00:00Z'', mit_expires_at = expires, mit_scope = ''global'', mit_credit = credit \<rparr>"

lemma sample_doubles:
  "to_double 30 = 30" "to_double 40 = 40" "to_double 70 = 70" "warn_bound 60 = 48"
  using to_double_exact [of 0 30 30] to_double_exact [of 0 40 40] to_double_exact [of 0 70 70]
    to_double_rounded [of 47 "60 * (3602879701896397 / 4503599627370496)" 6755399441055744 "3 / 8"]
  by (simp_all add: warn_bound_def)

text \<open>A credit of 30 brings a risk of 70 below the threshold of 60; an expired one does not.\<close>

lemma sample_assessments:
  "ra_decision (assess_risk ''2026'' Security 70 60 [sample_mitigation None 30] 0 None) = Allow_Risk"
  "ra_decision (assess_risk ''2026'' Security 70 60 [sample_mitigation (Some ''2025'') 30] 0 None) = Approve_Risk"
  by (simp_all add: assess_risk_def sample_mitigation_def is_expired_def rstrip_char_def risk_decision_of_def Let_def
      sample_doubles)

theorem mitigation_never_escalates_witness:
  "ra_decision (assess_risk ''2026'' Security 70 60 [sample_mitigation (Some ''2025'') 30, sample_mitigation None 30] 0 None)
   \<le> ra_decision (assess_risk ''2026'' Security 70 60 [sample_mitigation (Some ''2025'') 30] 0 None)
   \<and> ra_decision (assess_risk ''2026'' Security 70 60 [sample_mitigation (Some ''2025'') 30] 0 None) = Approve_Risk"
proof -
  have sub: "subseq [sample_mitigation (Some ''2025'') 30]
        [sample_mitigation (Some ''2025'') 30, sample_mitigation None 30]" by simp
  have ok: "\<forall>m \<in> set [sample_mitigation (Some ''2025'') 30, sample_mitigation None 30]. make_mitigation m = Inr m"
    by (simp add: make_mitigation_def sample_mitigation_def)
  show ?thesis
    using conjunct1 [OF conjunct2 [OF conjunct2 [OF mitigation_never_escalates [OF sub ok]]]] sample_assessments(2)
    by (rule conjI)
qed

subsection \<open>The order of the credits\<close>

text \<open>
  Addition of floats is not associative, so the order of the mitigations can decide: the credits
  0.1, 0.2 and 0.3 add up to 0.6000000000000001 in this order and to 0.6 in the reverse one, and a
  risk of 0.6000000000000001 with the threshold 0 is allowed for the first and needs an approval for the second.
\<close>

abbreviation tenth :: rat where "tenth \<equiv> 3602879701896397 / 36028797018963968"
abbreviation fifth :: rat where "fifth \<equiv> 3602879701896397 / 18014398509481984"
abbreviation three_tenths :: rat where "three_tenths \<equiv> 5404319552844595 / 18014398509481984"
abbreviation six_tenths_up :: rat where "six_tenths_up \<equiv> 1351079888211149 / 2251799813685248"

lemma credit_doubles:
  "to_double tenth = tenth" "to_double three_tenths = three_tenths" "to_double six_tenths_up = six_tenths_up"
  "to_double (10808639105689191 / 36028797018963968) = 1351079888211149 / 4503599627370496"
  "to_double (10808639105689191 / 18014398509481984) = six_tenths_up"
  "to_double (1 / 2) = 1 / 2"
  "to_double (21617278211378381 / 36028797018963968) = 5404319552844595 / 9007199254740992"
  "to_double (1 / 9007199254740992) = 1 / 9007199254740992"
  using to_double_exact [of 55 tenth 3602879701896397] to_double_exact [of 54 three_tenths 5404319552844595]
    to_double_exact [of 51 six_tenths_up 1351079888211149]
    to_double_rounded [of 54 "10808639105689191 / 36028797018963968" 5404319552844595 "1 / 2"]
    to_double_rounded [of 53 "10808639105689191 / 18014398509481984" 5404319552844595 "1 / 2"]
    to_double_exact [of 1 "1 / 2" 1]
    to_double_rounded [of 53 "21617278211378381 / 36028797018963968" 5404319552844595 "1 / 4"]
    to_double_exact [of 53 "1 / 9007199254740992" 1]
  by simp_all

lemma order_of_credits_decides:
  "ra_decision (assess_risk ''2026'' Security six_tenths_up 0 (map (sample_mitigation None) [tenth, fifth, three_tenths]) 0 None)
   = Allow_Risk"
  "ra_decision (assess_risk ''2026'' Security six_tenths_up 0 (map (sample_mitigation None) [three_tenths, fifth, tenth]) 0 None)
   = Approve_Risk"
  by (simp_all add: assess_risk_def sample_mitigation_def is_expired_def risk_decision_of_def warn_bound_def Let_def
      credit_doubles)

subsection \<open>The boundaries\<close>

text \<open>A high residual risk alone is not denied: an inherent risk below 90 asks for an approval.\<close>

lemma high_residual_needs_approval:
  assumes "i < 90" and "t < r"
  shows "risk_decision_of i t r = Approve_Risk"
  using assms by (simp add: risk_decision_of_def)

end
