(* ===== verification/Adapters.thy ===== *)
theory Adapters
  imports Proxy Config Resources
begin

section \<open>The adapters of the governed proxies (proxy/*_proxy.py)\<close>

text \<open>
  \<open>_validate_adapter_payload\<close> and \<open>_execute_adapter\<close> of each proxy, as the arguments that
  \<open>Proxy.execute\<close> takes. Each adapter is split where the source does its side effect: the
  decision (\<open>pg_prepare\<close>, \<open>shell_prepare\<close>, \<open>git_prepare\<close>) either raises, refuses with a summary, or
  yields what is sent outside, and the adapter turns the answer into an execution result. What
  answers (the target database, the operating system) is an argument. The Docker, file, HTTP and
  e-mail adapters of the source are stubs: they send nothing. The times in a result are left out.
\<close>

datatype 'q decision = Refuse string | Send 'q

fun is_send :: "ep_error + 'q decision \<Rightarrow> bool" where
  "is_send (Inr (Send q)) = True"
| "is_send _ = False"

definition refused :: "string \<Rightarrow> adapter_outcome" where
  "refused summary = Returned (failure [] summary)"

text \<open>\<open>token.tool.lower()\<close>.\<close>

definition tool_of :: "(string \<times> json) list \<Rightarrow> ep_error + string" where
  "tool_of tok = (case field tok ''tool'' of JStr tool \<Rightarrow> Inr (lower tool) | _ \<Rightarrow> Inl AttributeError)"

definition upper_char :: "char \<Rightarrow> char" where
  "upper_char c = (let n = (of_char c :: nat) in if 97 \<le> n \<and> n \<le> 122 then char_of (n - 32) else c)"

subsection \<open>Output: redaction and the size limit (proxy/base.py)\<close>

definition secret_words :: "string list" where
  "secret_words = [''password'', ''passwd'', ''pwd'', ''secret'', ''token'', ''key'']"

text \<open>A match of \<open>(password|...)[=:]\s*\S+\<close> at the start of the text: the matched word and the rest.\<close>

definition secret_value :: "string \<Rightarrow> string option" where
  "secret_value s =
     (case s of [] \<Rightarrow> None
      | c # r \<Rightarrow>
          (if c = CHR ''='' \<or> c = CHR '':'' then
             (let v = dropWhile py_space r in
              if v = [] then None else Some (dropWhile (\<lambda>c. \<not> py_space c) v))
           else None))"

definition secret_at :: "string \<Rightarrow> (string \<times> string) option" where
  "secret_at s =
     (case find (\<lambda>w. starts_with w (lower s)) secret_words of
        None \<Rightarrow> None
      | Some w \<Rightarrow> map_option (\<lambda>r. (take (length w) s, r)) (secret_value (drop (length w) s)))"

lemma secret_value_length: "secret_value s = Some r \<Longrightarrow> length r < length s"
  by (auto simp: secret_value_def Let_def less_Suc_eq_le split: list.splits if_splits
      intro: order_trans [OF length_dropWhile_le length_dropWhile_le])

lemma secret_at_length: "secret_at s = Some (w, r) \<Longrightarrow> length r < length s"
  by (auto simp: secret_at_def split: option.splits dest!: secret_value_length)

function redact :: "string \<Rightarrow> string" where
  "redact [] = []"
| "redact (c # s) =
     (case secret_at (c # s) of
        Some (w, r) \<Rightarrow> w @ ''=***REDACTED***'' @ redact r
      | None \<Rightarrow> c # redact s)"
  by pat_completeness auto
termination
  by (relation "measure length") (auto dest: secret_at_length)

definition enforce_output_limit :: "nat \<Rightarrow> string \<Rightarrow> string" where
  "enforce_output_limit max_bytes s =
     (if length s > max_bytes then take max_bytes s @ CHR 0x0A # ''... [TRUNCATED]'' else s)"

subsection \<open>PostgreSQL\<close>

record proxy_config =
  pc_target :: string
  pc_timeout_seconds :: nat
  pc_max_output_bytes :: nat
  pc_targets :: "(string \<times> string) list option"

text \<open>What is sent to a target: its connection string and the statements, the last being the SQL of
  the payload. The rows of the answer are the texts of its row dictionaries.\<close>

record sql_request =
  rq_url :: string
  rq_operation :: string
  rq_statements :: "string list"

datatype sql_response = No_Engine | Sql_Failed | Answered "string list" int

definition allowed_sql :: "string list" where
  "allowed_sql = [''select'', ''insert'', ''update'', ''delete'']"

definition ddl_sql :: "string list" where
  "ddl_sql = [''create'', ''alter'', ''drop'']"

definition forbidden_sql :: "string list" where
  "forbidden_sql = [''truncate'', ''grant'', ''revoke'', ''vacuum'']"

definition operation_of :: "classification \<Rightarrow> string" where
  "operation_of c = lower (last_part (action_type c))"

definition classified_sql :: "sqlglot_lib \<Rightarrow> (string \<times> json) list \<Rightarrow> ep_error + classification decision" where
  "classified_sql sqlglot payload =
     (if first_truthy payload [''sql'', ''query'', ''statement''] = None
      then Inr (Refuse ''No SQL statement in payload'')
      else (case classify_sql sqlglot payload of
              Inl err \<Rightarrow> (if caught_by ClassificationError err then Inr (Refuse ''Classification failed'') else Inl err)
            | Inr c \<Rightarrow>
                (if opaque c then Inr (Refuse ''SQL classification is opaque'')
                 else if operation_of c \<in> set forbidden_sql
                   then Inr (Refuse (''Operation '' @ operation_of c @ '' is forbidden by the proxy''))
                 else Inr (Send c))))"

definition pg_validate ::
  "sqlglot_lib \<Rightarrow> (string \<times> json) list \<Rightarrow> (string \<times> json) list \<Rightarrow> ep_error + string option" where
  "pg_validate sqlglot payload tok =
     bindE (classified_sql sqlglot payload) (\<lambda>r.
       Inr (case r of Refuse m \<Rightarrow> Some m | Send c \<Rightarrow> None))"

text \<open>\<open>_resolve_target_engine\<close>. A list or an object cannot be looked up in a dictionary.\<close>

definition resolve_target :: "proxy_config \<Rightarrow> (string \<times> json) list \<Rightarrow> ep_error + string option" where
  "resolve_target cfg payload =
     (case pc_targets cfg of
        None \<Rightarrow> Inr (Some (pc_target cfg))
      | Some [] \<Rightarrow> Inr (Some (pc_target cfg))
      | Some targets \<Rightarrow>
          (case first_truthy payload [''database''] of
             None \<Rightarrow> Inr (if pc_target cfg \<noteq> [] then Some (pc_target cfg) else None)
           | Some (JStr database) \<Rightarrow> Inr (map_of targets database)
           | Some (JArr _) \<Rightarrow> Inl TypeError
           | Some (JObj _) \<Rightarrow> Inl TypeError
           | Some _ \<Rightarrow> Inr None))"

text \<open>A SQLite target gets no time limits.\<close>

definition pg_statements :: "proxy_config \<Rightarrow> dialect \<Rightarrow> string \<Rightarrow> string list" where
  "pg_statements cfg dl sql =
     (if dl \<noteq> Sqlite
      then [''SET LOCAL statement_timeout = '' @ CHR 0x27 # show_nat (pc_timeout_seconds cfg * 1000) @ ''ms'' @ [CHR 0x27],
            ''SET LOCAL lock_timeout = '' @ CHR 0x27 # ''5s'' @ [CHR 0x27]]
      else []) @ [sql]"

text \<open>A DDL statement needs a token whose tool names DDL or the very operation.\<close>

definition sql_authorized :: "(string \<times> json) list \<Rightarrow> string \<Rightarrow> ep_error + bool" where
  "sql_authorized tok operation =
     (if operation \<in> set ddl_sql
      then bindE (tool_of tok) (\<lambda>tool. Inr (contains ''ddl'' tool \<or> contains operation tool))
      else Inr True)"

definition send_sql ::
  "proxy_config \<Rightarrow> (string \<times> json) list \<Rightarrow> string \<Rightarrow> string option \<Rightarrow> ep_error + sql_request decision" where
  "send_sql cfg payload operation target =
     (case target of
        None \<Rightarrow> Inr (Refuse (if first_truthy payload [''database''] \<noteq> None
                            then ''Database is not configured as a proxy target''
                            else ''No target database available for execution''))
      | Some target_url \<Rightarrow>
          bindE (create_engine target_url) (\<lambda>(dl, url).
          bindE (text_argument payload [''sql'', ''query'', ''statement'']) (\<lambda>sql.
            Inr (Send \<lparr> rq_url = url, rq_operation = operation, rq_statements = pg_statements cfg dl sql \<rparr>))))"

definition pg_prepare ::
  "sqlglot_lib \<Rightarrow> proxy_config \<Rightarrow> (string \<times> json) list \<Rightarrow> (string \<times> json) list
   \<Rightarrow> ep_error + sql_request decision" where
  "pg_prepare sqlglot cfg payload tok =
     bindE (classified_sql sqlglot payload) (\<lambda>r.
     (case r of
        Refuse m \<Rightarrow> Inr (Refuse m)
      | Send c \<Rightarrow>
     (let operation = operation_of c in
      if operation \<notin> set (ddl_sql @ allowed_sql)
      then Inr (Refuse (''Operation '' @ operation @ '' is not in the allowed SQL subset''))
      else bindE (sql_authorized tok operation) (\<lambda>authorized.
      if \<not> authorized then Inr (Refuse (''DDL operation '' @ operation @ '' was not authorized''))
      else bindE (resolve_target cfg payload) (send_sql cfg payload operation)))))"

definition pg_result :: "proxy_config \<Rightarrow> sql_request \<Rightarrow> sql_response \<Rightarrow> adapter_outcome" where
  "pg_result cfg q response =
     (case response of
        No_Engine \<Rightarrow> Raised
      | Sql_Failed \<Rightarrow> refused ''SQL execution failed (check internal logs for details)''
      | Answered rows rowcount \<Rightarrow>
          Returned (if rq_operation q = ''select'' then
              (let fetched = take 1000 rows; n = length fetched in
               \<lparr> x_success = True, x_exit_status = ''success'',
                 x_summary = ''SELECT returned '' @ show_nat n @ '' rows'', x_attempt_id = [], x_rows = int n,
                 x_output = Some (enforce_output_limit (pc_max_output_bytes cfg)
                                    (redact (''['' @ join '', '' fetched @ '']''))) \<rparr>)
            else
              \<lparr> x_success = True, x_exit_status = ''success'',
                x_summary = map upper_char (rq_operation q) @ '' affected '' @ show_int rowcount @ '' rows'',
                x_attempt_id = [], x_rows = rowcount, x_output = None \<rparr>))"

definition pg_adapter ::
  "sqlglot_lib \<Rightarrow> proxy_config \<Rightarrow> (sql_request \<Rightarrow> sql_response)
   \<Rightarrow> (string \<times> json) list \<Rightarrow> (string \<times> json) list \<Rightarrow> string \<Rightarrow> adapter_outcome" where
  "pg_adapter sqlglot cfg target payload tok attempt =
     (case pg_prepare sqlglot cfg payload tok of
        Inl err \<Rightarrow> Raised
      | Inr (Refuse m) \<Rightarrow> refused m
      | Inr (Send q) \<Rightarrow> pg_result cfg q (target q))"

subsection \<open>Processes\<close>

text \<open>What \<open>subprocess.run\<close> gives: the exit code with the two outputs, a timeout, or an exception.\<close>

datatype process = Exited int string string | Expired | Not_Started string

definition process_output :: "string \<Rightarrow> string \<Rightarrow> string" where
  "process_output out err =
     (if err = [] then out
      else if out = [] then err
      else out @ CHR 0x0A # ''[stderr]'' @ CHR 0x0A # err)"

definition process_result :: "string \<Rightarrow> string \<Rightarrow> process \<Rightarrow> adapter_outcome" where
  "process_result name error p =
     Returned (case p of
        Exited code out err \<Rightarrow>
          \<lparr> x_success = (code = 0), x_exit_status = (if code = 0 then ''success'' else ''failure''),
            x_summary = name @ '' exited with code '' @ show_int code, x_attempt_id = [], x_rows = 0,
            x_output = Some (process_output out err) \<rparr>
      | Expired \<Rightarrow> (failure [] (name @ '' timed out''))\<lparr>x_exit_status := ''timeout''\<rparr>
      | Not_Started m \<Rightarrow> failure [] (error @ m))"

subsection \<open>Shell\<close>

definition safe_commands :: "string list" where
  "safe_commands = [''ls'', ''cat'', ''echo'', ''pwd'', ''whoami'', ''date'', ''uptime'', ''hostname'', ''df'', ''du'',
     ''free'', ''top'', ''ps'', ''head'', ''tail'', ''wc'', ''sort'', ''uniq'', ''grep'', ''find'', ''which'', ''env'']"

definition proxy_words_any_case :: "string list" where
  "proxy_words_any_case = [''eval'', ''exec'', ''python'', ''perl'', ''ruby'', ''node'', ''wget'', ''curl'', ''chmod'',
     ''chown'', ''mkfs'', ''dd'', ''sudo'', ''su'', ''pip'', ''apt'', ''yum'', ''brew'', ''base64'', ''openssl'',
     ''kill'', ''pkill'', ''reboot'', ''shutdown'']"

definition proxy_words_exact :: "string list" where
  "proxy_words_exact = [''sh'', ''bash'', ''rm'', ''mv'', ''cp'', ''nc'', ''netcat'']"

definition proxy_dangerous :: "string \<Rightarrow> bool" where
  "proxy_dangerous command \<longleftrightarrow>
     contains ''$('' command \<or> CHR 0x60 \<in> set command
     \<or> list_ex (\<lambda>w. has_word w (lower command)) proxy_words_any_case
     \<or> list_ex (\<lambda>w. has_word w command) proxy_words_exact"

definition shell_prepare :: "(string \<times> json) list \<Rightarrow> ep_error + string list decision" where
  "shell_prepare payload =
     (if first_truthy payload [''command'', ''cmd'', ''script''] = None then Inr (Refuse ''No command in payload'')
      else (case classify_shell payload of
              Inl err \<Rightarrow> (if caught_by ClassificationError err
                         then Inr (Refuse ''Shell classification failed'') else Inl err)
            | Inr c \<Rightarrow>
     (if opaque c then Inr (Refuse ''Shell command is opaque'')
      else bindE (text_argument payload [''command'', ''cmd'', ''script'']) (\<lambda>command.
     (case shlex_split command of
        None \<Rightarrow> Inr (Refuse ''Shell command parsing failed'')
      | Some [] \<Rightarrow> Inr (Refuse ''Empty shell command'')
      | Some (executable # args) \<Rightarrow>
          (if executable \<notin> set safe_commands
           then Inr (Refuse (''Command '' @ executable @ '' is not in the safe commands list''))
           else if proxy_dangerous command then Inr (Refuse ''Command contains dangerous pattern'')
           else Inr (Send (executable # args))))))))"

definition shell_adapter ::
  "(string list \<Rightarrow> process) \<Rightarrow> (string \<times> json) list \<Rightarrow> (string \<times> json) list \<Rightarrow> string \<Rightarrow> adapter_outcome" where
  "shell_adapter run payload tok attempt =
     (case shell_prepare payload of
        Inl err \<Rightarrow> Raised
      | Inr (Refuse m) \<Rightarrow> refused m
      | Inr (Send argv) \<Rightarrow> process_result (''Command '' @ hd argv) ''Command execution error: '' (run argv))"

subsection \<open>Git\<close>

definition git_read_only :: "string list" where
  "git_read_only = [''status'', ''log'', ''diff'', ''show'', ''branch'', ''tag'']"

definition git_restricted :: "string list" where
  "git_restricted = [''push'', ''reset'', ''merge'', ''rebase'', ''commit'', ''fetch'']"

definition git_classify :: "string \<Rightarrow> json list \<Rightarrow> string option \<times> bool" where
  "git_classify command args =
     (let operation = lower (strip command);
          tokens = (case shlex_split (strip command) of None \<Rightarrow> [] | Some ts \<Rightarrow> map JStr ts) @ args;
          is_force = list_ex (\<lambda>t. t = JStr ''--force'' \<or> t = JStr ''-f'') tokens in
      (if operation \<in> set (git_read_only @ git_restricted) then Some operation else None, is_force))"

fun str_of :: "json \<Rightarrow> string option" where
  "str_of (JStr s) = Some s"
| "str_of _ = None"

text \<open>\<open>" ".join(args)\<close> raises for an argument that is not a string.\<close>

definition git_args :: "json list \<Rightarrow> ep_error + string list" where
  "git_args args = someE TypeError (those (map str_of args))"

text \<open>\<open>is_dir\<close> is \<open>os.path.isdir\<close>; the command runs in the directory that the payload names if there is
  one. \<open>Inl\<close> where it raises.\<close>

definition git_cwd :: "(json \<Rightarrow> ep_error + bool) \<Rightarrow> json \<Rightarrow> ep_error + json option" where
  "git_cwd is_dir repo =
     (if truthy repo then bindE (is_dir repo) (\<lambda>d. Inr (if d then Some repo else None)) else Inr None)"

definition git_arguments :: "(string \<times> json) list \<Rightarrow> json list option" where
  "git_arguments payload =
     (case map_of payload ''args'' of
        None \<Rightarrow> Some [] | Some JNull \<Rightarrow> Some [] | Some (JArr args) \<Rightarrow> Some args | _ \<Rightarrow> None)"

definition git_authorized :: "string \<Rightarrow> string \<Rightarrow> bool" where
  "git_authorized tool operation \<longleftrightarrow>
     (if operation \<in> set git_restricted then tool = ''git.'' @ operation \<or> tool = operation
      else tool = ''git.'' @ operation \<or> tool = operation \<or> tool = ''git'')"

definition git_run ::
  "(json \<Rightarrow> ep_error + bool) \<Rightarrow> (string \<times> json) list \<Rightarrow> (string \<times> json) list \<Rightarrow> string \<Rightarrow> json list
   \<Rightarrow> ep_error + (string list \<times> json option) decision" where
  "git_run is_dir payload tok command args =
     (case git_classify command args of
        (None, _) \<Rightarrow> Inr (Refuse ''Git command is opaque or unclassifiable'')
      | (Some operation, is_force) \<Rightarrow>
          (if operation = ''push'' \<and> is_force then Inr (Refuse ''Operation push --force is forbidden by the proxy'')
           else bindE (tool_of tok) (\<lambda>tool.
             if \<not> git_authorized tool operation
             then Inr (Refuse (''Token tool does not match git operation '' @ operation))
             else bindE (git_args args) (\<lambda>argv.
                  bindE (git_cwd is_dir (field payload ''repo'')) (\<lambda>cwd.
                    Inr (Send (''git'' # operation # argv, cwd)))))))"

definition git_prepare ::
  "(json \<Rightarrow> ep_error + bool) \<Rightarrow> (string \<times> json) list \<Rightarrow> (string \<times> json) list
   \<Rightarrow> ep_error + (string list \<times> json option) decision" where
  "git_prepare is_dir payload tok =
     (case field payload ''command'' of
        JStr command \<Rightarrow>
          (if command = [] then Inr (Refuse ''No git command in payload'')
           else (case git_arguments payload of
                   None \<Rightarrow> Inr (Refuse ''Invalid args: must be a list'')
                 | Some args \<Rightarrow> git_run is_dir payload tok command args))
      | _ \<Rightarrow> Inr (Refuse ''No git command in payload''))"

definition git_adapter ::
  "(json \<Rightarrow> ep_error + bool) \<Rightarrow> (string list \<times> json option \<Rightarrow> process)
   \<Rightarrow> (string \<times> json) list \<Rightarrow> (string \<times> json) list \<Rightarrow> string \<Rightarrow> adapter_outcome" where
  "git_adapter is_dir run payload tok attempt =
     (case git_prepare is_dir payload tok of
        Inl err \<Rightarrow> Raised
      | Inr (Refuse m) \<Rightarrow> refused m
      | Inr (Send q) \<Rightarrow> process_result (''git '' @ hd (tl (fst q))) ''Git execution error: '' (run q))"

subsection \<open>The stubs: Docker, files, HTTP and e-mail\<close>

definition not_implemented :: "string \<Rightarrow> adapter_outcome" where
  "not_implemented summary = Returned ((failure [] summary)\<lparr>x_exit_status := ''not_implemented''\<rparr>)"

definition docker_allowed :: "string list" where
  "docker_allowed = [''ps'', ''logs'', ''inspect'', ''start'', ''stop'']"

definition docker_restricted :: "string list" where
  "docker_restricted = [''rm'', ''exec'', ''build'', ''run'']"

text \<open>The words after \<open>docker\<close>: the first that is not an option.\<close>

fun docker_operation :: "string list \<Rightarrow> string option" where
  "docker_operation [] = None"
| "docker_operation (t # ts) =
     (if starts_with ''-'' (lower t) then docker_operation ts else Some (lower t))"

definition docker_classify :: "string \<Rightarrow> string option" where
  "docker_classify command =
     (case shlex_split (strip command) of
        None \<Rightarrow> None
      | Some tokens \<Rightarrow>
          (case docker_operation (drop 1 (dropWhile (\<lambda>t. t \<noteq> ''docker'') tokens)) of
             None \<Rightarrow> None
           | Some op \<Rightarrow> (if op \<in> set (docker_allowed @ docker_restricted) then Some op else None)))"

definition docker_adapter ::
  "(string \<times> json) list \<Rightarrow> (string \<times> json) list \<Rightarrow> string \<Rightarrow> adapter_outcome" where
  "docker_adapter payload tok attempt =
     (case first_truthy payload [''command'', ''action''] of
        Some (JStr command) \<Rightarrow>
          (case docker_classify command of
             None \<Rightarrow> refused ''Docker command is opaque or unclassifiable''
           | Some operation \<Rightarrow>
               (case tool_of tok of
                  Inl err \<Rightarrow> Raised
                | Inr tool \<Rightarrow>
                    (if tool \<noteq> ''docker.'' @ operation \<and> tool \<noteq> operation \<and> tool \<noteq> ''docker''
                     then refused (''Token tool does not match docker operation '' @ operation)
                     else if operation \<in> set docker_restricted \<and> tool = ''docker''
                     then refused (''Restricted operation '' @ operation @ '' requires explicit authorization'')
                     else not_implemented ''Docker execution adapter is not implemented'')))
      | _ \<Rightarrow> refused ''No docker command in payload'')"

definition file_allowed :: "string list" where
  "file_allowed = [''read'', ''list'', ''stat'']"

definition file_restricted :: "string list" where
  "file_restricted = [''write'', ''create'', ''append'', ''move'', ''delete'']"

definition file_forbidden :: "string list" where
  "file_forbidden = [''chmod'', ''chown'', ''symlink_create'']"

definition file_adapter ::
  "(string \<times> json) list \<Rightarrow> (string \<times> json) list \<Rightarrow> string \<Rightarrow> adapter_outcome" where
  "file_adapter payload tok attempt =
     (case first_truthy payload [''operation'', ''action''] of
        None \<Rightarrow> refused ''No operation in payload''
      | Some v \<Rightarrow>
     (case first_truthy payload [''path''] of
        None \<Rightarrow> refused ''No path in payload''
      | Some path \<Rightarrow>
     (case v of
        JStr s \<Rightarrow>
          (let operation = strip (lower s) in
           if operation \<in> set file_forbidden
           then refused (''Operation '' @ operation @ '' is forbidden by the file proxy'')
           else if operation \<notin> set (file_allowed @ file_restricted)
           then refused (''Unknown file operation '' @ operation)
           else
             (case (if operation \<in> set file_restricted
                    then bindE (tool_of tok) (\<lambda>tool. Inr (contains operation tool \<or> contains ''file'' tool))
                    else Inr True) of
                Inl err \<Rightarrow> Raised
              | Inr False \<Rightarrow> refused (''File operation '' @ operation @ '' was not authorized'')
              | Inr True \<Rightarrow>
                  (case path of
                     JStr p \<Rightarrow> (if starts_with ''/'' p then not_implemented ''File execution adapter is not implemented''
                               else refused (''Path must be absolute: '' @ p))
                   | _ \<Rightarrow> refused ''File operation error'')))
      | _ \<Rightarrow> Raised)))"

definition http_allowed :: "string list" where
  "http_allowed = [''get'']"

definition http_restricted :: "string list" where
  "http_restricted = [''post'', ''put'', ''delete'', ''patch'']"

definition http_forbidden :: "string list" where
  "http_forbidden = [''connect'', ''trace'']"

text \<open>\<open>parse_url\<close> is the \<open>urlparse\<close> of \<open>urllib\<close>: the scheme and the network location, or an exception.\<close>

definition http_adapter ::
  "(json \<Rightarrow> ep_error + string \<times> string)
   \<Rightarrow> (string \<times> json) list \<Rightarrow> (string \<times> json) list \<Rightarrow> string \<Rightarrow> adapter_outcome" where
  "http_adapter parse_url payload tok attempt =
     (case (case first_truthy payload [''method''] of None \<Rightarrow> Some ''GET'' | Some (JStr m) \<Rightarrow> Some m | _ \<Rightarrow> None) of
        None \<Rightarrow> Raised
      | Some m \<Rightarrow>
     (let method = strip (map upper_char m) in
      case first_truthy payload [''url''] of
        None \<Rightarrow> refused ''No url in payload''
      | Some url \<Rightarrow>
     (if method \<in> set http_forbidden then refused (''HTTP method '' @ method @ '' is forbidden by the HTTP proxy'')
      else if lower method \<notin> set (http_allowed @ http_restricted) then refused (''Unknown HTTP method '' @ method)
      else
        (case (if lower method \<in> set http_restricted
               then bindE (tool_of tok) (\<lambda>tool. Inr (contains ''http'' tool \<or> contains (lower method) tool))
               else Inr True) of
           Inl err \<Rightarrow> Raised
         | Inr False \<Rightarrow> refused (''HTTP '' @ method @ '' was not authorized'')
         | Inr True \<Rightarrow>
             (case parse_url url of
                Inl err \<Rightarrow> refused ''URL parsing error''
              | Inr (scheme, netloc) \<Rightarrow>
                  (if scheme = [] \<or> netloc = [] then refused ''Invalid URL''
                   else not_implemented ''HTTP execution adapter is not implemented''))))))"

definition is_valid_email :: "json \<Rightarrow> bool" where
  "is_valid_email v = (case v of JStr s \<Rightarrow> email_address (strip s) | _ \<Rightarrow> False)"

definition validate_recipients :: "json \<Rightarrow> string list option" where
  "validate_recipients v =
     (case v of
        JArr vs \<Rightarrow> (if vs \<noteq> [] \<and> list_all is_valid_email vs
                    then Some (map (\<lambda>a. case a of JStr s \<Rightarrow> strip s | _ \<Rightarrow> []) vs) else None)
      | _ \<Rightarrow> None)"

definition text_of :: "(string \<times> json) list \<Rightarrow> string \<Rightarrow> string option" where
  "text_of payload k = (case map_of payload k of None \<Rightarrow> Some [] | Some (JStr s) \<Rightarrow> Some s | _ \<Rightarrow> None)"

definition email_adapter ::
  "(string \<times> json) list \<Rightarrow> (string \<times> json) list \<Rightarrow> string \<Rightarrow> adapter_outcome" where
  "email_adapter payload tok attempt =
     (if validate_recipients (field payload ''to'') = None
      then refused ''Invalid recipients: to list is empty or contains invalid email addresses''
      else if truthy (field payload ''cc'') \<and> validate_recipients (field payload ''cc'') = None
      then refused ''Invalid recipients: cc list contains invalid email addresses''
      else if truthy (field payload ''bcc'') \<and> validate_recipients (field payload ''bcc'') = None
      then refused ''Invalid recipients: bcc list contains invalid email addresses''
      else
        (case text_of payload ''subject'' of
           None \<Rightarrow> refused ''Invalid subject: must be a string''
         | Some subject \<Rightarrow>
        (if length subject > 998 then refused ''Subject exceeds maximum length of 998 characters''
         else
           (case text_of payload ''body'' of
              None \<Rightarrow> refused ''Invalid body: must be a string''
            | Some body \<Rightarrow>
           (if length body > 1048576 then refused ''Body exceeds maximum size of 1048576 bytes''
            else
              (case tool_of tok of
                 Inl err \<Rightarrow> Raised
               | Inr tool \<Rightarrow>
                   (if tool \<noteq> ''email.send'' then refused ''Token tool does not match required email.send''
                    else not_implemented ''Email execution adapter is not implemented'')))))))"

end
