(* ===== verification/Adapter_Safety.thy ===== *)
theory Adapter_Safety
  imports Adapters
begin

section \<open>What the adapters let through\<close>

text \<open>
  The decisions of \<open>Adapters\<close> against what a proxy promises: the SQL that reaches a target database,
  the processes that the shell and the Git proxy start, and the stubs, which never succeed and so
  never add a node to the graph.
\<close>

subsection \<open>SQL\<close>

lemma last_part_append: "CHR ''.'' \<notin> set s \<Longrightarrow> last_part (p @ CHR ''.'' # s) = s"
  unfolding last_part_def after_last_def by (simp, subst takeWhile_append2) auto

lemma sql_operation_plain: "op \<in> set sql_operations \<Longrightarrow> CHR ''.'' \<notin> set op \<and> lower op = op"
  by (auto simp: sql_operations_def lower_def lower_char_def)

lemma operation_of_sql_result: "op \<in> set sql_operations \<Longrightarrow> operation_of (sql_result op res how conf) = op"
  using last_part_append [of op "''postgres.execute''"] sql_operation_plain [of op]
  by (simp add: operation_of_def sql_result_def)

lemma find_SomeD: "find P xs = Some x \<Longrightarrow> x \<in> set xs \<and> P x"
  by (auto simp: find_Some_iff)

text \<open>A classification that is not opaque comes from one statement of a known operation.\<close>

lemma classify_sql_clear:
  assumes "classify_sql sqlglot args = Inr c" and "\<not> opaque c"
  obtains sql op where "first_truthy args [''sql'', ''query''] = Some (JStr sql)"
    and "\<not> detect_multi_statement sql" and "op \<in> set sql_operations"
    and "action_type c = ''postgres.execute.'' @ op" and "operation_of c = op"
proof -
  from assms obtain sql where t: "first_truthy args [''sql'', ''query''] = Some (JStr sql)"
    by (auto simp: classify_sql_def text_argument_Inr)
  with assms have m: "\<not> detect_multi_statement sql"
    by (auto simp: classify_sql_def text_argument_def opaque_sql_def)
  have "\<exists>op res how conf. op \<in> set sql_operations \<and> c = sql_result op res how conf"
    using assms t m
    by (auto simp: classify_sql_def text_argument_def opaque_sql_def classify_with_regex_def
        classify_with_sqlglot_def Let_def split: option.splits sum.splits if_splits list.splits dest!: find_SomeD)
  then show thesis using t m that operation_of_sql_result by (auto simp: sql_result_def)
qed

lemma first_truthy_prefix: "first_truthy args ks = Some v \<Longrightarrow> first_truthy args (ks @ ls) = Some v"
  by (induction ks) (auto split: option.splits if_splits)

lemma classified_sql_Send:
  "classified_sql sqlglot payload = Inr (Send c) \<longleftrightarrow>
     first_truthy payload [''sql'', ''query'', ''statement''] \<noteq> None \<and> classify_sql sqlglot payload = Inr c
     \<and> \<not> opaque c \<and> operation_of c \<notin> set forbidden_sql"
  by (auto simp: classified_sql_def split: sum.splits if_splits)

lemma pg_validate_None:
  "pg_validate sqlglot payload tok = Inr None \<longleftrightarrow> (\<exists>c. classified_sql sqlglot payload = Inr (Send c))"
proof (cases "classified_sql sqlglot payload")
  case (Inr r)
  then show ?thesis by (cases r) (simp_all add: pg_validate_def)
qed (simp add: pg_validate_def)

definition may_run_ddl :: "(string \<times> json) list \<Rightarrow> string \<Rightarrow> bool" where
  "may_run_ddl tok operation \<longleftrightarrow>
     (\<exists>tool. field tok ''tool'' = JStr tool \<and> (contains ''ddl'' (lower tool) \<or> contains operation (lower tool)))"

definition routed_to :: "proxy_config \<Rightarrow> (string \<times> json) list \<Rightarrow> string \<Rightarrow> bool" where
  "routed_to cfg payload url \<longleftrightarrow>
     (case first_truthy payload [''database''] of
        Some v \<Rightarrow> (if pc_targets cfg \<in> {None, Some []} then url = pc_target cfg
                   else \<exists>database. v = JStr database \<and> map_of (the (pc_targets cfg)) database = Some url)
      | None \<Rightarrow> url = pc_target cfg \<and> (pc_targets cfg \<in> {None, Some []} \<or> url \<noteq> []))"

lemma resolve_target_Some: "resolve_target cfg payload = Inr (Some url) \<Longrightarrow> routed_to cfg payload url"
  by (auto simp: resolve_target_def routed_to_def split: option.splits list.splits json.splits if_splits)

lemma sql_authorized_True:
  "sql_authorized tok operation = Inr True \<longleftrightarrow> (operation \<in> set ddl_sql \<longrightarrow> may_run_ddl tok operation)"
  by (cases "field tok ''tool''") (simp_all add: sql_authorized_def tool_of_def may_run_ddl_def)

lemma send_sql_Send:
  "send_sql cfg payload operation target = Inr (Send q) \<longleftrightarrow>
     (\<exists>t dl url sql. target = Some t \<and> create_engine t = Inr (dl, url)
        \<and> text_argument payload [''sql'', ''query'', ''statement''] = Inr sql
        \<and> q = \<lparr> rq_url = url, rq_operation = operation, rq_statements = pg_statements cfg dl sql \<rparr>)"
  by (cases target) (auto simp: send_sql_def)

lemma pg_prepare_Send:
  assumes "pg_prepare sqlglot cfg payload tok = Inr (Send q)"
  obtains c sql dl target where "classified_sql sqlglot payload = Inr (Send c)" and "rq_operation q = operation_of c"
    and "operation_of c \<in> set ddl_sql \<union> set allowed_sql"
    and "operation_of c \<in> set ddl_sql \<Longrightarrow> may_run_ddl tok (operation_of c)"
    and "resolve_target cfg payload = Inr (Some target)" and "create_engine target = Inr (dl, rq_url q)"
    and "text_argument payload [''sql'', ''query'', ''statement''] = Inr sql"
    and "rq_statements q = pg_statements cfg dl sql"
proof -
  obtain r where r: "classified_sql sqlglot payload = Inr r"
    using assms by (auto simp: pg_prepare_def)
  show thesis
  proof (cases r)
    case (Refuse m)
    then show ?thesis using assms r by (simp add: pg_prepare_def)
  next
    case (Send c)
    let ?op = "operation_of c"
    have op: "?op \<in> set (ddl_sql @ allowed_sql)"
      using assms r Send by (auto simp: pg_prepare_def Let_def split: if_splits)
    have a: "sql_authorized tok ?op = Inr True"
      using assms r Send op by (cases "sql_authorized tok ?op") (auto simp: pg_prepare_def Let_def split: if_splits)
    obtain target where t: "resolve_target cfg payload = Inr target" "send_sql cfg payload ?op target = Inr (Send q)"
      using assms r Send op a by (cases "resolve_target cfg payload") (auto simp: pg_prepare_def Let_def split: if_splits)
    from t(2) obtain tg dl sql where s: "target = Some tg" "create_engine tg = Inr (dl, rq_url q)"
      "text_argument payload [''sql'', ''query'', ''statement''] = Inr sql"
      "rq_operation q = ?op" "rq_statements q = pg_statements cfg dl sql"
      by (auto simp: send_sql_Send)
    show ?thesis
      by (rule that [of c tg dl sql]) (use r Send op a t(1) s in \<open>auto simp: sql_authorized_True\<close>)
  qed
qed

text \<open>C11: what the PostgreSQL proxy sends to a database is the text of the payload, which the classifier accepts as
  one statement of a known kind and not opaque: a selection, insertion, update or deletion, or a DDL
  statement that the tool of the token names. It goes to the configured target, or to the one that the
  payload names among the configured ones, after at most the two statements that set time limits.\<close>

theorem sql_sent_is_classified:
  assumes "pg_prepare sqlglot cfg payload tok = Inr (Send q)"
  shows "\<exists>c sql target dl. classify_sql sqlglot payload = Inr c \<and> \<not> opaque c
     \<and> action_type c = ''postgres.execute.'' @ rq_operation q
     \<and> (rq_operation q \<in> set allowed_sql \<or> (rq_operation q \<in> set ddl_sql \<and> may_run_ddl tok (rq_operation q)))
     \<and> first_truthy payload [''sql'', ''query''] = Some (JStr sql) \<and> \<not> detect_multi_statement sql
     \<and> rq_statements q = pg_statements cfg dl sql
     \<and> routed_to cfg payload target \<and> create_engine target = Inr (dl, rq_url q)"
proof (rule pg_prepare_Send [OF assms], goal_cases)
  case (1 c sql dl target)
  from 1(1) have c: "classify_sql sqlglot payload = Inr c" "\<not> opaque c" by (simp_all add: classified_sql_Send)
  obtain sql' op where o: "first_truthy payload [''sql'', ''query''] = Some (JStr sql')" "\<not> detect_multi_statement sql'"
    "action_type c = ''postgres.execute.'' @ op" "operation_of c = op"
    by (rule classify_sql_clear [OF c]) blast
  have "sql' = sql" using first_truthy_prefix [OF o(1), of "[''statement'']"] 1(7) by (simp add: text_argument_def)
  then show ?case using 1(2-4,6,8) c o resolve_target_Some [OF 1(5)] by auto
qed

definition sample_pg_config :: proxy_config where
  "sample_pg_config = \<lparr> pc_target = ''sqlite:///main'', pc_timeout_seconds = 30, pc_max_output_bytes = 1000,
     pc_targets = Some [(''stats'', ''sqlite:///stats'')] \<rparr>"

lemma sample_pg_prepare:
  "pg_prepare None sample_pg_config
     [(''query'', JStr ''drop table t''), (''database'', JStr ''stats'')] [(''tool'', JStr ''postgres.DDL'')]
   = Inr (Send \<lparr> rq_url = ''sqlite:///stats'', rq_operation = ''drop'', rq_statements = [''drop table t''] \<rparr>)"
  by code_simp

theorem sql_sent_is_classified_witness:
  "(\<exists>target. routed_to sample_pg_config [(''query'', JStr ''drop table t''), (''database'', JStr ''stats'')] target)
   \<and> may_run_ddl [(''tool'', JStr ''postgres.DDL'')] ''drop''"
  using sql_sent_is_classified [OF sample_pg_prepare] by (auto simp: allowed_sql_def)

text \<open>A refused validation leaves the token unspent, and what passes it is refused later only for the
  kind of statement, the token's tool or the target.\<close>

lemma invalid_sql_spends_no_token:
  assumes "execute lib alib h svc px (pg_validate sqlglot) adapter d t e e2 text payload key cap = (d', called, res)"
    and "\<forall>c. classified_sql sqlglot payload \<noteq> Inr (Send c)"
  shows "\<not> called"
proof
  assume called
  with assms(1) have "execute lib alib h svc px (pg_validate sqlglot) adapter d t e e2 text payload key cap = (d', True, res)"
    by simp
  then show False by (rule execute_ran) (use assms(2) in \<open>auto simp: pg_validate_None\<close>)
qed

text \<open>Where the proxy is configured with policies, they are evaluated for the tool of the token, and only two
  tools have a classifier.\<close>

lemma blocked_None_tool:
  assumes "blocked lib t (Some ps) payload tok = None"
  shows "field tok ''tool'' \<in> {JStr ''postgres.execute'', JStr ''shell.execute''}"
  using assms by (auto simp: blocked_def classify_tool_def split: json.splits option.splits if_splits)

lemma no_ddl_for_classified_tools:
  assumes "field tok ''tool'' \<in> {JStr ''postgres.execute'', JStr ''shell.execute''}" and "operation \<in> set ddl_sql"
  shows "\<not> may_run_ddl tok operation"
  using assms by (auto simp: may_run_ddl_def ddl_sql_def lower_def lower_char_def)

text \<open>A PostgreSQL proxy with policies never runs DDL, approved or not. Where the policies of the proxy
  let a payload pass, the statement that its adapter sends is a selection, insertion, update or deletion.\<close>

theorem policies_admit_no_ddl:
  assumes b: "blocked lib t (Some ps) payload tok = None"
    and q: "pg_prepare sqlglot cfg payload tok = Inr (Send q)"
  shows "rq_operation q \<in> set allowed_sql"
  by (rule pg_prepare_Send [OF q]) (use no_ddl_for_classified_tools [OF blocked_None_tool [OF b]] in auto)

definition sample_token :: "(string \<times> json) list" where
  "sample_token = [(''tool'', JStr ''postgres.execute''), (''agent_id'', JStr ''ag''), (''project_id'', JStr ''p1''),
     (''branch_id'', JStr ''b1''),
     (''policy_set_hash'', JStr (compute_policy_set_hash (\<lambda>s. s) [(''p1'', 0)]))]"

lemma sample_not_blocked:
  "blocked (sample_libs\<lparr>sha256 := (\<lambda>s. s)\<rparr>) ''2026'' (Some [sample_policy ''p1'' Allow 5])
     [(''sql'', JStr ''select 1'')] sample_token = None"
  by code_simp

theorem policies_admit_no_ddl_witness:
  "\<exists>q. pg_prepare None sample_pg_config [(''sql'', JStr ''select 1'')] sample_token = Inr (Send q)
     \<and> rq_operation q \<in> set allowed_sql"
proof -
  have "is_send (pg_prepare None sample_pg_config [(''sql'', JStr ''select 1'')] sample_token)" by code_simp
  then obtain q where q: "pg_prepare None sample_pg_config [(''sql'', JStr ''select 1'')] sample_token = Inr (Send q)"
    by (cases "pg_prepare None sample_pg_config [(''sql'', JStr ''select 1'')] sample_token" rule: is_send.cases) auto
  from policies_admit_no_ddl [OF sample_not_blocked q] q show ?thesis by blast
qed

subsection \<open>Processes\<close>

text \<open>The words of the command line are not changed by the operating system call: no shell reads them.\<close>

lemma classify_shell_clear:
  assumes "classify_shell args = Inr c" and "\<not> opaque c"
  obtains command p ps where "first_truthy args [''command'', ''cmd'', ''script''] = Some (JStr command)"
    and "\<not> dangerous command" and "\<not> compound command"
    and "shlex_split command = Some (p # ps)" and "base_name (lower p) \<in> set bounded_commands"
proof -
  from assms obtain command where t: "first_truthy args [''command'', ''cmd'', ''script''] = Some (JStr command)"
    by (auto simp: classify_shell_def text_argument_Inr)
  with assms have n: "\<not> dangerous command" "\<not> compound command"
    by (auto simp: classify_shell_def text_argument_def opaque_shell_def split: if_splits)
  from assms t obtain p ps where p: "shlex_split command = Some (p # ps)"
    by (auto simp: classify_shell_def text_argument_def opaque_shell_def
        split: if_splits option.splits list.splits)
  from assms t n p have "base_name (lower p) \<in> set bounded_commands"
    by (auto simp: classify_shell_def text_argument_def opaque_shell_def Let_def split: if_splits)
  with t n p that show thesis by blast
qed

lemma shell_prepare_Send:
  assumes "shell_prepare payload = Inr (Send argv)"
  obtains c command executable rest where "classify_shell payload = Inr c" and "\<not> opaque c"
    and "first_truthy payload [''command'', ''cmd'', ''script''] = Some (JStr command)"
    and "argv = executable # rest" and "shlex_split command = Some argv"
    and "executable \<in> set safe_commands" and "\<not> proxy_dangerous command"
proof -
  from assms obtain c where c: "classify_shell payload = Inr c" "\<not> opaque c"
    by (auto simp: shell_prepare_def split: sum.splits if_splits)
  note a1 = assms [unfolded shell_prepare_def c(1), simplified]
  from a1 c(2) obtain command where t: "text_argument payload [''command'', ''cmd'', ''script''] = Inr command"
    and s: "(case shlex_split command of
        None \<Rightarrow> Inr (Refuse ''Shell command parsing failed'')
      | Some [] \<Rightarrow> Inr (Refuse ''Empty shell command'')
      | Some (executable # args) \<Rightarrow>
          (if executable \<notin> set safe_commands
           then Inr (Refuse (''Command '' @ executable @ '' is not in the safe commands list''))
           else if proxy_dangerous command then Inr (Refuse ''Command contains dangerous pattern'')
           else Inr (Send (executable # args)))) = (Inr (Send argv) :: ep_error + string list decision)"
    by (auto split: if_splits)
  from s obtain x xs where x: "shlex_split command = Some (x # xs)"
    by (auto split: option.splits list.splits)
  from s have y: "x \<in> set safe_commands" "\<not> proxy_dangerous command" "argv = x # xs"
    by (auto simp: x split: if_splits)
  show thesis by (rule that [OF c t [unfolded text_argument_Inr] y(3) _ y(1,2)]) (simp add: x y(3))
qed

lemma safe_command_plain: "x \<in> set safe_commands \<Longrightarrow> base_name (lower x) = x"
  by (auto simp: safe_commands_def base_name_def lower_def lower_char_def)

text \<open>C12: the shell proxy starts one of seven programs. The arguments are exactly the words of the command, the
  program is one of \<open>bounded_commands\<close>, written as such and without a path, and the command
  contains no separator, no command substitution and none of the dangerous words of the classifier and of the proxy.\<close>

theorem shell_starts_bounded_program:
  assumes "shell_prepare payload = Inr (Send argv)"
  shows "\<exists>command. first_truthy payload [''command'', ''cmd'', ''script''] = Some (JStr command)
     \<and> shlex_split command = Some argv \<and> argv \<noteq> [] \<and> hd argv \<in> set bounded_commands
     \<and> \<not> contains ''$('' command \<and> set command \<inter> {CHR 0x60, CHR ''|'', CHR ''&'', CHR '';''} = {}
     \<and> (\<forall>w \<in> set (dangerous_words_any_case @ proxy_words_any_case). \<not> has_word w (lower command))
     \<and> (\<forall>w \<in> set (dangerous_words_exact @ proxy_words_exact). \<not> has_word w command)"
proof (rule shell_prepare_Send [OF assms], goal_cases)
  case (1 c command executable rest)
  note P = 1
  show ?case
  proof (rule classify_shell_clear [OF 1(1,2)], goal_cases)
    case (1 command' p ps)
    have eq: "command' = command" "p = executable" using 1(1,4) P(3,4,5) by simp_all
    have hd: "hd argv \<in> set bounded_commands" "argv \<noteq> []"
      using 1(5) safe_command_plain [OF P(6)] P(4) eq(2) by simp_all
    have c: "\<not> dangerous command" "\<not> compound command" using 1(2,3) eq(1) by simp_all
    have sub: "\<not> contains ''$('' command" using c(1) by (simp add: dangerous_def)
    have chars: "set command \<inter> {CHR 0x60, CHR ''|'', CHR ''&'', CHR '';''} = {}"
      using c by (auto simp: dangerous_def compound_def list_ex_iff)
    have w1: "\<forall>w \<in> set (dangerous_words_any_case @ proxy_words_any_case). \<not> has_word w (lower command)"
      using c(1) P(7) unfolding dangerous_def proxy_dangerous_def list_ex_iff by simp blast
    have w2: "\<forall>w \<in> set (dangerous_words_exact @ proxy_words_exact). \<not> has_word w command"
      using c(1) P(7) unfolding dangerous_def proxy_dangerous_def list_ex_iff by simp blast
    show ?case by (rule exI [of _ command]) (intro conjI P(3,5) hd sub chars w1 w2)
  qed
qed

lemma sample_shell_prepare:
  "shell_prepare [(''cmd'', JStr ''ls -l /tmp'')] = Inr (Send [''ls'', ''-l'', ''/tmp''])"
  by code_simp

theorem shell_starts_bounded_program_witness: "\<not> has_word ''rm'' ''ls -l /tmp''"
proof -
  have "first_truthy [(''cmd'', JStr ''ls -l /tmp'')] [''command'', ''cmd'', ''script''] = Some (JStr ''ls -l /tmp'')" by simp
  with shell_starts_bounded_program [OF sample_shell_prepare] show ?thesis by (auto simp: proxy_words_exact_def)
qed

lemma git_args_Inr: "git_args vs = Inr args \<longleftrightarrow> vs = map JStr args"
proof (induction vs arbitrary: args)
  case (Cons v vs)
  then show ?case by (cases v) (auto simp: git_args_def)
qed (auto simp: git_args_def)

lemma git_cwd_Inr:
  "git_cwd is_dir repo = Inr cwd \<Longrightarrow> cwd = None \<or> (cwd = Some repo \<and> is_dir repo = Inr True)"
  by (auto simp: git_cwd_def split: if_splits)

lemma tool_of_Inr: "tool_of tok = Inr t \<longleftrightarrow> (\<exists>tool. field tok ''tool'' = JStr tool \<and> t = lower tool)"
  by (auto simp: tool_of_def split: json.splits)

lemma git_prepare_Send:
  assumes "git_prepare is_dir payload tok = Inr (Send (argv, cwd))"
  obtains command vs operation is_force tool args
  where "git_classify command vs = (Some operation, is_force)" and "operation = ''push'' \<Longrightarrow> \<not> is_force"
    and "tool_of tok = Inr tool" and "git_authorized tool operation" and "git_args vs = Inr args"
    and "git_cwd is_dir (field payload ''repo'') = Inr cwd" and "argv = ''git'' # operation # args"
    and "field payload ''command'' = JStr command" and "git_arguments payload = Some vs"
proof -
  from assms obtain command where cmd: "field payload ''command'' = JStr command"
    by (auto simp: git_prepare_def split: json.splits)
  note a0 = assms [unfolded git_prepare_def cmd, simplified]
  have "command \<noteq> []" using a0 by (auto split: if_splits)
  with a0 have a1: "(case git_arguments payload of
        None \<Rightarrow> Inr (Refuse ''Invalid args: must be a list'')
      | Some args \<Rightarrow> git_run is_dir payload tok command args) = Inr (Send (argv, cwd))" by simp
  obtain vs where vs: "git_arguments payload = Some vs"
    using a1 by (auto split: option.splits)
  note a2 = a1 [unfolded vs git_run_def, simplified]
  obtain operation is_force where c: "git_classify command vs = (Some operation, is_force)"
    using a2 by (cases "git_classify command vs") (auto split: option.splits)
  note a3 = a2 [unfolded c, simplified]
  have f: "\<not> (operation = ''push'' \<and> is_force)"
  proof
    assume "operation = ''push'' \<and> is_force"
    then show False using a3 by simp
  qed
  note a4 = a3 [unfolded if_not_P [OF f]]
  obtain tool where t: "tool_of tok = Inr tool"
    using a4 by auto
  have ga: "git_authorized tool operation"
    using a4 t by (auto split: if_splits)
  then show thesis using that [OF c _ t ga] f a4 t cmd vs by auto
qed

text \<open>C13: what the Git proxy starts. It is \<open>git\<close> with the operation and the arguments of the payload, the operation
  being a known one, and no push carries \<open>--force\<close> or \<open>-f\<close>. Either the tool of the token names this very operation, or
  the tool is the bare \<open>git\<close> and the operation counts as reading; a restricted operation therefore always has a
  token that names it.\<close>

theorem git_starts_authorized_operation:
  assumes "git_prepare is_dir payload tok = Inr (Send (argv, cwd))"
  shows "\<exists>command operation args tool. argv = ''git'' # operation # args \<and> operation \<in> set (git_read_only @ git_restricted)
     \<and> field payload ''command'' = JStr command \<and> operation = lower (strip command)
     \<and> git_arguments payload = Some (map JStr args)
     \<and> field tok ''tool'' = JStr tool
     \<and> (lower tool \<in> {''git.'' @ operation, operation} \<or> operation \<in> set git_read_only \<and> lower tool = ''git'')
     \<and> (operation = ''push'' \<longrightarrow> set args \<inter> {''--force'', ''-f''} = {})
     \<and> (\<forall>dir. cwd = Some dir \<longrightarrow> dir = field payload ''repo'' \<and> is_dir dir = Inr True)"
proof (rule git_prepare_Send [OF assms], goal_cases)
  case (1 command vs operation is_force tool args)
  have "operation = ''push'' \<Longrightarrow> set args \<inter> {''--force'', ''-f''} = {}"
    using 1(1,2,5) by (auto simp: git_classify_def git_args_Inr Let_def list_ex_iff)
  moreover have "operation \<in> set (git_read_only @ git_restricted)" "operation = lower (strip command)"
    using 1(1) by (auto simp: git_classify_def Let_def split: if_splits)
  moreover have "\<forall>dir. cwd = Some dir \<longrightarrow> dir = field payload ''repo'' \<and> is_dir dir = Inr True"
    using git_cwd_Inr [OF 1(6)] by auto
  moreover have "git_arguments payload = Some (map JStr args)" using 1(5,9) by (simp add: git_args_Inr)
  ultimately show ?case using 1(3,4,7,8) by (auto simp: tool_of_Inr git_authorized_def split: if_splits)
qed

lemma sample_git_prepare:
  "git_prepare (\<lambda>_. Inr True) [(''command'', JStr '' Push''), (''args'', JArr [JStr ''origin'', JStr ''main''])]
     [(''tool'', JStr ''git.push'')] = Inr (Send ([''git'', ''push'', ''origin'', ''main''], None))"
  by code_simp

theorem git_starts_authorized_operation_witness:
  "\<exists>operation args. [''git'', ''push'', ''origin'', ''main''] = ''git'' # operation # args
     \<and> set args \<inter> {''--force'', ''-f''} = {}"
  using git_starts_authorized_operation [OF sample_git_prepare] by auto

text \<open>A push is forced without either flag, by a refspec or a lease; and the operations that count as reading,
  for which the tool \<open>git\<close> suffices, delete branches and tags when the arguments say so.\<close>

lemma forced_push_and_deletion_pass:
  "git_prepare (\<lambda>_. Inr False) [(''command'', JStr ''push''), (''args'', JArr [JStr ''origin'', JStr ''+main''])]
     [(''tool'', JStr ''git.push'')] = Inr (Send ([''git'', ''push'', ''origin'', ''+main''], None))
   \<and> git_prepare (\<lambda>_. Inr False) [(''command'', JStr ''push''), (''args'', JArr [JStr ''--force-with-lease''])]
     [(''tool'', JStr ''git.push'')] = Inr (Send ([''git'', ''push'', ''--force-with-lease''], None))
   \<and> git_prepare (\<lambda>_. Inr False) [(''command'', JStr ''branch''), (''args'', JArr [JStr ''-D'', JStr ''main''])]
     [(''tool'', JStr ''git'')] = Inr (Send ([''git'', ''branch'', ''-D'', ''main''], None))"
  by code_simp

text \<open>With policies, the proxy asks for a classifier of the token's tool, and the tools that authorize Git
  operations have none: a Git proxy with policies never starts a process.\<close>

lemma git_proxy_with_policies_is_idle:
  assumes x: "execute lib alib h svc px validate adapter d t e e2 text payload key cap = (d', True, res)"
    and "px_policies px = Some ps" and "verify_token alib t text key = Inr (Some tok)"
  shows "\<not> is_send (git_prepare is_dir payload tok)"
proof
  assume "is_send (git_prepare is_dir payload tok)"
  then obtain argv cwd where g: "git_prepare is_dir payload tok = Inr (Send (argv, cwd))"
    by (cases "git_prepare is_dir payload tok" rule: is_send.cases) auto
  have "blocked lib (now e) (Some ps) payload tok = None"
    by (rule execute_ran [OF x]) (use assms(2,3) in auto)
  note t = blocked_None_tool [OF this]
  show False
    by (rule git_prepare_Send [OF g])
      (use t in \<open>auto simp: tool_of_def git_authorized_def git_classify_def Let_def git_read_only_def git_restricted_def
        lower_def lower_char_def split: if_splits\<close>)
qed

subsection \<open>Stubs\<close>

text \<open>The adapters of the source that send nothing.\<close>

definition stubs ::
  "(json \<Rightarrow> ep_error + string \<times> string)
   \<Rightarrow> ((string \<times> json) list \<Rightarrow> (string \<times> json) list \<Rightarrow> string \<Rightarrow> adapter_outcome) list" where
  "stubs parse_url = [docker_adapter, file_adapter, http_adapter parse_url, email_adapter]"

definition no_success :: "adapter_outcome \<Rightarrow> bool" where
  "no_success out \<longleftrightarrow>
     (case out of Returned r \<Rightarrow> \<not> x_success r \<and> x_exit_status r \<noteq> ''success'' | Timed_Out \<Rightarrow> True | Raised \<Rightarrow> True)"

lemma no_success_simps [simp]:
  "no_success (refused m)" "no_success (not_implemented m)" "no_success Raised"
  by (simp_all add: no_success_def refused_def not_implemented_def failure_def)

lemma no_success_cases:
  "no_success a \<Longrightarrow> no_success b \<Longrightarrow> no_success (if c then a else b)"
  "no_success a \<Longrightarrow> (\<And>w. no_success (m w)) \<Longrightarrow> no_success (case p of None \<Rightarrow> a | Some w \<Rightarrow> m w)"
  "(\<And>y. no_success (g y)) \<Longrightarrow> (\<And>z. no_success (h z)) \<Longrightarrow> no_success (case s of Inl y \<Rightarrow> g y | Inr z \<Rightarrow> h z)"
  "no_success a \<Longrightarrow> (\<And>x. no_success (f x)) \<Longrightarrow> no_success (case v of JStr x \<Rightarrow> f x | _ \<Rightarrow> a)"
  "no_success a \<Longrightarrow> no_success b \<Longrightarrow> no_success (case c of True \<Rightarrow> a | False \<Rightarrow> b)"
  "(\<And>i j. no_success (k i j)) \<Longrightarrow> no_success (case q of (i, j) \<Rightarrow> k i j)"
  by (auto split: option.split sum.split json.split bool.split prod.split)

lemmas no_success_rules = no_success_cases no_success_simps

lemma docker_no_success: "no_success (docker_adapter payload tok attempt)"
  unfolding docker_adapter_def by (intro no_success_rules)

lemma file_no_success: "no_success (file_adapter payload tok attempt)"
  unfolding file_adapter_def Let_def by (intro no_success_rules)

lemma http_no_success: "no_success (http_adapter parse_url payload tok attempt)"
  unfolding http_adapter_def Let_def by (intro no_success_rules)

lemma email_no_success: "no_success (email_adapter payload tok attempt)"
  unfolding email_adapter_def by (intro no_success_rules)

lemma stub_no_success: "adapter \<in> set (stubs parse_url) \<Longrightarrow> no_success (adapter payload tok attempt)"
  by (auto simp: stubs_def docker_no_success file_no_success http_no_success email_no_success)

lemma outcome_no_success:
  "no_success out \<Longrightarrow> x_exit_status (outcome_result attempt out) \<noteq> ''success'' \<and> \<not> x_success (outcome_result attempt out)"
  by (cases out) (simp_all add: outcome_result_def no_success_def failure_def)

lemma record_token_result_nodes:
  assumes "keys_ok d" and "record_token_result sha svc d e tid x m = Inr (d', r)"
  shows "nodes d' = nodes d"
proof -
  from assms(2) obtain i where "record_result sha svc d e i x m None = Inr (d', r)"
    by (auto simp: record_token_result_def split: json.splits)
  then show ?thesis by (rule record_result_Inr [OF assms(1)]) simp
qed

text \<open>An adapter that is not implemented changes nothing that counts. A proxy that runs one adds no node to
  the graph; when it returns, it reports no success and the transition is failed or, where the adapter
  got as far as its missing implementation, uncertain.\<close>

theorem stub_adds_no_node:
  assumes k: "keys_ok d" and s: "adapter \<in> set (stubs parse_url)" and eng: "px_transition_engine px"
    and x: "execute lib alib h svc px validate adapter d t e e2 text payload key cap = (d', True, res)"
  shows "nodes d' = nodes d \<and> (\<forall>r. res = Inr r \<longrightarrow> \<not> x_success r
    \<and> (\<exists>i tr. get_transition d' i = Some tr
         \<and> t_stage tr = (if x_exit_status r = ''failure'' then Failed else Execution_Uncertain)))"
proof (rule execute_ran [OF x], elim claim_of_Some, goal_cases)
  case (1 tok hash d1 cl i)
  note E = 1
  have k1: "keys_ok d1" and n1: "nodes d1 = nodes d"
    by (rule verify_and_claim_Some [OF E(10)], rule claim_and_advance_Some [OF k], assumption, simp)+
  let ?r0 = "outcome_result (ids e 0) (adapter payload tok (ids e 0))"
  let ?rt = "record_token_result (sha256 lib) svc d1 e2 (field tok ''transition_id'')
        (if x_exit_status ?r0 = ''failure'' then ''failure'' else ''timeout'') (x_summary ?r0)"
  have ns: "x_exit_status ?r0 \<noteq> ''success''" "\<not> x_success ?r0"
    using outcome_no_success [OF stub_no_success [OF s]] by auto
  show ?case
  proof (cases ?rt)
    case (Inl err)
    then have "d' = d1" "res = Inl err" using E(8) eng ns by (auto simp: record_outcome_def)
    with n1 show ?thesis by simp
  next
    case (Inr p)
    then obtain rr where rt: "?rt = Inr (d', rr)" and r: "res = Inr ?r0"
      using E(8) eng ns by (cases p) (auto simp: record_outcome_def)
    have n2: "nodes d' = nodes d" using record_token_result_nodes [OF k1 rt] n1 by simp
    show ?thesis
      by (rule record_token_result_get [OF k1 rt]) (use r ns n2 in \<open>auto simp: result_stage_def intro!: exI\<close>)
  qed
qed

theorem stub_adds_no_node_witness:
  "\<exists>d d' k res. sample_execute_with docker_adapter d (signed_text k) = (d', True, res) \<and> nodes d' = nodes d"
proof (rule sample_executes_with [of docker_adapter], goal_cases)
  case (1 d d1 d' k tok res)
  have "keys_ok d" "docker_adapter \<in> set (stubs (\<lambda>_. Inl ValueError))" "px_transition_engine sample_proxy"
    using 1(1) by (simp_all add: intact_def stubs_def sample_proxy_def)
  from stub_adds_no_node [OF this 1(2) [unfolded sample_execute_with_def sample_execute_on_def]] 1(2) show ?case by blast
qed

subsection \<open>Output\<close>

text \<open>The limit bounds what a selection returns; rows are capped as well.\<close>

lemma output_limit_length: "length (enforce_output_limit n s) \<le> n + 16"
  by (simp add: enforce_output_limit_def)

text \<open>The answer of a database is bounded: a selection reports at most 1000 rows and returns at most the
  configured number of characters, with the mark of the truncation.\<close>

theorem sql_output_is_bounded:
  assumes "pg_result cfg q response = Returned r" and "rq_operation q = ''select''" and "x_success r"
  shows "0 \<le> x_rows r \<and> x_rows r \<le> 1000 \<and> (\<exists>out. x_output r = Some out \<and> length out \<le> pc_max_output_bytes cfg + 16)"
  using assms output_limit_length
  by (auto simp: pg_result_def Let_def refused_def failure_def split: sql_response.splits)

theorem sql_output_is_bounded_witness:
  "\<exists>r. pg_result sample_pg_config \<lparr> rq_url = [], rq_operation = ''select'', rq_statements = [] \<rparr> (Answered [''x''] 1) = Returned r
     \<and> x_rows r \<le> 1000"
proof -
  obtain r where r: "pg_result sample_pg_config \<lparr> rq_url = [], rq_operation = ''select'', rq_statements = [] \<rparr> (Answered [''x''] 1)
      = Returned r" and s: "x_success r"
    by (simp add: pg_result_def Let_def)
  from sql_output_is_bounded [OF r _ s] r show ?thesis by simp
qed

text \<open>The redaction looks for a secret word directly before the colon. In the text of a row, which is a
  dictionary, the quote that ends the column's name is between them: nothing is redacted.\<close>

lemma password_column_is_not_redacted:
  "redact (''[{'' @ [CHR 0x27] @ ''password'' @ [CHR 0x27] @ '': '' @ [CHR 0x27] @ ''x'' @ [CHR 0x27] @ ''}]'')
     = ''[{'' @ [CHR 0x27] @ ''password'' @ [CHR 0x27] @ '': '' @ [CHR 0x27] @ ''x'' @ [CHR 0x27] @ ''}]''
   \<and> redact ''password: x y'' = ''password=***REDACTED*** y''"
  by code_simp

end
