(* ===== verification/Rate_Limiter.thy ===== *)
theory Rate_Limiter
  imports Prelude
begin

section \<open>The rate limiter and the counters of the proxy service (proxy_service.py)\<close>

text \<open>
  \<open>RateLimiter.check\<close> keeps, per client, the times of the admitted requests that are not yet outside the
  window. Clock readings are rational numbers; the clock is monotonic, and the difference of a reading
  and the window is taken as exact. Requests reach \<open>check\<close> one at a time, under its lock.
\<close>

type_synonym limiter = "string \<Rightarrow> rat list"

definition rate_check :: "int \<Rightarrow> int \<Rightarrow> limiter \<Rightarrow> rat \<Rightarrow> string \<Rightarrow> limiter \<times> bool" where
  "rate_check max_requests window requests now client =
     (let kept = dropWhile (\<lambda>t. t \<le> now - of_int window) (requests client) in
      if max_requests \<le> int (length kept) then (requests(client := kept), False)
      else (requests(client := kept @ [now]), True))"

text \<open>A run of requests, each with its time and its client: the state and the admitted ones.\<close>

fun rate_run :: "int \<Rightarrow> int \<Rightarrow> limiter \<Rightarrow> (rat \<times> string) list \<Rightarrow> limiter \<times> (rat \<times> string) list" where
  "rate_run max_requests window requests [] = (requests, [])"
| "rate_run max_requests window requests ((now, client) # rs) =
     (case rate_check max_requests window requests now client of
        (requests', ok) \<Rightarrow>
          (case rate_run max_requests window requests' rs of
             (requests'', admitted) \<Rightarrow> (requests'', if ok then (now, client) # admitted else admitted)))"

type_synonym metrics = "string \<Rightarrow> int option"

definition metrics_inc :: "string \<Rightarrow> int \<Rightarrow> metrics \<Rightarrow> metrics" where
  "metrics_inc k amount m = m(k \<mapsto> (case m k of None \<Rightarrow> 0 | Some n \<Rightarrow> n) + amount)"

definition metrics_new :: metrics where
  "metrics_new = (\<lambda>_. None)(''requests_total'' \<mapsto> 0, ''executions_total'' \<mapsto> 0, ''executions_succeeded'' \<mapsto> 0,
     ''executions_failed'' \<mapsto> 0, ''rate_limited_total'' \<mapsto> 0, ''invalid_requests_total'' \<mapsto> 0)"

subsection \<open>Lemmas\<close>

lemma rate_run_append:
  "rate_run n w requests (xs @ ys) =
     (case rate_run n w requests xs of (requests', as) \<Rightarrow>
      case rate_run n w requests' ys of (requests'', bs) \<Rightarrow> (requests'', as @ bs))"
  by (induction xs arbitrary: requests) (auto split: prod.splits)

definition times_of :: "string \<Rightarrow> (rat \<times> string) list \<Rightarrow> rat list" where
  "times_of c rs = map fst (filter (\<lambda>r. snd r = c) rs)"

lemma times_of_simps [simp]:
  "times_of c [] = []"
  "times_of c (rs @ [(t, c')]) = times_of c rs @ (if c' = c then [t] else [])"
  by (simp_all add: times_of_def)

lemma dropWhile_weaker:
  assumes "\<And>x. P x \<Longrightarrow> Q x"
  shows "dropWhile Q (dropWhile P xs @ ys) = dropWhile Q (xs @ ys)"
  by (induction xs) (use assms in auto)

lemma dropWhile_sorted: "sorted xs \<Longrightarrow> dropWhile (\<lambda>x. x \<le> a) xs = filter (\<lambda>x. a < x) (xs :: rat list)"
proof (induction xs)
  case (Cons x xs)
  then show ?case by (cases "x \<le> a") (auto simp: filter_id_conv less_le_trans intro!: filter_id_conv [THEN iffD2, symmetric])
qed simp

text \<open>The state holds what can still count: for later readings it is the admitted times of the client.\<close>

definition limiter_ok :: "int \<Rightarrow> rat \<Rightarrow> limiter \<Rightarrow> (rat \<times> string) list \<Rightarrow> bool" where
  "limiter_ok w latest requests admitted \<longleftrightarrow>
     (\<forall>c. sorted (times_of c admitted) \<and> (\<forall>t \<in> set (times_of c admitted). t \<le> latest)
        \<and> (\<forall>now \<ge> latest. dropWhile (\<lambda>t. t \<le> now - of_int w) (requests c)
             = dropWhile (\<lambda>t. t \<le> now - of_int w) (times_of c admitted)))"

lemma limiter_okD:
  assumes "limiter_ok w latest requests admitted"
  shows "sorted (times_of c admitted)" and "\<And>t. t \<in> set (times_of c admitted) \<Longrightarrow> t \<le> latest"
    and "\<And>now. latest \<le> now \<Longrightarrow> dropWhile (\<lambda>t. t \<le> now - of_int w) (requests c) = filter (\<lambda>t. now - of_int w < t) (times_of c admitted)"
    and "\<And>now. latest \<le> now \<Longrightarrow> dropWhile (\<lambda>t. t \<le> now - of_int w) (requests c)
           = dropWhile (\<lambda>t. t \<le> now - of_int w) (times_of c admitted)"
  using assms dropWhile_sorted by (auto simp: limiter_ok_def)

lemma rate_check_decides:
  assumes "limiter_ok w latest requests admitted" and "latest \<le> now"
  shows "snd (rate_check n w requests now c) \<longleftrightarrow> int (length (filter (\<lambda>t. now - of_int w < t) (times_of c admitted))) < n"
  by (auto simp: rate_check_def Let_def limiter_okD(3) [OF assms])

lemma rate_check_ok:
  assumes ok: "limiter_ok w latest requests admitted" and l: "latest \<le> now"
    and c: "rate_check n w requests now c = (requests', accept)"
  shows "limiter_ok w now requests' (if accept then admitted @ [(now, c)] else admitted)"
proof -
  have weaker: "dropWhile (\<lambda>t. t \<le> now' - of_int w) (dropWhile (\<lambda>t. t \<le> now - of_int w) xs @ ys)
      = dropWhile (\<lambda>t. t \<le> now' - of_int w) (xs @ ys)" if "now \<le> now'" for now' xs ys
    by (rule dropWhile_weaker) (use that in \<open>auto intro: order_trans\<close>)
  have kept: "dropWhile (\<lambda>t. t \<le> now' - of_int w) (dropWhile (\<lambda>t. t \<le> now - of_int w) (requests c) @ ys)
      = dropWhile (\<lambda>t. t \<le> now' - of_int w) (times_of c admitted @ ys)" if "now \<le> now'" for now' ys
    unfolding limiter_okD(4) [OF ok l] by (rule weaker [OF that])
  have old: "dropWhile (\<lambda>t. t \<le> now' - of_int w) (requests c') = dropWhile (\<lambda>t. t \<le> now' - of_int w) (times_of c' admitted)"
    if "now \<le> now'" for now' c' by (rule limiter_okD(4) [OF ok]) (use that l in simp)
  have up: "t \<in> set (times_of c' admitted) \<Longrightarrow> t \<le> now" for t c'
    using limiter_okD(2) [OF ok] l by fastforce
  show ?thesis
  proof (cases accept)
    case True
    then have r: "requests' = requests(c := dropWhile (\<lambda>t. t \<le> now - of_int w) (requests c) @ [now])"
      using c by (auto simp: rate_check_def Let_def split: if_splits)
    show ?thesis using limiter_okD(1) [OF ok] up kept old
      by (auto simp: limiter_ok_def r True sorted_append)
  next
    case False
    then have r: "requests' = requests(c := dropWhile (\<lambda>t. t \<le> now - of_int w) (requests c))"
      using c by (auto simp: rate_check_def Let_def split: if_splits)
    show ?thesis using limiter_okD(1) [OF ok] up kept [of _ "[]"] old
      by (auto simp: limiter_ok_def r False)
  qed
qed

lemma limiter_ok_later: "limiter_ok w now requests admitted \<Longrightarrow> now \<le> later \<Longrightarrow> limiter_ok w later requests admitted"
  unfolding limiter_ok_def by (meson order_trans)

lemma rate_run_ok:
  assumes "sorted (map fst rs)" and "\<forall>t \<in> set (map fst rs). t \<le> latest"
  shows "limiter_ok w latest (fst (rate_run n w (\<lambda>_. []) rs)) (snd (rate_run n w (\<lambda>_. []) rs))"
  using assms
proof (induction rs arbitrary: latest rule: rev_induct)
  case Nil
  then show ?case by (simp add: limiter_ok_def)
next
  case (snoc r rs)
  obtain now c where r: "r = (now, c)" by (cases r)
  obtain requests admitted where a: "rate_run n w (\<lambda>_. []) rs = (requests, admitted)" by (cases "rate_run n w (\<lambda>_. []) rs")
  have s: "sorted (map fst rs)" and le: "\<forall>t \<in> set (map fst rs). t \<le> now"
    using snoc.prems(1) r by (auto simp: sorted_append)
  have ok: "limiter_ok w now requests admitted"
    using snoc.IH [OF s le] a by simp
  obtain requests' accept where c: "rate_check n w requests now c = (requests', accept)" by (cases "rate_check n w requests now c")
  have "limiter_ok w now requests' (if accept then admitted @ [(now, c)] else admitted)"
    by (rule rate_check_ok [OF ok order_refl c])
  moreover have "rate_run n w (\<lambda>_. []) (rs @ [r]) = (requests', if accept then admitted @ [(now, c)] else admitted)"
    by (simp add: rate_run_append a r c)
  moreover have "now \<le> latest" using snoc.prems(2) r by simp
  ultimately show ?case by (simp add: limiter_ok_later)
qed

definition in_window :: "rat \<Rightarrow> int \<Rightarrow> string \<Rightarrow> (rat \<times> string) list \<Rightarrow> rat list" where
  "in_window t w c rs = filter (\<lambda>x. t - of_int w < x \<and> x \<le> t) (times_of c rs)"

lemma rate_limit_bound:
  assumes "sorted (map fst rs)"
  shows "int (length (in_window t w c (snd (rate_run n w (\<lambda>_. []) rs)))) \<le> max 0 n"
  using assms
proof (induction rs rule: rev_induct)
  case Nil
  then show ?case by (simp add: in_window_def)
next
  case (snoc r rs)
  obtain now c' where r: "r = (now, c')" by (cases r)
  obtain requests admitted where a: "rate_run n w (\<lambda>_. []) rs = (requests, admitted)" by (cases "rate_run n w (\<lambda>_. []) rs")
  obtain requests' accept where ck: "rate_check n w requests now c' = (requests', accept)" by (cases "rate_check n w requests now c'")
  have s: "sorted (map fst rs)" "\<forall>x \<in> set (map fst rs). x \<le> now" using snoc.prems r by (auto simp: sorted_append)
  have run: "snd (rate_run n w (\<lambda>_. []) (rs @ [r])) = (if accept then admitted @ [(now, c')] else admitted)"
    by (simp add: rate_run_append a r ck)
  have IH: "int (length (in_window t w c admitted)) \<le> max 0 n" using snoc.IH [OF s(1)] a by simp
  show ?case
  proof (cases "accept \<and> c' = c \<and> t - of_int w < now \<and> now \<le> t")
    case False
    then show ?thesis using IH by (auto simp: run in_window_def)
  next
    case True
    have ok: "limiter_ok w now requests admitted" using rate_run_ok [OF s, of w n] a by simp
    from True have "snd (rate_check n w requests now c)" using ck by simp
    then have "int (length (filter (\<lambda>x. now - of_int w < x) (times_of c admitted))) < n"
      by (simp add: rate_check_decides [OF ok order_refl])
    moreover have "length (in_window t w c admitted) \<le> length (filter (\<lambda>x. now - of_int w < x) (times_of c admitted))"
    proof -
      have "in_window t w c admitted = filter (\<lambda>x. t - of_int w < x \<and> x \<le> t) (filter (\<lambda>x. now - of_int w < x) (times_of c admitted))"
        using True by (auto simp: in_window_def filter_filter intro!: filter_cong)
      then show ?thesis by (simp only: length_filter_le)
    qed
    ultimately show ?thesis using True by (simp add: run in_window_def)
  qed
qed

subsection \<open>Properties\<close>

text \<open>C14: the limiter is a sliding window. After any requests, in the order of the clock, the next request of a
  client is admitted exactly when fewer than the configured number of its admitted requests lie in the window before
  it; hence at no time has a client more than that number of admitted requests within one window.\<close>

theorem rate_limit_is_sliding_window:
  assumes "sorted (map fst (rs @ [(now, c)]))"
  shows "(snd (rate_check n w (fst (rate_run n w (\<lambda>_. []) rs)) now c)
      \<longleftrightarrow> int (length (in_window now w c (snd (rate_run n w (\<lambda>_. []) rs)))) < n)
    \<and> (\<forall>t c. int (length (in_window t w c (snd (rate_run n w (\<lambda>_. []) (rs @ [(now, c)]))))) \<le> max 0 n)"
proof -
  have s: "sorted (map fst rs)" "\<forall>t \<in> set (map fst rs). t \<le> now" using assms by (auto simp: sorted_append)
  note ok = rate_run_ok [OF s, of w n]
  have "in_window now w c (snd (rate_run n w (\<lambda>_. []) rs))
      = filter (\<lambda>t. now - of_int w < t) (times_of c (snd (rate_run n w (\<lambda>_. []) rs)))"
    using limiter_okD(2) [OF ok] by (auto simp: in_window_def intro!: filter_cong)
  moreover have "sorted (map fst (rs @ [(now, c)]))" for c using assms by simp
  ultimately show ?thesis using rate_check_decides [OF ok order_refl] rate_limit_bound by auto
qed

theorem rate_limit_is_sliding_window_witness:
  "\<not> snd (rate_check 2 60 (fst (rate_run 2 60 (\<lambda>_. []) [(1, ''a''), (2, ''a''), (3, ''b'')])) 60 ''a'')
   \<and> snd (rate_check 2 60 (fst (rate_run 2 60 (\<lambda>_. []) [(1, ''a''), (2, ''a''), (3, ''b'')])) 61 ''a'')"
proof -
  have "sorted (map fst ([(1, ''a''), (2, ''a''), (3, ''b'')] @ [(60 :: rat, ''a'')]))"
    "sorted (map fst ([(1, ''a''), (2, ''a''), (3, ''b'')] @ [(61 :: rat, ''a'')]))" by simp_all
  from rate_limit_is_sliding_window [OF this(1), of 2 60] rate_limit_is_sliding_window [OF this(2), of 2 60]
  show ?thesis by (simp add: rate_check_def in_window_def times_of_def)
qed

end
