(* ===== verification/Service.thy ===== *)
theory Service
  imports Adapter_Safety Rate_Limiter
begin

section \<open>The proxy service (proxy_service.py)\<close>

text \<open>
  The HTTP service around the PostgreSQL proxy: \<open>do_GET\<close> and \<open>do_POST\<close> of \<open>ProxyHandler\<close>, and what
  \<open>main\<close> decides before it serves. The state is that of the rate limiter and the counters; the
  governance database is threaded through \<open>Proxy.execute\<close>. Socket handling, TLS and logging are left out;
  so is the text of the metrics. An exception that leaves a handler ends it without an answer.
\<close>

record service =
  se_proxy :: proxy
  se_config :: proxy_config
  se_audience :: string
  se_key :: string
  se_capability :: capability
  se_rate_limit :: int
  se_rate_window :: int
  se_service_id :: string

record server_state =
  sv_limits :: limiter
  sv_metrics :: metrics

record http_request =
  hr_path :: string
  hr_client :: string
  hr_body :: "string option"

datatype response = Response nat json | Metrics metrics | No_Response

definition error_body :: "string \<Rightarrow> json" where
  "error_body m = JObj [(''error'', JStr m)]"

definition count :: "string \<Rightarrow> server_state \<Rightarrow> server_state" where
  "count k sv = sv\<lparr>sv_metrics := metrics_inc k 1 (sv_metrics sv)\<rparr>"

subsection \<open>GET\<close>

definition info_body :: "service \<Rightarrow> json" where
  "info_body se = JObj ([(''service'', JStr ''ep-governance-proxy''), (''audience'', JStr (se_audience se)),
      (''target'', JStr ''postgresql'')] @
     (case pc_targets (se_config se) of
        Some (t # ts) \<Rightarrow> [(''databases'', JArr (map (JStr \<circ> fst) (t # ts))), (''multi_target'', JBool True)]
      | _ \<Rightarrow> [(''multi_target'', JBool False)]))"

definition do_get :: "service \<Rightarrow> server_state \<Rightarrow> string \<Rightarrow> response" where
  "do_get se sv path =
     (if path = ''/health'' then Response 200 (JObj [(''status'', JStr ''ok''), (''service'', JStr ''ep-governance-proxy'')])
      else if path = ''/info'' then Response 200 (info_body se)
      else if path = ''/metrics'' then Metrics (sv_metrics sv)
      else Response 404 (error_body ''Not found''))"

subsection \<open>Executing what a request names\<close>

text \<open>The token and the payload of a request are whatever JSON has there. A token that is not text does not
  parse, and a payload that is not an object has no \<open>get\<close>, which the proxy notices when it classifies or
  validates: before the claim.\<close>

definition non_object :: "proxy \<Rightarrow> db \<Rightarrow> string \<Rightarrow> (string \<times> json) list \<Rightarrow> db \<times> bool \<times> (ep_error + execution_result)" where
  "non_object px d attempt tok =
     (case px_policies px of
        None \<Rightarrow> (d, False, Inl AttributeError)
      | Some ps \<Rightarrow>
          (d, False, Inr (failure attempt
             (if field tok ''tool'' \<in> {JStr ''postgres.execute'', JStr ''shell.execute''}
              then ''classification failed'' else ''no classifier''))))"

definition execute_json ::
  "libs \<Rightarrow> auth_libs \<Rightarrow> host \<Rightarrow> service \<Rightarrow> (sql_request \<Rightarrow> sql_response) \<Rightarrow> db \<Rightarrow> nat \<Rightarrow> env \<Rightarrow> env \<Rightarrow> json \<Rightarrow> json
   \<Rightarrow> db \<times> bool \<times> (ep_error + execution_result)" where
  "execute_json lib alib h se target d t e e2 signed_token payload =
     (let px = se_proxy se; attempt = ids e 0; cap = se_capability se; refuse = (\<lambda>m. (d, False, Inr (failure attempt m))) in
      case (signed_token, payload) of
        (JStr text, JObj p) \<Rightarrow>
          execute lib alib h (se_service_id se) px (pg_validate (sql_parser lib)) (pg_adapter (sql_parser lib) (se_config se) target)
            d t e e2 text p (se_key se) cap
      | _ \<Rightarrow>
     (case require_binding_enforcement (sg_fromiso alib) h t cap of
        Inl _ \<Rightarrow> (d, False, Inr (failure [] ''capability''))
      | Inr _ \<Rightarrow>
     (case (case signed_token of JStr text \<Rightarrow> verify_token alib t text (se_key se) | _ \<Rightarrow> Inr None) of
        Inl err \<Rightarrow> (d, False, Inl err)
      | Inr None \<Rightarrow> refuse ''token''
      | Inr (Some tok) \<Rightarrow>
     (case capability_mismatch cap tok of
        Some m \<Rightarrow> refuse m
      | None \<Rightarrow>
     (case json_canonical_hash (sha256 lib) payload of
        Inl err \<Rightarrow> (d, False, Inl err)
      | Inr hash \<Rightarrow>
     (case refusal px d tok (''sha256:'' @ hash) of
        Some m \<Rightarrow> refuse m
      | None \<Rightarrow> non_object px d attempt tok))))))"

subsection \<open>POST\<close>

definition result_body :: "execution_result \<Rightarrow> json" where
  "result_body r = JObj [(''success'', JBool (x_success r)), (''exit_status'', JStr (x_exit_status r)),
     (''result_summary'', JStr (x_summary r)), (''rows_affected'', JInt (x_rows r)),
     (''output'', (case x_output r of None \<Rightarrow> JNull | Some s \<Rightarrow> JStr s)),
     (''execution_attempt_id'', JStr (x_attempt_id r))]"

definition post_answer :: "ep_error + execution_result \<Rightarrow> response" where
  "post_answer res = (case res of Inr r \<Rightarrow> Response 200 (result_body r)
                                | Inl err \<Rightarrow> Response 500 (error_body ''Execution failed''))"

definition count_result :: "ep_error + execution_result \<Rightarrow> server_state \<Rightarrow> server_state" where
  "count_result res sv =
     (case res of
        Inr r \<Rightarrow> count (if x_success r then ''executions_succeeded'' else ''executions_failed'') (count ''executions_total'' sv)
      | Inl err \<Rightarrow> sv)"

definition do_post ::
  "(db \<Rightarrow> json \<Rightarrow> json \<Rightarrow> db \<times> bool \<times> (ep_error + execution_result)) \<Rightarrow> (string \<Rightarrow> string) \<Rightarrow> service
   \<Rightarrow> server_state \<Rightarrow> db \<Rightarrow> rat \<Rightarrow> http_request \<Rightarrow> server_state \<times> db \<times> bool \<times> response" where
  "do_post run frep se sv d clock r =
     (if hr_path r \<noteq> ''/execute'' then (sv, d, False, Response 404 (error_body ''Not found''))
      else
     (case rate_check (se_rate_limit se) (se_rate_window se) (sv_limits sv) clock (hr_client r) of
        (limits, accepted) \<Rightarrow>
     (let sv1 = sv\<lparr>sv_limits := limits\<rparr> in
      if \<not> accepted then (count ''rate_limited_total'' sv1, d, False, Response 429 (error_body ''Rate limit exceeded''))
      else
     (case Option.bind (hr_body r) (json_loads frep) of
        None \<Rightarrow> (count ''invalid_requests_total'' sv1, d, False, Response 400 (error_body ''Invalid request''))
      | Some (JObj request) \<Rightarrow>
          (let token = field request ''signed_token''; payload = field request ''payload'' in
           if \<not> truthy token \<or> \<not> truthy payload
           then (sv1, d, False, Response 400 (error_body ''Missing signed_token or payload''))
           else
             (case run d token payload of
                (d', called, res) \<Rightarrow> (count_result res sv1, d', called, post_answer res)))
      | Some _ \<Rightarrow> (sv1, d, False, No_Response)))))"

lemma do_post_called:
  assumes "hr_path r = ''/execute''" and "rate_check (se_rate_limit se) (se_rate_window se) (sv_limits sv) clock (hr_client r) = (limits, True)"
    and "hr_body r = Some body" and "json_loads frep body = Some (JObj request)"
    and "truthy (field request ''signed_token'')" and "truthy (field request ''payload'')"
    and "run d (field request ''signed_token'') (field request ''payload'') = (d', called, res)"
  shows "do_post run frep se sv d clock r = (count_result res (sv\<lparr>sv_limits := limits\<rparr>), d', called, post_answer res)"
  using assms by (simp add: do_post_def)

subsection \<open>Starting\<close>

text \<open>The files of the machine: whether a path is a file, and its text, \<open>None\<close> where opening fails.\<close>

record files =
  is_file :: "string \<Rightarrow> bool"
  read_file :: "string \<Rightarrow> string option"

fun string_entry :: "string \<times> json \<Rightarrow> (string \<times> string) option" where
  "string_entry (k, JStr v) = Some (k, v)"
| "string_entry _ = None"

text \<open>\<open>ProxyConfigurationError\<close> is a \<open>RuntimeError\<close>.\<close>

definition load_proxy_targets ::
  "(string \<Rightarrow> string option) \<Rightarrow> files \<Rightarrow> (string \<Rightarrow> string) \<Rightarrow> ep_error + (string \<times> string) list" where
  "load_proxy_targets e fs frep =
     (let path = get_or e ''EP_PROXY_TARGETS_FILE'' [] in
      if path = [] \<or> \<not> is_file fs path then Inr []
      else (case Option.bind (read_file fs path) (json_loads frep) of
              Some (JObj kvs) \<Rightarrow> someE RuntimeError (those (map string_entry kvs))
            | _ \<Rightarrow> Inl RuntimeError))"

definition as_config_error :: "ep_error list \<Rightarrow> ep_error + 'a \<Rightarrow> ep_error + 'a" where
  "as_config_error errs m =
     (case m of Inl err \<Rightarrow> Inl (if err \<in> set errs then RuntimeError else err) | Inr x \<Rightarrow> Inr x)"

lemma as_config_error_Inr [simp]: "as_config_error errs m = Inr x \<longleftrightarrow> m = Inr x"
  by (cases m) (simp_all add: as_config_error_def)

definition binding :: "(string \<Rightarrow> string option) \<Rightarrow> string \<Rightarrow> string option" where
  "binding e k = (let v = strip (get_or e k []) in if v = [] then None else Some v)"

definition load_proxy_capability ::
  "(string \<Rightarrow> string option) \<Rightarrow> files \<Rightarrow> (string \<Rightarrow> ep_error + string) \<Rightarrow> attestation_libs \<Rightarrow> nat \<Rightarrow> string
   \<Rightarrow> ep_error + capability" where
  "load_proxy_capability e fs load_key lib t audience =
     (let path = get_or e ''EP_PROXY_ATTESTATION_PATH'' []; hex = get_or e ''EP_CONTROLLER_PUBLIC_KEY'' [];
          expected = map (binding e) [''EP_PROXY_PRINCIPAL_ID'', ''EP_PROXY_AUDIENCE'', ''EP_DEPLOYMENT_ID'', ''EP_PROXY_TARGET_ID''] in
      bindE (requireE (path \<noteq> []) RuntimeError) (\<lambda>_.
      bindE (someE RuntimeError (read_file fs path)) (\<lambda>content.
      bindE (requireE (hex \<noteq> []) RuntimeError) (\<lambda>_.
      bindE (as_config_error [ValueError, TypeError] (load_key hex)) (\<lambda>key.
      bindE (requireE (None \<notin> set expected) RuntimeError) (\<lambda>_.
      bindE (as_config_error [EnforcementUnavailableError, ValueError, TypeError, KeyError]
               (from_signed_attestation lib key t (expected ! 0) (expected ! 1) (expected ! 2) (expected ! 3) content)) (\<lambda>cap.
      bindE (requireE (matches_proxy_audience cap audience) RuntimeError) (\<lambda>_.
        Inr cap))))))))"

text \<open>\<open>main\<close> up to \<open>serve_forever\<close>: it exits, an exception leaves it, or it serves.\<close>

datatype start = Exits | Raises ep_error | Serves service

definition start_service ::
  "(string \<Rightarrow> string option) \<Rightarrow> files \<Rightarrow> (string \<Rightarrow> string) \<Rightarrow> (string \<Rightarrow> ep_error + string) \<Rightarrow> attestation_libs \<Rightarrow> nat \<Rightarrow> start" where
  "start_service e fs frep load_key lib t =
     (case load_config e of
        Inl err \<Rightarrow> Raises err
      | Inr cfg \<Rightarrow>
     (if cf_mode cfg = ''advisory'' \<and> (\<not> cf_dev cfg \<or> \<not> cf_allow_advisory_execution cfg) then Exits
      else
     (case load_proxy_targets e fs frep of
        Inl err \<Rightarrow> Exits
      | Inr targets \<Rightarrow>
     (let url = get_or e ''EP_PROXY_TARGET_URL'' []; hex = get_or e ''EP_PUBLIC_KEY'' []; svc = get_or e ''EP_EP_SERVICE_ID'' [];
          audience = get_or e ''EP_PROXY_AUDIENCE'' ''postgres-proxy'' in
      if (url = [] \<and> targets = []) \<or> hex = [] \<or> svc = [] then Exits
      else
     (case bindE (py_int (get_or e ''EP_PROXY_PORT'' ''8201'')) (\<lambda>_.
           bindE (create_engine (cf_db_url cfg)) (\<lambda>_. load_key hex)) of
        Inl err \<Rightarrow> Raises err
      | Inr key \<Rightarrow>
     (case load_proxy_capability e fs load_key lib t audience of
        Inl err \<Rightarrow> (if err = RuntimeError then Exits else Raises err)
      | Inr cap \<Rightarrow>
     (case bindE (py_int (get_or e ''EP_PROXY_RATE_LIMIT'' ''30'')) (\<lambda>limit.
           bindE (py_int (get_or e ''EP_PROXY_RATE_WINDOW'' ''60'')) (\<lambda>window. Inr (limit, window))) of
        Inl err \<Rightarrow> Raises err
      | Inr (limit, window) \<Rightarrow>
          Serves \<lparr> se_proxy = \<lparr> px_audience = audience, px_principal = svc, px_transition_engine = True,
                               px_committer = Some svc, px_policies = None \<rparr>,
                   se_config = \<lparr> pc_target = url, pc_timeout_seconds = 30, pc_max_output_bytes = 1048576,
                                pc_targets = (if targets = [] then None else Some targets) \<rparr>,
                   se_audience = audience, se_key = key, se_capability = cap,
                   se_rate_limit = limit, se_rate_window = window, se_service_id = svc \<rparr>)))))))"

subsection \<open>Properties\<close>

lemma load_proxy_capability_Inr:
  assumes "load_proxy_capability e fs load_key lib t audience = Inr cap"
  obtains content key p a dep tgt where "read_file fs (get_or e ''EP_PROXY_ATTESTATION_PATH'' []) = Some content"
    and "load_key (get_or e ''EP_CONTROLLER_PUBLIC_KEY'' []) = Inr key"
    and "binding e ''EP_PROXY_PRINCIPAL_ID'' = Some p" and "binding e ''EP_PROXY_AUDIENCE'' = Some a"
    and "binding e ''EP_DEPLOYMENT_ID'' = Some dep" and "binding e ''EP_PROXY_TARGET_ID'' = Some tgt"
    and "from_signed_attestation lib key t (Some p) (Some a) (Some dep) (Some tgt) content = Inr cap"
    and "matches_proxy_audience cap audience"
  using assms unfolding load_proxy_capability_def Let_def
  by (auto split: sum.splits simp: eq_commute [of None] intro: that)

lemma binding_Some: "binding e k = Some v \<Longrightarrow> v = strip (get_or e k []) \<and> v \<noteq> []"
  by (auto simp: binding_def Let_def split: if_splits)

lemma start_service_Serves:
  assumes "start_service e fs frep load_key lib t = Serves se"
  obtains cfg where "load_config e = Inr cfg" and "se_audience se = get_or e ''EP_PROXY_AUDIENCE'' ''postgres-proxy''"
    and "load_proxy_capability e fs load_key lib t (se_audience se) = Inr (se_capability se)"
    and "load_key (get_or e ''EP_PUBLIC_KEY'' []) = Inr (se_key se)"
    and "se_proxy se = \<lparr> px_audience = se_audience se, px_principal = se_service_id se, px_transition_engine = True,
                         px_committer = Some (se_service_id se), px_policies = None \<rparr>"
    and "se_service_id se \<noteq> []" and "pc_target (se_config se) \<noteq> [] \<or> pc_targets (se_config se) \<noteq> None"
  using assms unfolding start_service_def Let_def
  by (auto split: sum.splits if_splits prod.splits intro: that)

text \<open>C7: the service serves only with a genuine capability. Its mode is enforced, unless a development flag and
  the explicit permission are set; the capability comes from a file that the trusted controller key signed, is bound
  to the principal, audience, deployment and target that the environment names, is for the audience of the
  service, and enforces binding at the start, in production mode too.\<close>

theorem service_starts_attested:
  assumes "start_service e fs frep load_key lib t = Serves se"
  shows "(\<exists>cfg. load_config e = Inr cfg \<and> (cf_mode cfg = ''enforced'' \<or> cf_dev cfg \<and> cf_allow_advisory_execution cfg))
    \<and> (\<exists>content key data sig. read_file fs (get_or e ''EP_PROXY_ATTESTATION_PATH'' []) = Some content
         \<and> load_key (get_or e ''EP_CONTROLLER_PUBLIC_KEY'' []) = Inr key
         \<and> json_loads (al_frep lib) content = Some (JObj data) \<and> map_of data ''signature'' = Some (JStr sig)
         \<and> al_verify lib key (dumps (JObj (filter (\<lambda>(k, _). k \<noteq> ''signature'') data))) sig)
    \<and> cap_proxy_principal_id (se_capability se) = strip (get_or e ''EP_PROXY_PRINCIPAL_ID'' [])
    \<and> cap_deployment_id (se_capability se) = strip (get_or e ''EP_DEPLOYMENT_ID'' [])
    \<and> cap_target_id (se_capability se) = strip (get_or e ''EP_PROXY_TARGET_ID'' [])
    \<and> cap_proxy_scoped (se_capability se) \<and> cap_proxy_audience (se_capability se) = se_audience se
    \<and> px_audience (se_proxy se) = se_audience se
    \<and> require_binding_enforcement (al_fromiso lib) h t (se_capability se) = Inr ()"
proof (rule start_service_Serves [OF assms], goal_cases)
  case (1 cfg)
  note S = 1
  show ?case
  proof (rule load_proxy_capability_Inr [OF S(3)], goal_cases)
    case (1 content key p a dep tgt)
    note C = 1
    show ?case
    proof (rule from_signed_attestation_Inr [OF C(7)], goal_cases)
      case (1 data expires issued)
      have "require_binding_enforcement (al_fromiso lib) h t (se_capability se) = Inr ()"
        using 1 by (simp add: require_binding_enforcement_def times_ok_def)
      moreover have "cap_proxy_principal_id (se_capability se) = strip (get_or e ''EP_PROXY_PRINCIPAL_ID'' [])"
        "cap_deployment_id (se_capability se) = strip (get_or e ''EP_DEPLOYMENT_ID'' [])"
        "cap_target_id (se_capability se) = strip (get_or e ''EP_PROXY_TARGET_ID'' [])"
        using 1 binding_Some [OF C(3)] binding_Some [OF C(5)] binding_Some [OF C(6)]
        by (auto simp: expected_ok_def)
      moreover have "cap_proxy_scoped (se_capability se)" "cap_proxy_audience (se_capability se) = se_audience se"
        using C(8) by (simp_all add: matches_proxy_audience_def)
      moreover have "px_audience (se_proxy se) = se_audience se" using S(5) by simp
      ultimately show ?thesis
        using S(1) load_config_mode [OF S(1)] C(1,2) signed_document_Inr [OF 1(1)] by blast
    qed
  qed
qed

text \<open>The service as it starts has a proxy without policies: nothing is revalidated when a token is executed.\<close>

lemma service_never_revalidates:
  assumes "start_service e fs frep load_key lib t = Serves se"
  shows "blocked lb tm (px_policies (se_proxy se)) payload tok = None"
  by (rule start_service_Serves [OF assms]) (simp add: blocked_def)

lemma execute_json_called:
  assumes "execute_json lib alib h se target d t e e2 token payload = (d', True, res)"
  obtains tk p where "token = JStr tk" and "payload = JObj p"
    and "execute lib alib h (se_service_id se) (se_proxy se) (pg_validate (sql_parser lib))
           (pg_adapter (sql_parser lib) (se_config se) target) d t e e2 tk p (se_key se) (se_capability se) = (d', True, res)"
proof -
  have "\<exists>text p. token = JStr text \<and> payload = JObj p"
  proof (rule ccontr)
    assume "\<not> (\<exists>text p. token = JStr text \<and> payload = JObj p)"
    then show False using assms unfolding execute_json_def Let_def non_object_def
      by (cases token; cases payload) (auto split: sum.splits option.splits prod.splits)
  qed
  then show thesis using assms that by (auto simp: execute_json_def Let_def)
qed

lemma execute_json_not_called:
  assumes "execute_json lib alib h se target d t e e2 token payload = (d', False, res)"
  shows "d' = d"
proof (cases "\<exists>text p. token = JStr text \<and> payload = JObj p")
  case True
  then show ?thesis using assms execute_not_called by (auto simp: execute_json_def Let_def)
next
  case False
  then show ?thesis using assms unfolding execute_json_def Let_def non_object_def
    by (cases token; cases payload) (auto split: sum.splits option.splits prod.splits)
qed

text \<open>C6: a request reaches the adapter only as a \<open>POST\<close> to \<open>/execute\<close> that the rate limiter admits, with a JSON object
  whose token is text and whose payload is an object; then \<open>Proxy.execute\<close> ran with them. A request that did
  not reach it leaves the governance database as it was.\<close>

theorem post_executes_only_through_proxy:
  assumes "do_post (\<lambda>d. execute_json lib alib h se target d t e e2) frep se sv d clock r = (sv', d', called, resp)"
  shows "if called
    then hr_path r = ''/execute'' \<and> snd (rate_check (se_rate_limit se) (se_rate_window se) (sv_limits sv) clock (hr_client r))
      \<and> (\<exists>body request text p res. hr_body r = Some body \<and> json_loads frep body = Some (JObj request)
           \<and> map_of request ''signed_token'' = Some (JStr text) \<and> map_of request ''payload'' = Some (JObj p)
           \<and> execute lib alib h (se_service_id se) (se_proxy se) (pg_validate (sql_parser lib))
               (pg_adapter (sql_parser lib) (se_config se) target) d t e e2 text p (se_key se) (se_capability se)
             = (d', True, res)
           \<and> resp = post_answer res)
    else d' = d"
proof (cases called)
  case True
  then show ?thesis using assms
    by (auto simp: do_post_def Let_def field_def bind_eq_Some_conv split: if_splits prod.splits option.splits json.splits sum.splits
        elim!: execute_json_called)
next
  case False
  then show ?thesis using assms
    by (auto simp: do_post_def Let_def split: if_splits prod.splits option.splits json.splits sum.splits
        dest: execute_json_not_called)
qed

subsection \<open>Samples\<close>

definition sample_environment :: "string \<Rightarrow> string option" where
  "sample_environment = map_of [(''EP_DB_URL'', ''sqlite://''), (''EP_PROXY_TARGET_URL'', ''sqlite:///t''),
     (''EP_PUBLIC_KEY'', ''k''), (''EP_EP_SERVICE_ID'', ''svc''), (''EP_PROXY_AUDIENCE'', ''pg''),
     (''EP_PROXY_ATTESTATION_PATH'', ''f''), (''EP_CONTROLLER_PUBLIC_KEY'', ''k''),
     (''EP_PROXY_PRINCIPAL_ID'', '' px ''), (''EP_DEPLOYMENT_ID'', ''d''), (''EP_PROXY_TARGET_ID'', ''db'')]"

definition sample_files :: files where
  "sample_files = \<lparr> is_file = (\<lambda>_. False), read_file = (\<lambda>_. Some (dumps sample_document)) \<rparr>"

lemma sample_capability_loads:
  obtains cap where "load_proxy_capability sample_environment sample_files Inr sample_attestation_libs 5 ''pg'' = Inr cap"
proof -
  have w: "wf_json (\<lambda>s. s) sample_document" by (simp add: sample_document_def)
  have s: "sort_keys sample_document = sample_document"
    by (simp add: sample_document_def sort_items_def)
  have d: "signed_document (\<lambda>s. s) (\<lambda>_ _ s. s = ''00'') ''k'' (dumps sample_document)
        = Inr (case sample_document of JObj kvs \<Rightarrow> kvs | _ \<Rightarrow> [])"
    unfolding signed_document_def json_loads_canonical [OF w] s
    by (simp add: sample_document_def Let_def)
  then have "\<exists>cap. from_signed_attestation sample_attestation_libs ''k'' 5 (Some ''px'') (Some ''pg'') (Some ''d'') (Some ''db'')
                   (dumps sample_document) = Inr cap \<and> matches_proxy_audience cap ''pg''"
    by (simp add: from_signed_attestation_def Let_def sample_attestation_libs_def sample_document_def
        required_fields_def identifier_fields_def attestation_time_def replace_z_def times_ok_def
        seconds_def expected_ok_def matches_proxy_audience_def)
  then obtain cap where c: "from_signed_attestation sample_attestation_libs ''k'' 5 (Some ''px'') (Some ''pg'') (Some ''d'') (Some ''db'')
                   (dumps sample_document) = Inr cap" "matches_proxy_audience cap ''pg''" by blast
  have b: "binding sample_environment ''EP_PROXY_PRINCIPAL_ID'' = Some ''px''"
    "binding sample_environment ''EP_PROXY_AUDIENCE'' = Some ''pg''"
    "binding sample_environment ''EP_DEPLOYMENT_ID'' = Some ''d''" "binding sample_environment ''EP_PROXY_TARGET_ID'' = Some ''db''"
    by code_simp+
  have g: "get_or sample_environment ''EP_PROXY_ATTESTATION_PATH'' [] = ''f''"
    "get_or sample_environment ''EP_CONTROLLER_PUBLIC_KEY'' [] = ''k''" by code_simp+
  have "load_proxy_capability sample_environment sample_files Inr sample_attestation_libs 5 ''pg'' = Inr cap"
    by (simp add: load_proxy_capability_def Let_def b c g as_config_error_def sample_files_def)
  then show thesis by (rule that)
qed

lemma sample_starts:
  obtains se where "start_service sample_environment sample_files (\<lambda>s. s) Inr sample_attestation_libs 5 = Serves se"
proof -
  obtain cap where c: "load_proxy_capability sample_environment sample_files Inr sample_attestation_libs 5 ''pg'' = Inr cap"
    by (rule sample_capability_loads)
  have "map_sum id (\<lambda>c. (cf_mode c, cf_db_url c)) (load_config sample_environment) = Inr (''enforced'', ''sqlite://'')" by code_simp
  then obtain cfg where cfg: "load_config sample_environment = Inr cfg" "cf_mode cfg = ''enforced''" "cf_db_url cfg = ''sqlite://''"
    by (cases "load_config sample_environment") auto
  have i: "py_int ''8201'' = Inr 8201" "py_int ''30'' = Inr 30" "py_int ''60'' = Inr 60" by code_simp+
  have "\<exists>se. start_service sample_environment sample_files (\<lambda>s. s) Inr sample_attestation_libs 5 = Serves se"
    using c cfg i by (simp add: start_service_def Let_def load_proxy_targets_def get_or_def sample_environment_def create_engine_def)
  then show thesis using that by blast
qed

theorem service_starts_attested_witness:
  "\<exists>se. start_service sample_environment sample_files (\<lambda>s. s) Inr sample_attestation_libs 5 = Serves se
     \<and> cap_proxy_principal_id (se_capability se) = strip '' px ''"
proof -
  obtain se where s: "start_service sample_environment sample_files (\<lambda>s. s) Inr sample_attestation_libs 5 = Serves se"
    by (rule sample_starts)
  have "get_or sample_environment ''EP_PROXY_PRINCIPAL_ID'' [] = '' px ''" by (simp add: get_or_def sample_environment_def)
  with service_starts_attested [OF s] s show ?thesis by auto
qed

definition sample_service :: service where
  "sample_service = \<lparr> se_proxy = sample_proxy, se_config = sample_pg_config, se_audience = ''proxy'', se_key = ''key'',
     se_capability = sample_capability, se_rate_limit = 30, se_rate_window = 60, se_service_id = ''svc'' \<rparr>"

definition sample_sql_payload :: "(string \<times> json) list" where
  "sample_sql_payload = [(''sql'', JStr ''select 1'')]"

definition sample_request :: "string \<Rightarrow> http_request" where
  "sample_request token = \<lparr> hr_path = ''/execute'', hr_client = ''c'',
     hr_body = Some (dumps (JObj [(''payload'', JObj sample_sql_payload), (''signed_token'', JStr token)])) \<rparr>"

definition sample_post :: "db \<Rightarrow> http_request \<Rightarrow> server_state \<times> db \<times> bool \<times> response" where
  "sample_post d r = do_post (\<lambda>d. execute_json sample_libs sample_auth_libs sample_host sample_service (\<lambda>_. Sql_Failed) d
     (sample_instant + seconds 60) (env_at (sample_instant + seconds 60) (\<lambda>n. replicate n CHR ''x'')) (sample_env ''m''))
     (\<lambda>s. s) sample_service \<lparr> sv_limits = (\<lambda>_. []), sv_metrics = metrics_new \<rparr> d 0 r"

theorem post_executes_only_through_proxy_witness:
  "\<exists>d r sv' d' resp. sample_post d r = (sv', d', True, resp) \<and> hr_path r = ''/execute''"
proof (rule sample_executes_on [of sample_sql_payload "pg_validate None" "pg_adapter None sample_pg_config (\<lambda>_. Sql_Failed)"], goal_cases)
  case 1
  show ?case by (simp add: json_canonical_hash_def json_hash_def sample_libs_def sample_sha_def sample_sql_payload_def)
next
  case (2 tok)
  show ?case unfolding pg_validate_def by code_simp
next
  case (3 d d1 d' k tok res)
  have w: "wf_json (\<lambda>s. s) (JObj [(''payload'', JObj sample_sql_payload), (''signed_token'', JStr (signed_text k))])"
    by (simp add: sample_sql_payload_def)
  have s: "sort_keys (JObj [(''payload'', JObj sample_sql_payload), (''signed_token'', JStr (signed_text k))])
      = JObj [(''payload'', JObj sample_sql_payload), (''signed_token'', JStr (signed_text k))]"
    by (simp add: sort_items_def sample_sql_payload_def)
  have f1: "truthy (JStr (signed_text k))" "truthy (JObj sample_sql_payload)"
    by (simp_all add: signed_text_def dumps_def sample_sql_payload_def)
  have f2: "rate_check (se_rate_limit sample_service) (se_rate_window sample_service) (\<lambda>_. []) 0 ''c'' = ((\<lambda>_. [])(''c'' := [0]), True)"
    by (simp add: rate_check_def sample_service_def)
  have f3: "execute_json sample_libs sample_auth_libs sample_host sample_service (\<lambda>_. Sql_Failed) d
     (sample_instant + seconds 60) (env_at (sample_instant + seconds 60) (\<lambda>n. replicate n CHR ''x'')) (sample_env ''m'')
     (JStr (signed_text k)) (JObj sample_sql_payload) = (d', True, res)"
    using 3(2) by (simp add: execute_json_def sample_execute_on_def sample_service_def sample_libs_def)
  have "\<exists>sv' resp. sample_post d (sample_request (signed_text k)) = (sv', d', True, resp)"
    unfolding sample_post_def
    by (intro exI, rule do_post_called [where request = "[(''payload'', JObj sample_sql_payload), (''signed_token'', JStr (signed_text k))]"])
      (use f1 f2 f3 json_loads_canonical [OF w, unfolded s] in \<open>simp_all add: sample_request_def field_def\<close>)
  then obtain sv' resp where p: "sample_post d (sample_request (signed_text k)) = (sv', d', True, resp)" by blast
  from post_executes_only_through_proxy [OF p [unfolded sample_post_def]]
  have "hr_path (sample_request (signed_text k)) = ''/execute''" by simp
  with p show ?case by blast
qed

text \<open>The counter of all requests, which \<open>/metrics\<close> publishes, never moves.\<close>

lemma requests_are_not_counted:
  "do_post run frep se sv d clock r = (sv', d', called, resp) \<Longrightarrow> sv_metrics sv' ''requests_total'' = sv_metrics sv ''requests_total''"
  by (auto simp: do_post_def Let_def count_result_def count_def metrics_inc_def
      split: if_splits prod.splits option.splits json.splits sum.splits)

text \<open>A body that is JSON but not an object ends the handler without an answer.\<close>

lemma array_body_gets_no_answer:
  "snd (snd (snd (do_post run (\<lambda>s. s) sample_service \<lparr> sv_limits = (\<lambda>_. []), sv_metrics = metrics_new \<rparr> d 0
     \<lparr> hr_path = ''/execute'', hr_client = ''c'', hr_body = Some ''[]'' \<rparr>))) = No_Response"
proof -
  have "json_loads (\<lambda>s. s) ''[]'' = Some (JArr [])" by code_simp
  then show ?thesis by (simp add: do_post_def rate_check_def sample_service_def)
qed

end
