(* ===== verification/Bypass.thy ===== *)
theory Bypass
  imports System
begin

section \<open>Bypass detection (bypass_detection.py)\<close>

text \<open>
  Reconciling what a target system reports with the audit events. An action of the target is a
  dictionary from its log; which actions there are, which endpoints answer and which credentials a
  host holds are arguments. \<open>repr\<close> is \<open>str\<close> of a value that is neither text nor a number. The dictionaries
  that index events and actions by hash keep the order of insertion (\<open>dict_put\<close>).
\<close>

type_synonym action = "(string \<times> json) list"

definition py_str :: "(json \<Rightarrow> string) \<Rightarrow> json \<Rightarrow> string" where
  "py_str repr v = (case v of JStr s \<Rightarrow> s | JInt i \<Rightarrow> show_int i | JFloat t \<Rightarrow> t | _ \<Rightarrow> repr v)"

subsection \<open>Hashes\<close>

definition extract_hash :: "(json \<Rightarrow> string) \<Rightarrow> action \<Rightarrow> string list \<Rightarrow> string option" where
  "extract_hash repr r ks = map_option (py_str repr) (first_truthy r ks)"

definition normalize_hash :: "string \<Rightarrow> string" where
  "normalize_hash h = (if starts_with ''sha256:'' h then drop 7 h else h)"

definition event_hash_of :: "(json \<Rightarrow> string) \<Rightarrow> event_row \<times> action \<Rightarrow> string option" where
  "event_hash_of repr ev = map_option normalize_hash (extract_hash repr (snd ev) [''payload_hash'', ''action_hash'', ''hash''])"

definition action_hash_of :: "(json \<Rightarrow> string) \<Rightarrow> action \<Rightarrow> string option" where
  "action_hash_of repr ta =
     map_option normalize_hash (extract_hash repr ta [''payload_hash'', ''action_hash'', ''hash'', ''query_hash''])"

subsection \<open>Reading the events\<close>

text \<open>The data of an event that is not an object has no \<open>get\<close>.\<close>

definition parse_event_data :: "json \<Rightarrow> ep_error + action" where
  "parse_event_data v = (case v of JObj kvs \<Rightarrow> Inr kvs | _ \<Rightarrow> Inl AttributeError)"

fun with_data :: "event_row list \<Rightarrow> ep_error + (event_row \<times> action) list" where
  "with_data [] = Inr []"
| "with_data (ev # evs) =
     bindE (parse_event_data (ev_event_data ev)) (\<lambda>data. bindE (with_data evs) (\<lambda>rest. Inr ((ev, data) # rest)))"

definition query_ep_events :: "db \<Rightarrow> string option \<Rightarrow> ep_error + (event_row \<times> action) list" where
  "query_ep_events d since =
     with_data (sort_key ev_created_at
       (filter (\<lambda>ev. ev_event_type ev = ''execution_succeeded''
                  \<and> (case since of None \<Rightarrow> True | Some s \<Rightarrow> s \<le> ev_created_at ev)) (events d)))"

subsection \<open>Reconciling\<close>

record report =
  rp_matched :: "((event_row \<times> action) \<times> action) list"
  rp_unmatched_target :: "action list"
  rp_unmatched_ep :: "(event_row \<times> action) list"
  rp_bypass_detected :: bool
  rp_checked_at :: string
  rp_summary :: string

definition index_by :: "('a \<Rightarrow> string option) \<Rightarrow> 'a list \<Rightarrow> (string \<times> 'a) list" where
  "index_by hash xs =
     fold (\<lambda>x d. case hash x of None \<Rightarrow> d | Some h \<Rightarrow> if h = [] then d else dict_put h x d) xs []"

definition add_without_hash :: "float_lib \<Rightarrow> (json \<Rightarrow> string) \<Rightarrow> action list \<Rightarrow> action list \<Rightarrow> action list" where
  "add_without_hash fval repr tas found =
     fold (\<lambda>ta found. if action_hash_of repr ta = None \<and> \<not> list_ex (\<lambda>f. py_eq fval (JObj f) (JObj ta)) found
                      then found @ [ta] else found) tas found"

definition summary_of :: "string \<Rightarrow> nat \<Rightarrow> nat \<Rightarrow> nat \<Rightarrow> string" where
  "summary_of checked_at matched target ep =
     ''Reconciliation at '' @ checked_at @ '': '' @ show_nat matched @ '' matched, '' @ show_nat target
     @ '' unmatched target (bypass), '' @ show_nat ep @ '' unmatched EP (phantom). Bypass detected: ''
     @ (if target > 0 then ''True'' else ''False'')"

definition reconcile_activity ::
  "float_lib \<Rightarrow> (json \<Rightarrow> string) \<Rightarrow> string \<Rightarrow> (event_row \<times> action) list \<Rightarrow> action list \<Rightarrow> report" where
  "reconcile_activity fval repr checked_at evs tas =
     (let ep_index = index_by (event_hash_of repr) evs; target_index = index_by (action_hash_of repr) tas;
          known = set (map fst ep_index); seen = set (map fst target_index);
          matched = map (\<lambda>(h, ev). (ev, the (map_of target_index h))) (filter (\<lambda>(h, _). h \<in> seen) ep_index);
          unmatched_ep = map snd (filter (\<lambda>(h, _). h \<notin> seen) ep_index);
          unmatched_target = add_without_hash fval repr tas (map snd (filter (\<lambda>(h, _). h \<notin> known) target_index)) in
      \<lparr> rp_matched = matched, rp_unmatched_target = unmatched_target, rp_unmatched_ep = unmatched_ep,
        rp_bypass_detected = (unmatched_target \<noteq> []), rp_checked_at = checked_at,
        rp_summary = summary_of checked_at (length matched) (length unmatched_target) (length unmatched_ep) \<rparr>)"

definition reconcile_postgres_activity ::
  "float_lib \<Rightarrow> (json \<Rightarrow> string) \<Rightarrow> string \<Rightarrow> db \<Rightarrow> (string option \<Rightarrow> action list) \<Rightarrow> string option \<Rightarrow> ep_error + report" where
  "reconcile_postgres_activity fval repr checked_at d reader since =
     bindE (query_ep_events d since) (\<lambda>evs. Inr (reconcile_activity fval repr checked_at evs (reader since)))"

subsection \<open>Agent hosts\<close>

definition check_agent_network_access :: "(string \<Rightarrow> nat \<Rightarrow> bool) \<Rightarrow> string \<Rightarrow> string list \<Rightarrow> string list" where
  "check_agent_network_access can_connect agent_host allowed =
     concat (map (\<lambda>port. let endpoint = agent_host @ '':'' @ show_nat port in
                    if endpoint \<notin> set allowed \<and> can_connect agent_host port then [endpoint] else [])
       [5432, 6379, 27017, 3306, 9092, 2379, 443, 80])"

definition check_credential_isolation :: "(string \<Rightarrow> string \<Rightarrow> bool) option \<Rightarrow> string \<Rightarrow> string list \<Rightarrow> string list" where
  "check_credential_isolation checker agent_host expected =
     filter ((case checker of None \<Rightarrow> (\<lambda>_ _. False) | Some f \<Rightarrow> f) agent_host) expected"

subsection \<open>Lemmas\<close>

lemma index_by_snoc:
  "index_by hash (xs @ [x]) = (case hash x of None \<Rightarrow> index_by hash xs
     | Some h \<Rightarrow> if h = [] then index_by hash xs else dict_put h x (index_by hash xs))"
  by (simp add: index_by_def split: option.split)

lemma dict_put_set: "set (dict_put k v d) \<subseteq> insert (k, v) (set d)"
  by (induction k v d rule: dict_put.induct) (auto split: if_splits)

lemma index_by_keys: "set (map fst (index_by hash xs)) = {h. h \<noteq> [] \<and> (\<exists>x \<in> set xs. hash x = Some h)}"
proof (induction xs rule: rev_induct)
  case Nil
  then show ?case by (simp add: index_by_def)
next
  case (snoc x xs)
  then show ?case by (auto simp: index_by_snoc dict_put_keys simp del: set_map split: option.splits)
qed

lemma index_by_entry: "(h, x) \<in> set (index_by hash xs) \<Longrightarrow> x \<in> set xs \<and> hash x = Some h"
proof (induction xs rule: rev_induct)
  case Nil
  then show ?case by (simp add: index_by_def)
next
  case (snoc x xs)
  then show ?case using dict_put_set by (fastforce simp: index_by_snoc split: option.splits if_splits)
qed

lemma add_without_hash_empty:
  "add_without_hash fval repr tas found = [] \<longleftrightarrow> found = [] \<and> (\<forall>ta \<in> set tas. action_hash_of repr ta \<noteq> None)"
proof (induction tas arbitrary: found)
  case (Cons ta tas)
  have "add_without_hash fval repr (ta # tas) found = add_without_hash fval repr tas
      (if action_hash_of repr ta = None \<and> \<not> list_ex (\<lambda>f. py_eq fval (JObj f) (JObj ta)) found then found @ [ta] else found)"
    by (simp add: add_without_hash_def)
  with Cons show ?case by auto
qed (simp add: add_without_hash_def)

definition known_hash :: "(json \<Rightarrow> string) \<Rightarrow> (event_row \<times> action) list \<Rightarrow> string \<Rightarrow> bool" where
  "known_hash repr evs h \<longleftrightarrow> (\<exists>ev \<in> set evs. event_hash_of repr ev = Some h)"

lemma filter_map_empty: "map f (filter P xs) = [] \<longleftrightarrow> (\<forall>x \<in> set xs. \<not> P x)"
  by (simp add: filter_empty_conv)

subsection \<open>Properties\<close>

lemma suspicious_iff:
  "(case x of None \<Rightarrow> True | Some h \<Rightarrow> P h) \<longleftrightarrow> x = None \<or> (\<exists>h. x = Some h \<and> P h)"
  by (cases x) auto

lemma known_hash_Nil: "known_hash repr [] = (\<lambda>_. False)"
  by (simp add: known_hash_def fun_eq_iff)

lemma hash_cases: "(case x of None \<Rightarrow> True | Some h \<Rightarrow> h \<noteq> [] \<and> \<not> False) \<longleftrightarrow> x \<noteq> Some []"
  by (cases x) auto

lemma not_all_clean:
  "(\<not> ((\<forall>x \<in> S. \<forall>h. f x = Some h \<longrightarrow> h = [] \<or> P h) \<and> (\<forall>x \<in> S. f x \<noteq> None)))
     \<longleftrightarrow> (\<exists>x \<in> S. f x = None \<or> (\<exists>h. f x = Some h \<and> h \<noteq> [] \<and> \<not> P h))"
  by auto

lemma bypass_detected_core:
  "rp_bypass_detected (reconcile_activity fval repr at_time evs tas) \<longleftrightarrow>
      (\<exists>ta \<in> set tas. case action_hash_of repr ta of None \<Rightarrow> True | Some h \<Rightarrow> h \<noteq> [] \<and> \<not> known_hash repr evs h)"
proof -
  let ?ei = "index_by (event_hash_of repr) evs" and ?ti = "index_by (action_hash_of repr) tas"
  have ek: "h \<in> set (map fst ?ei) \<longleftrightarrow> h \<noteq> [] \<and> known_hash repr evs h" for h
    unfolding index_by_keys known_hash_def by simp
  have "rp_bypass_detected (reconcile_activity fval repr at_time evs tas) \<longleftrightarrow>
      \<not> ((\<forall>x \<in> set ?ti. fst x \<in> set (map fst ?ei)) \<and> (\<forall>ta \<in> set tas. action_hash_of repr ta \<noteq> None))"
    by (simp add: reconcile_activity_def Let_def add_without_hash_empty filter_empty_conv case_prod_beta del: set_map)
  also have "(\<forall>x \<in> set ?ti. fst x \<in> set (map fst ?ei)) \<longleftrightarrow> (\<forall>h \<in> set (map fst ?ti). h \<in> set (map fst ?ei))"
    by simp
  also have "\<dots> \<longleftrightarrow> (\<forall>ta \<in> set tas. \<forall>h. action_hash_of repr ta = Some h \<longrightarrow> h = [] \<or> known_hash repr evs h)"
    unfolding ek unfolding index_by_keys by blast
  finally show ?thesis
    unfolding suspicious_iff by (simp only: not_all_clean)
qed

text \<open>C15: a bypass is reported exactly when some action of the target has no hash, or a hash that is not empty and
  that no recorded execution has; and what is reported as matched is a recorded execution and an action with
  the same hash.\<close>

theorem bypass_detected_iff:
  "(rp_bypass_detected (reconcile_activity fval repr at_time evs tas) \<longleftrightarrow>
      (\<exists>ta \<in> set tas. case action_hash_of repr ta of None \<Rightarrow> True | Some h \<Rightarrow> h \<noteq> [] \<and> \<not> known_hash repr evs h))
   \<and> set (rp_matched (reconcile_activity fval repr at_time evs tas))
      \<subseteq> {(ev, ta). ev \<in> set evs \<and> ta \<in> set tas \<and> event_hash_of repr ev = action_hash_of repr ta \<and> action_hash_of repr ta \<noteq> None}"
proof -
  let ?ei = "index_by (event_hash_of repr) evs" and ?ti = "index_by (action_hash_of repr) tas"
  have "ev \<in> set evs \<and> ta \<in> set tas \<and> event_hash_of repr ev = action_hash_of repr ta \<and> action_hash_of repr ta \<noteq> None"
    if "(ev, ta) \<in> set (rp_matched (reconcile_activity fval repr at_time evs tas))" for ev ta
  proof -
    from that obtain h where e: "(h, ev) \<in> set ?ei" and t: "h \<in> set (map fst ?ti)" "ta = the (map_of ?ti h)"
      by (auto simp: reconcile_activity_def Let_def)
    from t(1) have "map_of ?ti h = Some ta" using t(2) by (cases "map_of ?ti h") (auto simp: map_of_eq_None_iff)
    then have "(h, ta) \<in> set ?ti" by (rule map_of_SomeD)
    with index_by_entry [OF e] index_by_entry [OF this] show ?thesis by simp
  qed
  with bypass_detected_core show ?thesis by auto
qed

theorem bypass_detected_iff_witness:
  "\<not> rp_bypass_detected (reconcile_activity (\<lambda>_. 0) (\<lambda>_. []) [] [] [[(''hash'', JStr ''sha256:'')]])
   \<and> rp_bypass_detected (reconcile_activity (\<lambda>_. 0) (\<lambda>_. []) [] [] [[(''hash'', JStr ''sha256:ab'')]])"
  using bypass_detected_iff [of "\<lambda>_. 0" "\<lambda>_. []" "[]" "[]" "[[(''hash'', JStr ''sha256:'')]]"]
    bypass_detected_iff [of "\<lambda>_. 0" "\<lambda>_. []" "[]" "[]" "[[(''hash'', JStr ''sha256:ab'')]]"]
  by (simp add: action_hash_of_def extract_hash_def py_str_def normalize_hash_def known_hash_def)

subsection \<open>What modelling showed\<close>

text \<open>An action whose hash is the bare prefix is neither matched nor reported, and an action is matched as often
  as it is repeated: the second run of one authorized statement is no bypass.\<close>

lemma repetition_is_not_detected:
  "rp_bypass_detected (reconcile_activity fval repr t evs (tas @ [ta, ta]))
   = rp_bypass_detected (reconcile_activity fval repr t evs (tas @ [ta]))"
  by (simp only: bypass_detected_core) simp

text \<open>The detector reads events of the type \<open>execution_succeeded\<close>, which no operation writes: an execution is
  recorded as \<open>branch_committed\<close> or \<open>transition.succeeded\<close>. A run of the system, in which nobody writes such an
  event directly, has none.\<close>

definition no_execution_event :: "event_row list \<Rightarrow> bool" where
  "no_execution_event evs \<longleftrightarrow> (\<forall>ev \<in> set evs. ev_event_type ev \<noteq> ''execution_succeeded'')"

lemma no_execution_event_simps [simp]:
  "no_execution_event []"
  "no_execution_event (evs @ [ev]) \<longleftrightarrow> no_execution_event evs \<and> ev_event_type ev \<noteq> ''execution_succeeded''"
  by (auto simp: no_execution_event_def)

lemma commit_no_execution_event:
  assumes "keys_ok d" and "commit sha svc d e tid bid ag desc bt md eh ev l = Inr (d', res)"
    and "no_execution_event (events d)"
  shows "no_execution_event (events d')"
  by (rule commit_Inr [OF assms(1,2)]) (use assms(3) in simp)

lemma propose_no_execution_event:
  assumes "keys_ok d" and "propose lib svc pe d e ag br tool args key eh ev = Inr (d', t')"
    and "no_execution_event (events d)"
  shows "no_execution_event (events d')"
proof (cases "replayed d key")
  case True
  then show ?thesis using propose_replayed [OF True, of lib svc pe e ag br tool args eh ev] assms by simp
next
  case False
  show ?thesis
    by (rule propose_Inr [OF assms(1) False assms(2)]) (use assms(3) in \<open>simp add: verdict_type_def\<close>)
qed

lemma verify_and_claim_events: "keys_ok d \<Longrightarrow> verify_and_claim lib d e i text ph proxy key = Inr (d', cl) \<Longrightarrow> events d' = events d"
proof (cases cl)
  case (Some r)
  assume k: "keys_ok d" and "verify_and_claim lib d e i text ph proxy key = Inr (d', cl)"
  then have "verify_and_claim lib d e i text ph proxy key = Inr (d', Some r)" by (simp add: Some)
  then show ?thesis
    by (rule verify_and_claim_Some) (rule claim_and_advance_Some [OF k], assumption, simp)
qed (auto dest: verify_and_claim_None)

lemma advance_and_log_no_execution_event:
  assumes "advance_and_log sha svc d e i s event_id branch_id ty actor data = Inr (d', t')"
    and "no_execution_event (events d)" and "ty \<noteq> ''execution_succeeded''"
  shows "no_execution_event (events d')"
  by (rule advance_and_log_Inr [OF assms(1)]) (use assms in simp)

lemma decide_events: "decide d e i by st reason = Inr (d', Some r) \<Longrightarrow> events d' = events d"
  by (drule decide_table) simp

lemma sys_step_no_execution_event:
  assumes s: "sys_step sha d d'" and k: "keys_ok d" and n: "no_execution_event (events d)"
    and direct: "\<And>svc (e :: env) l ty data by caller evt.
      write_event sha svc d (now e) (ids e 0) l ty data by caller = Inr (d', evt) \<Longrightarrow> ty \<noteq> ''execution_succeeded''"
  shows "no_execution_event (events d')"
  using s
proof (cases rule: sys_step.cases)
  case (Propose lib svc pe e ag br tool args key eh ev t)
  show ?thesis by (rule propose_no_execution_event [OF k Propose(1) n])
next
  case (Approve svc e tid who ty reason t)
  show ?thesis
    by (rule approve_steps [OF Approve], rule advance_and_log_no_execution_event, assumption) (use decide_events n in auto)
next
  case (Deny svc e tid who reason t)
  show ?thesis
    by (rule deny_approval_steps [OF Deny], rule advance_and_log_no_execution_event, assumption) (use decide_events n in auto)
next
  case (Cancel svc e tid who t)
  show ?thesis
    by (rule cancel_steps [OF Cancel], rule advance_and_log_no_execution_event, assumption) (use n in auto)
next
  case (Result svc e tid x m nd t)
  show ?thesis by (rule record_result_Inr [OF k Result]) (use n in \<open>simp add: result_type_def\<close>)
next
  case (Reconcile svc e tid st rs cm bd bt md eh ev l res)
  show ?thesis
    by (rule reconcile_cases [OF k Reconcile]) (use n commit_no_execution_event [OF k _ n] in auto)
next
  case (Commit svc e tid bid ag desc bt md eh v l cr)
  show ?thesis by (rule commit_no_execution_event [OF k Commit n])
next
  case (Issue lb h ttl tm xid nonce tid ag pid bid aud tool ph ms cap t)
  show ?thesis by (rule issue_authorization_Inr [OF Issue]) (use n in simp)
next
  case (Claim lb e i token ph proxy key cl)
  show ?thesis using verify_and_claim_events [OF k Claim] n by simp
next
  case (Event svc e l ty data who caller evt)
  show ?thesis by (rule write_event_frame [OF Event]) (use n direct [OF Event] in simp)
next
  case (Expire e tid t)
  show ?thesis by (rule advance_stage_Inr [OF Expire]) (use n in simp)
next
  case Admin
  then show ?thesis using admin_frame n by simp
qed

inductive governed_run :: "(string \<Rightarrow> string) \<Rightarrow> db \<Rightarrow> db \<Rightarrow> bool" for sha where
  Start: "governed_run sha d d"
| Step: "governed_run sha d d1 \<Longrightarrow> sys_step sha d1 d2
     \<Longrightarrow> \<forall>svc (e :: env) l data by caller evt.
           write_event sha svc d1 (now e) (ids e 0) l ''execution_succeeded'' data by caller \<noteq> Inr (d2, evt)
     \<Longrightarrow> governed_run sha d d2"

lemma governed_run_no_execution_event:
  assumes "governed_run sha d d'" and "intact sha d" and "no_execution_event (events d)"
  shows "intact sha d' \<and> no_execution_event (events d')"
  using assms
proof (induction rule: governed_run.induct)
  case (Step d d1 d2)
  then have i: "intact sha d1" and n: "no_execution_event (events d1)" by simp_all
  have "no_execution_event (events d2)"
    by (rule sys_step_no_execution_event [OF Step.hyps(2) _ n]) (use i Step.hyps(3) in \<open>auto simp: intact_def\<close>)
  with sys_step_intact [OF i Step.hyps(2)] show ?case by blast
qed simp

lemma no_events_with_data: "with_data [] = Inr []" by simp

text \<open>After any run of the system the detector matches nothing: every execution that the target logs with a hash
  is reported as a bypass, authorized or not.\<close>

theorem governed_executions_count_as_bypasses:
  assumes "intact sha d" and "no_execution_event (events d)" and "governed_run sha d d'"
  shows "\<exists>rep. reconcile_postgres_activity fval repr at_time d' reader since = Inr rep \<and> rp_matched rep = []
    \<and> (rp_bypass_detected rep \<longleftrightarrow> (\<exists>ta \<in> set (reader since). action_hash_of repr ta \<noteq> Some []))"
proof -
  have "no_execution_event (events d')" using governed_run_no_execution_event assms by blast
  then have "query_ep_events d' since = Inr []"
    by (simp add: query_ep_events_def no_execution_event_def filter_empty_conv)
  moreover have "rp_bypass_detected (reconcile_activity fval repr at_time [] tas)
      \<longleftrightarrow> (\<exists>ta \<in> set tas. action_hash_of repr ta \<noteq> Some [])" for tas
    unfolding bypass_detected_core known_hash_Nil by (simp only: hash_cases)
  moreover have "rp_matched (reconcile_activity fval repr at_time [] tas) = []" for tas
    by (simp add: reconcile_activity_def Let_def index_by_def)
  ultimately show ?thesis by (simp add: reconcile_postgres_activity_def)
qed

theorem governed_executions_count_as_bypasses_witness:
  "\<exists>d rep. sample_fresh \<noteq> d \<and> governed_run sample_sha sample_fresh d
     \<and> reconcile_postgres_activity (\<lambda>_. 0) (\<lambda>_. []) [] d (\<lambda>_. [[(''payload_hash'', JStr ''sha256:ab'')]]) None = Inr rep
     \<and> rp_bypass_detected rep"
proof -
  obtain d t where p: "sample_propose (Some sample_allow) sample_fresh ''n'' ''k2'' = Inr (d, t)"
    and g: "get_transition d ''n'' = Some t" by (rule sample_fresh_propose)
  have n0: "no_execution_event (events sample_fresh)" by (simp add: sample_fresh_def sample_simps)
  have n1: "no_execution_event (events d)"
    by (rule propose_no_execution_event [OF _ p [unfolded sample_propose_def] n0]) simp
  have s: "sys_step sample_sha sample_fresh d"
    by (rule sys_step.Propose [OF p [unfolded sample_propose_def]]) (simp add: sample_libs_def)
  have "write_event sample_sha svc sample_fresh (now (e :: env)) (ids e 0) l ''execution_succeeded'' data who caller \<noteq> Inr (d, evt)"
    for svc e l data who caller evt
  proof
    assume "write_event sample_sha svc sample_fresh (now e) (ids e 0) l ''execution_succeeded'' data who caller = Inr (d, evt)"
    then show False by (rule write_event_frame) (use n1 in simp)
  qed
  then have run: "governed_run sample_sha sample_fresh d"
    by (intro governed_run.Step [OF governed_run.Start s]) blast
  have h: "action_hash_of (\<lambda>_. []) [(''payload_hash'', JStr ''sha256:ab'')] = Some ''ab''"
    by (simp add: action_hash_of_def extract_hash_def py_str_def normalize_hash_def)
  have "sample_fresh \<noteq> d"
    using g by (auto simp: sample_fresh_def get_transition_def)
  moreover from governed_executions_count_as_bypasses [OF sample_fresh_ok(2) n0 run, of "\<lambda>_. 0" "\<lambda>_. []" "[]"
      "\<lambda>_. [[(''payload_hash'', JStr ''sha256:ab'')]]" None]
  obtain rep where "reconcile_postgres_activity (\<lambda>_. 0) (\<lambda>_. []) [] d (\<lambda>_. [[(''payload_hash'', JStr ''sha256:ab'')]]) None = Inr rep"
    and "rp_bypass_detected rep" using h by auto
  ultimately show ?thesis using run by blast
qed

end
