(* ===== verification/Xid.thy ===== *)
theory Xid
  imports Prelude Errors "HOL-Library.List_Lexorder" "HOL-Library.Char_ord"
begin

section \<open>Identifiers (xid.py)\<close>

text \<open>
  An XID is twelve bytes, written as twenty characters of base32hex. Bytes are numbers below 256
  (\<open>raw_ok\<close>). \<open>regroup j k\<close> is the loop that both \<open>string\<close> and \<open>from_string\<close> run: it shifts
  groups of \<open>j\<close> bits into \<open>value\<close> and takes groups of \<open>k\<close> bits out while there are enough;
  \<open>value << j | x\<close> is \<open>value * 2 ^ j + x\<close>. The generator state is the module state of \<open>new\<close>:
  the counter, the last timestamp, the machine and the process.
\<close>

definition alphabet :: string where
  "alphabet = ''0123456789abcdefghijklmnopqrstuv''"

subsection \<open>Regrouping bits\<close>

text \<open>The inner \<open>while bits >= k\<close> loop: the groups taken out and the number of bits left.\<close>

fun drain :: "nat \<Rightarrow> nat \<Rightarrow> nat \<Rightarrow> nat list \<times> nat" where
  "drain k v bits =
     (if 0 < k \<and> k \<le> bits
      then (case drain k v (bits - k) of (ys, rest) \<Rightarrow> (v div 2 ^ (bits - k) mod 2 ^ k # ys, rest))
      else ([], bits))"

declare drain.simps [simp del]

fun regroup :: "nat \<Rightarrow> nat \<Rightarrow> nat list \<Rightarrow> nat \<Rightarrow> nat \<Rightarrow> nat list \<times> nat \<times> nat" where
  "regroup j k [] v bits = ([], v, bits)"
| "regroup j k (x # xs) v bits =
     (let v' = v * 2 ^ j + x in
      case drain k v' (bits + j) of
        (ys, bits') \<Rightarrow> (case regroup j k xs v' bits' of (zs, w, rest) \<Rightarrow> (ys @ zs, w, rest)))"

subsection \<open>XID\<close>

definition raw_ok :: "nat list \<Rightarrow> bool" where
  "raw_ok r \<longleftrightarrow> length r = 12 \<and> list_all (\<lambda>b. b < 256) r"

definition xid_of_bytes :: "nat list \<Rightarrow> ep_error + nat list" where
  "xid_of_bytes raw = bindE (requireE (length raw = 12) XIDError) (\<lambda>_. Inr raw)"

definition xid_string :: "nat list \<Rightarrow> string" where
  "xid_string raw =
     (case regroup 8 5 raw 0 0 of
        (ys, v, bits) \<Rightarrow>
          map (\<lambda>i. alphabet ! i) (ys @ (if bits > 0 then [v * 2 ^ (5 - bits) mod 32] else [])))"

definition char_index :: "char \<Rightarrow> nat option" where
  "char_index c = (if c \<in> set alphabet then Some (length (takeWhile (\<lambda>d. d \<noteq> c) alphabet)) else None)"

fun char_indices :: "string \<Rightarrow> ep_error + nat list" where
  "char_indices [] = Inr []"
| "char_indices (c # cs) =
     bindE (someE XIDError (char_index c)) (\<lambda>i. bindE (char_indices cs) (\<lambda>is. Inr (i # is)))"

definition from_string :: "string \<Rightarrow> ep_error + nat list" where
  "from_string s =
     bindE (requireE (length s = 20) XIDError) (\<lambda>_.
     bindE (char_indices s) (\<lambda>is. xid_of_bytes (fst (regroup 5 8 is 0 0))))"

text \<open>\<open>int.from_bytes(bytes, "big")\<close> and \<open>int.to_bytes(n, "big")\<close>.\<close>

fun be_value :: "nat \<Rightarrow> nat list \<Rightarrow> nat" where
  "be_value k [] = 0"
| "be_value k (x # xs) = x * 2 ^ (k * length xs) + be_value k xs"

fun be_bytes :: "nat \<Rightarrow> nat \<Rightarrow> nat list" where
  "be_bytes 0 n = []"
| "be_bytes (Suc w) n = n div 256 ^ w mod 256 # be_bytes w n"

definition to_bytes :: "nat \<Rightarrow> nat \<Rightarrow> ep_error + nat list" where
  "to_bytes w n = bindE (requireE (n < 256 ^ w) OverflowError) (\<lambda>_. Inr (be_bytes w n))"

definition xid_timestamp :: "nat list \<Rightarrow> nat" where
  "xid_timestamp raw = be_value 8 (take 4 raw)"

definition xid_machine :: "nat list \<Rightarrow> nat list" where
  "xid_machine raw = take 3 (drop 4 raw)"

definition xid_pid :: "nat list \<Rightarrow> nat" where
  "xid_pid raw = be_value 8 (take 2 (drop 7 raw))"

definition xid_counter :: "nat list \<Rightarrow> nat" where
  "xid_counter raw = be_value 8 (drop 9 raw)"

subsection \<open>Generating\<close>

record generator =
  g_machine :: "nat list"
  g_pid :: "nat list"
  g_counter :: nat
  g_last :: nat

definition generator_ok :: "generator \<Rightarrow> bool" where
  "generator_ok g \<longleftrightarrow> length (g_machine g) = 3 \<and> list_all (\<lambda>b. b < 256) (g_machine g)
     \<and> length (g_pid g) = 2 \<and> list_all (\<lambda>b. b < 256) (g_pid g) \<and> g_counter g < 2 ^ 24"

text \<open>\<open>XID.new\<close>, with the reading of the clock as an argument. The state is assigned before the
  conversions that may raise, so it is returned in both cases.\<close>

definition new_xid :: "generator \<Rightarrow> nat \<Rightarrow> generator \<times> (ep_error + nat list)" where
  "new_xid g clock =
     (let t = (if clock < g_last g then g_last g + 1 else clock);
          c = (g_counter g + 1) mod 2 ^ 24;
          g' = g\<lparr>g_last := t, g_counter := c\<rparr>
      in (g', bindE (to_bytes 4 t) (\<lambda>ts.
                bindE (to_bytes 3 c) (\<lambda>cs. xid_of_bytes (ts @ g_machine g @ g_pid g @ cs)))))"

definition fork_safe_reseed :: "generator \<Rightarrow> nat \<Rightarrow> nat list \<Rightarrow> generator" where
  "fork_safe_reseed g seed pid = g\<lparr>g_counter := seed mod 2 ^ 24, g_pid := pid\<rparr>"

text \<open>A sequence of calls with the readings of the clock.\<close>

fun new_xids :: "generator \<Rightarrow> nat list \<Rightarrow> (ep_error + nat list) list" where
  "new_xids g [] = []"
| "new_xids g (t # ts) = (case new_xid g t of (g', r) \<Rightarrow> r # new_xids g' ts)"

subsection \<open>Values of digit lists\<close>

lemma be_value_append: "be_value k (xs @ ys) = be_value k xs * 2 ^ (k * length ys) + be_value k ys"
  by (induction xs) (simp_all add: algebra_simps power_add)

lemma be_value_less: "list_all (\<lambda>x. x < 2 ^ k) xs \<Longrightarrow> be_value k xs < 2 ^ (k * length xs)"
proof (induction xs)
  case (Cons x xs)
  then have "be_value k xs < 2 ^ (k * length xs)" and x: "Suc x \<le> 2 ^ k" by simp_all
  then have "be_value k (x # xs) < Suc x * 2 ^ (k * length xs)" by simp
  also have "\<dots> \<le> 2 ^ k * 2 ^ (k * length xs)" using x by (rule mult_le_mono1)
  finally show ?case by (simp add: power_add)
qed simp

text \<open>Lists of digits of equal length are ordered as their values, and are equal when these are.\<close>

lemma be_value_less_iff:
  fixes xs ys :: "nat list"
  assumes "length xs = length ys" and "list_all (\<lambda>x. x < 2 ^ k) xs" and "list_all (\<lambda>x. x < 2 ^ k) ys"
  shows "xs < ys \<longleftrightarrow> be_value k xs < be_value k ys"
  using assms
proof (induction xs ys rule: list_induct2)
  case (Cons x xs y ys)
  then have b: "be_value k xs < 2 ^ (k * length ys)" "be_value k ys < 2 ^ (k * length ys)"
    using be_value_less [of k xs] be_value_less [of k ys] by simp_all
  show ?case
  proof (cases x y rule: linorder_cases)
    case less
    then have "Suc x * 2 ^ (k * length ys) \<le> y * 2 ^ (k * length ys)" by (intro mult_le_mono1) simp
    with b Cons.hyps less show ?thesis by simp
  next
    case greater
    then have "Suc y * 2 ^ (k * length ys) \<le> x * 2 ^ (k * length ys)" by (intro mult_le_mono1) simp
    with b Cons.hyps greater show ?thesis by simp
  next
    case equal
    then show ?thesis using Cons by simp
  qed
qed simp

lemma be_value_inj:
  fixes xs ys :: "nat list"
  assumes "length xs = length ys" and "list_all (\<lambda>x. x < 2 ^ k) xs" and "list_all (\<lambda>x. x < 2 ^ k) ys"
    and "be_value k xs = be_value k ys"
  shows "xs = ys"
  using be_value_less_iff [OF assms(1-3)] be_value_less_iff [OF assms(1) [symmetric] assms(3,2)] assms(4)
  by (metis less_irrefl linorder_less_linear)

subsection \<open>What regrouping computes\<close>

lemma drain_spec:
  assumes "0 < k" and "drain k v bits = (ys, r)"
  shows "r < k \<and> bits = k * length ys + r \<and> list_all (\<lambda>y. y < 2 ^ k) ys
    \<and> be_value k ys = v mod 2 ^ bits div 2 ^ r"
  using assms
proof (induction k v bits arbitrary: ys rule: drain.induct)
  case (1 k v bits)
  show ?case
  proof (cases "k \<le> bits")
    case False
    with 1 show ?thesis by (auto simp: drain.simps [of k v bits])
  next
    case True
    then obtain zs where d: "drain k v (bits - k) = (zs, r)" and ys: "ys = v div 2 ^ (bits - k) mod 2 ^ k # zs"
      using 1 by (auto simp: drain.simps [of k v bits] split: prod.splits)
    define b where "b = bits - k"
    have bits: "bits = b + k" using True by (simp add: b_def)
    from 1(1) [OF _ 1(2) d] True 1(2) have ih: "r < k" "b = k * length zs + r" "list_all (\<lambda>y. y < 2 ^ k) zs"
      "be_value k zs = v mod 2 ^ b div 2 ^ r" by (simp_all add: b_def)
    have "v mod 2 ^ bits = (v div 2 ^ b mod 2 ^ k) * 2 ^ b + v mod 2 ^ b"
      unfolding bits power_add by (simp add: mod_mult2_eq)
    also have "(2 :: nat) ^ b = 2 ^ (k * length zs) * 2 ^ r" by (simp add: ih(2) power_add)
    finally have "v mod 2 ^ bits div 2 ^ r = (v div 2 ^ b mod 2 ^ k) * 2 ^ (k * length zs) + v mod 2 ^ b div 2 ^ r"
      by (simp add: ih(2) power_add mult.assoc [symmetric])
    with ih show ?thesis by (simp add: ys bits flip: b_def)
  qed
qed

lemma regroup_spec:
  assumes "0 < k" and "bits < k" and "list_all (\<lambda>x. x < 2 ^ j) xs" and "regroup j k xs v bits = (ys, w, r)"
  shows "r < k \<and> bits + j * length xs = k * length ys + r \<and> list_all (\<lambda>y. y < 2 ^ k) ys
    \<and> v mod 2 ^ bits * 2 ^ (j * length xs) + be_value j xs = be_value k ys * 2 ^ r + w mod 2 ^ r"
  using assms
proof (induction j k xs v bits arbitrary: ys rule: regroup.induct)
  case (1 j k v bits)
  then show ?case by simp
next
  case (2 j k x xs v bits)
  define v' where "v' = v * 2 ^ j + x"
  obtain us r0 where d: "drain k v' (bits + j) = (us, r0)" by (cases "drain k v' (bits + j)")
  obtain zs where z: "regroup j k xs v' r0 = (zs, w, r)" and ys: "ys = us @ zs"
    using 2(5) d by (auto simp: Let_def v'_def split: prod.splits)
  have x: "x < 2 ^ j" using 2(4) by simp
  note D = drain_spec [OF 2(2) d]
  have ih: "r < k" "r0 + j * length xs = k * length zs + r" "list_all (\<lambda>y. y < 2 ^ k) zs"
    "v' mod 2 ^ r0 * 2 ^ (j * length xs) + be_value j xs = be_value k zs * 2 ^ r + w mod 2 ^ r"
    using 2(1) [OF v'_def d [symmetric] 2(2) _ _ z] D 2(4) by simp_all
  have "v' mod 2 ^ (bits + j) = (v mod 2 ^ bits) * 2 ^ j + x"
  proof -
    have "v' div 2 ^ j = v" "v' mod 2 ^ j = x" using x by (simp_all add: v'_def)
    then show ?thesis using mod_mult2_eq [of v' "2 ^ j" "2 ^ bits"] by (simp add: power_add mult.commute)
  qed
  moreover have "v' mod 2 ^ (bits + j) = be_value k us * 2 ^ r0 + v' mod 2 ^ r0"
  proof -
    have "r0 \<le> bits + j" using D by simp
    then have "(2 :: nat) ^ r0 dvd 2 ^ (bits + j)" by (rule le_imp_power_dvd)
    then have "v' mod 2 ^ (bits + j) mod 2 ^ r0 = v' mod 2 ^ r0" by (rule mod_mod_cancel)
    then show ?thesis using D div_mult_mod_eq [of "v' mod 2 ^ (bits + j)" "2 ^ r0"] by simp
  qed
  ultimately have e: "(v mod 2 ^ bits) * 2 ^ j + x = be_value k us * 2 ^ r0 + v' mod 2 ^ r0" by simp
  have "v mod 2 ^ bits * 2 ^ (j * length (x # xs)) + be_value j (x # xs)
      = ((v mod 2 ^ bits) * 2 ^ j + x) * 2 ^ (j * length xs) + be_value j xs"
    by (simp add: power_add algebra_simps)
  also have "\<dots> = be_value k us * 2 ^ (r0 + j * length xs) + (v' mod 2 ^ r0 * 2 ^ (j * length xs) + be_value j xs)"
    unfolding e by (simp add: power_add algebra_simps)
  also have "\<dots> = be_value k ys * 2 ^ r + w mod 2 ^ r"
    unfolding ih(2,4) by (simp add: ys be_value_append power_add algebra_simps)
  finally have "v mod 2 ^ bits * 2 ^ (j * length (x # xs)) + be_value j (x # xs) = be_value k ys * 2 ^ r + w mod 2 ^ r" .
  then show ?case using ih(1,2,3) D by (simp add: ys algebra_simps)
qed

subsection \<open>Text and bytes\<close>

lemma alphabet_facts: "length alphabet = 32" "sorted_wrt (<) alphabet" "distinct alphabet"
proof -
  show "length alphabet = 32" by (simp add: alphabet_def)
  show o: "sorted_wrt (<) alphabet" by code_simp
  show "distinct alphabet" using o by (simp add: strict_sorted_iff)
qed

lemma char_index_alphabet: "i < 32 \<Longrightarrow> char_index (alphabet ! i) = Some i"
proof -
  assume i: "i < 32"
  have "takeWhile (\<lambda>d. d \<noteq> alphabet ! i) alphabet = take i alphabet"
    using i alphabet_facts(1,3)
    by (intro takeWhile_eq_take_P_nth) (auto simp: nth_eq_iff_index_eq)
  with i show ?thesis using alphabet_facts(1) by (simp add: char_index_def)
qed

lemma char_indices_alphabet: "list_all (\<lambda>i. i < 32) is \<Longrightarrow> char_indices (map (\<lambda>i. alphabet ! i) is) = Inr is"
  by (induction "is") (simp_all add: char_index_alphabet)

text \<open>The twenty digits of an XID.\<close>

lemma xid_digits:
  assumes "raw_ok raw"
  obtains ds where "xid_string raw = map (\<lambda>i. alphabet ! i) ds" and "length ds = 20"
    and "list_all (\<lambda>i. i < 32) ds" and "be_value 5 ds = 16 * be_value 8 raw"
proof -
  obtain ys w r where g: "regroup 8 5 raw 0 0 = (ys, w, r)" by (cases "regroup 8 5 raw 0 0")
  have s: "r < 5" "96 = 5 * length ys + r" "list_all (\<lambda>y. y < 32) ys"
    "be_value 8 raw = be_value 5 ys * 2 ^ r + w mod 2 ^ r"
    using regroup_spec [OF _ _ _ g] assms by (simp_all add: raw_ok_def)
  from s(1,2) have r: "r = 1" by presburger
  with s(2) have l: "length ys = 19" by simp
  have w: "w * 16 mod 32 = 16 * (w mod 2)"
    using mod_mult_mult1 [of 16 w 2] by (simp only: mult.commute [of w]) simp
  show thesis
  proof (rule that)
    show "xid_string raw = map (\<lambda>i. alphabet ! i) (ys @ [w * 2 ^ 4 mod 32])"
      by (simp add: xid_string_def g r)
    show "be_value 5 (ys @ [w * 2 ^ 4 mod 32]) = 16 * be_value 8 raw"
      using s(4) by (simp add: be_value_append w r)
  qed (use s(3) l in simp_all)
qed

lemma from_string_digits:
  assumes "length ds = 20" and "list_all (\<lambda>i. i < 32) ds"
  obtains bs where "from_string (map (\<lambda>i. alphabet ! i) ds) = Inr bs" and "raw_ok bs"
    and "be_value 8 bs = be_value 5 ds div 16"
proof -
  obtain ys w r where g: "regroup 5 8 ds 0 0 = (ys, w, r)" by (cases "regroup 5 8 ds 0 0")
  have s: "r < 8" "100 = 8 * length ys + r" "list_all (\<lambda>y. y < 256) ys"
    "be_value 5 ds = be_value 8 ys * 2 ^ r + w mod 2 ^ r"
    using regroup_spec [OF _ _ _ g] assms by simp_all
  from s(1,2) have r: "r = 4" by presburger
  with s(2) have l: "length ys = 12" by simp
  show thesis
  proof (rule that)
    show "from_string (map (\<lambda>i. alphabet ! i) ds) = Inr ys"
      using assms l by (simp add: from_string_def char_indices_alphabet g xid_of_bytes_def)
    show "raw_ok ys" using s(3) l by (simp add: raw_ok_def)
    have "be_value 5 ds = be_value 8 ys * 16 + w mod 16" using s(4) r by simp
    then show "be_value 8 ys = be_value 5 ds div 16" by simp
  qed
qed

lemma from_xid_string:
  assumes "raw_ok raw"
  shows "length (xid_string raw) = 20 \<and> from_string (xid_string raw) = Inr raw"
proof (rule xid_digits [OF assms])
  fix ds
  assume ds: "xid_string raw = map (\<lambda>i. alphabet ! i) ds" "length ds = 20" "list_all (\<lambda>i. i < 32) ds"
    "be_value 5 ds = 16 * be_value 8 raw"
  show ?thesis
  proof (rule from_string_digits [OF ds(2,3)])
    fix bs
    assume bs: "from_string (map (\<lambda>i. alphabet ! i) ds) = Inr bs" "raw_ok bs" "be_value 8 bs = be_value 5 ds div 16"
    have "bs = raw"
      using bs assms ds(4) by (intro be_value_inj [of _ _ 8]) (simp_all add: raw_ok_def)
    with bs ds show ?thesis by simp
  qed
qed

text \<open>An identifier is read back from its text, which always has twenty characters.\<close>

theorem xid_round_trip:
  assumes "raw_ok raw"
  shows "length (xid_string raw) = 20 \<and> from_string (xid_string raw) = Inr raw"
  using assms by (rule from_xid_string)

theorem xid_round_trip_witness:
  "from_string (xid_string [0, 1, 2, 3, 4, 5, 6, 7, 8, 9, 254, 255]) = Inr [0, 1, 2, 3, 4, 5, 6, 7, 8, 9, 254, 255]"
  using xid_round_trip [of "[0, 1, 2, 3, 4, 5, 6, 7, 8, 9, 254, 255]"] by (simp add: raw_ok_def)

lemma map_alphabet_less:
  assumes "length xs = length ys" and "list_all (\<lambda>i. i < 32) xs" and "list_all (\<lambda>i. i < 32) ys"
  shows "map (\<lambda>i. alphabet ! i) xs < map (\<lambda>i. alphabet ! i) ys \<longleftrightarrow> xs < ys"
proof -
  have "alphabet ! x < alphabet ! y \<longleftrightarrow> x < y" "alphabet ! x = alphabet ! y \<longleftrightarrow> x = y"
    if "x < 32" "y < 32" for x y
  proof -
    have "x < y \<Longrightarrow> alphabet ! x < alphabet ! y" "y < x \<Longrightarrow> alphabet ! y < alphabet ! x"
      using that alphabet_facts(1,2) by (simp_all add: sorted_wrt_nth_less)
    then show "alphabet ! x < alphabet ! y \<longleftrightarrow> x < y" by (metis less_irrefl less_not_sym linorder_less_linear)
    show "alphabet ! x = alphabet ! y \<longleftrightarrow> x = y"
      using that alphabet_facts(1,3) by (simp add: nth_eq_iff_index_eq)
  qed
  with assms show ?thesis by (induction xs ys rule: list_induct2) auto
qed

text \<open>The texts of identifiers sort as their bytes, so an identifier with an earlier time stamp
  sorts before one with a later time stamp.\<close>

theorem xid_time_order:
  assumes "raw_ok a" and "raw_ok b"
  shows "(xid_string a < xid_string b \<longleftrightarrow> a < b)
    \<and> (xid_timestamp a < xid_timestamp b \<longrightarrow> xid_string a < xid_string b)"
proof -
  obtain ds where ds: "xid_string a = map (\<lambda>i. alphabet ! i) ds" "length ds = 20" "list_all (\<lambda>i. i < 32) ds"
    "be_value 5 ds = 16 * be_value 8 a" by (rule xid_digits [OF assms(1)])
  obtain es where es: "xid_string b = map (\<lambda>i. alphabet ! i) es" "length es = 20" "list_all (\<lambda>i. i < 32) es"
    "be_value 5 es = 16 * be_value 8 b" by (rule xid_digits [OF assms(2)])
  have "xid_string a < xid_string b \<longleftrightarrow> ds < es" using ds es by (simp add: map_alphabet_less)
  also have "\<dots> \<longleftrightarrow> be_value 5 ds < be_value 5 es" using ds es by (intro be_value_less_iff) simp_all
  also have "\<dots> \<longleftrightarrow> a < b"
    using be_value_less_iff [of a b 8] assms by (simp add: ds(4) es(4) raw_ok_def)
  finally have o: "xid_string a < xid_string b \<longleftrightarrow> a < b" .
  have "a < b" if "xid_timestamp a < xid_timestamp b"
  proof -
    have t: "take 4 a < take 4 b"
      using that assms be_value_less_iff [of "take 4 a" "take 4 b" 8]
      by (auto simp: xid_timestamp_def raw_ok_def list_all_iff dest: in_set_takeD)
    have "length (take 4 a) = length (take 4 b)" using assms by (simp add: raw_ok_def)
    then have "xs < ys \<Longrightarrow> length xs = length ys \<Longrightarrow> xs @ us < ys @ vs" for xs ys us vs :: "nat list"
      by (induction xs arbitrary: ys) (auto simp: length_Suc_conv Suc_length_conv)
    from this [OF t, of "drop 4 a" "drop 4 b"] show ?thesis using assms by (simp add: raw_ok_def)
  qed
  with o show ?thesis by blast
qed

theorem xid_time_order_witness:
  "xid_string [0, 0, 0, 9, 255, 255, 255, 255, 255, 255, 255, 255] < xid_string [0, 0, 1, 0, 0, 0, 0, 0, 0, 0, 0, 0]"
  using xid_time_order [of "[0, 0, 0, 9, 255, 255, 255, 255, 255, 255, 255, 255]" "[0, 0, 1, 0, 0, 0, 0, 0, 0, 0, 0, 0]"]
  by (simp add: raw_ok_def xid_timestamp_def)

text \<open>The text does not determine the identifier's spelling: the last character carries one bit, and
  \<open>from_string\<close> ignores the other four.\<close>

lemma padding_is_ignored:
  "from_string ''00000000000000000000'' = from_string ''00000000000000000001''"
  by code_simp

subsection \<open>Fresh identifiers\<close>

lemma be_bytes_length [simp]: "length (be_bytes w n) = w"
  by (induction w) simp_all

lemma be_bytes_small: "list_all (\<lambda>b. b < 256) (be_bytes w n)"
  by (induction w) simp_all

lemma be_bytes_value: "n < 256 ^ w \<Longrightarrow> be_value 8 (be_bytes w n) = n"
proof -
  have "be_value 8 (be_bytes w n) = n mod 256 ^ w" for w
  proof (induction w)
    case (Suc w)
    have "n mod 256 ^ Suc w = (n div 256 ^ w mod 256) * 256 ^ w + n mod 256 ^ w"
      using mod_mult2_eq [of n "256 ^ w" 256] by (simp add: mult.commute)
    with Suc show ?case by (simp add: power_mult)
  qed simp
  then show "n < 256 ^ w \<Longrightarrow> be_value 8 (be_bytes w n) = n" by simp
qed

lemma new_xid_Inr:
  assumes "generator_ok g" and "new_xid g t = (g', Inr raw)"
  shows "raw_ok raw" and "xid_counter raw = (g_counter g + 1) mod 2 ^ 24"
    and "xid_timestamp raw = (if t < g_last g then g_last g + 1 else t)"
  using assms be_bytes_small
  by (auto simp: new_xid_def Let_def to_bytes_def xid_of_bytes_def raw_ok_def generator_ok_def xid_counter_def
      xid_timestamp_def be_bytes_value)

lemma new_xid_state:
  "fst (new_xid g t) = g\<lparr>g_last := (if t < g_last g then g_last g + 1 else t), g_counter := (g_counter g + 1) mod 2 ^ 24\<rparr>"
  by (simp add: new_xid_def Let_def)

lemma new_xid_ok: "generator_ok g \<Longrightarrow> generator_ok (fst (new_xid g t))"
  by (simp add: new_xid_state generator_ok_def)

lemma new_xids_length [simp]: "length (new_xids g ts) = length ts"
  by (induction ts arbitrary: g) (simp_all split: prod.split)

lemma mod_shift: "((c + 1) mod m + 1 + j) mod m = (c + 1 + Suc j) mod (m :: nat)"
  using mod_add_left_eq [of "c + 1" m "1 + j"] by (simp add: ac_simps)

lemma mod_offset:
  fixes c m :: nat
  assumes "i < j" and "j - i < m"
  shows "(c + i) mod m \<noteq> (c + j) mod m"
proof
  assume "(c + i) mod m = (c + j) mod m"
  then have "m dvd (c + j) - (c + i)"
    using assms(1) mod_eq_dvd_iff_nat [of "c + i" "c + j" m] by simp
  with assms show False by (auto dest: dvd_imp_le)
qed

lemma new_xids_counter:
  assumes "generator_ok g" and "i < length ts" and "new_xids g ts ! i = Inr raw"
  shows "raw_ok raw \<and> xid_counter raw = (g_counter g + 1 + i) mod 2 ^ 24"
  using assms
proof (induction ts arbitrary: g i)
  case (Cons t ts)
  obtain g' r where n: "new_xid g t = (g', r)" by (cases "new_xid g t")
  then have g': "g' = fst (new_xid g t)" by simp
  show ?case
  proof (cases i)
    case 0
    then show ?thesis using new_xid_Inr [OF Cons.prems(1), of t g' raw] Cons.prems n by simp
  next
    case (Suc j)
    have "generator_ok g'" using new_xid_ok [OF Cons.prems(1)] g' by simp
    then have "raw_ok raw \<and> xid_counter raw = (g_counter g' + 1 + j) mod 2 ^ 24"
      using Cons.prems Suc n by (intro Cons.IH) simp_all
    moreover have "g_counter g' = (g_counter g + 1) mod 2 ^ 24" by (simp add: g' new_xid_state)
    ultimately show ?thesis using mod_shift [of "g_counter g" "2 ^ 24" j] Suc by simp
  qed
qed simp

text \<open>C40: fresh identifiers are distinct. Up to 16777216 consecutive calls of \<open>new\<close> in one process give
  pairwise different identifiers and texts, whatever the clock shows, even when it is set back.\<close>

theorem new_xids_distinct:
  assumes g: "generator_ok g" and n: "length ts \<le> 2 ^ 24" and ij: "i < j" "j < length ts"
    and a: "new_xids g ts ! i = Inr a" and b: "new_xids g ts ! j = Inr b"
  shows "a \<noteq> b \<and> xid_string a \<noteq> xid_string b"
proof -
  have i: "i < length ts" using ij by simp
  note A = new_xids_counter [OF g i a] and B = new_xids_counter [OF g ij(2) b]
  have "j - i < 2 ^ 24" using ij n by linarith
  with ij(1) have "(g_counter g + 1 + i) mod 2 ^ 24 \<noteq> (g_counter g + 1 + j) mod 2 ^ 24"
    by (rule mod_offset)
  with A B have ne: "a \<noteq> b" by auto
  moreover have "xid_string a \<noteq> xid_string b"
    using from_xid_string [of a] from_xid_string [of b] conjunct1 [OF A] conjunct1 [OF B] ne by auto
  ultimately show ?thesis by blast
qed

definition sample_generator :: generator where
  "sample_generator = \<lparr> g_machine = [1, 2, 3], g_pid = [4, 5], g_counter = 16777215, g_last = 1800000000 \<rparr>"

theorem new_xids_distinct_witness:
  "\<exists>a b. new_xids sample_generator [1700000000, 1700000000] = [Inr a, Inr b] \<and> a \<noteq> b"
proof -
  have e: "\<exists>a b. new_xids sample_generator [1700000000, 1700000000] = [Inr a, Inr b]"
    by (simp add: sample_generator_def new_xid_def Let_def to_bytes_def xid_of_bytes_def)
  then obtain a b where ab: "new_xids sample_generator [1700000000, 1700000000] = [Inr a, Inr b]" by blast
  have "a \<noteq> b \<and> xid_string a \<noteq> xid_string b"
    by (rule new_xids_distinct [of sample_generator "[1700000000, 1700000000]" 0 1])
      (simp_all only: ab, simp_all add: generator_ok_def sample_generator_def)
  with ab show ?thesis by blast
qed

end
