(* ===== verification/Catalog.thy ===== *)
theory Catalog
  imports Classification
begin

section \<open>The catalog of action types (action_catalog.py)\<close>

text \<open>
  The static table of action types with its lookups, and how it agrees with the types that the classifiers
  give to actions.
\<close>

datatype action_def = Action_Type (at_name: string) (at_category: string) (at_description: string)
  (at_risk_level: string) (at_reversible: bool)

definition postgres_actions :: "action_def list" where
  "postgres_actions = [
     Action_Type ''postgres.execute.select'' ''postgres'' ''Read-only SQL SELECT queries'' ''low'' True,
     Action_Type ''postgres.execute.insert'' ''postgres'' ''SQL INSERT statements'' ''medium'' False,
     Action_Type ''postgres.execute.update'' ''postgres'' ''SQL UPDATE statements'' ''medium'' False,
     Action_Type ''postgres.execute.delete'' ''postgres'' ''SQL DELETE statements'' ''high'' False,
     Action_Type ''postgres.execute.drop'' ''postgres'' ''SQL DROP TABLE/DATABASE statements'' ''high'' False,
     Action_Type ''postgres.execute.create'' ''postgres'' ''SQL CREATE TABLE/INDEX statements'' ''medium'' True,
     Action_Type ''postgres.execute.alter'' ''postgres'' ''SQL ALTER TABLE statements'' ''high'' False,
     Action_Type ''postgres.execute.opaque'' ''postgres'' ''Unclassified SQL (complex/multi-statement)'' ''high'' False]"

definition shell_actions :: "action_def list" where
  "shell_actions = [
     Action_Type ''shell.exec'' ''shell'' ''General shell command execution'' ''high'' False,
     Action_Type ''shell.exec.ls'' ''shell'' ''List directory contents'' ''low'' True,
     Action_Type ''shell.exec.cat'' ''shell'' ''Display file contents'' ''low'' True,
     Action_Type ''shell.exec.grep'' ''shell'' ''Search file contents'' ''low'' True,
     Action_Type ''shell.exec.find'' ''shell'' ''Find files by criteria'' ''low'' True,
     Action_Type ''shell.exec.head'' ''shell'' ''Display first lines of file'' ''low'' True,
     Action_Type ''shell.exec.tail'' ''shell'' ''Display last lines of file'' ''low'' True,
     Action_Type ''shell.exec.wc'' ''shell'' ''Count words/lines/bytes'' ''low'' True,
     Action_Type ''shell.exec.ps'' ''shell'' ''List running processes'' ''low'' True,
     Action_Type ''shell.exec.df'' ''shell'' ''Report disk usage'' ''low'' True,
     Action_Type ''shell.exec.opaque'' ''shell'' ''Unclassified shell command (pipes, redirects, etc.)'' ''high'' False]"

definition git_actions :: "action_def list" where
  "git_actions = [
     Action_Type ''git.status'' ''git'' ''Show working tree status'' ''low'' True,
     Action_Type ''git.log'' ''git'' ''Show commit history'' ''low'' True,
     Action_Type ''git.diff'' ''git'' ''Show changes between commits'' ''low'' True,
     Action_Type ''git.show'' ''git'' ''Show information about a commit'' ''low'' True,
     Action_Type ''git.branch'' ''git'' ''List/create branches'' ''low'' True,
     Action_Type ''git.fetch'' ''git'' ''Download objects from remote'' ''low'' True,
     Action_Type ''git.pull'' ''git'' ''Fetch and merge from remote'' ''medium'' False,
     Action_Type ''git.push'' ''git'' ''Push commits to remote'' ''medium'' False,
     Action_Type ''git.commit'' ''git'' ''Record changes to the repository'' ''medium'' False,
     Action_Type ''git.reset'' ''git'' ''Reset current HEAD to specified state'' ''high'' False,
     Action_Type ''git.merge'' ''git'' ''Join two or more development histories'' ''medium'' False,
     Action_Type ''git.rebase'' ''git'' ''Reapply commits on top of another base tip'' ''high'' False,
     Action_Type ''git.checkout'' ''git'' ''Switch branches or restore files'' ''medium'' False]"

definition http_actions :: "action_def list" where
  "http_actions = [
     Action_Type ''http.get'' ''http'' ''HTTP GET requests'' ''low'' True,
     Action_Type ''http.post'' ''http'' ''HTTP POST requests'' ''medium'' False,
     Action_Type ''http.put'' ''http'' ''HTTP PUT requests'' ''medium'' False,
     Action_Type ''http.delete'' ''http'' ''HTTP DELETE requests'' ''high'' False,
     Action_Type ''http.patch'' ''http'' ''HTTP PATCH requests'' ''medium'' False]"

definition file_actions :: "action_def list" where
  "file_actions = [
     Action_Type ''file.read'' ''file'' ''Read file contents'' ''low'' True,
     Action_Type ''file.write'' ''file'' ''Write to a file'' ''medium'' False,
     Action_Type ''file.delete'' ''file'' ''Delete a file'' ''high'' False,
     Action_Type ''file.move'' ''file'' ''Move/rename a file'' ''medium'' False,
     Action_Type ''file.copy'' ''file'' ''Copy a file'' ''low'' True,
     Action_Type ''file.list'' ''file'' ''List directory contents'' ''low'' True]"

definition docker_actions :: "action_def list" where
  "docker_actions = [
     Action_Type ''docker.ps'' ''docker'' ''List containers'' ''low'' True,
     Action_Type ''docker.logs'' ''docker'' ''Show container logs'' ''low'' True,
     Action_Type ''docker.inspect'' ''docker'' ''Inspect container details'' ''low'' True,
     Action_Type ''docker.start'' ''docker'' ''Start a container'' ''medium'' False,
     Action_Type ''docker.stop'' ''docker'' ''Stop a container'' ''medium'' False,
     Action_Type ''docker.restart'' ''docker'' ''Restart a container'' ''medium'' False,
     Action_Type ''docker.exec'' ''docker'' ''Execute command in a container'' ''high'' False,
     Action_Type ''docker.rm'' ''docker'' ''Remove a container'' ''high'' False]"

definition email_actions :: "action_def list" where
  "email_actions = [
     Action_Type ''email.send'' ''email'' ''Send an email message'' ''medium'' False,
     Action_Type ''email.read'' ''email'' ''Read email messages'' ''low'' True]"

definition all_actions :: "action_def list" where
  "all_actions = postgres_actions @ shell_actions @ git_actions @ http_actions @ file_actions @ docker_actions @ email_actions"

definition action_map :: "string \<Rightarrow> action_def option" where
  "action_map = map_of (map (\<lambda>a. (at_name a, a)) (rev all_actions))"

definition all_action_names :: "string set" where
  "all_action_names = at_name ` set all_actions"

definition action_categories :: "string set" where
  "action_categories = at_category ` set all_actions"

definition get_action :: "string \<Rightarrow> action_def option" where
  "get_action name = action_map name"

definition is_known_action :: "string \<Rightarrow> bool" where
  "is_known_action name \<longleftrightarrow> name \<in> all_action_names"

definition get_actions_by_category :: "string \<Rightarrow> action_def list" where
  "get_actions_by_category category = filter (\<lambda>a. at_category a = category) all_actions"

definition get_actions_by_risk :: "string \<Rightarrow> action_def list" where
  "get_actions_by_risk level = filter (\<lambda>a. at_risk_level a = level) all_actions"

definition get_high_risk_actions :: "action_def list" where
  "get_high_risk_actions = filter (\<lambda>a. at_risk_level a = ''high'') all_actions"

subsection \<open>The table\<close>

lemmas actions_defs = postgres_actions_def shell_actions_def git_actions_def http_actions_def file_actions_def docker_actions_def email_actions_def all_actions_def

lemma action_names_distinct: "distinct (map at_name all_actions)"
  by code_simp

text \<open>Each name is prefixed by its category, and each risk level is one of three.\<close>

lemma action_names_prefixed:
  "list_all (\<lambda>a. starts_with (at_category a @ ''.'') (at_name a)
     \<and> at_risk_level a \<in> set [''low'', ''medium'', ''high'']) all_actions"
  by code_simp

text \<open>The map of names finds exactly the rows of the table.\<close>

lemma get_action_iff: "get_action name = Some a \<longleftrightarrow> a \<in> set all_actions \<and> at_name a = name"
proof -
  have "distinct (map fst (map (\<lambda>a. (at_name a, a)) (rev all_actions)))"
    using action_names_distinct by (simp add: comp_def rev_map [symmetric])
  then show ?thesis by (auto simp: get_action_def action_map_def)
qed

lemma is_known_action_iff: "is_known_action name \<longleftrightarrow> get_action name \<noteq> None"
  using get_action_iff [of name] by (auto simp: is_known_action_def all_action_names_def)

lemma get_high_risk_actions_alt: "get_high_risk_actions = get_actions_by_risk ''high''"
  by (simp add: get_high_risk_actions_def get_actions_by_risk_def)

subsection \<open>The classifiers and the catalog\<close>

definition sql_types :: "string list" where
  "sql_types = map (append ''postgres.execute.'') (sql_operations @ [''opaque'', ''multi''])"

definition shell_types :: "string list" where
  "shell_types = map (append ''shell.exec.'') (bounded_commands @ [''opaque''])"

text \<open>The types that the classifiers produce and the catalog does not list.\<close>

definition uncatalogued :: "string list" where
  "uncatalogued = filter (\<lambda>t. t \<notin> set (map at_name all_actions)) (sql_types @ shell_types @ [''opaque''])"

lemma uncatalogued_types:
  "uncatalogued = map (append ''postgres.execute.'') [''truncate'', ''merge'', ''grant'', ''revoke'', ''set'', ''begin'',
       ''commit'', ''rollback'', ''multi'']
     @ map (append ''shell.exec.'') [''echo'', ''pwd'', ''whoami'', ''date'', ''uptime''] @ [''opaque'']"
  by code_simp

lemma find_member: "find P xs = Some x \<Longrightarrow> x \<in> set xs"
  by (auto simp: find_Some_iff)

lemma sql_types_opaque:
  "''postgres.execute.opaque'' \<in> set sql_types" "''postgres.execute.multi'' \<in> set sql_types"
  by (simp_all add: sql_types_def)

lemma sql_types_operation: "op \<in> set sql_operations \<Longrightarrow> ''postgres.execute.'' @ op \<in> set sql_types"
  unfolding sql_types_def set_map set_append by blast

lemma shell_types_opaque: "''shell.exec.opaque'' \<in> set shell_types"
  by (simp add: shell_types_def)

lemma shell_types_command: "p \<in> set bounded_commands \<Longrightarrow> ''shell.exec.'' @ p \<in> set shell_types"
  unfolding shell_types_def set_map set_append by blast

lemma constructed_types:
  "action_type (opaque_sql ty how conf) = ty" "action_type (sql_result op res how conf) = ''postgres.execute.'' @ op"
  "action_type (opaque_shell how) = ''shell.exec.opaque''"
  by (simp_all add: opaque_sql_def sql_result_def opaque_shell_def)

lemma classify_with_sqlglot_type: "action_type (classify_with_sqlglot parsed) \<in> set sql_types"
  unfolding classify_with_sqlglot_def
  by (simp add: constructed_types(1) sql_types_opaque split: list.split option.split)
    (auto simp only: constructed_types(2) intro!: sql_types_operation dest: find_member)

lemma classify_with_regex_type: "action_type (classify_with_regex sql) \<in> set sql_types"
  unfolding classify_with_regex_def Let_def
  by (simp add: constructed_types(1) sql_types_opaque split: option.split)
    (auto simp only: constructed_types(2) intro!: sql_types_operation dest: find_member)

lemma classify_sql_type: "classify_sql sqlglot args = Inr c \<Longrightarrow> action_type c \<in> set sql_types"
  by (auto simp: classify_sql_def constructed_types(1) sql_types_opaque classify_with_sqlglot_type classify_with_regex_type
      split: if_splits option.splits sum.splits)

lemma classify_shell_type:
  assumes "classify_shell args = Inr c"
  shows "action_type c \<in> set shell_types"
proof -
  have "action_type c = ''shell.exec.opaque'' \<or> (\<exists>p \<in> set bounded_commands. action_type c = ''shell.exec.'' @ p)"
    using assms by (auto simp: classify_shell_def opaque_shell_def Let_def split: if_splits option.splits list.splits)
  then show ?thesis using shell_types_opaque shell_types_command by metis
qed

text \<open>Every action type that a classifier gives is in the catalog or is one of these fifteen.\<close>

lemma classified_types_known:
  assumes "classify sqlglot tool args = Inr c"
  shows "is_known_action (action_type c) \<or> action_type c \<in> set uncatalogued"
proof -
  have "action_type c \<in> set (sql_types @ shell_types @ [''opaque''])"
    using assms
    by (auto simp: classify_def classify_tool_def no_classifier_def dest: classify_sql_type classify_shell_type
        split: if_splits option.splits)
  then show ?thesis by (auto simp: uncatalogued_def is_known_action_def all_action_names_def)
qed

end
