(* ===== verification/Migrations.thy ===== *)
theory Migrations
  imports Config Resources
begin

section \<open>Migrations and transactions (db/)\<close>

text \<open>
  The runner of the migration files (db/__init__.py), the engine of a SQLite file (db/sqlite.py) and the context
  managers around every write (db/transactions.py). What a statement does to the database is an
  argument: \<open>exec\<close> gives the state after it, or the exception.
\<close>

subsection \<open>Splitting a script\<close>

definition single_quote :: char where
  "single_quote = CHR 0x27"

text \<open>\<open>prev\<close> is the character before, \<open>current\<close> the statement read so far.\<close>

fun split_from :: "char option \<Rightarrow> bool \<Rightarrow> string \<Rightarrow> string \<Rightarrow> string list" where
  "split_from prev in_string current [] = (if current = [] then [] else [current])"
| "split_from prev in_string current (c # s) =
     (let in_string' = (if c = single_quote \<and> prev \<noteq> Some backslash then \<not> in_string else in_string) in
      if c = CHR '';'' \<and> \<not> in_string' then (current @ [c]) # split_from (Some c) in_string' [] s
      else split_from (Some c) in_string' (current @ [c]) s)"

definition split_sql_statements :: "string \<Rightarrow> string list" where
  "split_sql_statements sql_text = split_from None False [] sql_text"

text \<open>A statement without the comment lines at its start; \<open>None\<close> when nothing is left.\<close>

definition line_feed :: char where
  "line_feed = CHR 0x0A"

definition sql_of_statement :: "string \<Rightarrow> string option" where
  "sql_of_statement stmt =
     (if strip stmt = [] then None
      else let sql = strip (join [line_feed]
                 (dropWhile (\<lambda>l. starts_with ''--'' (strip l)) (split_on line_feed (strip stmt))))
           in if sql = [] then None else Some sql)"

definition script_statements :: "dialect \<Rightarrow> string \<Rightarrow> string list" where
  "script_statements dl sql_text =
     (case dl of
        Sqlite \<Rightarrow> List.map_filter sql_of_statement (split_sql_statements sql_text)
      | Postgresql \<Rightarrow> [sql_text])"

subsection \<open>Running the files\<close>

text \<open>A directory is a list of file names with contents; \<open>None\<close> when it does not exist.\<close>

definition get_migration_files :: "(string \<times> string) list option \<Rightarrow> (string \<times> string) list" where
  "get_migration_files dir =
     (case dir of
        None \<Rightarrow> []
      | Some fs \<Rightarrow> sort_key fst (filter (\<lambda>f. starts_with (rev ''.sql'') (rev (fst f))) fs))"

fun run_all :: "('s \<Rightarrow> string \<Rightarrow> ep_error + 's) \<Rightarrow> 's \<Rightarrow> string list \<Rightarrow> ep_error + 's" where
  "run_all exec st [] = Inr st"
| "run_all exec st (q # qs) = bindE (exec st q) (\<lambda>st. run_all exec st qs)"

fun run_files ::
  "('s \<Rightarrow> string \<Rightarrow> ep_error + 's) \<Rightarrow> dialect \<Rightarrow> 's \<Rightarrow> (string \<times> string) list \<Rightarrow> ep_error + 's \<times> string list" where
  "run_files exec dl st [] = Inr (st, [])"
| "run_files exec dl st ((name, sql_text) # fs) =
     (case run_all exec st (script_statements dl sql_text) of
        Inl _ \<Rightarrow> Inl MigrationError
      | Inr st \<Rightarrow> bindE (run_files exec dl st fs) (\<lambda>(st, names). Inr (st, name # names)))"

definition run_migrations ::
  "('s \<Rightarrow> string \<Rightarrow> ep_error + 's) \<Rightarrow> dialect \<Rightarrow> 's \<Rightarrow> (string \<times> string) list option \<Rightarrow> ep_error + 's \<times> string list" where
  "run_migrations exec dl st dir =
     bindE (requireE (get_migration_files dir \<noteq> []) MigrationError) (\<lambda>_.
       run_files exec dl st (get_migration_files dir))"

subsection \<open>Splitting loses nothing\<close>

lemma split_from_concat: "concat (split_from prev in_string current s) = current @ s"
  by (induction s arbitrary: prev in_string current) (simp_all add: Let_def)

lemma split_sql_concat: "concat (split_sql_statements s) = s"
  by (simp add: split_sql_statements_def split_from_concat)

lemma split_from_pieces:
  "p \<in> set (butlast (split_from prev in_string current s)) \<Longrightarrow> last p = CHR '';''"
proof (induction s arbitrary: prev in_string current)
  case (Cons c s)
  then show ?case
    by (cases "c = CHR '';'' \<and> \<not> (if c = single_quote \<and> prev \<noteq> Some backslash then \<not> in_string else in_string)")
      (auto simp: Let_def simp del: append.simps split: if_splits)
qed (simp split: if_splits)

text \<open>Every piece but the last ends with a semicolon.\<close>

lemma split_sql_pieces: "p \<in> set (butlast (split_sql_statements s)) \<Longrightarrow> last p = CHR '';''"
  using split_from_pieces by (auto simp: split_sql_statements_def)

subsection \<open>The order of execution\<close>

lemma run_all_append:
  "run_all exec st (qs @ rs) = bindE (run_all exec st qs) (\<lambda>st. run_all exec st rs)"
  by (induction qs arbitrary: st) (auto simp: bindE_def split: sum.splits)

lemma run_files_all:
  assumes "run_files exec dl st fs = Inr (st', names)"
  shows "run_all exec st (concat (map (script_statements dl \<circ> snd) fs)) = Inr st' \<and> names = map fst fs"
  using assms
proof (induction fs arbitrary: st names)
  case (Cons f fs)
  obtain name s where f: "f = (name, s)" by (cases f)
  with Cons.prems obtain st1 rest where 1: "run_all exec st (script_statements dl s) = Inr st1"
    and "run_files exec dl st1 fs = Inr (st', rest)" and "names = name # rest"
    by (auto split: sum.splits)
  with Cons.IH f show ?case by (simp add: run_all_append)
qed simp

text \<open>
  Migrations that succeed have run the statements of all files, in the order of the file names, each once; any
  failure is a \<open>MigrationError\<close>.
\<close>

lemma migrations_run_in_order:
  assumes "run_migrations exec dl st dir = Inr (st', names)"
  shows "names = map fst (get_migration_files dir) \<and> sorted names
    \<and> run_all exec st (concat (map (script_statements dl \<circ> snd) (get_migration_files dir))) = Inr st'"
  using assms run_files_all [of exec dl st "get_migration_files dir" st' names]
  by (auto simp: run_migrations_def get_migration_files_def split: option.split)

lemma run_files_error: "run_files exec dl st fs = Inl err \<Longrightarrow> err = MigrationError"
  by (induction fs arbitrary: st) (auto simp: bindE_eq_Inl split: sum.splits)

lemma migrations_error: "run_migrations exec dl st dir = Inl err \<Longrightarrow> err = MigrationError"
  by (auto simp: run_migrations_def bindE_eq_Inl dest: run_files_error)

text \<open>A semicolon or an apostrophe in a comment is not skipped: the splitter breaks such a script.\<close>

lemma semicolon_in_comment_splits:
  "split_sql_statements (''SELECT 1 -- a;b'' @ [line_feed] @ '';'') =
     [''SELECT 1 -- a;'', ''b'' @ [line_feed] @ '';'']"
  by code_simp

lemma apostrophe_in_comment_joins:
  "split_sql_statements (''-- don'' @ [single_quote] @ ''t'' @ [line_feed] @ ''A;B;'') =
     [''-- don'' @ [single_quote] @ ''t'' @ [line_feed] @ ''A;B;'']"
  by code_simp

subsection \<open>The engine of a SQLite file\<close>

definition create_sqlite_engine :: "string \<Rightarrow> dialect \<times> string" where
  "create_sqlite_engine db_path =
     (Sqlite, if db_path = '':memory:'' then ''sqlite://'' else ''sqlite:///'' @ db_path)"

lemma create_sqlite_engine_agrees: "create_engine (snd (create_sqlite_engine path)) = Inr (create_sqlite_engine path)"
  by (simp add: create_engine_def create_sqlite_engine_def)

subsection \<open>Transactions\<close>

text \<open>
  A connection: the state that its statements see, the state that a rollback restores, whether SQLAlchemy
  counts a transaction as begun (\<open>in_transaction\<close>; any statement begins one), whether it is serializable,
  and the advisory locks that it holds until its end.
\<close>

record 's conn =
  cn_state :: 's
  cn_start :: 's
  cn_begun :: bool
  cn_serializable :: bool
  cn_locks :: "int list"

definition conn_begin :: "'s conn \<Rightarrow> 's conn" where
  "conn_begin c = c\<lparr>cn_start := cn_state c, cn_begun := True\<rparr>"

definition conn_commit :: "'s conn \<Rightarrow> 's conn" where
  "conn_commit c = c\<lparr>cn_start := cn_state c, cn_begun := False, cn_serializable := False, cn_locks := []\<rparr>"

definition conn_rollback :: "'s conn \<Rightarrow> 's conn" where
  "conn_rollback c = c\<lparr>cn_state := cn_start c, cn_begun := False, cn_serializable := False, cn_locks := []\<rparr>"

definition finish ::
  "('s conn \<Rightarrow> 's conn) \<Rightarrow> ('s conn \<Rightarrow> 's conn) \<Rightarrow> 's conn \<times> (ep_error + 'a) \<Rightarrow> 's conn \<times> (ep_error + 'a)" where
  "finish success failure r = (case snd r of Inl _ \<Rightarrow> failure (fst r) | Inr _ \<Rightarrow> success (fst r), snd r)"

definition transaction ::
  "('s conn \<Rightarrow> 's conn \<times> (ep_error + 'a)) \<Rightarrow> 's conn \<Rightarrow> 's conn \<times> (ep_error + 'a)" where
  "transaction body c =
     (if cn_begun c then (c, Inl TransactionOwnershipError)
      else finish conn_commit conn_rollback (body (conn_begin c)))"

definition serializable_transaction ::
  "dialect \<Rightarrow> ('s conn \<Rightarrow> 's conn \<times> (ep_error + 'a)) \<Rightarrow> 's conn \<Rightarrow> 's conn \<times> (ep_error + 'a)" where
  "serializable_transaction dl body c =
     (if cn_begun c then (c, Inl TransactionOwnershipError)
      else finish conn_commit conn_rollback (body ((conn_begin c)\<lparr>cn_serializable := (dl \<noteq> Sqlite)\<rparr>)))"

text \<open>\<open>int(lock_key)\<close>, inside of the \<open>try\<close>.\<close>

definition with_lock ::
  "int + string \<Rightarrow> ('s conn \<Rightarrow> 's conn \<times> (ep_error + 'a)) \<Rightarrow> 's conn \<Rightarrow> 's conn \<times> (ep_error + 'a)" where
  "with_lock key body c =
     (case (case key of Inl i \<Rightarrow> Inr i | Inr s \<Rightarrow> py_int s) of
        Inl err \<Rightarrow> (c, Inl err)
      | Inr i \<Rightarrow> body (c\<lparr>cn_locks := i # cn_locks c\<rparr>))"

text \<open>
  Inside of a transaction a savepoint is used. Otherwise, on SQLite, the statements \<open>BEGIN IMMEDIATE\<close> and
  \<open>COMMIT\<close> or \<open>ROLLBACK\<close> are sent as texts, and SQLAlchemy goes on counting the transaction that it
  began for the first of them.
\<close>

definition locked_transaction ::
  "dialect \<Rightarrow> int + string \<Rightarrow> ('s conn \<Rightarrow> 's conn \<times> (ep_error + 'a)) \<Rightarrow> 's conn \<Rightarrow> 's conn \<times> (ep_error + 'a)" where
  "locked_transaction dl key body c =
     (if cn_begun c then
        finish (\<lambda>c'. c') (\<lambda>c'. c'\<lparr>cn_state := cn_state c, cn_locks := cn_locks c\<rparr>)
          (if dl = Sqlite then body c else with_lock key body c)
      else if dl = Sqlite then
        finish (\<lambda>c'. c'\<lparr>cn_start := cn_state c'\<rparr>) (\<lambda>c'. c'\<lparr>cn_state := cn_start c'\<rparr>) (body (conn_begin c))
      else finish conn_commit conn_rollback (with_lock key body (conn_begin c)))"

text \<open>A body that leaves the bookkeeping of the transaction alone, as one that only executes statements.\<close>

definition statements_only :: "('s conn \<Rightarrow> 's conn \<times> (ep_error + 'a)) \<Rightarrow> bool" where
  "statements_only body \<longleftrightarrow> (\<forall>c. cn_start (fst (body c)) = cn_start c \<and> cn_begun (fst (body c)) = cn_begun c)"

lemma statements_onlyD:
  "statements_only body \<Longrightarrow> body c = (c', r) \<Longrightarrow> cn_start c' = cn_start c \<and> cn_begun c' = cn_begun c"
  by (metis fst_conv statements_only_def)

lemma conn_simps [simp]:
  "cn_state (conn_begin c) = cn_state c" "cn_start (conn_begin c) = cn_state c" "cn_begun (conn_begin c)"
  "cn_state (conn_commit c) = cn_state c" "cn_start (conn_commit c) = cn_state c" "\<not> cn_begun (conn_commit c)"
  "cn_state (conn_rollback c) = cn_start c" "\<not> cn_begun (conn_rollback c)"
  by (simp_all add: conn_begin_def conn_commit_def conn_rollback_def)

lemma finish_pair:
  "finish success failure (c, Inl err) = (failure c, Inl err)" "finish success failure (c, Inr x) = (success c, Inr x)"
  by (simp_all add: finish_def)

lemma statements_only_lock:
  assumes "statements_only body"
  shows "statements_only (with_lock key body)"
  unfolding statements_only_def
proof
  fix c :: "'a conn"
  obtain k where k: "(case key of Inl i \<Rightarrow> Inr i | Inr s \<Rightarrow> py_int s) = k" by blast
  show "cn_start (fst (with_lock key body c)) = cn_start c \<and> cn_begun (fst (with_lock key body c)) = cn_begun c"
  proof (cases k)
    case (Inl err)
    then show ?thesis using k by (simp add: with_lock_def)
  next
    case (Inr i)
    then have "with_lock key body c = body (c\<lparr>cn_locks := i # cn_locks c\<rparr>)" using k by (simp add: with_lock_def)
    then show ?thesis
      using statements_onlyD [OF assms, of "c\<lparr>cn_locks := i # cn_locks c\<rparr>"]
      by (cases "body (c\<lparr>cn_locks := i # cn_locks c\<rparr>)") simp
  qed
qed

text \<open>
  All or nothing: an exception leaves the state as it was, a pending transaction is never committed by somebody
  else, and after success the state is the one that the body left. This is why the operations of the
  model return \<open>Inl\<close> without a database.
\<close>

lemma transaction_atomic:
  assumes "statements_only body" and "transaction body c = (c', r)"
  shows "(\<forall>err. r = Inl err \<longrightarrow> cn_state c' = cn_state c)
    \<and> (cn_begun c \<longrightarrow> c' = c \<and> r = Inl TransactionOwnershipError)
    \<and> (\<forall>x. r = Inr x \<longrightarrow> cn_state c' = cn_state (fst (body (conn_begin c))) \<and> cn_start c' = cn_state c')
    \<and> (\<not> cn_begun c \<longrightarrow> \<not> cn_begun c')"
proof -
  obtain c1 r1 where b: "body (conn_begin c) = (c1, r1)" by fastforce
  show ?thesis using assms(2) statements_onlyD [OF assms(1) b] b
    by (cases "cn_begun c"; cases r1) (auto simp: transaction_def finish_pair)
qed

lemma serializable_atomic:
  assumes "statements_only body" and "serializable_transaction dl body c = (c', Inl err)"
  shows "cn_state c' = cn_state c"
proof -
  obtain c1 r1 where b: "body ((conn_begin c)\<lparr>cn_serializable := (dl \<noteq> Sqlite)\<rparr>) = (c1, r1)" by fastforce
  show ?thesis using assms(2) statements_onlyD [OF assms(1) b] b
    by (cases "cn_begun c"; cases r1) (auto simp: serializable_transaction_def finish_pair)
qed

text \<open>A nested transaction that raises undoes its own statements only and leaves the outer one pending.\<close>

lemma nested_atomic:
  assumes "statements_only body" and "cn_begun c" and "locked_transaction dl key body c = (c', r)"
  shows "cn_begun c' \<and> cn_start c' = cn_start c \<and> (\<forall>err. r = Inl err \<longrightarrow> cn_state c' = cn_state c \<and> cn_locks c' = cn_locks c)"
proof -
  let ?b = "if dl = Sqlite then body else with_lock key body"
  obtain c1 r1 where b: "?b c = (c1, r1)" by fastforce
  have "statements_only ?b" using assms(1) statements_only_lock [OF assms(1)] by simp
  from statements_onlyD [OF this b] assms(2,3) b show ?thesis
    by (cases "dl = Sqlite"; cases r1) (auto simp: locked_transaction_def finish_pair)
qed

text \<open>On SQLite the connection counts as in a transaction afterwards: the next \<open>transaction\<close> on it is refused.\<close>

lemma sqlite_lock_leaves_transaction:
  assumes "statements_only body"
  shows "transaction then_body (fst (locked_transaction Sqlite key body c))
    = (fst (locked_transaction Sqlite key body c), Inl TransactionOwnershipError)"
proof -
  obtain c1 r1 where b: "body (conn_begin c) = (c1, r1)" by fastforce
  obtain c2 r2 where b2: "body c = (c2, r2)" by fastforce
  show ?thesis using statements_onlyD [OF assms b] statements_onlyD [OF assms b2] b b2
    by (cases "cn_begun c"; cases r1; cases r2) (auto simp: locked_transaction_def transaction_def finish_pair)
qed

end
