(* ===== verification/Key_Files.thy ===== *)
theory Key_Files
  imports Deployment
begin

section \<open>Signing key files and file ownership\<close>

text \<open>
  \<open>KeyManager\<close> (authorizations.py) with the raw 32 bytes of a key standing for it, the encrypted key files of
  key_crypto.py, the choice of the key by the MCP server, and \<open>verify_file_ownership\<close> (deployment.py). A file system
  maps paths to contents and modes; openssl and the answers of the operating system are arguments. A failing call of
  the operating system is \<open>OtherException\<close>.
\<close>

type_synonym files = "string \<Rightarrow> (string \<times> int) option"

subsection \<open>KeyManager\<close>

definition private_mode :: int where
  "private_mode = 384"

text \<open>\<open>os.open\<close> with \<open>O_CREAT\<close> gives the mode to a new file only; an existing file keeps its own.\<close>

definition save_private_key :: "(string \<Rightarrow> bool) \<Rightarrow> files \<Rightarrow> string \<Rightarrow> string \<Rightarrow> ep_error + files" where
  "save_private_key writable fs key path =
     bindE (requireE (writable path) OtherException) (\<lambda>_.
       Inr (fs(path \<mapsto> (key, case fs path of None \<Rightarrow> private_mode | Some f \<Rightarrow> snd f))))"

definition from_private_key :: "string \<Rightarrow> ep_error + string" where
  "from_private_key raw = bindE (requireE (length raw = 32) TokenInvalidError) (\<lambda>_. Inr raw)"

definition load_private_key :: "files \<Rightarrow> string \<Rightarrow> ep_error + string" where
  "load_private_key fs path = bindE (someE OtherException (fs path)) (\<lambda>f. from_private_key (fst f))"

subsection \<open>Encrypted key files\<close>

text \<open>\<open>enc\<close> and \<open>dec\<close> are openssl with a passphrase: \<open>None\<close> when it fails.\<close>

definition encrypt_key_file ::
  "(string \<Rightarrow> string \<Rightarrow> string option) \<Rightarrow> files \<Rightarrow> string \<Rightarrow> string \<Rightarrow> string \<Rightarrow> ep_error + files" where
  "encrypt_key_file enc fs input_path output_path passphrase =
     (case fs input_path of
        None \<Rightarrow> Inl RuntimeError
      | Some f \<Rightarrow>
          (case enc passphrase (fst f) of
             None \<Rightarrow> Inl RuntimeError
           | Some bytes \<Rightarrow> Inr (fs(output_path \<mapsto> (bytes, private_mode)))))"

definition decrypt_key_file :: "(string \<Rightarrow> string \<Rightarrow> string option) \<Rightarrow> files \<Rightarrow> string \<Rightarrow> string \<Rightarrow> ep_error + string" where
  "decrypt_key_file dec fs input_path passphrase =
     (case fs input_path of None \<Rightarrow> Inl RuntimeError | Some f \<Rightarrow> someE RuntimeError (dec passphrase (fst f)))"

text \<open>The key goes through the temporary file \<open>temp\<close>, which is overwritten and removed also when loading raises.\<close>

definition load_decrypted_key_manager ::
  "(string \<Rightarrow> string \<Rightarrow> string option) \<Rightarrow> string \<Rightarrow> files \<Rightarrow> string \<Rightarrow> string \<Rightarrow> files \<times> (ep_error + string)" where
  "load_decrypted_key_manager dec temp fs path passphrase =
     (case decrypt_key_file dec fs path passphrase of
        Inl err \<Rightarrow> (fs, Inl err)
      | Inr key_bytes \<Rightarrow>
          (let fs1 = fs(temp \<mapsto> (key_bytes, private_mode));
               r = load_private_key fs1 temp;
               fs2 = fs1(temp \<mapsto> (replicate (length key_bytes) (char_of (0::nat)), private_mode))
           in (fs2(temp := None), r)))"

definition ends_with :: "string \<Rightarrow> string \<Rightarrow> bool" where
  "ends_with suf s \<longleftrightarrow> length suf \<le> length s \<and> drop (length s - length suf) s = suf"

definition resolve_signing_key ::
  "(string \<Rightarrow> string \<Rightarrow> string option) \<Rightarrow> string \<Rightarrow> string \<Rightarrow> files \<Rightarrow> string \<Rightarrow> string option \<Rightarrow> files \<times> (ep_error + string)" where
  "resolve_signing_key dec temp env_passphrase fs path passphrase =
     (if ends_with ''.enc'' path then
        (let p = (case passphrase of None \<Rightarrow> env_passphrase | Some x \<Rightarrow> x) in
         if p = [] then (fs, Inl RuntimeError) else load_decrypted_key_manager dec temp fs path p)
      else (fs, load_private_key fs path))"

text \<open>\<open>s.replace(".enc", "")\<close> removes every occurrence.\<close>

fun remove_enc :: "string \<Rightarrow> string" where
  "remove_enc [] = []"
| "remove_enc (c # s) = (if starts_with ''.enc'' (c # s) then remove_enc (drop 3 s) else c # remove_enc s)"

text \<open>The key with which \<open>ep_execute\<close> signs; \<open>fresh\<close> is the key that \<open>KeyManager()\<close> generates.\<close>

definition server_key ::
  "(string \<Rightarrow> string \<Rightarrow> string option) \<Rightarrow> string \<Rightarrow> string \<Rightarrow> string \<Rightarrow> files \<Rightarrow> string \<Rightarrow> files \<times> (ep_error + string)" where
  "server_key dec temp env_passphrase fresh fs key_file =
     (if key_file \<noteq> [] \<and> fs key_file \<noteq> None then
        (case resolve_signing_key dec temp env_passphrase fs key_file None of
           (fs', Inl RuntimeError) \<Rightarrow> (fs', load_private_key fs' (remove_enc key_file))
         | r \<Rightarrow> r)
      else (fs, Inr fresh))"

subsection \<open>Properties of key files\<close>

lemma save_load_key:
  assumes "length key = 32" and "save_private_key writable fs key path = Inr fs'"
  shows "load_private_key fs' path = Inr key \<and> (\<forall>p. p \<noteq> path \<longrightarrow> fs' p = fs p)"
  using assms by (auto simp: save_private_key_def load_private_key_def from_private_key_def)

text \<open>Whatever happens, no decrypted key stays behind, and no other file changes.\<close>

lemma no_key_left_behind:
  assumes "fs temp = None"
  shows "fst (resolve_signing_key dec temp env_passphrase fs path passphrase) = fs"
    and "fst (server_key dec temp env_passphrase fresh fs key_file) = fs"
proof -
  have r: "fst (resolve_signing_key dec temp env_passphrase fs path passphrase) = fs" for path passphrase
    using assms
    by (auto simp: resolve_signing_key_def load_decrypted_key_manager_def Let_def fun_upd_idem split: sum.split)
  then show "fst (resolve_signing_key dec temp env_passphrase fs path passphrase) = fs" .
  show "fst (server_key dec temp env_passphrase fresh fs key_file) = fs"
    using r [of key_file None]
    by (cases "resolve_signing_key dec temp env_passphrase fs key_file None")
      (auto simp: server_key_def split: sum.split ep_error.split)
qed

text \<open>A key that was encrypted with the passphrase of the environment is the one that the server signs with.\<close>

lemma encrypted_key_is_used:
  assumes key: "load_private_key fs path = Inr key" and e: "encrypt_key_file enc fs path (out @ ''.enc'') p = Inr fs'"
    and inv: "\<And>b c. enc p b = Some c \<Longrightarrow> dec p c = Some b" and p: "p \<noteq> []"
  shows "snd (server_key dec temp p fresh fs' (out @ ''.enc'')) = Inr key"
proof -
  obtain m where f: "fs path = Some (key, m)" and n: "length key = 32"
    using key by (auto simp: load_private_key_def from_private_key_def)
  obtain c where c: "enc p key = Some c" and fs': "fs' = fs(out @ ''.enc'' \<mapsto> (c, private_mode))"
    using e f by (auto simp: encrypt_key_file_def split: option.splits)
  have x: "ends_with ''.enc'' (out @ ''.enc'')" by (simp add: ends_with_def)
  have "snd (resolve_signing_key dec temp p fs' (out @ ''.enc'') None) = Inr key"
    using x p inv [OF c] n fs'
    by (simp add: resolve_signing_key_def load_decrypted_key_manager_def decrypt_key_file_def load_private_key_def
        from_private_key_def Let_def del: append.simps)
  then show ?thesis using fs'
    by (cases "resolve_signing_key dec temp p fs' (out @ ''.enc'') None") (simp add: server_key_def)
qed

text \<open>
  What the choice does not do: it does not stop without a key file, and without or with a wrong
  passphrase it takes the plain file beside the encrypted one.
\<close>

lemma missing_key_file_gives_ephemeral_key:
  "fs key_file = None \<Longrightarrow> server_key dec temp env_passphrase fresh fs key_file = (fs, Inr fresh)"
  by (simp add: server_key_def)

lemma wrong_passphrase_takes_plain_key:
  assumes "ends_with ''.enc'' key_file" and "fs key_file = Some f" and "dec p (fst f) = None"
  shows "server_key dec temp p fresh fs key_file = (fs, load_private_key fs (remove_enc key_file))"
  using assms
  by (auto simp: server_key_def resolve_signing_key_def load_decrypted_key_manager_def decrypt_key_file_def ends_with_def Let_def)

lemma saved_key_keeps_open_mode:
  assumes "fs path = Some (old, 420)" and "writable path"
  shows "save_private_key writable fs key path = Inr (fs(path \<mapsto> (key, 420)))"
  using assms by (simp add: save_private_key_def)

end
