(* ===== verification/Embeddings.thy ===== *)
theory Embeddings
  imports Config "HOL-Library.Multiset"
begin

section \<open>Semantic assistance (embeddings.py)\<close>

text \<open>
  Suggestions by similarity of embedding vectors, for reading only. Vectors are rationals; the provider
  of embeddings, the square sqroot of floats (\<open>x ** 0.5\<close>), the text of a float and \<open>json.dumps\<close> of an event are arguments.
  Entries are dictionaries whose text fields are texts.
\<close>

type_synonym item = "(string \<times> json) list"

record provider =
  pv_embed :: "string \<Rightarrow> rat list"
  pv_model_name :: string
  pv_dimension :: nat

definition none_provider :: provider where
  "none_provider = \<lparr> pv_embed = (\<lambda>_. []), pv_model_name = ''none'', pv_dimension = 0 \<rparr>"

definition embed_batch :: "provider \<Rightarrow> string list \<Rightarrow> rat list list" where
  "embed_batch p texts = map (pv_embed p) texts"

text \<open>\<open>ollama model host\<close> is the answer of the local service, the empty vector when the request fails.\<close>

definition ollama_provider :: "(string \<Rightarrow> string \<Rightarrow> string \<Rightarrow> rat list) \<Rightarrow> string \<Rightarrow> string \<Rightarrow> provider" where
  "ollama_provider ollama model host = \<lparr> pv_embed = ollama model host, pv_model_name = model, pv_dimension = 1024 \<rparr>"

definition get_embedding_provider :: "(string \<Rightarrow> string \<Rightarrow> string \<Rightarrow> rat list) \<Rightarrow> config \<Rightarrow> provider" where
  "get_embedding_provider ollama cfg =
     (if cf_embedding_provider cfg = ''none'' then none_provider
      else if cf_embedding_provider cfg = ''ollama'' then
        ollama_provider ollama (if cf_embedding_model cfg = [] then ''bge-m3'' else cf_embedding_model cfg)
          (if cf_embedding_host cfg = [] then ''localhost:11434'' else cf_embedding_host cfg)
      else none_provider)"

definition cosine_similarity :: "(rat \<Rightarrow> rat) \<Rightarrow> rat list \<Rightarrow> rat list \<Rightarrow> rat" where
  "cosine_similarity sqroot a b =
     (if a = [] \<or> b = [] \<or> length a \<noteq> length b then 0
      else let dot = sum_list (map2 (*) a b);
               norm_a = sqroot (sum_list (map (\<lambda>x. x * x) a));
               norm_b = sqroot (sum_list (map (\<lambda>y. y * y) b))
           in if norm_a = 0 \<or> norm_b = 0 then 0 else dot / (norm_a * norm_b))"

text \<open>\<open>xs[:k]\<close>; a negative \<open>k\<close> counts from the end.\<close>

definition slice_to :: "int \<Rightarrow> 'a list \<Rightarrow> 'a list" where
  "slice_to k xs = (if 0 \<le> k then take (nat k) xs else take (length xs - nat (- k)) xs)"

definition text_of_field :: "item \<Rightarrow> string \<Rightarrow> string" where
  "text_of_field it k = (case map_of it k of Some (JStr s) \<Rightarrow> s | _ \<Rightarrow> [])"

text \<open>Sorting with \<open>reverse=True\<close> keeps the order of entries with the same score.\<close>

definition ranked :: "int \<Rightarrow> (rat \<times> item) list \<Rightarrow> item list" where
  "ranked top_k scored = map snd (slice_to top_k (sort_key (\<lambda>p. - fst p) scored))"

definition with_score :: "(rat \<Rightarrow> string) \<Rightarrow> rat \<Rightarrow> item \<Rightarrow> rat \<times> item" where
  "with_score show_float score it = (score, dict_put ''similarity_score'' (JFloat (show_float score)) it)"

text \<open>
  The common part of the three searches: nothing without entries, with the provider \<open>none\<close>, or when the query has no vector;
  otherwise the entries that reach the threshold, if there is one.
\<close>

definition search ::
  "(rat \<Rightarrow> rat) \<Rightarrow> (rat \<Rightarrow> string) \<Rightarrow> provider \<Rightarrow> (item \<Rightarrow> string) \<Rightarrow> string \<Rightarrow> item list \<Rightarrow> rat option \<Rightarrow> int \<Rightarrow> item list" where
  "search sqroot show_float p describe query entries threshold top_k =
     (if entries = [] \<or> pv_model_name p = ''none'' then []
      else let q = pv_embed p query in
        if q = [] then []
        else ranked top_k
          (filter (\<lambda>s. case threshold of None \<Rightarrow> True | Some th \<Rightarrow> th \<le> fst s)
             (map (\<lambda>it. with_score show_float (cosine_similarity sqroot q (pv_embed p (describe it))) it) entries)))"

definition suggest_policy_templates ::
  "(rat \<Rightarrow> rat) \<Rightarrow> (rat \<Rightarrow> string) \<Rightarrow> provider \<Rightarrow> string \<Rightarrow> item list option \<Rightarrow> int \<Rightarrow> item list" where
  "suggest_policy_templates sqroot show_float p natural_language known_templates top_k =
     search sqroot show_float p (\<lambda>it. text_of_field it ''description'') natural_language
       (case known_templates of None \<Rightarrow> [] | Some ts \<Rightarrow> ts) None top_k"

definition find_related_policies ::
  "(rat \<Rightarrow> rat) \<Rightarrow> (rat \<Rightarrow> string) \<Rightarrow> provider \<Rightarrow> string \<Rightarrow> item list \<Rightarrow> rat \<Rightarrow> int \<Rightarrow> item list" where
  "find_related_policies sqroot show_float p action_description pols threshold top_k =
     search sqroot show_float p (\<lambda>it. text_of_field it ''description'') action_description pols (Some threshold) top_k"

definition event_text :: "(json \<Rightarrow> string) \<Rightarrow> item \<Rightarrow> string" where
  "event_text dumps_default it =
     text_of_field it ''event_type''
     @ (case map_of it ''event_data'' of
          None \<Rightarrow> '' '' @ dumps_default (JObj [])
        | Some (JObj kvs) \<Rightarrow> '' '' @ dumps_default (JObj kvs)
        | Some _ \<Rightarrow> [])"

definition semantic_audit_search ::
  "(json \<Rightarrow> string) \<Rightarrow> (rat \<Rightarrow> rat) \<Rightarrow> (rat \<Rightarrow> string) \<Rightarrow> provider \<Rightarrow> string \<Rightarrow> item list \<Rightarrow> rat \<Rightarrow> int \<Rightarrow> item list" where
  "semantic_audit_search dumps_default sqroot show_float p query audit_events threshold top_k =
     search sqroot show_float p (event_text dumps_default) query audit_events (Some threshold) top_k"

subsection \<open>What a search returns\<close>

lemma slice_to_set: "set (slice_to k xs) \<subseteq> set xs"
  by (auto simp: slice_to_def dest: in_set_takeD)

lemma slice_to_take: "\<exists>n. slice_to k xs = take n xs"
  by (auto simp: slice_to_def)

lemma slice_to_length: "0 \<le> k \<Longrightarrow> int (length (slice_to k xs)) \<le> k"
  by (simp add: slice_to_def)

text \<open>Every result is one of the given entries with its score added.\<close>

lemma search_finds_entries:
  assumes "r \<in> set (search sqroot show_float p describe query entries threshold top_k)"
  shows "\<exists>it \<in> set entries. \<exists>score. r = dict_put ''similarity_score'' (JFloat (show_float score)) it
    \<and> (\<forall>th. threshold = Some th \<longrightarrow> th \<le> score)"
  using assms slice_to_set
  by (fastforce simp: search_def ranked_def with_score_def Let_def split: if_splits option.splits)

lemma search_length: "0 \<le> top_k \<Longrightarrow> int (length (search sqroot show_float p describe query entries threshold top_k)) \<le> top_k"
  by (simp add: search_def ranked_def slice_to_length Let_def)

text \<open>Nothing better is left out: a scored entry that is not returned scores at most as much as every returned one.\<close>

lemma ranked_best:
  fixes scored :: "(rat \<times> item) list"
  assumes "slice_to k (sort_key (\<lambda>p. - fst p) scored) = best"
  shows "\<exists>rest. mset scored = mset (best @ rest) \<and> (\<forall>x \<in> set best. \<forall>y \<in> set rest. fst y \<le> fst x)"
proof -
  let ?s = "sort_key (\<lambda>p. - fst p) scored"
  obtain n where n: "best = take n ?s" using slice_to_take [of k ?s] assms by auto
  have "sorted (map (\<lambda>p. - fst p) (take n ?s @ drop n ?s))" by simp
  then have "\<forall>x \<in> set (take n ?s). \<forall>y \<in> set (drop n ?s). - fst x \<le> - fst y"
    unfolding map_append sorted_append by simp
  then have "\<forall>x \<in> set best. \<forall>y \<in> set (drop n ?s). fst y \<le> fst x"
    unfolding n by (simp only: neg_le_iff_le)
  moreover have "mset scored = mset (best @ drop n ?s)" unfolding n by simp
  ultimately show ?thesis by blast
qed

text \<open>Without a provider nothing is suggested, whatever else is given.\<close>

lemma none_provider_silent:
  assumes "cf_embedding_provider cfg \<noteq> ''ollama''"
  shows "search sqroot show_float (get_embedding_provider ollama cfg) describe query entries threshold top_k = []"
  using assms by (simp add: search_def get_embedding_provider_def none_provider_def)

text \<open>Vectors without direction or of different length are not similar to anything.\<close>

lemma cosine_zero:
  assumes "sqroot 0 = 0" and "\<forall>x \<in> set a. x = 0"
  shows "cosine_similarity sqroot a b = 0"
proof -
  have "sum_list (map (\<lambda>x. x * x) a) = 0" using assms(2) by (induction a) auto
  then show ?thesis using assms(1) by (simp add: cosine_similarity_def Let_def)
qed

end
